(* ===== verification/Rust_Prelude.thy ===== *)
theory Rust_Prelude
  imports Main "HOL-Library.Word" "HOL-Library.List_Lexorder"
begin

text \<open>
  What every component of the development shares: the Rust vocabulary the sources are written in.
  A fallible call \<open>Result<T, E>\<close> is a value of \<open>'e + 'a\<close> with the error on the left; the \<open>?\<close> operator
  is \<open>and_then\<close>; a \<open>for\<close> loop with \<open>?\<close> in its body is \<open>try_fold\<close> or \<open>try_for_each\<close>. Machine integers
  keep their width: \<open>u8\<close>, \<open>u16\<close>, \<open>u32\<close> and \<open>u64\<close> are words. A \<open>usize\<close> is a \<open>nat\<close> whose 64-bit bound is
  written out wherever the code checks it (\<open>checked_add\<close>, \<open>try_from\<close>); lengths of slices are
  such numbers. The collections \<open>res_simps\<close> and \<open>wire_simps\<close> gather the rewrite rules the component
  proofs share.
\<close>

named_theorems res_simps \<open>Inversion rules for result-valued code\<close>
named_theorems wire_simps \<open>Forward rules for readers of wire formats\<close>
named_theorems wire_lengths \<open>Lengths of encodings\<close>

type_synonym u8 = "8 word"
type_synonym u16 = "16 word"
type_synonym u32 = "32 word"
type_synonym u64 = "64 word"
type_synonym bytes = "u8 list"

section \<open>Results\<close>

definition and_then :: "'e + 'a \<Rightarrow> ('a \<Rightarrow> 'e + 'b) \<Rightarrow> 'e + 'b" where
  "and_then r f = (case r of Inl e \<Rightarrow> Inl e | Inr x \<Rightarrow> f x)"

definition map_err :: "('e \<Rightarrow> 'f) \<Rightarrow> 'e + 'a \<Rightarrow> 'f + 'a" where
  "map_err h r = (case r of Inl e \<Rightarrow> Inl (h e) | Inr x \<Rightarrow> Inr x)"

definition ok_or :: "'e \<Rightarrow> 'a option \<Rightarrow> 'e + 'a" where
  "ok_or e x = (case x of None \<Rightarrow> Inl e | Some y \<Rightarrow> Inr y)"

definition result_ok :: "'e + 'a \<Rightarrow> 'a option" where
  "result_ok r = (case r of Inl _ \<Rightarrow> None | Inr x \<Rightarrow> Some x)"

definition is_ok :: "'e + 'a \<Rightarrow> bool" where
  "is_ok r = (case r of Inl _ \<Rightarrow> False | Inr _ \<Rightarrow> True)"

primrec try_fold :: "('s \<Rightarrow> 'a \<Rightarrow> 'e + 's) \<Rightarrow> 's \<Rightarrow> 'a list \<Rightarrow> 'e + 's" where
  "try_fold f s [] = Inr s"
| "try_fold f s (x # xs) = and_then (f s x) (\<lambda>s'. try_fold f s' xs)"

primrec try_for_each :: "('a \<Rightarrow> 'e + unit) \<Rightarrow> 'a list \<Rightarrow> 'e + unit" where
  "try_for_each f [] = Inr ()"
| "try_for_each f (x # xs) = and_then (f x) (\<lambda>_. try_for_each f xs)"

primrec try_map :: "('a \<Rightarrow> 'e + 'b) \<Rightarrow> 'a list \<Rightarrow> 'e + 'b list" where
  "try_map f [] = Inr []"
| "try_map f (x # xs) = and_then (f x) (\<lambda>y. and_then (try_map f xs) (\<lambda>ys. Inr (y # ys)))"

lemma result_ok_simps [simp]: "result_ok (Inr x) = Some x" "result_ok (Inl e) = None"
  by (simp_all add: result_ok_def)

lemma and_then_simps [simp]:
  "and_then (Inl e) f = Inl e" "and_then (Inr x) f = f x"
  by (simp_all add: and_then_def)

lemma map_err_simps [simp]:
  "map_err h (Inl e) = Inl (h e)" "map_err h (Inr x) = Inr x"
  by (simp_all add: map_err_def)

lemma ok_or_simps [simp]:
  "ok_or e None = Inl e" "ok_or e (Some x) = Inr x"
  by (simp_all add: ok_or_def)

lemma is_ok_simps [simp]:
  "\<not> is_ok (Inl e)" "is_ok (Inr x)"
  by (simp_all add: is_ok_def)

lemma is_ok_iff: "is_ok r \<longleftrightarrow> (\<exists>x. r = Inr x)"
  by (cases r) simp_all

lemma and_then_eq_Inr [res_simps]:
  "and_then r f = Inr y \<longleftrightarrow> (\<exists>x. r = Inr x \<and> f x = Inr y)"
  by (cases r) simp_all

lemma and_then_eq_Inl [res_simps]:
  "and_then r f = Inl e \<longleftrightarrow> r = Inl e \<or> (\<exists>x. r = Inr x \<and> f x = Inl e)"
  by (cases r) simp_all

lemma map_err_eq_Inr [simp]: "map_err h r = Inr x \<longleftrightarrow> r = Inr x"
  by (cases r) simp_all

lemma map_err_eq_Inl: "map_err h r = Inl e \<longleftrightarrow> (\<exists>e'. r = Inl e' \<and> e = h e')"
  by (cases r) auto

lemma ok_or_eq_Inr [simp]: "ok_or e x = Inr y \<longleftrightarrow> x = Some y"
  by (cases x) simp_all

lemma ok_or_eq_Inl [simp]: "ok_or e x = Inl e' \<longleftrightarrow> x = None \<and> e' = e"
  by (cases x) auto

lemma and_then_cong [fundef_cong]:
  "r = r' \<Longrightarrow> (\<And>x. r' = Inr x \<Longrightarrow> f x = f' x) \<Longrightarrow> and_then r f = and_then r' f'"
  by (cases r') simp_all

lemma and_then_assoc: "and_then (and_then r f) g = and_then r (\<lambda>x. and_then (f x) g)"
  by (cases r) simp_all

lemma and_then_return [simp]: "and_then r Inr = r"
  by (cases r) simp_all

lemma try_for_each_eq_Inr [simp]:
  "try_for_each f xs = Inr u \<longleftrightarrow> (\<forall>x\<in>set xs. f x = Inr ())"
  by (induction xs) (auto simp: and_then_eq_Inr)

lemma try_for_each_first_error:
  "try_for_each f (ys @ x # zs) = Inl e"
  if "\<forall>y\<in>set ys. f y = Inr ()" and "f x = Inl e"
  using that by (induction ys) simp_all

lemma try_fold_append:
  "try_fold f s (xs @ ys) = and_then (try_fold f s xs) (\<lambda>s'. try_fold f s' ys)"
  by (induction xs arbitrary: s) (simp_all add: and_then_assoc)

lemma try_map_eq_Inr:
  "try_map f xs = Inr ys \<longleftrightarrow> list_all2 (\<lambda>x y. f x = Inr y) xs ys"
  by (induction xs arbitrary: ys) (auto simp: and_then_eq_Inr list_all2_Cons1)

lemma try_map_length: "try_map f xs = Inr ys \<Longrightarrow> length ys = length xs"
  by (simp add: try_map_eq_Inr list_all2_lengthD)

lemma is_ok_try_map [simp]: "is_ok (try_map f xs) \<longleftrightarrow> (\<forall>x\<in>set xs. is_ok (f x))"
proof (induction xs)
  case (Cons x xs)
  then show ?case by (cases "f x"; cases "try_map f xs") simp_all
qed simp

lemma try_map_total: "(\<And>x. x \<in> set xs \<Longrightarrow> f x = Inr (g x)) \<Longrightarrow> try_map f xs = Inr (map g xs)"
  by (induction xs) simp_all

lemma pred_option_code [code]:
  "pred_option p None \<longleftrightarrow> True" "pred_option p (Some x) \<longleftrightarrow> p x"
  by simp_all

section \<open>Checked machine arithmetic\<close>

definition usize_max :: nat where
  "usize_max = 2 ^ 64 - 1"

definition usize_checked_add :: "nat \<Rightarrow> nat \<Rightarrow> nat option" where
  "usize_checked_add a b = (if a + b \<le> usize_max then Some (a + b) else None)"

definition usize_checked_mul :: "nat \<Rightarrow> nat \<Rightarrow> nat option" where
  "usize_checked_mul a b = (if a * b \<le> usize_max then Some (a * b) else None)"

definition checked_add :: "'a::len word \<Rightarrow> 'a word \<Rightarrow> 'a word option" where
  "checked_add a b = (if unat a + unat b < 2 ^ LENGTH('a) then Some (a + b) else None)"

definition saturating_mul :: "'a::len word \<Rightarrow> 'a word \<Rightarrow> 'a word" where
  "saturating_mul a b = (if unat a * unat b < 2 ^ LENGTH('a) then a * b else - 1)"

definition try_from_usize :: "'e \<Rightarrow> nat \<Rightarrow> 'e + 'a::len word" where
  "try_from_usize e n = (if n < 2 ^ LENGTH('a) then Inr (of_nat n) else Inl e)"

definition usize_try_from :: "'e \<Rightarrow> 'a::len word \<Rightarrow> 'e + nat" where
  "usize_try_from e w = (if unat w \<le> usize_max then Inr (unat w) else Inl e)"

lemma usize_checked_add_eq_Some [simp]:
  "usize_checked_add a b = Some c \<longleftrightarrow> c = a + b \<and> a + b \<le> usize_max"
  by (auto simp: usize_checked_add_def)

lemma usize_checked_add_ok: "a + b \<le> usize_max \<Longrightarrow> usize_checked_add a b = Some (a + b)"
  by (simp add: usize_checked_add_def)

lemma usize_checked_add_eq_None [simp]:
  "usize_checked_add a b = None \<longleftrightarrow> usize_max < a + b"
  by (auto simp: usize_checked_add_def)

lemma usize_checked_mul_ok: "a * b \<le> usize_max \<Longrightarrow> usize_checked_mul a b = Some (a * b)"
  by (simp add: usize_checked_mul_def)

lemma checked_add_eq_Some:
  "checked_add (a :: 'a::len word) b = Some c \<longleftrightarrow> c = a + b \<and> unat c = unat a + unat b"
proof -
  have "unat a + unat b < 2 ^ LENGTH('a) \<longleftrightarrow> unat (a + b) = unat a + unat b" for a b :: "'a word"
    by (metis mod_less unat_word_ariths(1) unsigned_less)
  then show ?thesis by (auto simp: checked_add_def)
qed

lemma checked_add_eq_None:
  "checked_add (a :: 'a::len word) b = None \<longleftrightarrow> 2 ^ LENGTH('a) \<le> unat a + unat b"
  by (auto simp: checked_add_def)

lemma try_from_usize_eq_Inr [simp]:
  "try_from_usize e n = Inr (w :: 'a::len word) \<longleftrightarrow> n = unat w"
proof
  assume "try_from_usize e n = Inr w"
  then show "n = unat w" by (auto simp: try_from_usize_def unat_of_nat split: if_splits)
next
  assume "n = unat w"
  then show "try_from_usize e n = Inr w" by (simp add: try_from_usize_def)
qed

lemma try_from_usize_unat [simp]: "try_from_usize e (unat w) = Inr w"
  by (simp only: try_from_usize_eq_Inr)

lemma try_from_usize_ok:
  "n < 2 ^ LENGTH('a) \<Longrightarrow> try_from_usize e n = Inr (of_nat n :: 'a::len word)"
  by (simp add: try_from_usize_def)

lemma try_from_usize_eq_Inl:
  "try_from_usize e n = (Inl e' :: 'e + 'a::len word) \<longleftrightarrow> 2 ^ LENGTH('a) \<le> n \<and> e' = e"
  by (auto simp: try_from_usize_def)

lemma unat_u64_le_usize [simp]: "unat (w :: u64) \<le> usize_max"
  using unsigned_less [of w, where ?'a = nat] by (simp add: usize_max_def)

lemma unat_u32_le_usize [simp]: "unat (w :: u32) \<le> usize_max"
  using unsigned_less [of w, where ?'a = nat] by (simp add: usize_max_def)

lemma unat_u16_le_usize [simp]: "unat (w :: u16) \<le> usize_max"
  using unsigned_less [of w, where ?'a = nat] by (simp add: usize_max_def)

lemma usize_try_from_u64 [simp]: "usize_try_from e (w :: u64) = Inr (unat w)"
  by (simp add: usize_try_from_def)

lemma usize_try_from_u32 [simp]: "usize_try_from e (w :: u32) = Inr (unat w)"
  by (simp add: usize_try_from_def)

lemma unat_saturating_mul:
  "unat (saturating_mul (a :: 'a::len word) b) = min (unat a * unat b) (2 ^ LENGTH('a) - 1)"
proof (cases "unat a * unat b < 2 ^ LENGTH('a)")
  case True
  then have "unat (a * b) = unat a * unat b" by (simp add: unat_word_ariths)
  with True show ?thesis by (simp add: saturating_mul_def)
next
  case False
  then show ?thesis by (simp add: saturating_mul_def unsigned_minus_1_eq_mask mask_eq_exp_minus_1)
qed

text \<open>Code equations on binary integers, so that evaluation never counts to \<open>2 ^ 64\<close> in unary.\<close>

lemma usize_checked_add_code [code]:
  "usize_checked_add a b = (if int a + int b \<le> 2 ^ 64 - 1 then Some (a + b) else None)"
proof -
  have "int usize_max = 2 ^ 64 - 1" by (simp add: usize_max_def)
  then have "a + b \<le> usize_max \<longleftrightarrow> int a + int b \<le> 2 ^ 64 - 1" by linarith
  then show ?thesis by (simp add: usize_checked_add_def)
qed

lemma checked_add_code [code]:
  "checked_add (a :: 'a::len word) b = (if uint a + uint b < 2 ^ LENGTH('a) then Some (a + b) else None)"
proof -
  have "unat a + unat b < 2 ^ LENGTH('a) \<longleftrightarrow> int (unat a + unat b) < int (2 ^ LENGTH('a))"
    by (simp only: of_nat_less_iff)
  then show ?thesis by (simp add: checked_add_def)
qed

lemma saturating_mul_code [code]:
  "saturating_mul (a :: 'a::len word) b = (if uint a * uint b < 2 ^ LENGTH('a) then a * b else - 1)"
proof -
  have "unat a * unat b < 2 ^ LENGTH('a) \<longleftrightarrow> int (unat a * unat b) < int (2 ^ LENGTH('a))"
    by (simp only: of_nat_less_iff)
  then show ?thesis by (simp add: saturating_mul_def)
qed

lemma try_from_usize_code [code]:
  "try_from_usize e n = (if int n < 2 ^ LENGTH('a) then Inr (of_nat n :: 'a::len word) else Inl e)"
proof -
  have "n < 2 ^ LENGTH('a) \<longleftrightarrow> int n < int (2 ^ LENGTH('a))"
    by (simp only: of_nat_less_iff)
  then show ?thesis by (simp add: try_from_usize_def)
qed

lemma usize_try_from_code [code]:
  "usize_try_from e (w :: 'a::len word) = (if uint w \<le> 2 ^ 64 - 1 then Inr (unat w) else Inl e)"
proof -
  have "int usize_max = 2 ^ 64 - 1" by (simp add: usize_max_def)
  then have "unat w \<le> usize_max \<longleftrightarrow> int (unat w) \<le> 2 ^ 64 - 1" by linarith
  then show ?thesis by (simp add: usize_try_from_def)
qed

section \<open>Slices and canonical order\<close>

definition slice_get :: "nat \<Rightarrow> nat \<Rightarrow> 'a list \<Rightarrow> 'a list option" where
  "slice_get s e xs = (if s \<le> e \<and> e \<le> length xs then Some (take (e - s) (drop s xs)) else None)"

definition array_of_slice :: "'e \<Rightarrow> nat \<Rightarrow> 'a list \<Rightarrow> 'e + 'a list" where
  "array_of_slice e n xs = (if length xs = n then Inr xs else Inl e)"

lemma slice_get_eq_Some:
  "slice_get s e xs = Some ys \<longleftrightarrow> (\<exists>as bs. xs = as @ ys @ bs \<and> length as = s \<and> e = s + length ys)"
proof
  assume "slice_get s e xs = Some ys"
  then have "s \<le> e" "e \<le> length xs" and ys: "ys = take (e - s) (drop s xs)"
    by (auto simp: slice_get_def split: if_splits)
  then have "xs = take s xs @ ys @ drop e xs"
    by (metis append_take_drop_id drop_drop le_add_diff_inverse2)
  with \<open>s \<le> e\<close> \<open>e \<le> length xs\<close> ys
  show "\<exists>as bs. xs = as @ ys @ bs \<and> length as = s \<and> e = s + length ys"
    by (intro exI [of _ "take s xs"] exI [of _ "drop e xs"]) auto
next
  assume "\<exists>as bs. xs = as @ ys @ bs \<and> length as = s \<and> e = s + length ys"
  then show "slice_get s e xs = Some ys" by (auto simp: slice_get_def)
qed

lemma slice_get_append [simp]:
  "length as = s \<Longrightarrow> e = s + length ys \<Longrightarrow> slice_get s e (as @ ys @ bs) = Some ys"
  unfolding slice_get_eq_Some by blast

lemma slice_get_drop: "slice_get s e xs = Some ys \<Longrightarrow> drop s xs = ys @ drop e xs"
  by (auto simp: slice_get_eq_Some)

lemma slice_get_length: "slice_get s e xs = Some ys \<Longrightarrow> length ys = e - s"
  by (auto simp: slice_get_eq_Some)

lemma slice_get_at:
  "slice_get (length pre) e (pre @ post) = Some bs \<longleftrightarrow> (\<exists>r. post = bs @ r \<and> e = length pre + length bs)"
  unfolding slice_get_eq_Some by (metis append_eq_append_conv)

lemma slice_get_eq_None: "slice_get s e xs = None \<longleftrightarrow> e < s \<or> length xs < e"
  by (auto simp: slice_get_def)

lemma array_of_slice_eq_Inr [simp]:
  "array_of_slice e n xs = Inr ys \<longleftrightarrow> ys = xs \<and> length xs = n"
  by (auto simp: array_of_slice_def)

lemma sorted_wrt_less_distinct: "sorted_wrt (<) (xs :: 'a::linorder list) \<Longrightarrow> distinct xs"
  by (simp add: strict_sorted_iff)

lemma sorted_wrt_less_unique:
  "sorted_wrt (<) (xs :: 'a::linorder list) \<Longrightarrow> sorted_wrt (<) ys \<Longrightarrow> set xs = set ys \<Longrightarrow> xs = ys"
  by (simp add: strict_sorted_equal)

text \<open>\<open>windows(2).any(p)\<close> and \<open>iter().zip(skip(1))\<close> look at neighbours only.\<close>

fun any_window2 :: "('a \<Rightarrow> 'a \<Rightarrow> bool) \<Rightarrow> 'a list \<Rightarrow> bool" where
  "any_window2 p (x # y # zs) = (p x y \<or> any_window2 p (y # zs))"
| "any_window2 p _ = False"

lemma any_window2_map: "any_window2 (\<lambda>a b. p (f a) (f b)) xs = any_window2 p (map f xs)"
  by (induction xs rule: induct_list012) simp_all

lemma no_window2_sorted_wrt:
  "transp q \<Longrightarrow> (\<And>x y. \<not> p x y \<longleftrightarrow> q x y) \<Longrightarrow> \<not> any_window2 p xs \<longleftrightarrow> sorted_wrt q xs"
proof (induction p xs rule: any_window2.induct)
  case (1 p x y zs)
  then have "\<not> any_window2 p (y # zs) \<longleftrightarrow> sorted_wrt q (y # zs)" by simp
  with 1 show ?case by (auto dest: transpD)
qed simp_all

lemma sorted_no_equal_window:
  "sorted xs \<Longrightarrow> \<not> any_window2 (=) xs \<longleftrightarrow> distinct (xs :: 'a::linorder list)"
proof (induction "(=) :: 'a \<Rightarrow> 'a \<Rightarrow> bool" xs rule: any_window2.induct)
  case (1 x y zs)
  then show ?case by (cases "x = y") auto
qed simp_all

end
