(* ===== verification/Wire_Bytes.thy ===== *)
theory Wire_Bytes
  imports Rust_Prelude
begin

text \<open>
  The byte level every format of the repository is written on: big-endian integers
  (\<open>to_be_bytes\<close>/\<open>from_be_bytes\<close>), UTF-8 as \<open>core::str::from_utf8\<close> accepts it, ASCII helpers, and the
  interface \<open>byte_reader\<close> of a bounded cursor. The repository has three such cursors (the RAP codec,
  the access contract, the Chain codec); each is an interpretation of the locale, and the laws of
  composite readers (integers, counted and length-prefixed fields) are proved once, inside it.
\<close>

section \<open>Big-endian integers\<close>

primrec be_bytes :: "nat \<Rightarrow> nat \<Rightarrow> bytes" where
  "be_bytes 0 n = []"
| "be_bytes (Suc k) n = be_bytes k (n div 256) @ [of_nat n]"

definition be_value :: "bytes \<Rightarrow> nat" where
  "be_value bs = foldl (\<lambda>acc b. 256 * acc + unat b) 0 bs"

definition u16_to_be_bytes :: "u16 \<Rightarrow> bytes" where
  "u16_to_be_bytes v = be_bytes 2 (unat v)"

definition u32_to_be_bytes :: "u32 \<Rightarrow> bytes" where
  "u32_to_be_bytes v = be_bytes 4 (unat v)"

definition u64_to_be_bytes :: "u64 \<Rightarrow> bytes" where
  "u64_to_be_bytes v = be_bytes 8 (unat v)"

definition u16_from_be_bytes :: "bytes \<Rightarrow> u16" where
  "u16_from_be_bytes bs = of_nat (be_value bs)"

definition u32_from_be_bytes :: "bytes \<Rightarrow> u32" where
  "u32_from_be_bytes bs = of_nat (be_value bs)"

definition u64_from_be_bytes :: "bytes \<Rightarrow> u64" where
  "u64_from_be_bytes bs = of_nat (be_value bs)"

lemma length_be_bytes [simp]: "length (be_bytes k n) = k"
  by (induction k arbitrary: n) simp_all

lemma be_value_snoc: "be_value (bs @ [b]) = 256 * be_value bs + unat b"
  by (simp add: be_value_def)

lemma unat_of_nat_u8: "unat (of_nat n :: u8) = n mod 256"
  by (simp add: unat_of_nat)

lemma be_value_be_bytes: "be_value (be_bytes k n) = n mod 256 ^ k"
proof (induction k arbitrary: n)
  case 0
  then show ?case by (simp add: be_value_def)
next
  case (Suc k)
  then show ?case
    by (simp add: be_value_snoc unat_of_nat_u8 mod_mult2_eq)
qed

lemma be_value_less: "be_value bs < 256 ^ length bs"
proof (induction bs rule: rev_induct)
  case Nil
  then show ?case by (simp add: be_value_def)
next
  case (snoc b bs)
  have "unat b < 256" using unsigned_less [of b, where ?'a = nat] by simp
  moreover have "256 * be_value bs + 256 \<le> 256 * 256 ^ length bs"
    using snoc by (metis Suc_leI add.commute mult_Suc_right mult_le_mono2)
  ultimately have "256 * be_value bs + unat b < 256 * 256 ^ length bs" by linarith
  then show ?case by (simp add: be_value_snoc)
qed

lemma be_bytes_be_value: "be_bytes (length bs) (be_value bs) = bs"
proof (induction bs rule: rev_induct)
  case Nil
  then show ?case by simp
next
  case (snoc b bs)
  have b: "unat b < 256" using unsigned_less [of b, where ?'a = nat] by simp
  then have "(256 * be_value bs + unat b) div 256 = be_value bs" by simp
  moreover have "(of_nat (256 * be_value bs + unat b) :: u8) = b"
    by (rule word_unat_eq_iff [THEN iffD2]) (simp only: unat_of_nat_u8 mod_mult_self4 mod_less [OF b])
  ultimately show ?case using snoc by (simp only: length_append_singleton be_value_snoc be_bytes.simps)
qed

lemma be_lengths [simp, wire_lengths]:
  "length (u16_to_be_bytes a) = 2" "length (u32_to_be_bytes b) = 4" "length (u64_to_be_bytes c) = 8"
  by (simp_all add: u16_to_be_bytes_def u32_to_be_bytes_def u64_to_be_bytes_def)

lemma from_to_be_bytes [simp]:
  "u16_from_be_bytes (u16_to_be_bytes a) = a"
  "u32_from_be_bytes (u32_to_be_bytes b) = b"
  "u64_from_be_bytes (u64_to_be_bytes c) = c"
proof -
  have "unat a < 65536" "unat b < 4294967296" "unat c < 18446744073709551616"
    using unsigned_less [of a, where ?'a = nat] unsigned_less [of b, where ?'a = nat]
      unsigned_less [of c, where ?'a = nat] by simp_all
  then show "u16_from_be_bytes (u16_to_be_bytes a) = a"
    "u32_from_be_bytes (u32_to_be_bytes b) = b"
    "u64_from_be_bytes (u64_to_be_bytes c) = c"
    by (simp_all add: u16_to_be_bytes_def u32_to_be_bytes_def u64_to_be_bytes_def
        u16_from_be_bytes_def u32_from_be_bytes_def u64_from_be_bytes_def be_value_be_bytes)
qed

lemma unat_of_nat_be_value:
  assumes "8 * length xs = LENGTH('a)"
  shows "unat (of_nat (be_value xs) :: 'a::len word) = be_value xs"
proof -
  have "(2::nat) ^ LENGTH('a) = 256 ^ length xs"
    unfolding assms [symmetric] by (simp add: power_mult)
  then show ?thesis using be_value_less [of xs] by (simp add: unat_of_nat)
qed

lemma to_from_be_bytes [simp]:
  "length as = 2 \<Longrightarrow> u16_to_be_bytes (u16_from_be_bytes as) = as"
  "length bs = 4 \<Longrightarrow> u32_to_be_bytes (u32_from_be_bytes bs) = bs"
  "length cs = 8 \<Longrightarrow> u64_to_be_bytes (u64_from_be_bytes cs) = cs"
  using be_bytes_be_value [of as] be_bytes_be_value [of bs] be_bytes_be_value [of cs]
  by (simp_all add: u16_to_be_bytes_def u16_from_be_bytes_def u32_to_be_bytes_def
      u32_from_be_bytes_def u64_to_be_bytes_def u64_from_be_bytes_def unat_of_nat_be_value)

section \<open>ASCII and UTF-8\<close>

text \<open>A Rust \<open>&str\<close> or \<open>String\<close> is its UTF-8 bytes; \<open>len()\<close> counts bytes. \<open>ascii\<close> writes literals.\<close>

definition ascii :: "string \<Rightarrow> bytes" where
  "ascii s = map of_char s"

definition to_ascii_lowercase :: "u8 \<Rightarrow> u8" where
  "to_ascii_lowercase b = (if 65 \<le> b \<and> b \<le> 90 then b + 32 else b)"

definition eq_ignore_ascii_case :: "bytes \<Rightarrow> bytes \<Rightarrow> bool" where
  "eq_ignore_ascii_case xs ys \<longleftrightarrow> map to_ascii_lowercase xs = map to_ascii_lowercase ys"

definition is_ascii_alphanumeric :: "u8 \<Rightarrow> bool" where
  "is_ascii_alphanumeric b \<longleftrightarrow> 48 \<le> b \<and> b \<le> 57 \<or> 65 \<le> b \<and> b \<le> 90 \<or> 97 \<le> b \<and> b \<le> 122"

definition utf8_cont :: "u8 \<Rightarrow> bool" where
  "utf8_cont b \<longleftrightarrow> 0x80 \<le> b \<and> b \<le> 0xBF"

text \<open>The well-formed byte sequences of \<open>from_utf8\<close>, with the code points they stand for.\<close>

fun utf8_decode :: "bytes \<Rightarrow> nat list option" where
  "utf8_decode [] = Some []"
| "utf8_decode (a # as) =
     (if a < 0x80 then map_option (Cons (unat a)) (utf8_decode as)
      else if 0xC2 \<le> a \<and> a \<le> 0xDF then
        (case as of
           b # bs \<Rightarrow>
             if utf8_cont b
             then map_option (Cons ((unat a - 0xC0) * 64 + (unat b - 0x80))) (utf8_decode bs)
             else None
         | _ \<Rightarrow> None)
      else if 0xE0 \<le> a \<and> a \<le> 0xEF then
        (case as of
           b # c # cs \<Rightarrow>
             if utf8_cont b \<and> utf8_cont c \<and> (a = 0xE0 \<longrightarrow> 0xA0 \<le> b) \<and> (a = 0xED \<longrightarrow> b \<le> 0x9F)
             then map_option (Cons ((unat a - 0xE0) * 4096 + (unat b - 0x80) * 64 + (unat c - 0x80)))
                    (utf8_decode cs)
             else None
         | _ \<Rightarrow> None)
      else if 0xF0 \<le> a \<and> a \<le> 0xF4 then
        (case as of
           b # c # d # ds \<Rightarrow>
             if utf8_cont b \<and> utf8_cont c \<and> utf8_cont d \<and> (a = 0xF0 \<longrightarrow> 0x90 \<le> b)
                \<and> (a = 0xF4 \<longrightarrow> b \<le> 0x8F)
             then map_option (Cons ((unat a - 0xF0) * 262144 + (unat b - 0x80) * 4096
                    + (unat c - 0x80) * 64 + (unat d - 0x80))) (utf8_decode ds)
             else None
         | _ \<Rightarrow> None)
      else None)"

definition from_utf8 :: "bytes \<Rightarrow> bool" where
  "from_utf8 bs \<longleftrightarrow> utf8_decode bs \<noteq> None"

definition str_chars :: "bytes \<Rightarrow> nat list" where
  "str_chars bs = (case utf8_decode bs of None \<Rightarrow> [] | Some cs \<Rightarrow> cs)"

definition char_is_control :: "nat \<Rightarrow> bool" where
  "char_is_control c \<longleftrightarrow> c \<le> 0x1F \<or> 0x7F \<le> c \<and> c \<le> 0x9F"

lemma from_utf8_Nil [simp]: "from_utf8 []"
  by (simp add: from_utf8_def)

lemma utf8_decode_ascii: "list_all (\<lambda>b. b < 0x80) bs \<Longrightarrow> utf8_decode bs = Some (map unat bs)"
  by (induction bs) auto

lemma from_utf8_ascii: "list_all (\<lambda>b. b < 0x80) bs \<Longrightarrow> from_utf8 bs"
  by (simp add: from_utf8_def utf8_decode_ascii)

lemma length_ascii [simp]: "length (ascii s) = length s"
  by (simp add: ascii_def)

section \<open>Prefixes\<close>

definition strip_prefix :: "bytes \<Rightarrow> bytes \<Rightarrow> bytes option" where
  "strip_prefix p s = (if take (length p) s = p then Some (drop (length p) s) else None)"

lemma strip_prefix_append [simp]: "strip_prefix p (p @ s) = Some s"
  by (simp add: strip_prefix_def)

lemma strip_prefix_eq_Some [simp]: "strip_prefix p s = Some r \<longleftrightarrow> s = p @ r"
  by (auto simp: strip_prefix_def) (metis append_take_drop_id)

section \<open>The reader interface\<close>

text \<open>
  \<open>cur pre post\<close> is a cursor that has consumed \<open>pre\<close> and has \<open>post\<close> left; \<open>take_n\<close> is the one primitive
  that moves it. \<open>reads rd enc P\<close> says that \<open>rd\<close> inverts \<open>enc\<close> on the values that satisfy \<open>P\<close>, and that
  whatever \<open>rd\<close> accepts is the encoding of such a value: parsing after printing and printing after
  parsing.
\<close>

fun repeat_read :: "nat \<Rightarrow> ('c \<Rightarrow> 'e + 'x \<times> 'c) \<Rightarrow> 'c \<Rightarrow> 'e + 'x list \<times> 'c" where
  "repeat_read 0 rd c = Inr ([], c)"
| "repeat_read (Suc n) rd c =
     and_then (rd c) (\<lambda>(x, c). and_then (repeat_read n rd c) (\<lambda>(xs, c). Inr (x # xs, c)))"

locale byte_reader =
  fixes take_n :: "nat \<Rightarrow> 'c \<Rightarrow> 'e + bytes \<times> 'c"
    and cur :: "bytes \<Rightarrow> bytes \<Rightarrow> 'c"
  assumes take_n_ok:
      "length pre + length bs \<le> usize_max \<Longrightarrow>
       take_n (length bs) (cur pre (bs @ r)) = Inr (bs, cur (pre @ bs) r)"
    and take_n_inv:
      "take_n n (cur pre post) = Inr (bs, c) \<Longrightarrow>
       length bs = n \<and> (\<exists>r. post = bs @ r \<and> c = cur (pre @ bs) r)"
begin

definition reads :: "('c \<Rightarrow> 'e + 'x \<times> 'c) \<Rightarrow> ('x \<Rightarrow> bytes) \<Rightarrow> ('x \<Rightarrow> bool) \<Rightarrow> bool" where
  "reads rd enc P \<longleftrightarrow>
     (\<forall>pre x r. P x \<longrightarrow> length pre + length (enc x) \<le> usize_max \<longrightarrow>
        rd (cur pre (enc x @ r)) = Inr (x, cur (pre @ enc x) r)) \<and>
     (\<forall>pre post x c. rd (cur pre post) = Inr (x, c) \<longrightarrow>
        P x \<and> (\<exists>r. post = enc x @ r \<and> c = cur (pre @ enc x) r))"

lemma readsI:
  assumes "\<And>pre x r. P x \<Longrightarrow> length pre + length (enc x) \<le> usize_max \<Longrightarrow>
      rd (cur pre (enc x @ r)) = Inr (x, cur (pre @ enc x) r)"
    and "\<And>pre post x c. rd (cur pre post) = Inr (x, c) \<Longrightarrow>
      P x \<and> (\<exists>r. post = enc x @ r \<and> c = cur (pre @ enc x) r)"
  shows "reads rd enc P"
  using assms unfolding reads_def by blast

lemma reads_fwd:
  "reads rd enc P \<Longrightarrow> P x \<Longrightarrow> length pre + length (enc x) \<le> usize_max \<Longrightarrow>
   rd (cur pre (enc x @ r)) = Inr (x, cur (pre @ enc x) r)"
  unfolding reads_def by blast

lemma reads_bwd:
  assumes "reads rd enc P" "rd (cur pre post) = Inr (x, c)"
  obtains r where "P x" "post = enc x @ r" "c = cur (pre @ enc x) r"
  using assms unfolding reads_def by blast

lemma reads_take_n: "reads (take_n n) (\<lambda>bs. bs) (\<lambda>bs. length bs = n)"
  by (rule readsI) (use take_n_ok take_n_inv in blast)+

lemma reads_map:
  assumes "reads rd enc P" and "\<And>x. P x \<Longrightarrow> g (f x) = x"
  shows "reads (\<lambda>c. and_then (rd c) (\<lambda>(x, c). Inr (f x, c))) (\<lambda>y. enc (g y)) (\<lambda>y. P (g y) \<and> f (g y) = y)"
proof (rule readsI)
  fix pre r :: bytes and y
  assume "P (g y) \<and> f (g y) = y" "length pre + length (enc (g y)) \<le> usize_max"
  then show "and_then (rd (cur pre (enc (g y) @ r))) (\<lambda>(x, c). Inr (f x, c)) =
      Inr (y, cur (pre @ enc (g y)) r)"
    using reads_fwd [OF assms(1)] by simp
next
  fix pre post y c
  assume "and_then (rd (cur pre post)) (\<lambda>(x, c). Inr (f x, c)) = Inr (y, c)"
  then obtain x where "rd (cur pre post) = Inr (x, c)" "y = f x"
    by (auto simp: and_then_eq_Inr)
  with assms show "(P (g y) \<and> f (g y) = y) \<and> (\<exists>r. post = enc (g y) @ r \<and> c = cur (pre @ enc (g y)) r)"
    by (metis reads_bwd)
qed

text \<open>Fixed-width integers.\<close>

lemma reads_be8: "reads (\<lambda>c. and_then (take_n 1 c) (\<lambda>(bs, c). Inr (bs ! 0, c))) (\<lambda>b. [b]) (\<lambda>_. True)"
proof -
  have "[bs ! 0] = bs" if "length bs = 1" for bs :: bytes
    using that by (cases bs) simp_all
  from reads_map [OF reads_take_n [of 1], of "\<lambda>b. [b]" "\<lambda>bs. bs ! 0", OF this]
  show ?thesis by simp
qed

lemma reads_be16:
  "reads (\<lambda>c. and_then (take_n 2 c) (\<lambda>(bs, c). Inr (u16_from_be_bytes bs, c))) u16_to_be_bytes (\<lambda>_. True)"
  using reads_map [OF reads_take_n [of 2], of u16_to_be_bytes u16_from_be_bytes] by simp

lemma reads_be32:
  "reads (\<lambda>c. and_then (take_n 4 c) (\<lambda>(bs, c). Inr (u32_from_be_bytes bs, c))) u32_to_be_bytes (\<lambda>_. True)"
  using reads_map [OF reads_take_n [of 4], of u32_to_be_bytes u32_from_be_bytes] by simp

lemma reads_be64:
  "reads (\<lambda>c. and_then (take_n 8 c) (\<lambda>(bs, c). Inr (u64_from_be_bytes bs, c))) u64_to_be_bytes (\<lambda>_. True)"
  using reads_map [OF reads_take_n [of 8], of u64_to_be_bytes u64_from_be_bytes] by simp

lemma reads_repeat:
  assumes "reads rd enc P"
  shows "reads (repeat_read n rd) (\<lambda>xs. concat (map enc xs)) (\<lambda>xs. length xs = n \<and> list_all P xs)"
proof (rule readsI)
  fix pre r :: bytes and xs
  assume "length xs = n \<and> list_all P xs" "length pre + length (concat (map enc xs)) \<le> usize_max"
  then show "repeat_read n rd (cur pre (concat (map enc xs) @ r)) =
      Inr (xs, cur (pre @ concat (map enc xs)) r)"
  proof (induction xs arbitrary: n pre)
    case Nil
    then show ?case by simp
  next
    case (Cons x xs)
    then show ?case
      using reads_fwd [OF assms, of x pre "concat (map enc xs) @ r"] Cons.IH [of "n - 1" "pre @ enc x"]
      by (cases n) simp_all
  qed
next
  fix pre post xs c
  assume "repeat_read n rd (cur pre post) = Inr (xs, c)"
  then show "(length xs = n \<and> list_all P xs) \<and>
      (\<exists>r. post = concat (map enc xs) @ r \<and> c = cur (pre @ concat (map enc xs)) r)"
  proof (induction n arbitrary: pre post xs)
    case 0
    then show ?case by simp
  next
    case (Suc n)
    then obtain x d ys where x: "rd (cur pre post) = Inr (x, d)"
      and ys: "repeat_read n rd d = Inr (ys, c)" and xs: "xs = x # ys"
      by (auto simp: and_then_eq_Inr split: prod.splits)
    from reads_bwd [OF assms x] obtain r where
      r: "P x" "post = enc x @ r" "d = cur (pre @ enc x) r" by blast
    from Suc.IH [OF ys [unfolded r(3)]] r xs show ?case by auto
  qed
qed

text \<open>
  Readers built by \<open>?\<close>: \<open>parses rd R\<close> relates every value to the bytes it is read from. The rules follow
  the shape of the code (sequence, branch, return, error, a fallible pure step), so the relation of a
  reader is computed from its text; \<open>reads_by\<close> then compares it with an encoder.
\<close>

definition parses :: "('c \<Rightarrow> 'e + 'x \<times> 'c) \<Rightarrow> ('x \<Rightarrow> bytes \<Rightarrow> bool) \<Rightarrow> bool" where
  "parses rd R \<longleftrightarrow>
     (\<forall>pre x bs r. R x bs \<longrightarrow> length pre + length bs \<le> usize_max \<longrightarrow>
        rd (cur pre (bs @ r)) = Inr (x, cur (pre @ bs) r)) \<and>
     (\<forall>pre post x c. rd (cur pre post) = Inr (x, c) \<longrightarrow>
        (\<exists>bs r. R x bs \<and> post = bs @ r \<and> c = cur (pre @ bs) r))"

lemma reads_iff_parses: "reads rd enc P \<longleftrightarrow> parses rd (\<lambda>x bs. P x \<and> bs = enc x)"
  unfolding reads_def parses_def by auto

lemma parses_reads: "reads rd enc P \<Longrightarrow> parses rd (\<lambda>x bs. P x \<and> bs = enc x)"
  by (simp add: reads_iff_parses)

lemma reads_by: "parses rd R \<Longrightarrow> (\<And>x bs. R x bs \<longleftrightarrow> P x \<and> bs = enc x) \<Longrightarrow> reads rd enc P"
  unfolding reads_iff_parses parses_def by simp

lemma parses_return: "parses (\<lambda>c. Inr (x, c)) (\<lambda>y bs. y = x \<and> bs = [])"
  by (simp add: parses_def)

lemma parses_fail: "parses (\<lambda>c. Inl e) (\<lambda>y bs. False)"
  by (simp add: parses_def)

lemma parses_if:
  "(b \<Longrightarrow> parses rd1 R1) \<Longrightarrow> (\<not> b \<Longrightarrow> parses rd2 R2) \<Longrightarrow>
   parses (\<lambda>c. if b then rd1 c else rd2 c) (\<lambda>x bs. b \<and> R1 x bs \<or> \<not> b \<and> R2 x bs)"
  by (cases b) simp_all

lemma parses_result:
  assumes "\<And>x. r = Inr x \<Longrightarrow> parses (rd x) (R x)"
  shows "parses (\<lambda>c. and_then r (\<lambda>x. rd x c)) (\<lambda>y bs. \<exists>x. r = Inr x \<and> R x y bs)"
  using assms by (cases r) (simp_all add: parses_def)

lemma parses_bind:
  assumes 1: "parses rd1 R1" and 2: "\<And>x. parses (rd2 x) (R2 x)"
  shows "parses (\<lambda>c. and_then (rd1 c) (case_prod rd2))
           (\<lambda>y bs. \<exists>x b1 b2. R1 x b1 \<and> R2 x y b2 \<and> bs = b1 @ b2)"
  unfolding parses_def
proof (intro conjI allI impI)
  fix pre bs r :: bytes and y
  assume "\<exists>x b1 b2. R1 x b1 \<and> R2 x y b2 \<and> bs = b1 @ b2" and len: "length pre + length bs \<le> usize_max"
  then obtain x b1 b2 where x: "R1 x b1" "R2 x y b2" and bs: "bs = b1 @ b2" by blast
  have "rd1 (cur pre (b1 @ b2 @ r)) = Inr (x, cur (pre @ b1) (b2 @ r))"
    using 1 x(1) len unfolding parses_def bs by simp
  moreover have "rd2 x (cur (pre @ b1) (b2 @ r)) = Inr (y, cur ((pre @ b1) @ b2) r)"
    using 2 [of x] x(2) len unfolding parses_def bs by (simp del: append_assoc)
  ultimately show "and_then (rd1 (cur pre (bs @ r))) (case_prod rd2) = Inr (y, cur (pre @ bs) r)"
    by (simp add: bs)
next
  fix pre post y c
  assume "and_then (rd1 (cur pre post)) (case_prod rd2) = Inr (y, c)"
  then obtain x d where x: "rd1 (cur pre post) = Inr (x, d)" and y: "rd2 x d = Inr (y, c)"
    by (auto simp: and_then_eq_Inr)
  from x 1 obtain b1 r1 where b1: "R1 x b1" "post = b1 @ r1" "d = cur (pre @ b1) r1"
    unfolding parses_def by blast
  from y 2 [of x] obtain b2 r where "R2 x y b2" "r1 = b2 @ r" "c = cur ((pre @ b1) @ b2) r"
    unfolding parses_def b1(3) by blast
  with b1 show "\<exists>bs r. (\<exists>x b1 b2. R1 x b1 \<and> R2 x y b2 \<and> bs = b1 @ b2) \<and> post = bs @ r \<and> c = cur (pre @ bs) r"
    by (metis append_assoc)
qed

lemmas parses_rules = parses_return parses_fail parses_if parses_bind parses_result

end

end
