(* ===== verification/Rap_Format.thy ===== *)
theory Rap_Format
  imports Wire_Bytes
begin

text \<open>
  The crate \<open>rebyte-format\<close>: resource limits, portable relative paths, and the enums and bounded
  structures of RAP v1. The type invariants Rust keeps by construction (array lengths, private
  constructors, valid UTF-8) are the \<open>wf_\<close> predicates. The section on paths proves what a
  path that passed validation can do: resolved below any root it stays strictly below it, and it
  never names the transaction directory.
\<close>

section \<open>Limits (limits.rs) and constants (lib.rs)\<close>

record security_limits =
  max_token_bytes :: u64
  max_capsule_bytes :: u64
  max_manifest_bytes :: u64
  max_compressed_payload_bytes :: u64
  max_uncompressed_payload_bytes :: u64
  max_single_file_bytes :: u64
  max_file_count :: u32
  max_path_bytes :: nat
  max_compression_ratio :: u64

definition limits_V1 :: security_limits where
  "limits_V1 = \<lparr>
     max_token_bytes = 48 * 1024 * 1024,
     max_capsule_bytes = 34 * 1024 * 1024,
     max_manifest_bytes = 2 * 1024 * 1024,
     max_compressed_payload_bytes = 32 * 1024 * 1024,
     max_uncompressed_payload_bytes = 128 * 1024 * 1024,
     max_single_file_bytes = 64 * 1024 * 1024,
     max_file_count = 512,
     max_path_bytes = 1024,
     max_compression_ratio = 200 \<rparr>"

definition limits_SIMPLE_ARTIFACT :: security_limits where
  "limits_SIMPLE_ARTIFACT = limits_V1\<lparr> max_compression_ratio := - 1 \<rparr>"

definition limits_LARGE_ARTIFACT :: security_limits where
  "limits_LARGE_ARTIFACT = \<lparr>
     max_token_bytes = max_token_bytes limits_V1,
     max_capsule_bytes = 257 * 1024 * 1024 * 1024,
     max_manifest_bytes = 64 * 1024 * 1024,
     max_compressed_payload_bytes = 256 * 1024 * 1024 * 1024,
     max_uncompressed_payload_bytes = 256 * 1024 * 1024 * 1024,
     max_single_file_bytes = 256 * 1024 * 1024 * 1024,
     max_file_count = 100000,
     max_path_bytes = max_path_bytes limits_V1,
     max_compression_ratio = - 1 \<rparr>"

definition MAGIC :: bytes where "MAGIC = ascii ''RBAP''"
definition PROTOCOL_VERSION :: u16 where "PROTOCOL_VERSION = 1"
definition HEADER_SIZE_V1 :: u16 where "HEADER_SIZE_V1 = 80"
definition MAX_CAPSULE_NAME_BYTES :: nat where "MAX_CAPSULE_NAME_BYTES = 256"
definition MAX_DESCRIPTION_BYTES :: nat where "MAX_DESCRIPTION_BYTES = 4096"
definition MAX_PRODUCER_NAME_BYTES :: nat where "MAX_PRODUCER_NAME_BYTES = 256"
definition MAX_PRODUCER_VERSION_BYTES :: nat where "MAX_PRODUCER_VERSION_BYTES = 128"

section \<open>Portable paths (path.rs)\<close>

datatype relative_artifact_path = RelativeArtifactPath (as_str: bytes)

datatype path_error =
    PathEmpty
  | PathTooLong nat nat
  | PathAbsolute
  | PathBackslash
  | PathColon
  | PathControl
  | PathEmptyComponent
  | PathCurrentDirectory
  | PathParentDirectory
  | PathHomePrefix
  | PathReservedRoot
  | PathTrailingDotOrSpace
  | PathWindowsDeviceName

text \<open>\<open>str::split\<close> on one ASCII separator.\<close>

primrec split_on :: "u8 \<Rightarrow> bytes \<Rightarrow> bytes list" where
  "split_on d [] = [[]]"
| "split_on d (x # xs) =
     (if x = d then [] # split_on d xs
      else case split_on d xs of [] \<Rightarrow> [[x]] | y # ys \<Rightarrow> (x # y) # ys)"

definition is_windows_device_name :: "bytes \<Rightarrow> bool" where
  "is_windows_device_name component =
     (let stem = hd (split_on 46 component) in
      if eq_ignore_ascii_case stem (ascii ''CON'')
         \<or> eq_ignore_ascii_case stem (ascii ''PRN'')
         \<or> eq_ignore_ascii_case stem (ascii ''AUX'')
         \<or> eq_ignore_ascii_case stem (ascii ''NUL'')
         \<or> eq_ignore_ascii_case stem (ascii ''CONIN$'')
         \<or> eq_ignore_ascii_case stem (ascii ''CONOUT$'')
      then True
      else length stem = 4
         \<and> (eq_ignore_ascii_case (take 3 stem) (ascii ''COM'')
            \<or> eq_ignore_ascii_case (take 3 stem) (ascii ''LPT''))
         \<and> 49 \<le> stem ! 3 \<and> stem ! 3 \<le> 57)"

definition validate_component :: "bytes \<Rightarrow> nat \<Rightarrow> path_error + unit" where
  "validate_component component index =
     (if component = [] then Inl PathEmptyComponent
      else if component = ascii ''.'' then Inl PathCurrentDirectory
      else if component = ascii ''..'' then Inl PathParentDirectory
      else if index = 0 \<and> component = ascii ''~'' then Inl PathHomePrefix
      else if index = 0 \<and> eq_ignore_ascii_case component (ascii ''.rebyte'') then Inl PathReservedRoot
      else if last component = 46 \<or> last component = 32 then Inl PathTrailingDotOrSpace
      else if is_windows_device_name component then Inl PathWindowsDeviceName
      else Inr ())"

definition path_validate :: "bytes \<Rightarrow> nat \<Rightarrow> path_error + unit" where
  "path_validate path max_bytes =
     (if path = [] then Inl PathEmpty
      else if max_bytes < length path then Inl (PathTooLong max_bytes (length path))
      else if hd path = 47 then Inl PathAbsolute
      else if 92 \<in> set path then Inl PathBackslash
      else if 58 \<in> set path then Inl PathColon
      else if list_ex (\<lambda>b. b \<le> 0x1f \<or> b = 0x7f) path then Inl PathControl
      else try_for_each (\<lambda>(index, component). validate_component component index)
             (enumerate 0 (split_on 47 path)))"

definition path_with_max_bytes :: "bytes \<Rightarrow> nat \<Rightarrow> path_error + relative_artifact_path" where
  "path_with_max_bytes path max_bytes =
     and_then (path_validate path max_bytes) (\<lambda>_. Inr (RelativeArtifactPath path))"

definition path_new :: "bytes \<Rightarrow> path_error + relative_artifact_path" where
  "path_new path = path_with_max_bytes path (max_path_bytes limits_V1)"

text \<open>The derived order of the newtype is that of its bytes.\<close>

instantiation relative_artifact_path :: linorder
begin

definition less_eq_relative_artifact_path :: "relative_artifact_path \<Rightarrow> relative_artifact_path \<Rightarrow> bool" where
  "less_eq_relative_artifact_path p q \<longleftrightarrow> as_str p \<le> as_str q"

definition less_relative_artifact_path :: "relative_artifact_path \<Rightarrow> relative_artifact_path \<Rightarrow> bool" where
  "less_relative_artifact_path p q \<longleftrightarrow> as_str p < as_str q"

instance
  by standard
    (auto simp: less_eq_relative_artifact_path_def less_relative_artifact_path_def
      relative_artifact_path.expand)

end

section \<open>Enums and bounded structures (types.rs)\<close>

datatype protocol_version = ProtocolVersion (get: u16)

datatype compression_algorithm = CompressionNone | CompressionZstd
datatype signature_algorithm = Ed25519
datatype file_operation = CreateOrReplace
datatype content_kind = Binary | TextUtf8
datatype digest32 = Digest32 (digest_bytes: bytes)
datatype key_id = KeyId (key_id_bytes: bytes)
datatype bounded_string = BoundedString (bounded_str: bytes)

datatype format_error =
    UnsupportedProtocolVersion u16
  | UnsupportedCompression u8
  | UnsupportedSignature u8
  | UnsupportedFileOperation u8
  | UnsupportedContentKind u8
  | InvalidHeaderSize u16
  | UnsupportedFlags u32
  | EmptyString string
  | StringTooLong string nat nat
  | SizeTooLarge string u64 u64
  | FileCountTooLarge u32 u32

definition protocol_V1 :: protocol_version where
  "protocol_V1 = ProtocolVersion 1"

definition protocol_version_try_from :: "u16 \<Rightarrow> format_error + protocol_version" where
  "protocol_version_try_from v = (if v = 1 then Inr protocol_V1 else Inl (UnsupportedProtocolVersion v))"

definition compression_as_u8 :: "compression_algorithm \<Rightarrow> u8" where
  "compression_as_u8 a = (case a of CompressionNone \<Rightarrow> 0 | CompressionZstd \<Rightarrow> 1)"

definition compression_try_from :: "u8 \<Rightarrow> format_error + compression_algorithm" where
  "compression_try_from v =
     (if v = 0 then Inr CompressionNone else if v = 1 then Inr CompressionZstd
      else Inl (UnsupportedCompression v))"

definition signature_as_u8 :: "signature_algorithm \<Rightarrow> u8" where
  "signature_as_u8 a = (case a of Ed25519 \<Rightarrow> 1)"

definition signature_try_from :: "u8 \<Rightarrow> format_error + signature_algorithm" where
  "signature_try_from v = (if v = 1 then Inr Ed25519 else Inl (UnsupportedSignature v))"

definition operation_as_u8 :: "file_operation \<Rightarrow> u8" where
  "operation_as_u8 a = (case a of CreateOrReplace \<Rightarrow> 0)"

definition operation_try_from :: "u8 \<Rightarrow> format_error + file_operation" where
  "operation_try_from v = (if v = 0 then Inr CreateOrReplace else Inl (UnsupportedFileOperation v))"

definition content_kind_as_u8 :: "content_kind \<Rightarrow> u8" where
  "content_kind_as_u8 a = (case a of Binary \<Rightarrow> 0 | TextUtf8 \<Rightarrow> 1)"

definition content_kind_try_from :: "u8 \<Rightarrow> format_error + content_kind" where
  "content_kind_try_from v =
     (if v = 0 then Inr Binary else if v = 1 then Inr TextUtf8 else Inl (UnsupportedContentKind v))"

definition bounded_string_new :: "nat \<Rightarrow> bytes \<Rightarrow> string \<Rightarrow> format_error + bounded_string" where
  "bounded_string_new mx value field =
     (if value = [] then Inl (EmptyString field)
      else if mx < length value then Inl (StringTooLong field mx (length value))
      else Inr (BoundedString value))"

record producer_metadata =
  producer_name :: bounded_string
  producer_version :: "bounded_string option"

record capsule_header =
  protocol_version :: protocol_version
  header_size :: u16
  flags :: u32
  compression :: compression_algorithm
  signature_alg :: signature_algorithm
  manifest_size :: u64
  compressed_payload_size :: u64
  uncompressed_payload_size :: u64
  file_count :: u32
  publisher_key_id :: key_id

record file_entry =
  path :: relative_artifact_path
  operation :: file_operation
  content_kind :: content_kind
  executable :: bool
  offset :: u64
  size :: u64
  digest :: digest32

record capsule_manifest =
  capsule_name :: "bounded_string option"
  description :: "bounded_string option"
  producer :: producer_metadata
  files :: "file_entry list"

definition bounded_u64 :: "string \<Rightarrow> u64 \<Rightarrow> u64 \<Rightarrow> format_error + unit" where
  "bounded_u64 field actual maximum =
     (if maximum < actual then Inl (SizeTooLarge field maximum actual) else Inr ())"

definition header_validate :: "capsule_header \<Rightarrow> security_limits \<Rightarrow> format_error + unit" where
  "header_validate h limits =
     (if protocol_version h \<noteq> protocol_V1
      then Inl (UnsupportedProtocolVersion (get (protocol_version h)))
      else if header_size h \<noteq> HEADER_SIZE_V1 then Inl (InvalidHeaderSize (header_size h))
      else if flags h \<noteq> 0 then Inl (UnsupportedFlags (flags h))
      else
        and_then (bounded_u64 ''manifest'' (manifest_size h) (max_manifest_bytes limits)) (\<lambda>_.
        and_then (bounded_u64 ''compressed payload'' (compressed_payload_size h)
                    (max_compressed_payload_bytes limits)) (\<lambda>_.
        and_then (bounded_u64 ''uncompressed payload'' (uncompressed_payload_size h)
                    (max_uncompressed_payload_bytes limits)) (\<lambda>_.
        if max_file_count limits < file_count h
        then Inl (FileCountTooLarge (max_file_count limits) (file_count h))
        else Inr ()))))"

section \<open>Type invariants\<close>

definition wf_path :: "nat \<Rightarrow> relative_artifact_path \<Rightarrow> bool" where
  "wf_path max_bytes p \<longleftrightarrow> path_validate (as_str p) max_bytes = Inr () \<and> from_utf8 (as_str p)"

definition wf_bounded :: "nat \<Rightarrow> bounded_string \<Rightarrow> bool" where
  "wf_bounded mx s \<longleftrightarrow> bounded_str s \<noteq> [] \<and> length (bounded_str s) \<le> mx \<and> from_utf8 (bounded_str s)"

definition wf_digest :: "digest32 \<Rightarrow> bool" where
  "wf_digest d \<longleftrightarrow> length (digest_bytes d) = 32"

definition wf_key_id :: "key_id \<Rightarrow> bool" where
  "wf_key_id k \<longleftrightarrow> length (key_id_bytes k) = 32"

definition wf_entry :: "nat \<Rightarrow> file_entry \<Rightarrow> bool" where
  "wf_entry max_path e \<longleftrightarrow> wf_path max_path (path e) \<and> wf_digest (digest e)"

definition wf_manifest :: "nat \<Rightarrow> capsule_manifest \<Rightarrow> bool" where
  "wf_manifest max_path m \<longleftrightarrow>
     pred_option (wf_bounded MAX_CAPSULE_NAME_BYTES) (capsule_name m) \<and>
     pred_option (wf_bounded MAX_DESCRIPTION_BYTES) (description m) \<and>
     wf_bounded MAX_PRODUCER_NAME_BYTES (producer_name (producer m)) \<and>
     pred_option (wf_bounded MAX_PRODUCER_VERSION_BYTES) (producer_version (producer m)) \<and>
     list_all (wf_entry max_path) (files m)"

section \<open>Facts about the wire values\<close>

lemmas enum_defs =
  compression_try_from_def compression_as_u8_def signature_try_from_def signature_as_u8_def
  operation_try_from_def operation_as_u8_def content_kind_try_from_def content_kind_as_u8_def
  protocol_version_try_from_def

lemmas enum_splits =
  compression_algorithm.splits signature_algorithm.splits file_operation.splits content_kind.splits

lemma enum_try_from_inv:
  "compression_try_from v = Inr a \<longleftrightarrow> v = compression_as_u8 a"
  "signature_try_from v = Inr b \<longleftrightarrow> v = signature_as_u8 b"
  "operation_try_from v = Inr c \<longleftrightarrow> v = operation_as_u8 c"
  "content_kind_try_from v = Inr d \<longleftrightarrow> v = content_kind_as_u8 d"
  "protocol_version_try_from w = Inr p \<longleftrightarrow> w = 1 \<and> p = protocol_V1"
  by (auto simp: enum_defs split: enum_splits)

lemma enum_round_trips [simp]:
  "compression_try_from (compression_as_u8 a) = Inr a"
  "signature_try_from (signature_as_u8 b) = Inr b"
  "operation_try_from (operation_as_u8 c) = Inr c"
  "content_kind_try_from (content_kind_as_u8 d) = Inr d"
  by (simp_all add: enum_try_from_inv)

lemma bounded_u64_eq_Inr [simp]: "bounded_u64 f a m = Inr u \<longleftrightarrow> a \<le> m"
  by (auto simp: bounded_u64_def)

lemma bounded_string_new_eq_Inr [simp]:
  "bounded_string_new M v f = Inr s \<longleftrightarrow> s = BoundedString v \<and> v \<noteq> [] \<and> length v \<le> M"
  by (auto simp: bounded_string_new_def)

lemma header_validate_eq_Inr:
  "header_validate h limits = Inr u \<longleftrightarrow>
     protocol_version h = protocol_V1 \<and> header_size h = HEADER_SIZE_V1 \<and> flags h = 0 \<and>
     manifest_size h \<le> max_manifest_bytes limits \<and>
     compressed_payload_size h \<le> max_compressed_payload_bytes limits \<and>
     uncompressed_payload_size h \<le> max_uncompressed_payload_bytes limits \<and>
     file_count h \<le> max_file_count limits"
  by (auto simp: header_validate_def and_then_eq_Inr)

section \<open>Splitting and joining components\<close>

primrec join_with :: "u8 \<Rightarrow> bytes list \<Rightarrow> bytes" where
  "join_with d [] = []"
| "join_with d (x # xs) = (if xs = [] then x else x @ d # join_with d xs)"

lemma split_on_not_Nil [simp]: "split_on d xs \<noteq> []"
  by (induction xs) (auto split: list.splits)

lemma join_split [simp]: "join_with d (split_on d xs) = xs"
proof (induction xs)
  case (Cons x xs)
  then show ?case by (cases "split_on d xs") auto
qed simp

lemma split_on_no_sep: "c \<in> set (split_on d xs) \<Longrightarrow> d \<notin> set c"
proof (induction xs arbitrary: c)
  case (Cons x xs)
  then show ?case by (cases "split_on d xs") (auto split: if_splits)
qed simp

lemma split_on_subset: "c \<in> set (split_on d xs) \<Longrightarrow> set c \<subseteq> set xs"
proof (induction xs arbitrary: c)
  case (Cons x xs)
  then show ?case by (cases "split_on d xs") (fastforce split: if_splits)+
qed simp

lemma hd_split_on_Cons: "x \<noteq> d \<Longrightarrow> hd (split_on d (x # xs)) \<noteq> []"
  by (cases "split_on d xs") auto

section \<open>What a valid path denotes\<close>

text \<open>
  POSIX resolution of a path below a directory: empty and \<open>.\<close> components are skipped, \<open>..\<close>
  leaves a directory, a leading separator starts at the filesystem root. This is the
  specification against which validation is judged; the code itself never resolves.
\<close>

fun resolve_components :: "bytes list \<Rightarrow> bytes list \<Rightarrow> bytes list" where
  "resolve_components dir [] = dir"
| "resolve_components dir (c # cs) =
     (if c = [] \<or> c = ascii ''.'' then resolve_components dir cs
      else if c = ascii ''..'' then resolve_components (butlast dir) cs
      else resolve_components (dir @ [c]) cs)"

definition resolve_path :: "bytes list \<Rightarrow> bytes \<Rightarrow> bytes list" where
  "resolve_path root p =
     (if p \<noteq> [] \<and> hd p = 47 then resolve_components [] (split_on 47 p)
      else resolve_components root (split_on 47 p))"

definition ordinary_component :: "bytes \<Rightarrow> bool" where
  "ordinary_component c \<longleftrightarrow> c \<noteq> [] \<and> c \<noteq> ascii ''.'' \<and> c \<noteq> ascii ''..''"

lemma resolve_ordinary:
  "list_all ordinary_component cs \<Longrightarrow> resolve_components dir cs = dir @ cs"
  by (induction cs arbitrary: dir) (auto simp: ordinary_component_def)

lemma validate_component_ordinary:
  "validate_component c i = Inr () \<Longrightarrow> ordinary_component c"
  by (auto simp: validate_component_def ordinary_component_def split: if_splits)

lemma path_validate_components:
  assumes "path_validate p m = Inr ()"
  shows "list_all ordinary_component (split_on 47 p)"
proof -
  from assms have ok: "\<forall>(i, c)\<in>set (enumerate 0 (split_on 47 p)). validate_component c i = Inr ()"
    by (auto simp: path_validate_def split: if_splits)
  have "ordinary_component c" if "c \<in> set (split_on 47 p)" for c
  proof -
    from that have "c \<in> snd ` set (enumerate 0 (split_on 47 p))"
      by (simp flip: set_map)
    with ok obtain i where "validate_component c i = Inr ()" by fastforce
    then show ?thesis by (rule validate_component_ordinary)
  qed
  then show ?thesis by (simp add: list_all_iff)
qed

lemma path_validate_first:
  assumes "path_validate p m = Inr ()"
  shows "validate_component (hd (split_on 47 p)) 0 = Inr ()"
proof -
  obtain c cs where cs: "split_on 47 p = c # cs" by (cases "split_on 47 p") simp_all
  with assms show ?thesis by (auto simp: path_validate_def and_then_eq_Inr split: if_splits)
qed

lemma path_validate_bytes:
  assumes "path_validate p m = Inr ()"
  shows "p \<noteq> []" "length p \<le> m" "hd p \<noteq> 47"
    "\<And>b. b \<in> set p \<Longrightarrow> b \<noteq> 92 \<and> b \<noteq> 58 \<and> 0x1f < b \<and> b \<noteq> 0x7f"
  using assms by (auto simp: path_validate_def list_ex_iff not_le split: if_splits)

text \<open>
  C19. A path that passes \<open>RelativeArtifactPath::with_max_bytes\<close> stays confined: whatever root it is
  resolved below, its target is that root extended by exactly the path's own components (at
  least one, so never the root itself), it never enters the reserved \<open>.rebyte\<close> directory in any
  letter case, and it contains no backslash, colon or control byte that another platform
  would read as a separator, a drive or a terminator.
\<close>

theorem path_confinement:
  assumes "path_with_max_bytes p m = Inr q"
  shows "as_str q = p \<and> split_on 47 p \<noteq> [] \<and>
    (\<forall>root. resolve_path root (as_str q) = root @ split_on 47 p) \<and>
    \<not> eq_ignore_ascii_case (hd (split_on 47 p)) (ascii ''.rebyte'') \<and>
    (\<forall>b\<in>set p. b \<noteq> 92 \<and> b \<noteq> 58 \<and> 0x1f < b \<and> b \<noteq> 0x7f)"
proof -
  from assms have v: "path_validate p m = Inr ()" and q: "q = RelativeArtifactPath p"
    by (auto simp: path_with_max_bytes_def and_then_eq_Inr)
  have "resolve_path root (as_str q) = root @ split_on 47 p" for root
    using path_validate_bytes [OF v] resolve_ordinary [OF path_validate_components [OF v]]
    by (simp add: resolve_path_def q)
  moreover have "\<not> eq_ignore_ascii_case (hd (split_on 47 p)) (ascii ''.rebyte'')"
    using path_validate_first [OF v] by (auto simp: validate_component_def split: if_splits)
  ultimately show ?thesis
    using path_validate_bytes(4) [OF v] q by simp
qed

theorem path_confinement_witness:
  "path_with_max_bytes (ascii ''docs/guide.md'') 1024 = Inr (RelativeArtifactPath (ascii ''docs/guide.md'')) \<and>
   resolve_path [ascii ''srv''] (ascii ''docs/guide.md'') =
     [ascii ''srv'', ascii ''docs'', ascii ''guide.md'']"
proof -
  have ok: "path_with_max_bytes (ascii ''docs/guide.md'') 1024 =
      Inr (RelativeArtifactPath (ascii ''docs/guide.md''))" by code_simp
  have "split_on 47 (ascii ''docs/guide.md'') = [ascii ''docs'', ascii ''guide.md'']" by code_simp
  with path_confinement [OF ok] ok show ?thesis by simp
qed

end
