(* ===== verification/Rap_Codec.thy ===== *)
theory Rap_Codec
  imports Rap_Format
begin

text \<open>
  The crate \<open>rebyte-codec\<close>: the canonical binary encoding of RAP v1 (\<open>encode.rs\<close>), the bounded
  cursor and the decoder (\<open>decode.rs\<close>), and the \<open>rb1_\<close> token adapter (\<open>token.rs\<close>). The
  Base64URL engine is third-party code and enters as a record of two functions.
\<close>

section \<open>Errors and decoded capsules (error.rs, model.rs)\<close>

datatype codec_error =
    InputTooLarge u64 u64
  | LengthOverflow
  | UnexpectedEof
  | TrailingBytes
  | InvalidMagic
  | NonZeroReserved
  | InvalidManifestVersion u16
  | InvalidOptionalTag u8
  | InvalidBoolean u8
  | InvalidUtf8
  | NonCanonicalPathOrder
  | NonContiguousPayload
  | FileCountMismatch
  | PayloadSizeMismatch
  | InvalidTextContent
  | InvalidTokenPrefix
  | InvalidTokenAlphabet
  | InvalidBase64
  | CodecFormat format_error
  | CodecPath path_error

datatype signature_bytes = SignatureBytes (signature_raw: bytes)

record decoded_capsule =
  header :: capsule_header
  manifest :: capsule_manifest
  compressed_payload :: bytes
  capsule_digest :: digest32
  signature :: signature_bytes

section \<open>Encoding (encode.rs)\<close>

definition push_u16 :: "bytes \<Rightarrow> u16 \<Rightarrow> bytes" where
  "push_u16 output value = output @ u16_to_be_bytes value"

definition push_u32 :: "bytes \<Rightarrow> u32 \<Rightarrow> bytes" where
  "push_u32 output value = output @ u32_to_be_bytes value"

definition push_u64 :: "bytes \<Rightarrow> u64 \<Rightarrow> bytes" where
  "push_u64 output value = output @ u64_to_be_bytes value"

definition push_string :: "bytes \<Rightarrow> bytes \<Rightarrow> codec_error + bytes" where
  "push_string output value =
     and_then (try_from_usize LengthOverflow (length value)) (\<lambda>len.
       Inr (push_u32 output len @ value))"

definition push_optional_string :: "bytes \<Rightarrow> bytes option \<Rightarrow> codec_error + bytes" where
  "push_optional_string output value =
     (case value of
        Some v \<Rightarrow> push_string (output @ [1]) v
      | None \<Rightarrow> Inr (output @ [0]))"

definition validate_entries_step ::
    "relative_artifact_path option \<times> u64 \<Rightarrow> file_entry \<Rightarrow> codec_error + (relative_artifact_path option \<times> u64)" where
  "validate_entries_step st entry =
     (case st of (previous_path, expected_offset) \<Rightarrow>
      if (case previous_path of None \<Rightarrow> False | Some previous \<Rightarrow> path entry \<le> previous)
      then Inl NonCanonicalPathOrder
      else if offset entry \<noteq> expected_offset \<or> max_single_file_bytes limits_V1 < size entry
      then Inl NonContiguousPayload
      else and_then (ok_or LengthOverflow (checked_add expected_offset (size entry))) (\<lambda>expected_offset.
             Inr (Some (path entry), expected_offset)))"

definition validate_entries :: "file_entry list \<Rightarrow> codec_error + u64" where
  "validate_entries entries =
     and_then (try_fold validate_entries_step (None, 0) entries) (\<lambda>(_, expected_offset).
       Inr expected_offset)"

definition encode_entry :: "bytes \<Rightarrow> file_entry \<Rightarrow> codec_error + bytes" where
  "encode_entry output entry =
     and_then (push_string output (as_str (path entry))) (\<lambda>output.
       let output = output @ [operation_as_u8 (operation entry)];
           output = output @ [content_kind_as_u8 (content_kind entry)];
           output = output @ [if executable entry then 1 else 0];
           output = output @ [0];
           output = push_u64 output (offset entry);
           output = push_u64 output (size entry)
       in Inr (output @ digest_bytes (digest entry)))"

definition encode_header :: "capsule_header \<Rightarrow> codec_error + bytes" where
  "encode_header h =
     and_then (map_err CodecFormat (header_validate h limits_V1)) (\<lambda>_.
       let output = MAGIC;
           output = push_u16 output (get (protocol_version h));
           output = push_u16 output (header_size h);
           output = push_u32 output (flags h);
           output = output @ [compression_as_u8 (compression h)];
           output = output @ [signature_as_u8 (signature_alg h)];
           output = push_u16 output 0;
           output = push_u64 output (manifest_size h);
           output = push_u64 output (compressed_payload_size h);
           output = push_u64 output (uncompressed_payload_size h);
           output = push_u32 output (file_count h);
           output = push_u32 output 0
       in Inr (output @ key_id_bytes (publisher_key_id h)))"

definition encode_manifest :: "capsule_manifest \<Rightarrow> codec_error + bytes" where
  "encode_manifest m =
     and_then (validate_entries (files m)) (\<lambda>_.
     let output = push_u16 [] 1; output = push_u16 output 0 in
     and_then (push_optional_string output (map_option bounded_str (capsule_name m))) (\<lambda>output.
     and_then (push_optional_string output (map_option bounded_str (description m))) (\<lambda>output.
     and_then (push_string output (bounded_str (producer_name (producer m)))) (\<lambda>output.
     and_then (push_optional_string output (map_option bounded_str (producer_version (producer m)))) (\<lambda>output.
       try_fold encode_entry output (files m))))))"

definition ensure_declared_lengths :: "decoded_capsule \<Rightarrow> nat \<Rightarrow> codec_error + unit" where
  "ensure_declared_lengths capsule manifest_len =
     and_then (try_from_usize LengthOverflow manifest_len) (\<lambda>manifest_len.
     and_then (try_from_usize LengthOverflow (length (compressed_payload capsule))) (\<lambda>payload_len.
     and_then (try_from_usize LengthOverflow (length (files (manifest capsule)))) (\<lambda>count.
       if manifest_size (header capsule) \<noteq> manifest_len
          \<or> compressed_payload_size (header capsule) \<noteq> payload_len
          \<or> file_count (header capsule) \<noteq> count
       then Inl FileCountMismatch
       else and_then (validate_entries (files (manifest capsule))) (\<lambda>total.
         if total \<noteq> uncompressed_payload_size (header capsule) then Inl PayloadSizeMismatch
         else Inr ()))))"

definition encode_capsule :: "decoded_capsule \<Rightarrow> codec_error + bytes" where
  "encode_capsule capsule =
     and_then (encode_header (header capsule)) (\<lambda>hd_bytes.
     and_then (encode_manifest (manifest capsule)) (\<lambda>mf_bytes.
     and_then (ensure_declared_lengths capsule (length mf_bytes)) (\<lambda>_.
     and_then (ok_or LengthOverflow
         (Option.bind (Option.bind
            (usize_checked_add (length hd_bytes) (length mf_bytes))
            (\<lambda>value. usize_checked_add value (length (compressed_payload capsule))))
            (\<lambda>value. usize_checked_add value (32 + 64)))) (\<lambda>capacity.
       Inr (hd_bytes @ mf_bytes @ compressed_payload capsule
            @ digest_bytes (capsule_digest capsule) @ signature_raw (signature capsule))))))"

section \<open>The cursor (decode.rs)\<close>

record cursor =
  input :: bytes
  position :: nat

definition cursor_new :: "bytes \<Rightarrow> cursor" where
  "cursor_new bs = \<lparr> input = bs, position = 0 \<rparr>"

definition remaining :: "cursor \<Rightarrow> nat" where
  "remaining c = length (input c) - position c"

definition read_array :: "nat \<Rightarrow> cursor \<Rightarrow> codec_error + bytes \<times> cursor" where
  "read_array n c =
     and_then (ok_or LengthOverflow (usize_checked_add (position c) n)) (\<lambda>end_pos.
     and_then (ok_or UnexpectedEof (slice_get (position c) end_pos (input c))) (\<lambda>bs.
     and_then (array_of_slice UnexpectedEof n bs) (\<lambda>arr.
       Inr (arr, c\<lparr> position := end_pos \<rparr>))))"

definition read_u8 :: "cursor \<Rightarrow> codec_error + u8 \<times> cursor" where
  "read_u8 c = and_then (read_array 1 c) (\<lambda>(bs, c). Inr (bs ! 0, c))"

definition read_u16 :: "cursor \<Rightarrow> codec_error + u16 \<times> cursor" where
  "read_u16 c = and_then (read_array 2 c) (\<lambda>(bs, c). Inr (u16_from_be_bytes bs, c))"

definition read_u32 :: "cursor \<Rightarrow> codec_error + u32 \<times> cursor" where
  "read_u32 c = and_then (read_array 4 c) (\<lambda>(bs, c). Inr (u32_from_be_bytes bs, c))"

definition read_u64 :: "cursor \<Rightarrow> codec_error + u64 \<times> cursor" where
  "read_u64 c = and_then (read_array 8 c) (\<lambda>(bs, c). Inr (u64_from_be_bytes bs, c))"

definition read_string :: "nat \<Rightarrow> cursor \<Rightarrow> codec_error + bytes \<times> cursor" where
  "read_string maximum c =
     and_then (read_u32 c) (\<lambda>(len, c).
     and_then (usize_try_from LengthOverflow len) (\<lambda>len.
       if maximum < len
       then and_then (try_from_usize LengthOverflow maximum) (\<lambda>m.
            and_then (try_from_usize LengthOverflow len) (\<lambda>a. Inl (InputTooLarge m a)))
       else
         and_then (ok_or LengthOverflow (usize_checked_add (position c) len)) (\<lambda>end_pos.
         and_then (ok_or UnexpectedEof (slice_get (position c) end_pos (input c))) (\<lambda>bs.
           if from_utf8 bs then Inr (bs, c\<lparr> position := end_pos \<rparr>) else Inl InvalidUtf8))))"

section \<open>Decoding (decode.rs)\<close>

definition read_bounded :: "nat \<Rightarrow> string \<Rightarrow> cursor \<Rightarrow> codec_error + bounded_string \<times> cursor" where
  "read_bounded mx field c =
     and_then (read_string mx c) (\<lambda>(value, c).
     and_then (map_err CodecFormat (bounded_string_new mx value field)) (\<lambda>s. Inr (s, c)))"

definition read_optional_bounded ::
    "nat \<Rightarrow> string \<Rightarrow> cursor \<Rightarrow> codec_error + bounded_string option \<times> cursor" where
  "read_optional_bounded mx field c =
     and_then (read_u8 c) (\<lambda>(tag, c).
       if tag = 0 then Inr (None, c)
       else if tag = 1 then and_then (read_bounded mx field c) (\<lambda>(s, c). Inr (Some s, c))
       else Inl (InvalidOptionalTag tag))"

definition read_array_from_range :: "nat \<Rightarrow> bytes \<Rightarrow> nat \<Rightarrow> nat \<Rightarrow> codec_error + bytes" where
  "read_array_from_range n bs start end_pos =
     and_then (ok_or UnexpectedEof (slice_get start end_pos bs)) (array_of_slice UnexpectedEof n)"

definition enforce_input_limit :: "nat \<Rightarrow> u64 \<Rightarrow> codec_error + unit" where
  "enforce_input_limit actual maximum =
     and_then (try_from_usize LengthOverflow actual) (\<lambda>actual.
       if maximum < actual then Inl (InputTooLarge maximum actual) else Inr ())"

definition decode_entry :: "cursor \<Rightarrow> security_limits \<Rightarrow> codec_error + file_entry \<times> cursor" where
  "decode_entry c limits =
     and_then (read_string (max_path_bytes limits) c) (\<lambda>(p, c).
     and_then (map_err CodecPath (path_with_max_bytes p (max_path_bytes limits))) (\<lambda>p.
     and_then (read_u8 c) (\<lambda>(op, c).
     and_then (map_err CodecFormat (operation_try_from op)) (\<lambda>op.
     and_then (read_u8 c) (\<lambda>(kind, c).
     and_then (map_err CodecFormat (content_kind_try_from kind)) (\<lambda>kind.
     and_then (read_u8 c) (\<lambda>(exe, c).
     and_then (if exe = 0 then Inr False else if exe = 1 then Inr True else Inl (InvalidBoolean exe)) (\<lambda>exe.
     and_then (read_u8 c) (\<lambda>(reserved, c).
       if reserved \<noteq> 0 then Inl NonZeroReserved else
     and_then (read_u64 c) (\<lambda>(off, c).
     and_then (read_u64 c) (\<lambda>(sz, c).
       if max_single_file_bytes limits < sz then Inl (InputTooLarge (max_single_file_bytes limits) sz) else
     and_then (read_array 32 c) (\<lambda>(d, c).
       Inr (\<lparr> path = p, operation = op, content_kind = kind, executable = exe,
              offset = off, size = sz, digest = Digest32 d \<rparr>, c)))))))))))))"

fun decode_files ::
    "nat \<Rightarrow> security_limits \<Rightarrow> file_entry list \<Rightarrow> u64 \<Rightarrow> cursor \<Rightarrow> codec_error + (file_entry list \<times> u64) \<times> cursor" where
  "decode_files 0 limits fs expected_offset c = Inr ((fs, expected_offset), c)"
| "decode_files (Suc n) limits fs expected_offset c =
     and_then (decode_entry c limits) (\<lambda>(entry, c).
       if fs \<noteq> [] \<and> path entry \<le> path (last fs) then Inl NonCanonicalPathOrder
       else if offset entry \<noteq> expected_offset then Inl NonContiguousPayload
       else and_then (ok_or LengthOverflow (checked_add expected_offset (size entry))) (\<lambda>expected_offset.
              decode_files n limits (fs @ [entry]) expected_offset c))"

definition decode_manifest :: "bytes \<Rightarrow> capsule_header \<Rightarrow> security_limits \<Rightarrow> codec_error + capsule_manifest" where
  "decode_manifest bs h limits =
     and_then (read_u16 (cursor_new bs)) (\<lambda>(version, c).
       if version \<noteq> 1 then Inl (InvalidManifestVersion version) else
     and_then (read_u16 c) (\<lambda>(reserved, c).
       if reserved \<noteq> 0 then Inl NonZeroReserved else
     and_then (read_optional_bounded MAX_CAPSULE_NAME_BYTES ''capsule name'' c) (\<lambda>(nm, c).
     and_then (read_optional_bounded MAX_DESCRIPTION_BYTES ''description'' c) (\<lambda>(descr, c).
     and_then (read_bounded MAX_PRODUCER_NAME_BYTES ''producer name'' c) (\<lambda>(pname, c).
     and_then (read_optional_bounded MAX_PRODUCER_VERSION_BYTES ''producer version'' c) (\<lambda>(pversion, c).
     and_then (usize_try_from LengthOverflow (file_count h)) (\<lambda>count.
     and_then (decode_files count limits [] 0 c) (\<lambda>((fs, expected_offset), c).
       if remaining c \<noteq> 0 then Inl TrailingBytes
       else if length fs \<noteq> count then Inl FileCountMismatch
       else if expected_offset \<noteq> uncompressed_payload_size h then Inl PayloadSizeMismatch
       else Inr \<lparr> capsule_name = nm, description = descr,
                 producer = \<lparr> producer_name = pname, producer_version = pversion \<rparr>,
                 files = fs \<rparr>))))))))"

definition decode_header :: "bytes \<Rightarrow> security_limits \<Rightarrow> codec_error + capsule_header" where
  "decode_header bs limits =
     (if length bs < unat HEADER_SIZE_V1 then Inl UnexpectedEof
      else if unat HEADER_SIZE_V1 < length bs then Inl TrailingBytes
      else
     and_then (read_array 4 (cursor_new bs)) (\<lambda>(magic, c).
       if magic \<noteq> MAGIC then Inl InvalidMagic else
     and_then (read_u16 c) (\<lambda>(version, c).
     and_then (map_err CodecFormat (protocol_version_try_from version)) (\<lambda>version.
     and_then (read_u16 c) (\<lambda>(hsize, c).
     and_then (read_u32 c) (\<lambda>(fl, c).
     and_then (read_u8 c) (\<lambda>(comp, c).
     and_then (map_err CodecFormat (compression_try_from comp)) (\<lambda>comp.
     and_then (read_u8 c) (\<lambda>(sig, c).
     and_then (map_err CodecFormat (signature_try_from sig)) (\<lambda>sig.
     and_then (read_u16 c) (\<lambda>(reserved, c).
       if reserved \<noteq> 0 then Inl NonZeroReserved else
     and_then (read_u64 c) (\<lambda>(msize, c).
     and_then (read_u64 c) (\<lambda>(csize, c).
     and_then (read_u64 c) (\<lambda>(usize, c).
     and_then (read_u32 c) (\<lambda>(count, c).
     and_then (read_u32 c) (\<lambda>(reserved, c).
       if reserved \<noteq> 0 then Inl NonZeroReserved else
     and_then (read_array 32 c) (\<lambda>(kid, c).
       if position c \<noteq> unat HEADER_SIZE_V1 then Inl TrailingBytes else
       let h = \<lparr> protocol_version = version, header_size = hsize, flags = fl,
                 compression = comp, signature_alg = sig, manifest_size = msize,
                 compressed_payload_size = csize, uncompressed_payload_size = usize,
                 file_count = count, publisher_key_id = KeyId kid \<rparr>
       in and_then (map_err CodecFormat (header_validate h limits)) (\<lambda>_. Inr h))))))))))))))))))"

definition decode_capsule :: "bytes \<Rightarrow> security_limits \<Rightarrow> codec_error + decoded_capsule" where
  "decode_capsule bs limits =
     and_then (enforce_input_limit (length bs) (max_capsule_bytes limits)) (\<lambda>_.
     and_then (ok_or UnexpectedEof (slice_get 0 (unat HEADER_SIZE_V1) bs)) (\<lambda>header_bytes.
     and_then (decode_header header_bytes limits) (\<lambda>h.
     and_then (usize_try_from LengthOverflow (manifest_size h)) (\<lambda>manifest_len.
     and_then (usize_try_from LengthOverflow (compressed_payload_size h)) (\<lambda>payload_len.
     and_then (ok_or LengthOverflow
         (Option.bind (Option.bind
            (usize_checked_add (unat HEADER_SIZE_V1) manifest_len)
            (\<lambda>value. usize_checked_add value payload_len))
            (\<lambda>value. usize_checked_add value (32 + 64)))) (\<lambda>expected_len.
       if length bs < expected_len then Inl UnexpectedEof
       else if expected_len < length bs then Inl TrailingBytes else
     let manifest_start = unat HEADER_SIZE_V1 in
     and_then (ok_or LengthOverflow (usize_checked_add manifest_start manifest_len)) (\<lambda>manifest_end.
     and_then (ok_or LengthOverflow (usize_checked_add manifest_end payload_len)) (\<lambda>payload_end.
     and_then (ok_or LengthOverflow (usize_checked_add payload_end 32)) (\<lambda>digest_end.
     and_then (ok_or UnexpectedEof (slice_get manifest_start manifest_end bs)) (\<lambda>manifest_bytes.
     and_then (decode_manifest manifest_bytes h limits) (\<lambda>m.
     and_then (ok_or UnexpectedEof (slice_get manifest_end payload_end bs)) (\<lambda>payload.
     and_then (read_array_from_range 32 bs payload_end digest_end) (\<lambda>d.
     and_then (read_array_from_range 64 bs digest_end expected_len) (\<lambda>s.
       Inr \<lparr> header = h, manifest = m, compressed_payload = payload,
             capsule_digest = Digest32 d, signature = SignatureBytes s \<rparr>))))))))))))))"

section \<open>Tokens (token.rs)\<close>

record base64_engine =
  b64_encode :: "bytes \<Rightarrow> bytes"
  b64_decode :: "bytes \<Rightarrow> bytes option"

definition TOKEN_PREFIX :: bytes where
  "TOKEN_PREFIX = ascii ''rb1_''"

definition base64url_byte :: "u8 \<Rightarrow> bool" where
  "base64url_byte b \<longleftrightarrow> is_ascii_alphanumeric b \<or> b = 45 \<or> b = 95"

definition encode_token :: "base64_engine \<Rightarrow> bytes \<Rightarrow> bytes" where
  "encode_token b64 capsule = TOKEN_PREFIX @ b64_encode b64 capsule"

definition decode_token :: "base64_engine \<Rightarrow> bytes \<Rightarrow> security_limits \<Rightarrow> codec_error + bytes" where
  "decode_token b64 token limits =
     and_then (try_from_usize LengthOverflow (length token)) (\<lambda>token_len.
       if max_token_bytes limits < token_len
       then Inl (InputTooLarge (max_token_bytes limits) token_len)
       else
     and_then (ok_or InvalidTokenPrefix (strip_prefix TOKEN_PREFIX token)) (\<lambda>payload.
       if payload = [] \<or> list_ex (\<lambda>b. \<not> base64url_byte b) payload then Inl InvalidTokenAlphabet
       else ok_or InvalidBase64 (b64_decode b64 payload)))"

text \<open>
  The documented behaviour of the \<open>base64\<close> crate's \<open>URL_SAFE_NO_PAD\<close> engine that the sources
  rely on: decoding inverts encoding, the output is unpadded Base64URL, and its length is
  \<open>ceil (4 n / 3)\<close>.
\<close>

definition base64_contract :: "base64_engine \<Rightarrow> bool" where
  "base64_contract b64 \<longleftrightarrow>
     (\<forall>bs. b64_decode b64 (b64_encode b64 bs) = Some bs) \<and>
     (\<forall>bs. list_all base64url_byte (b64_encode b64 bs)) \<and>
     (\<forall>bs. length (b64_encode b64 bs) = (4 * length bs + 2) div 3)"

end
