(* ===== verification/Rap_Codec_Correct.thy ===== *)
theory Rap_Codec_Correct
  imports Rap_Codec
begin

text \<open>
  Correctness of the RAP v1 codec: the cursor is a \<open>byte_reader\<close>, every field reader inverts its
  writer, and from that the capsule encoding is canonical in both directions.
\<close>

section \<open>The cursor implements the reader interface\<close>

definition cursor_at :: "bytes \<Rightarrow> bytes \<Rightarrow> cursor" where
  "cursor_at pre post = \<lparr> input = pre @ post, position = length pre \<rparr>"

lemma cursor_new_at: "cursor_new bs = cursor_at [] bs"
  by (simp add: cursor_new_def cursor_at_def)

lemma position_cursor_at [simp]: "position (cursor_at pre post) = length pre"
  by (simp add: cursor_at_def)

lemma remaining_cursor_at [simp]: "remaining (cursor_at pre post) = length post"
  by (simp add: cursor_at_def remaining_def)

interpretation cu: byte_reader read_array cursor_at
proof unfold_locales
  fix pre bs r :: bytes
  assume "length pre + length bs \<le> usize_max"
  then show "read_array (length bs) (cursor_at pre (bs @ r)) = Inr (bs, cursor_at (pre @ bs) r)"
    by (simp add: read_array_def cursor_at_def usize_checked_add_ok array_of_slice_def)
next
  fix n and pre post bs :: bytes and c
  assume "read_array n (cursor_at pre post) = Inr (bs, c)"
  then have "slice_get (length pre) (length pre + n) (pre @ post) = Some bs" "length bs = n"
    and c: "c = \<lparr> input = pre @ post, position = length pre + n \<rparr>"
    by (auto simp: read_array_def cursor_at_def and_then_eq_Inr)
  then show "length bs = n \<and> (\<exists>r. post = bs @ r \<and> c = cursor_at (pre @ bs) r)"
    unfolding slice_get_at by (auto simp: cursor_at_def)
qed

section \<open>Field readers\<close>

definition wire_string :: "bytes \<Rightarrow> bytes" where
  "wire_string s = u32_to_be_bytes (of_nat (length s)) @ s"

lemma length_wire_string [simp, wire_lengths]: "length (wire_string s) = 4 + length s"
  by (simp add: wire_string_def)

lemma reads_u8: "cu.reads read_u8 (\<lambda>b. [b]) (\<lambda>_. True)"
  using cu.reads_be8 by (simp add: read_u8_def [abs_def])

lemma reads_u16: "cu.reads read_u16 u16_to_be_bytes (\<lambda>_. True)"
  using cu.reads_be16 by (simp add: read_u16_def [abs_def])

lemma reads_u32: "cu.reads read_u32 u32_to_be_bytes (\<lambda>_. True)"
  using cu.reads_be32 by (simp add: read_u32_def [abs_def])

lemma reads_u64: "cu.reads read_u64 u64_to_be_bytes (\<lambda>_. True)"
  using cu.reads_be64 by (simp add: read_u64_def [abs_def])

lemma read_u8_at [wire_simps]:
  "length pre + 1 \<le> usize_max \<Longrightarrow> read_u8 (cursor_at pre (b # r)) = Inr (b, cursor_at (pre @ [b]) r)"
  using cu.reads_fwd [OF reads_u8, where x = b] by simp

lemma read_ints_at [wire_simps]:
  "length pre + 2 \<le> usize_max \<Longrightarrow>
   read_u16 (cursor_at pre (u16_to_be_bytes a @ r)) = Inr (a, cursor_at (pre @ u16_to_be_bytes a) r)"
  "length pre + 4 \<le> usize_max \<Longrightarrow>
   read_u32 (cursor_at pre (u32_to_be_bytes b @ r)) = Inr (b, cursor_at (pre @ u32_to_be_bytes b) r)"
  "length pre + 8 \<le> usize_max \<Longrightarrow>
   read_u64 (cursor_at pre (u64_to_be_bytes d @ r)) = Inr (d, cursor_at (pre @ u64_to_be_bytes d) r)"
  using cu.reads_fwd [OF reads_u16, where x = a] cu.reads_fwd [OF reads_u32, where x = b]
    cu.reads_fwd [OF reads_u64, where x = d] by simp_all

lemma read_array_at [wire_simps]:
  "length bs = n \<Longrightarrow> length pre + n \<le> usize_max \<Longrightarrow>
   read_array n (cursor_at pre (bs @ r)) = Inr (bs, cursor_at (pre @ bs) r)"
  using cu.take_n_ok by blast

lemma read_array_at_end:
  "length bs = n \<Longrightarrow> length pre + n \<le> usize_max \<Longrightarrow>
   read_array n (cursor_at pre bs) = Inr (bs, cursor_at (pre @ bs) [])"
  using read_array_at [of bs n pre "[]"] by simp

lemma read_u8_E:
  assumes "read_u8 (cursor_at pre post) = Inr (b, c)"
  obtains r where "post = b # r" "c = cursor_at (pre @ [b]) r"
  using cu.reads_bwd [OF reads_u8 assms] by auto

lemma read_u16_E:
  assumes "read_u16 (cursor_at pre post) = Inr (v, c)"
  obtains r where "post = u16_to_be_bytes v @ r" "c = cursor_at (pre @ u16_to_be_bytes v) r"
  using cu.reads_bwd [OF reads_u16 assms] by auto

lemma read_u32_E:
  assumes "read_u32 (cursor_at pre post) = Inr (v, c)"
  obtains r where "post = u32_to_be_bytes v @ r" "c = cursor_at (pre @ u32_to_be_bytes v) r"
  using cu.reads_bwd [OF reads_u32 assms] by auto

lemma read_u64_E:
  assumes "read_u64 (cursor_at pre post) = Inr (v, c)"
  obtains r where "post = u64_to_be_bytes v @ r" "c = cursor_at (pre @ u64_to_be_bytes v) r"
  using cu.reads_bwd [OF reads_u64 assms] by auto

lemma read_array_E:
  assumes "read_array n (cursor_at pre post) = Inr (bs, c)"
  obtains r where "length bs = n" "post = bs @ r" "c = cursor_at (pre @ bs) r"
  using cu.reads_bwd [OF cu.reads_take_n assms] by auto

lemma reads_string:
  "cu.reads (read_string mx) wire_string (\<lambda>s. length s \<le> mx \<and> length s < 2 ^ 32 \<and> from_utf8 s)"
proof (rule cu.readsI)
  fix pre r s :: bytes
  assume s: "length s \<le> mx \<and> length s < 2 ^ 32 \<and> from_utf8 s"
    and len: "length pre + length (wire_string s) \<le> usize_max"
  have "unat (of_nat (length s) :: u32) = length s" using s by (simp add: unat_of_nat)
  then show "read_string mx (cursor_at pre (wire_string s @ r)) = Inr (s, cursor_at (pre @ wire_string s) r)"
    using s len
    by (simp add: read_string_def wire_string_def wire_simps usize_checked_add_ok)
       (simp add: cursor_at_def slice_get_def)
next
  fix pre post s :: bytes and c
  assume rd: "read_string mx (cursor_at pre post) = Inr (s, c)"
  then obtain len c1 where len: "read_u32 (cursor_at pre post) = Inr (len, c1)"
    by (auto simp: read_string_def and_then_eq_Inr)
  then obtain r where post: "post = u32_to_be_bytes len @ r"
    and c1: "c1 = cursor_at (pre @ u32_to_be_bytes len) r" by (rule read_u32_E)
  let ?q = "pre @ u32_to_be_bytes len"
  from rd len c1 have "unat len \<le> mx" "from_utf8 s"
    and sl: "slice_get (length ?q) (length ?q + unat len) (?q @ r) = Some s"
    and c: "c = \<lparr> input = ?q @ r, position = length ?q + unat len \<rparr>"
    by (auto simp: read_string_def cursor_at_def and_then_eq_Inr split: if_splits)
  moreover from sl obtain r' where "r = s @ r'" "unat len = length s"
    unfolding slice_get_at by auto
  moreover from this have "len = of_nat (length s)" by (simp flip: \<open>unat len = length s\<close>)
  moreover have "unat len < 2 ^ 32" using unsigned_less [of len, where ?'a = nat] by simp
  ultimately show "(length s \<le> mx \<and> length s < 2 ^ 32 \<and> from_utf8 s) \<and>
      (\<exists>r. post = wire_string s @ r \<and> c = cursor_at (pre @ wire_string s) r)"
    using post by (simp add: wire_string_def cursor_at_def)
qed

lemma read_string_at [wire_simps]:
  "length s \<le> mx \<Longrightarrow> length s < 2 ^ 32 \<Longrightarrow> from_utf8 s \<Longrightarrow> length pre + 4 + length s \<le> usize_max \<Longrightarrow>
   read_string mx (cursor_at pre (wire_string s @ r)) = Inr (s, cursor_at (pre @ wire_string s) r)"
  using cu.reads_fwd [OF reads_string, where x = s] by simp

lemma read_string_E:
  assumes "read_string mx (cursor_at pre post) = Inr (s, c)"
  obtains r where "length s \<le> mx" "length s < 2 ^ 32" "from_utf8 s"
    "post = wire_string s @ r" "c = cursor_at (pre @ wire_string s) r"
  using cu.reads_bwd [OF reads_string assms] by auto

definition wire_optional :: "bounded_string option \<Rightarrow> bytes" where
  "wire_optional s = (case s of None \<Rightarrow> [0] | Some v \<Rightarrow> 1 # wire_string (bounded_str v))"

lemma reads_bounded:
  assumes "mx < 2 ^ 32"
  shows "cu.reads (read_bounded mx f) (\<lambda>s. wire_string (bounded_str s)) (wf_bounded mx)"
proof (rule cu.readsI)
  fix pre r :: bytes and s
  assume "wf_bounded mx s" "length pre + length (wire_string (bounded_str s)) \<le> usize_max"
  then show "read_bounded mx f (cursor_at pre (wire_string (bounded_str s) @ r)) =
      Inr (s, cursor_at (pre @ wire_string (bounded_str s)) r)"
    using assms by (simp add: read_bounded_def wf_bounded_def wire_simps bounded_string_new_def)
next
  fix pre post s c
  assume "read_bounded mx f (cursor_at pre post) = Inr (s, c)"
  then show "wf_bounded mx s \<and>
      (\<exists>r. post = wire_string (bounded_str s) @ r \<and> c = cursor_at (pre @ wire_string (bounded_str s)) r)"
    by (auto simp: read_bounded_def wf_bounded_def and_then_eq_Inr elim!: read_string_E)
qed

lemma read_bounded_at [wire_simps]:
  "mx < 2 ^ 32 \<Longrightarrow> wf_bounded mx s \<Longrightarrow> length pre + 4 + length (bounded_str s) \<le> usize_max \<Longrightarrow>
   read_bounded mx f (cursor_at pre (wire_string (bounded_str s) @ r)) =
     Inr (s, cursor_at (pre @ wire_string (bounded_str s)) r)"
  using cu.reads_fwd [OF reads_bounded, where x = s] by simp

lemma read_bounded_E:
  assumes "read_bounded mx f (cursor_at pre post) = Inr (s, c)" "mx < 2 ^ 32"
  obtains r where "wf_bounded mx s" "post = wire_string (bounded_str s) @ r"
    "c = cursor_at (pre @ wire_string (bounded_str s)) r"
  using cu.reads_bwd [OF reads_bounded [OF assms(2)] assms(1)] by auto

lemma reads_optional:
  assumes "mx < 2 ^ 32"
  shows "cu.reads (read_optional_bounded mx f) wire_optional (pred_option (wf_bounded mx))"
proof (rule cu.readsI)
  fix pre r :: bytes and s
  assume "pred_option (wf_bounded mx) s" "length pre + length (wire_optional s) \<le> usize_max"
  then show "read_optional_bounded mx f (cursor_at pre (wire_optional s @ r)) =
      Inr (s, cursor_at (pre @ wire_optional s) r)"
    using assms by (cases s) (simp_all add: read_optional_bounded_def wire_optional_def wire_simps)
next
  fix pre post s c
  assume "read_optional_bounded mx f (cursor_at pre post) = Inr (s, c)"
  with assms show "pred_option (wf_bounded mx) s \<and>
      (\<exists>r. post = wire_optional s @ r \<and> c = cursor_at (pre @ wire_optional s) r)"
    by (auto simp: read_optional_bounded_def wire_optional_def and_then_eq_Inr
        elim!: read_u8_E read_bounded_E split: if_splits)
qed

lemma read_optional_at [wire_simps]:
  "mx < 2 ^ 32 \<Longrightarrow> pred_option (wf_bounded mx) s \<Longrightarrow> length pre + length (wire_optional s) \<le> usize_max \<Longrightarrow>
   read_optional_bounded mx f (cursor_at pre (wire_optional s @ r)) =
     Inr (s, cursor_at (pre @ wire_optional s) r)"
  using cu.reads_fwd [OF reads_optional, where x = s] by simp

lemma read_optional_E:
  assumes "read_optional_bounded mx f (cursor_at pre post) = Inr (s, c)" "mx < 2 ^ 32"
  obtains r where "pred_option (wf_bounded mx) s" "post = wire_optional s @ r"
    "c = cursor_at (pre @ wire_optional s) r"
  using cu.reads_bwd [OF reads_optional [OF assms(2)] assms(1)] by auto

lemmas wire_elims =
  read_u8_E read_u16_E read_u32_E read_u64_E read_array_E read_string_E

section \<open>File entries\<close>

definition wire_entry :: "file_entry \<Rightarrow> bytes" where
  "wire_entry e =
     wire_string (as_str (path e)) @
     [operation_as_u8 (operation e), content_kind_as_u8 (content_kind e), if executable e then 1 else 0, 0] @
     u64_to_be_bytes (offset e) @ u64_to_be_bytes (size e) @ digest_bytes (digest e)"

definition entry_ok :: "security_limits \<Rightarrow> file_entry \<Rightarrow> bool" where
  "entry_ok limits e \<longleftrightarrow>
     wf_entry (max_path_bytes limits) e \<and> length (as_str (path e)) < 2 ^ 32 \<and>
     size e \<le> max_single_file_bytes limits"

lemma length_wire_entry [wire_lengths]:
  "wf_digest (digest e) \<Longrightarrow> length (wire_entry e) = 56 + length (as_str (path e))"
  by (simp add: wire_entry_def wf_digest_def)

lemma path_with_max_bytes_ok:
  "path_validate (as_str p) m = Inr () \<Longrightarrow> path_with_max_bytes (as_str p) m = Inr p"
  by (simp add: path_with_max_bytes_def)

lemma path_with_max_bytes_inv:
  "path_with_max_bytes s m = Inr p \<longleftrightarrow> as_str p = s \<and> path_validate s m = Inr ()"
  by (auto simp: path_with_max_bytes_def and_then_eq_Inr)

lemma decode_entry_at:
  assumes "entry_ok limits e" "length pre + length (wire_entry e) \<le> usize_max"
  shows "decode_entry (cursor_at pre (wire_entry e @ r)) limits = Inr (e, cursor_at (pre @ wire_entry e) r)"
proof -
  have p: "path_validate (as_str (path e)) (max_path_bytes limits) = Inr ()"
    "from_utf8 (as_str (path e))" "length (as_str (path e)) < 2 ^ 32"
    "length (as_str (path e)) \<le> max_path_bytes limits"
    and d: "length (digest_bytes (digest e)) = 32" and sz: "\<not> max_single_file_bytes limits < size e"
    using assms(1) path_validate_bytes(2)
    by (auto simp: entry_ok_def wf_entry_def wf_path_def wf_digest_def)
  have "length pre + 56 + length (as_str (path e)) \<le> usize_max"
    using assms d by (simp add: length_wire_entry wf_digest_def)
  then show ?thesis
    using p d sz
    by (cases e) (simp add: decode_entry_def wire_entry_def wire_simps path_with_max_bytes_ok)
qed

lemma decode_entry_E:
  assumes "decode_entry (cursor_at pre post) limits = Inr (e, c)"
  obtains r where "entry_ok limits e" "post = wire_entry e @ r" "c = cursor_at (pre @ wire_entry e) r"
  using assms
  by (auto simp: decode_entry_def wire_entry_def entry_ok_def wf_entry_def wf_path_def wf_digest_def
      and_then_eq_Inr enum_try_from_inv path_with_max_bytes_inv elim!: wire_elims split: if_splits)

section \<open>Canonical layout of the entries\<close>

text \<open>
  \<open>layout prev off es t\<close>: the entries continue after path \<open>prev\<close> in strictly increasing order, their
  ranges follow each other without gap or overlap from \<open>off\<close>, and end at \<open>t\<close> without overflow.
\<close>

fun layout :: "relative_artifact_path option \<Rightarrow> u64 \<Rightarrow> file_entry list \<Rightarrow> u64 \<Rightarrow> bool" where
  "layout prev off [] t \<longleftrightarrow> off = t"
| "layout prev off (e # es) t \<longleftrightarrow>
     (case prev of None \<Rightarrow> True | Some p \<Rightarrow> p < path e) \<and> offset e = off \<and>
     unat (off + size e) = unat off + unat (size e) \<and>
     layout (Some (path e)) (off + size e) es t"

definition last_path :: "file_entry list \<Rightarrow> relative_artifact_path option" where
  "last_path fs = (if fs = [] then None else Some (path (last fs)))"

lemma last_path_simps [simp]: "last_path [] = None" "last_path (fs @ [e]) = Some (path e)"
  by (simp_all add: last_path_def)

lemma try_fold_validate_entries:
  "try_fold validate_entries_step (prev, off) es = Inr (q, t) \<longleftrightarrow>
     layout prev off es t \<and> q = (if es = [] then prev else Some (path (last es))) \<and>
     list_all (\<lambda>e. size e \<le> max_single_file_bytes limits_V1) es"
proof (induction es arbitrary: prev off)
  case Nil
  then show ?case by auto
next
  case (Cons e es)
  have "validate_entries_step (prev, off) e = Inr st \<longleftrightarrow>
      (case prev of None \<Rightarrow> True | Some p \<Rightarrow> p < path e) \<and> offset e = off \<and>
      size e \<le> max_single_file_bytes limits_V1 \<and> unat (off + size e) = unat off + unat (size e) \<and>
      st = (Some (path e), off + size e)" for st
    by (cases prev) (auto simp: validate_entries_step_def and_then_eq_Inr checked_add_eq_Some)
  then show ?case by (auto simp: and_then_eq_Inr Cons.IH)
qed

lemma validate_entries_eq_Inr:
  "validate_entries es = Inr t \<longleftrightarrow>
     layout None 0 es t \<and> list_all (\<lambda>e. size e \<le> max_single_file_bytes limits_V1) es"
  by (auto simp: validate_entries_def and_then_eq_Inr try_fold_validate_entries)

lemma layout_sorted:
  "layout prev off es t \<Longrightarrow>
   sorted_wrt (<) (map path es) \<and> (\<forall>p e. prev = Some p \<longrightarrow> e \<in> set es \<longrightarrow> p < path e)"
proof (induction prev off es t rule: layout.induct)
  case (2 prev off e es t)
  then have IH: "sorted_wrt (<) (map path es)" "\<forall>f\<in>set es. path e < path f" by auto
  moreover have "p < path f" if "prev = Some p" "f \<in> set (e # es)" for p f
  proof -
    from 2 that(1) have "p < path e" by simp
    with IH(2) that(2) show ?thesis by (auto dest: order.strict_trans)
  qed
  ultimately show ?case by simp
qed simp

lemma layout_total:
  "layout prev off es t \<Longrightarrow> unat t = unat off + sum_list (map (\<lambda>e. unat (size e)) es)"
  by (induction prev off es t rule: layout.induct) auto

lemma layout_ranges:
  "layout prev off es t \<Longrightarrow> i < length es \<Longrightarrow>
   unat (offset (es ! i)) = unat off + sum_list (map (\<lambda>e. unat (size e)) (take i es))"
proof (induction prev off es t arbitrary: i rule: layout.induct)
  case (2 prev off e es t)
  then show ?case by (cases i) auto
qed simp

lemma decode_files_at:
  assumes "list_all (entry_ok limits) es" "layout (last_path fs) off es t"
    "length pre + length (concat (map wire_entry es)) \<le> usize_max"
  shows "decode_files (length es) limits fs off (cursor_at pre (concat (map wire_entry es) @ r)) =
    Inr ((fs @ es, t), cursor_at (pre @ concat (map wire_entry es)) r)"
  using assms
proof (induction es arbitrary: fs off pre)
  case Nil
  then show ?case by simp
next
  case (Cons e es)
  have "\<not> (fs \<noteq> [] \<and> path e \<le> path (last fs))"
    using Cons.prems(2) by (auto simp: last_path_def)
  moreover have "checked_add off (size e) = Some (off + size e)"
    using Cons.prems(2) by (simp add: checked_add_eq_Some)
  ultimately show ?case
    using Cons.prems Cons.IH [of "fs @ [e]" "off + size e" "pre @ wire_entry e"]
    by (simp add: decode_entry_at)
qed

lemma decode_files_E:
  assumes "decode_files n limits fs off (cursor_at pre post) = Inr ((gs, t), c)"
  obtains es r where "gs = fs @ es" "length es = n" "list_all (entry_ok limits) es"
    "layout (last_path fs) off es t" "post = concat (map wire_entry es) @ r"
    "c = cursor_at (pre @ concat (map wire_entry es)) r"
  using assms
proof (induction n arbitrary: fs off pre post thesis)
  case 0
  then show ?case by simp
next
  case (Suc n)
  from Suc.prems(2) obtain e d where e: "decode_entry (cursor_at pre post) limits = Inr (e, d)"
    and ord: "\<not> (fs \<noteq> [] \<and> path e \<le> path (last fs))" and off: "offset e = off"
    and sum: "unat (off + size e) = unat off + unat (size e)"
    and rec: "decode_files n limits (fs @ [e]) (off + size e) d = Inr ((gs, t), c)"
    by (auto simp: and_then_eq_Inr checked_add_eq_Some split: if_splits prod.splits)
  from decode_entry_E [OF e] obtain r where r: "entry_ok limits e" "post = wire_entry e @ r"
    "d = cursor_at (pre @ wire_entry e) r" .
  from rec [unfolded r(3)] obtain es r' where es: "gs = (fs @ [e]) @ es" "length es = n"
    "list_all (entry_ok limits) es" "layout (Some (path e)) (off + size e) es t"
    "r = concat (map wire_entry es) @ r'"
    "c = cursor_at ((pre @ wire_entry e) @ concat (map wire_entry es)) r'"
    using Suc.IH [where fs = "fs @ [e]" and off = "off + size e" and pre = "pre @ wire_entry e" and post = r]
    by auto
  show ?case
    by (rule Suc.prems(1) [of "e # es" r'])
      (use es r ord off sum in \<open>auto simp: last_path_def\<close>)
qed

section \<open>Manifest, header and capsule\<close>

definition wire_manifest :: "capsule_manifest \<Rightarrow> bytes" where
  "wire_manifest m =
     u16_to_be_bytes 1 @ u16_to_be_bytes 0 @ wire_optional (capsule_name m) @
     wire_optional (description m) @ wire_string (bounded_str (producer_name (producer m))) @
     wire_optional (producer_version (producer m)) @ concat (map wire_entry (files m))"

definition wire_header :: "capsule_header \<Rightarrow> bytes" where
  "wire_header h =
     MAGIC @ u16_to_be_bytes (get (protocol_version h)) @ u16_to_be_bytes (header_size h) @
     u32_to_be_bytes (flags h) @ [compression_as_u8 (compression h), signature_as_u8 (signature_alg h)] @
     u16_to_be_bytes 0 @ u64_to_be_bytes (manifest_size h) @ u64_to_be_bytes (compressed_payload_size h) @
     u64_to_be_bytes (uncompressed_payload_size h) @ u32_to_be_bytes (file_count h) @
     u32_to_be_bytes 0 @ key_id_bytes (publisher_key_id h)"

definition wire_capsule :: "decoded_capsule \<Rightarrow> bytes" where
  "wire_capsule c =
     wire_header (header c) @ wire_manifest (manifest c) @ compressed_payload c @
     digest_bytes (capsule_digest c) @ signature_raw (signature c)"

text \<open>The manifests a decoder accepts for a header.\<close>

definition manifest_ok :: "security_limits \<Rightarrow> capsule_header \<Rightarrow> capsule_manifest \<Rightarrow> bool" where
  "manifest_ok limits h m \<longleftrightarrow>
     wf_manifest (max_path_bytes limits) m \<and> list_all (entry_ok limits) (files m) \<and>
     length (files m) = unat (file_count h) \<and>
     layout None 0 (files m) (uncompressed_payload_size h)"

lemma max_name_bounds:
  "MAX_CAPSULE_NAME_BYTES < 2 ^ 32" "MAX_DESCRIPTION_BYTES < 2 ^ 32"
  "MAX_PRODUCER_NAME_BYTES < 2 ^ 32" "MAX_PRODUCER_VERSION_BYTES < 2 ^ 32"
  by (simp_all add: MAX_CAPSULE_NAME_BYTES_def MAX_DESCRIPTION_BYTES_def
      MAX_PRODUCER_NAME_BYTES_def MAX_PRODUCER_VERSION_BYTES_def)

lemmas max_name_bounds_numeral [simp] = max_name_bounds [simplified]

lemma decode_manifest_wire:
  assumes "manifest_ok limits h m" "length (wire_manifest m) \<le> usize_max"
  shows "decode_manifest (wire_manifest m) h limits = Inr m"
proof -
  have wf: "pred_option (wf_bounded MAX_CAPSULE_NAME_BYTES) (capsule_name m)"
    "pred_option (wf_bounded MAX_DESCRIPTION_BYTES) (description m)"
    "wf_bounded MAX_PRODUCER_NAME_BYTES (producer_name (producer m))"
    "pred_option (wf_bounded MAX_PRODUCER_VERSION_BYTES) (producer_version (producer m))"
    and es: "list_all (entry_ok limits) (files m)" "length (files m) = unat (file_count h)"
    "layout None 0 (files m) (uncompressed_payload_size h)"
    using assms(1) by (auto simp: manifest_ok_def wf_manifest_def)
  have files: "decode_files (unat (file_count h)) limits [] 0 (cursor_at pre (concat (map wire_entry (files m)))) =
      Inr ((files m, uncompressed_payload_size h), cursor_at (pre @ concat (map wire_entry (files m))) [])"
    if "length pre + length (concat (map wire_entry (files m))) \<le> usize_max" for pre
    using decode_files_at [OF es(1), of "[]" 0 "uncompressed_payload_size h" pre "[]"] es that by simp
  have "m = \<lparr> capsule_name = capsule_name m, description = description m, producer =
      \<lparr> producer_name = producer_name (producer m), producer_version = producer_version (producer m) \<rparr>,
      files = files m \<rparr>" by simp
  then show ?thesis
    using assms(2) wf es(2) unfolding decode_manifest_def wire_manifest_def cursor_new_at
    by (simp add: wire_simps files del: length_concat)
qed

lemma decode_manifest_inv:
  assumes "decode_manifest bs h limits = Inr m"
  shows "bs = wire_manifest m \<and> manifest_ok limits h m"
proof -
  have *: "list_all (wf_entry (max_path_bytes limits)) es" if "list_all (entry_ok limits) es" for es
    using that by (auto simp: list_all_iff entry_ok_def)
  from assms show ?thesis unfolding decode_manifest_def cursor_new_at
    by (auto simp: and_then_eq_Inr manifest_ok_def wf_manifest_def wire_manifest_def *
        elim!: wire_elims decode_files_E read_optional_E [OF _ max_name_bounds(1)]
          read_optional_E [OF _ max_name_bounds(2)] read_bounded_E [OF _ max_name_bounds(3)]
          read_optional_E [OF _ max_name_bounds(4)] split: if_splits prod.splits)
qed

lemma length_MAGIC [simp, wire_lengths]: "length MAGIC = 4"
  by (simp add: MAGIC_def)

lemma length_wire_header [wire_lengths]:
  "wf_key_id (publisher_key_id h) \<Longrightarrow> length (wire_header h) = 80"
  by (simp add: wire_header_def wf_key_id_def)

lemma unat_HEADER_SIZE [simp]: "unat HEADER_SIZE_V1 = 80"
  by (simp add: HEADER_SIZE_V1_def)

lemma small_usize [simp]: "n \<le> 4096 \<Longrightarrow> n \<le> usize_max"
  by (simp add: usize_max_def)

lemma decode_header_iff:
  "decode_header bs limits = Inr h \<longleftrightarrow>
     bs = wire_header h \<and> wf_key_id (publisher_key_id h) \<and> header_validate h limits = Inr ()"
proof
  assume "decode_header bs limits = Inr h"
  then show "bs = wire_header h \<and> wf_key_id (publisher_key_id h) \<and> header_validate h limits = Inr ()"
    unfolding decode_header_def cursor_new_at
    by (auto simp: and_then_eq_Inr enum_try_from_inv wire_header_def wf_key_id_def protocol_V1_def Let_def
        elim!: wire_elims split: if_splits)
next
  assume h: "bs = wire_header h \<and> wf_key_id (publisher_key_id h) \<and> header_validate h limits = Inr ()"
  then have "protocol_version h = protocol_V1" by (simp add: header_validate_eq_Inr)
  with h show "decode_header bs limits = Inr h"
    unfolding decode_header_def cursor_new_at
    by (cases h) (simp add: length_wire_header,
      simp add: wire_header_def wf_key_id_def wire_simps read_array_at_end protocol_V1_def
        protocol_version_try_from_def)
qed

section \<open>What the decoder accepts\<close>

definition canonical_capsule :: "security_limits \<Rightarrow> decoded_capsule \<Rightarrow> bool" where
  "canonical_capsule limits c \<longleftrightarrow>
     wf_key_id (publisher_key_id (header c)) \<and> header_validate (header c) limits = Inr () \<and>
     manifest_ok limits (header c) (manifest c) \<and>
     unat (manifest_size (header c)) = length (wire_manifest (manifest c)) \<and>
     unat (compressed_payload_size (header c)) = length (compressed_payload c) \<and>
     wf_digest (capsule_digest c) \<and> length (signature_raw (signature c)) = 64"

lemma length_wire_capsule [wire_lengths]:
  "canonical_capsule limits c \<Longrightarrow>
   length (wire_capsule c) = 80 + length (wire_manifest (manifest c)) + length (compressed_payload c) + 96"
  by (simp add: wire_capsule_def canonical_capsule_def length_wire_header wf_digest_def)

lemma enforce_input_limit_eq_Inr [simp]:
  "enforce_input_limit n m = Inr u \<longleftrightarrow> n \<le> unat m"
proof -
  have "n \<le> unat m \<Longrightarrow> n < 2 ^ 64" using unsigned_less [of m, where ?'a = nat] by simp
  moreover have "n < 2 ^ 64 \<Longrightarrow> m < of_nat n \<longleftrightarrow> \<not> n \<le> unat m"
    by (simp add: word_less_nat_alt unat_of_nat not_le)
  ultimately show ?thesis
    by (auto simp: enforce_input_limit_def try_from_usize_def split: if_splits)
qed

lemma enforce_input_limit_ok: "n \<le> unat m \<Longrightarrow> enforce_input_limit n m = Inr ()"
  by simp

lemma decode_capsule_wire:
  assumes c: "canonical_capsule limits c" and len: "length (wire_capsule c) \<le> unat (max_capsule_bytes limits)"
  shows "decode_capsule (wire_capsule c) limits = Inr c"
proof -
  let ?h = "wire_header (header c)" and ?m = "wire_manifest (manifest c)"
    and ?p = "compressed_payload c" and ?d = "digest_bytes (capsule_digest c)"
    and ?s = "signature_raw (signature c)"
  have lens: "length ?h = 80" "length ?d = 32" "length ?s = 64"
    and sizes: "unat (manifest_size (header c)) = length ?m"
      "unat (compressed_payload_size (header c)) = length ?p"
    and hd: "decode_header ?h limits = Inr (header c)"
    and mok: "manifest_ok limits (header c) (manifest c)"
    using c by (auto simp: canonical_capsule_def length_wire_header wf_digest_def decode_header_iff)
  have w: "wire_capsule c = ?h @ ?m @ ?p @ ?d @ ?s" by (simp add: wire_capsule_def)
  have total: "80 + length ?m + length ?p + 96 \<le> usize_max"
    using len unat_u64_le_usize [of "max_capsule_bytes limits"] by (simp only: length_wire_capsule [OF c])
  have "slice_get 0 80 (wire_capsule c) = Some ?h"
    using slice_get_append [of "[]" 0 80 ?h "?m @ ?p @ ?d @ ?s"] by (simp add: w lens)
  moreover have "slice_get 80 (80 + length ?m) (wire_capsule c) = Some ?m"
    using slice_get_append [of ?h 80 "80 + length ?m" ?m "?p @ ?d @ ?s"] by (simp add: w lens)
  moreover have "slice_get (80 + length ?m) (80 + length ?m + length ?p) (wire_capsule c) = Some ?p"
    using slice_get_append [of "?h @ ?m" "80 + length ?m" "80 + length ?m + length ?p" ?p "?d @ ?s"]
    by (simp add: w lens)
  moreover have "slice_get (80 + length ?m + length ?p) (80 + length ?m + length ?p + 32) (wire_capsule c) = Some ?d"
    using slice_get_append [of "?h @ ?m @ ?p" "80 + length ?m + length ?p"
        "80 + length ?m + length ?p + 32" ?d ?s] by (simp add: w lens)
  moreover have "slice_get (80 + length ?m + length ?p + 32) (80 + length ?m + length ?p + 96) (wire_capsule c) = Some ?s"
    using slice_get_append [of "?h @ ?m @ ?p @ ?d" "80 + length ?m + length ?p + 32"
        "80 + length ?m + length ?p + 96" ?s "[]"] by (simp add: w lens)
  moreover have "decode_manifest ?m (header c) limits = Inr (manifest c)"
    using decode_manifest_wire [OF mok] total by simp
  moreover have "c = \<lparr> header = header c, manifest = manifest c, compressed_payload = ?p,
      capsule_digest = Digest32 ?d, signature = SignatureBytes ?s \<rparr>" by simp
  ultimately show ?thesis
    using total lens len length_wire_capsule [OF c]
    by (simp add: decode_capsule_def hd sizes usize_checked_add_ok read_array_from_range_def
        array_of_slice_def enforce_input_limit_ok)
qed

lemma decode_capsule_slices:
  assumes "decode_capsule bs limits = Inr c"
  obtains hb mb M P where "length bs \<le> unat (max_capsule_bytes limits)"
    "slice_get 0 80 bs = Some hb" "decode_header hb limits = Inr (header c)"
    "unat (manifest_size (header c)) = M" "unat (compressed_payload_size (header c)) = P"
    "length bs = 80 + M + P + 96"
    "slice_get 80 (80 + M) bs = Some mb" "decode_manifest mb (header c) limits = Inr (manifest c)"
    "slice_get (80 + M) (80 + M + P) bs = Some (compressed_payload c)"
    "slice_get (80 + M + P) (80 + M + P + 32) bs = Some (digest_bytes (capsule_digest c))"
    "length (digest_bytes (capsule_digest c)) = 32"
    "slice_get (80 + M + P + 32) (80 + M + P + 96) bs = Some (signature_raw (signature c))"
    "length (signature_raw (signature c)) = 64"
  using assms that
  by (auto simp: decode_capsule_def and_then_eq_Inr Let_def read_array_from_range_def
      Option.bind_eq_Some_conv split: if_splits)

lemma decode_capsule_inv:
  assumes "decode_capsule bs limits = Inr c"
  shows "canonical_capsule limits c \<and> bs = wire_capsule c \<and> length bs \<le> unat (max_capsule_bytes limits)"
proof (rule decode_capsule_slices [OF assms])
  fix hb mb M P
  assume lim: "length bs \<le> unat (max_capsule_bytes limits)"
    and hd: "slice_get 0 80 bs = Some hb" "decode_header hb limits = Inr (header c)"
    and sizes: "unat (manifest_size (header c)) = M" "unat (compressed_payload_size (header c)) = P"
      "length bs = 80 + M + P + 96"
    and m: "slice_get 80 (80 + M) bs = Some mb" "decode_manifest mb (header c) limits = Inr (manifest c)"
    and p: "slice_get (80 + M) (80 + M + P) bs = Some (compressed_payload c)"
    and d: "slice_get (80 + M + P) (80 + M + P + 32) bs = Some (digest_bytes (capsule_digest c))"
      "length (digest_bytes (capsule_digest c)) = 32"
    and s: "slice_get (80 + M + P + 32) (80 + M + P + 96) bs = Some (signature_raw (signature c))"
      "length (signature_raw (signature c)) = 64"
  note parts = hd(1) m(1) p d(1) s(1)
  have "bs = hb @ mb @ compressed_payload c @ digest_bytes (capsule_digest c) @ signature_raw (signature c)"
    using parts [THEN slice_get_drop] sizes(3) by simp
  moreover have "hb = wire_header (header c)" "wf_key_id (publisher_key_id (header c))"
    "header_validate (header c) limits = Inr ()" using hd(2) by (simp_all add: decode_header_iff)
  moreover have "mb = wire_manifest (manifest c)" "manifest_ok limits (header c) (manifest c)"
    using decode_manifest_inv [OF m(2)] by simp_all
  moreover have "length mb = M" "length (compressed_payload c) = P"
    using parts [THEN slice_get_length] by simp_all
  ultimately show ?thesis
    using lim sizes d(2) s(2) by (simp add: canonical_capsule_def wire_capsule_def wf_digest_def)
qed

lemma decode_capsule_iff:
  "decode_capsule bs limits = Inr c \<longleftrightarrow>
     canonical_capsule limits c \<and> bs = wire_capsule c \<and> length bs \<le> unat (max_capsule_bytes limits)"
  using decode_capsule_wire decode_capsule_inv by blast

section \<open>What the encoder produces\<close>

lemma push_string_eq_Inr:
  "push_string out s = Inr bs \<longleftrightarrow> length s < 2 ^ 32 \<and> bs = out @ wire_string s"
  by (cases "length s < 2 ^ 32")
    (auto simp: push_string_def try_from_usize_def push_u32_def wire_string_def)

lemma push_optional_string_eq_Inr:
  "push_optional_string out (map_option bounded_str s) = Inr bs \<longleftrightarrow>
     pred_option (\<lambda>v. length (bounded_str v) < 2 ^ 32) s \<and> bs = out @ wire_optional s"
  by (cases s) (auto simp: push_optional_string_def push_string_eq_Inr wire_optional_def)

lemma encode_entry_eq_Inr:
  "encode_entry out e = Inr bs \<longleftrightarrow> length (as_str (path e)) < 2 ^ 32 \<and> bs = out @ wire_entry e"
  by (auto simp: encode_entry_def and_then_eq_Inr push_string_eq_Inr wire_entry_def push_u64_def Let_def)

lemma encode_entries_eq_Inr:
  "try_fold encode_entry out es = Inr bs \<longleftrightarrow>
     list_all (\<lambda>e. length (as_str (path e)) < 2 ^ 32) es \<and> bs = out @ concat (map wire_entry es)"
  by (induction es arbitrary: out) (auto simp: and_then_eq_Inr encode_entry_eq_Inr)

lemma encode_header_eq_Inr:
  "encode_header h = Inr bs \<longleftrightarrow> header_validate h limits_V1 = Inr () \<and> bs = wire_header h"
  by (auto simp: encode_header_def and_then_eq_Inr wire_header_def push_u16_def push_u32_def
      push_u64_def Let_def)

lemma wf_bounded_short: "wf_bounded mx s \<Longrightarrow> mx < 2 ^ 32 \<Longrightarrow> length (bounded_str s) < 2 ^ 32"
  by (auto simp: wf_bounded_def)

lemma pred_option_short:
  "pred_option (wf_bounded mx) s \<Longrightarrow> mx < 2 ^ 32 \<Longrightarrow> pred_option (\<lambda>v. length (bounded_str v) < 2 ^ 32) s"
  using wf_bounded_short by (auto simp: pred_option_def)

lemma encode_manifest_eq_Inr:
  assumes "wf_manifest (max_path_bytes limits_V1) m"
  shows "encode_manifest m = Inr bs \<longleftrightarrow> is_ok (validate_entries (files m)) \<and> bs = wire_manifest m"
proof -
  have "list_all (\<lambda>e. length (as_str (path e)) < 2 ^ 32) (files m)"
    using assms path_validate_bytes(2)
    by (fastforce simp: wf_manifest_def wf_entry_def wf_path_def list_all_iff limits_V1_def)
  then show ?thesis
    using assms max_name_bounds pred_option_short wf_bounded_short
    by (auto simp: encode_manifest_def wf_manifest_def and_then_eq_Inr is_ok_iff Let_def push_u16_def
        push_optional_string_eq_Inr push_string_eq_Inr encode_entries_eq_Inr wire_manifest_def)
qed

text \<open>The type invariants of a \<open>DecodedCapsule\<close> whose paths were built under the v1 limits.\<close>

definition wf_capsule :: "decoded_capsule \<Rightarrow> bool" where
  "wf_capsule c \<longleftrightarrow>
     wf_key_id (publisher_key_id (header c)) \<and> wf_manifest (max_path_bytes limits_V1) (manifest c) \<and>
     wf_digest (capsule_digest c) \<and> length (signature_raw (signature c)) = 64"

lemma canonical_wf_capsule: "canonical_capsule limits_V1 c \<Longrightarrow> wf_capsule c"
  by (simp add: canonical_capsule_def wf_capsule_def manifest_ok_def)

lemma entries_ok_V1:
  "wf_manifest (max_path_bytes limits_V1) m \<Longrightarrow>
   list_all (entry_ok limits_V1) (files m) \<longleftrightarrow>
     list_all (\<lambda>e. size e \<le> max_single_file_bytes limits_V1) (files m)"
  using path_validate_bytes(2)
  by (fastforce simp: wf_manifest_def entry_ok_def wf_entry_def wf_path_def list_all_iff limits_V1_def)

lemma length_wire_optional: "length (wire_optional s) \<le> 5 + (case s of None \<Rightarrow> 0 | Some v \<Rightarrow> length (bounded_str v))"
  by (simp add: wire_optional_def split: option.splits)

lemma length_wire_entries:
  "list_all (wf_entry n) es \<Longrightarrow> length (concat (map wire_entry es)) \<le> length es * (56 + n)"
proof (induction es)
  case (Cons e es)
  then have "wf_digest (digest e)" "length (as_str (path e)) \<le> n"
    using path_validate_bytes(2) by (auto simp: wf_entry_def wf_path_def)
  with Cons show ?case by (simp add: length_wire_entry)
qed simp

lemma length_wire_manifest:
  assumes "wf_manifest n m"
  shows "length (wire_manifest m) \<le> 4763 + length (files m) * (56 + n)"
proof -
  have "length (wire_optional s) \<le> 5 + mx" if "pred_option (wf_bounded mx) s" for s mx
    using that length_wire_optional [of s] by (cases s) (auto simp: wf_bounded_def)
  from this [of MAX_CAPSULE_NAME_BYTES "capsule_name m"] this [of MAX_DESCRIPTION_BYTES "description m"]
    this [of MAX_PRODUCER_VERSION_BYTES "producer_version (producer m)"]
    length_wire_entries [of n "files m"] assms
  show ?thesis
    by (simp add: wf_manifest_def wire_manifest_def wf_bounded_def MAX_CAPSULE_NAME_BYTES_def
        MAX_DESCRIPTION_BYTES_def MAX_PRODUCER_NAME_BYTES_def MAX_PRODUCER_VERSION_BYTES_def)
qed

lemma wire_capsule_V1_bound:
  assumes "canonical_capsule limits_V1 c"
  shows "length (wire_capsule c) \<le> 34 * 1024 * 1024"
proof -
  from assms have h: "header_validate (header c) limits_V1 = Inr ()"
    and m: "wf_manifest 1024 (manifest c)" "length (files (manifest c)) = unat (file_count (header c))"
    and p: "length (compressed_payload c) = unat (compressed_payload_size (header c))"
    by (auto simp: canonical_capsule_def manifest_ok_def limits_V1_def)
  from h have "unat (file_count (header c)) \<le> 512" "unat (compressed_payload_size (header c)) \<le> 33554432"
    by (auto simp: header_validate_eq_Inr limits_V1_def word_le_nat_alt)
  with length_wire_manifest [OF m(1)] m(2) p length_wire_capsule [OF assms] show ?thesis by simp
qed

lemma encode_capsule_iff:
  assumes "wf_capsule c"
  shows "encode_capsule c = Inr bs \<longleftrightarrow> canonical_capsule limits_V1 c \<and> bs = wire_capsule c"
proof -
  have wf: "wf_manifest (max_path_bytes limits_V1) (manifest c)" using assms by (simp add: wf_capsule_def)
  have cap: "length (wire_capsule c) \<le> usize_max" if "canonical_capsule limits_V1 c"
    using wire_capsule_V1_bound [OF that] by (simp add: usize_max_def)
  have "canonical_capsule limits_V1 c \<longleftrightarrow> header_validate (header c) limits_V1 = Inr () \<and>
      is_ok (validate_entries (files (manifest c))) \<and>
      ensure_declared_lengths c (length (wire_manifest (manifest c))) = Inr ()"
    using assms by (auto simp: canonical_capsule_def wf_capsule_def manifest_ok_def is_ok_iff
        ensure_declared_lengths_def and_then_eq_Inr validate_entries_eq_Inr entries_ok_V1)
  then show ?thesis using cap assms
    by (auto simp: encode_capsule_def and_then_eq_Inr encode_header_eq_Inr encode_manifest_eq_Inr [OF wf]
        wire_capsule_def Option.bind_eq_Some_conv wf_capsule_def wf_digest_def)
qed

lemma encode_decode_V1:
  assumes "wf_capsule c"
  shows "encode_capsule c = Inr bs \<longleftrightarrow> decode_capsule bs limits_V1 = Inr c"
  using wire_capsule_V1_bound [of c]
  by (auto simp: encode_capsule_iff [OF assms] decode_capsule_iff limits_V1_def)

lemma encode_manifest_inv:
  "encode_manifest m = Inr bs \<Longrightarrow> bs = wire_manifest m"
  by (auto simp: encode_manifest_def and_then_eq_Inr Let_def push_u16_def push_optional_string_eq_Inr
      push_string_eq_Inr encode_entries_eq_Inr wire_manifest_def)

section \<open>A sample capsule\<close>

definition sample_entry :: "string \<Rightarrow> u64 \<Rightarrow> u64 \<Rightarrow> u8 \<Rightarrow> file_entry" where
  "sample_entry p off sz d =
     \<lparr> path = RelativeArtifactPath (ascii p), operation = CreateOrReplace, content_kind = Binary,
       executable = False, offset = off, size = sz, digest = Digest32 (replicate 32 d) \<rparr>"

definition sample_manifest :: capsule_manifest where
  "sample_manifest =
     \<lparr> capsule_name = Some (BoundedString (ascii ''demo'')), description = None,
       producer = \<lparr> producer_name = BoundedString (ascii ''rebyte''), producer_version = None \<rparr>,
       files = [sample_entry ''a.txt'' 0 3 1, sample_entry ''docs/b.txt'' 3 2 2] \<rparr>"

definition sample_capsule :: decoded_capsule where
  "sample_capsule =
     \<lparr> header = \<lparr> protocol_version = protocol_V1, header_size = HEADER_SIZE_V1, flags = 0,
         compression = CompressionNone, signature_alg = Ed25519,
         manifest_size = of_nat (length (wire_manifest sample_manifest)), compressed_payload_size = 5,
         uncompressed_payload_size = 5, file_count = 2, publisher_key_id = KeyId (replicate 32 7) \<rparr>,
       manifest = sample_manifest, compressed_payload = [1, 2, 3, 4, 5],
       capsule_digest = Digest32 (replicate 32 9), signature = SignatureBytes (replicate 64 8) \<rparr>"

lemma sample_wf: "wf_capsule sample_capsule"
  by code_simp

lemma sample_manifest_length: "length (wire_manifest sample_manifest) = 152"
  by code_simp

lemma sample_capsule_canonical: "canonical_capsule limits_V1 sample_capsule"
proof -
  have "header_validate (header sample_capsule) limits_V1 = Inr ()" by code_simp
  moreover have "list_all (\<lambda>e. size e \<le> max_single_file_bytes limits_V1) (files sample_manifest)"
    by code_simp
  moreover have "layout None 0 (files sample_manifest) 5" by code_simp
  ultimately show ?thesis
    using sample_wf entries_ok_V1 [of sample_manifest] sample_manifest_length
    by (simp add: canonical_capsule_def wf_capsule_def manifest_ok_def sample_capsule_def)
       (simp add: sample_manifest_def)
qed

lemma sample_capsule_decodes: "decode_capsule (wire_capsule sample_capsule) limits_V1 = Inr sample_capsule"
  using decode_capsule_wire [OF sample_capsule_canonical] wire_capsule_V1_bound [OF sample_capsule_canonical]
  by (simp add: limits_V1_def)

lemma sample_capsule_length: "length (wire_capsule sample_capsule) = 333"
  using length_wire_capsule [OF sample_capsule_canonical] sample_manifest_length
  by (simp add: sample_capsule_def)

section \<open>Properties of the capsule codec\<close>

text \<open>
  C7. The RAP v1 codec is a bijection between well-formed capsules and byte strings: for every
  capsule that respects its type invariants, encoding it succeeds with \<open>bs\<close> exactly when
  decoding \<open>bs\<close> under the v1 limits succeeds with that capsule.
\<close>

theorem capsule_codec_inverse:
  assumes "wf_capsule c"
  shows "encode_capsule c = Inr bs \<longleftrightarrow> decode_capsule bs limits_V1 = Inr c"
  by (rule encode_decode_V1 [OF assms])

theorem capsule_codec_inverse_witness:
  "wf_capsule sample_capsule \<and>
   (\<exists>bs. encode_capsule sample_capsule = Inr bs \<and> decode_capsule bs limits_V1 = Inr sample_capsule)"
proof -
  have "encode_capsule sample_capsule = Inr (wire_capsule sample_capsule)"
    by (simp add: encode_capsule_iff sample_wf sample_capsule_canonical)
  with capsule_codec_inverse [OF sample_wf] sample_wf show ?thesis by blast
qed

text \<open>
  Decoding is canonical: whatever limits two parties apply, two byte strings that decode to the
  same capsule are the same byte string, and each decoded capsule is reproduced byte for byte by
  its wire form, so no capsule has two encodings.
\<close>

theorem decode_capsule_canonical:
  assumes "decode_capsule as limits = Inr c" "decode_capsule bs limits' = Inr c"
  shows "as = bs"
  using assms by (simp add: decode_capsule_iff)

lemma canonical_SIMPLE_ARTIFACT: "canonical_capsule limits_SIMPLE_ARTIFACT c \<longleftrightarrow> canonical_capsule limits_V1 c"
  by (simp add: canonical_capsule_def manifest_ok_def entry_ok_def [abs_def] header_validate_def
      limits_SIMPLE_ARTIFACT_def)

theorem decode_capsule_canonical_witness:
  "\<exists>as bs. decode_capsule as limits_V1 = Inr sample_capsule \<and>
     decode_capsule bs limits_SIMPLE_ARTIFACT = Inr sample_capsule \<and> as = bs"
proof -
  have s: "decode_capsule (wire_capsule sample_capsule) limits_SIMPLE_ARTIFACT = Inr sample_capsule"
    using sample_capsule_decodes
    by (simp add: decode_capsule_iff canonical_SIMPLE_ARTIFACT) (simp add: limits_SIMPLE_ARTIFACT_def)
  from decode_capsule_canonical [OF sample_capsule_decodes s] s sample_capsule_decodes
  show ?thesis by blast
qed



text \<open>
  A capsule that decodes has a well-formed layout: its paths are strictly increasing in byte
  order (hence distinct) and portable, each file starts where the previous one ends, no file
  exceeds the per-file limit, the sizes add up to exactly the declared uncompressed payload
  without overflow, and the declared counts and sizes are the real ones, within the limits.
\<close>

theorem decode_capsule_layout:
  assumes "decode_capsule bs limits = Inr c"
  shows "sorted_wrt (<) (map path (files (manifest c))) \<and>
    (\<forall>i < length (files (manifest c)).
       let e = files (manifest c) ! i in
       unat (offset e) = (\<Sum>f\<leftarrow>take i (files (manifest c)). unat (size f)) \<and>
       wf_path (max_path_bytes limits) (path e) \<and> size e \<le> max_single_file_bytes limits) \<and>
    (\<Sum>f\<leftarrow>files (manifest c). unat (size f)) = unat (uncompressed_payload_size (header c)) \<and>
    length (files (manifest c)) = unat (file_count (header c)) \<and>
    length (compressed_payload c) = unat (compressed_payload_size (header c)) \<and>
    uncompressed_payload_size (header c) \<le> max_uncompressed_payload_bytes limits \<and>
    file_count (header c) \<le> max_file_count limits"
proof -
  from assms have c: "canonical_capsule limits c" by (simp add: decode_capsule_iff)
  then have l: "layout None 0 (files (manifest c)) (uncompressed_payload_size (header c))"
    and e: "list_all (entry_ok limits) (files (manifest c))"
    by (auto simp: canonical_capsule_def manifest_ok_def)
  show ?thesis
    using c e layout_sorted [OF l] layout_total [OF l] layout_ranges [OF l]
    by (auto simp: canonical_capsule_def manifest_ok_def header_validate_eq_Inr Let_def list_all_length
        entry_ok_def wf_entry_def)
qed

theorem decode_capsule_layout_witness:
  "decode_capsule (wire_capsule sample_capsule) limits_V1 = Inr sample_capsule \<and>
   sorted_wrt (<) (map path (files (manifest sample_capsule)))"
  using decode_capsule_layout [OF sample_capsule_decodes] sample_capsule_decodes by blast

end
