(* ===== verification/Rap_Crypto.thy ===== *)
theory Rap_Crypto
  imports Rap_Codec_Correct
begin

text \<open>
  The crates \<open>rebyte-integrity\<close> (domain-separated BLAKE3) and \<open>rebyte-signature\<close> (local publisher
  trust and Ed25519). BLAKE3 in derive-key mode is a function of a context string and a message;
  the Ed25519 verifier is a record of three predicates. Both are third-party code and arguments of
  every definition that uses them.
\<close>

section \<open>Integrity (rebyte-integrity/src/lib.rs)\<close>

type_synonym blake3 = "bytes \<Rightarrow> bytes \<Rightarrow> bytes"

definition FILE_CONTEXT :: bytes where "FILE_CONTEXT = ascii ''rebyte:v1:file''"
definition MANIFEST_CONTEXT :: bytes where "MANIFEST_CONTEXT = ascii ''rebyte:v1:manifest''"
definition PAYLOAD_CONTEXT :: bytes where "PAYLOAD_CONTEXT = ascii ''rebyte:v1:payload''"
definition CAPSULE_CONTEXT :: bytes where "CAPSULE_CONTEXT = ascii ''rebyte:v1:capsule''"
definition ARTIFACT_CONTENT_CONTEXT :: bytes where "ARTIFACT_CONTENT_CONTEXT = ascii ''rebyte:v1:artifact-content''"
definition ARTIFACT_ENVELOPE_CONTEXT :: bytes where "ARTIFACT_ENVELOPE_CONTEXT = ascii ''rebyte:v1:artifact-envelope''"
definition KEY_ID_CONTEXT :: bytes where "KEY_ID_CONTEXT = ascii ''rebyte:v1:key-id''"
definition SIGNATURE_DOMAIN :: bytes where "SIGNATURE_DOMAIN = ascii ''rebyte:v1:signature'' @ [0]"

text \<open>An incremental hasher is its context and the bytes absorbed so far.\<close>

record domain_hasher =
  hasher_context :: bytes
  absorbed :: bytes

definition hasher_new :: "bytes \<Rightarrow> domain_hasher" where
  "hasher_new context = \<lparr> hasher_context = context, absorbed = [] \<rparr>"

definition hasher_update :: "domain_hasher \<Rightarrow> bytes \<Rightarrow> domain_hasher" where
  "hasher_update h bs = h\<lparr> absorbed := absorbed h @ bs \<rparr>"

definition hasher_finalize :: "blake3 \<Rightarrow> domain_hasher \<Rightarrow> digest32" where
  "hasher_finalize H h = Digest32 (H (hasher_context h) (absorbed h))"

definition hash_one :: "blake3 \<Rightarrow> domain_hasher \<Rightarrow> bytes \<Rightarrow> digest32" where
  "hash_one H h bs = hasher_finalize H (hasher_update h bs)"

definition file_digest :: "blake3 \<Rightarrow> bytes \<Rightarrow> digest32" where
  "file_digest H bs = hash_one H (hasher_new FILE_CONTEXT) bs"

definition manifest_digest :: "blake3 \<Rightarrow> bytes \<Rightarrow> digest32" where
  "manifest_digest H bs = hash_one H (hasher_new MANIFEST_CONTEXT) bs"

definition payload_digest :: "blake3 \<Rightarrow> bytes \<Rightarrow> digest32" where
  "payload_digest H bs = hash_one H (hasher_new PAYLOAD_CONTEXT) bs"

definition capsule_digest_of :: "blake3 \<Rightarrow> bytes \<Rightarrow> bytes \<Rightarrow> bytes \<Rightarrow> digest32" where
  "capsule_digest_of H hdr man payload =
     (let hasher = hasher_new CAPSULE_CONTEXT;
          hasher = hasher_update hasher hdr;
          hasher = hasher_update hasher man;
          hasher = hasher_update hasher payload
      in hasher_finalize H hasher)"

definition key_id_of :: "blake3 \<Rightarrow> bytes \<Rightarrow> key_id" where
  "key_id_of H public_key = KeyId (H KEY_ID_CONTEXT public_key)"

definition signature_message :: "digest32 \<Rightarrow> bytes" where
  "signature_message d = SIGNATURE_DOMAIN @ digest_bytes d"

definition digest_matches :: "digest32 \<Rightarrow> digest32 \<Rightarrow> bool" where
  "digest_matches expected actual \<longleftrightarrow> digest_bytes expected = digest_bytes actual"

text \<open>The documented behaviour of BLAKE3 the sources rely on: 32 bytes of output.\<close>

definition blake3_contract :: "blake3 \<Rightarrow> bool" where
  "blake3_contract H \<longleftrightarrow> (\<forall>c m. length (H c m) = 32)"

lemma digest_matches_iff [simp]: "digest_matches a b \<longleftrightarrow> a = b"
  by (auto simp: digest_matches_def intro: digest32.expand)

lemma capsule_digest_of_eq:
  "capsule_digest_of H h m p = Digest32 (H CAPSULE_CONTEXT (h @ m @ p))"
  by (simp add: capsule_digest_of_def hasher_update_def hasher_new_def hasher_finalize_def)

lemma file_digest_eq: "file_digest H bs = Digest32 (H FILE_CONTEXT bs)"
  by (simp add: file_digest_def hash_one_def hasher_update_def hasher_new_def hasher_finalize_def)

lemma wf_digests:
  "blake3_contract H \<Longrightarrow> wf_digest (file_digest H bs)"
  "blake3_contract H \<Longrightarrow> wf_digest (capsule_digest_of H h m p)"
  "blake3_contract H \<Longrightarrow> wf_key_id (key_id_of H pk)"
  by (simp_all add: wf_digest_def wf_key_id_def file_digest_eq capsule_digest_of_eq key_id_of_def blake3_contract_def)

lemma foldl_hasher_update:
  "foldl hasher_update h chunks = h\<lparr> absorbed := absorbed h @ concat chunks \<rparr>"
  by (induction chunks arbitrary: h) (simp_all add: hasher_update_def)

text \<open>
  Incremental hashing does not depend on how the input was cut into chunks, and the seven
  derive-key contexts and the signature prefix are pairwise different, so a digest made for one
  purpose is never computed from the same hash input as one made for another.
\<close>

theorem hashing_chunks_and_domains:
  "hasher_finalize H (foldl hasher_update (hasher_new c) chunks) = hash_one H (hasher_new c) (concat chunks) \<and>
   distinct [FILE_CONTEXT, MANIFEST_CONTEXT, PAYLOAD_CONTEXT, CAPSULE_CONTEXT,
     ARTIFACT_CONTENT_CONTEXT, ARTIFACT_ENVELOPE_CONTEXT, KEY_ID_CONTEXT, SIGNATURE_DOMAIN]"
proof -
  have "distinct [FILE_CONTEXT, MANIFEST_CONTEXT, PAYLOAD_CONTEXT, CAPSULE_CONTEXT,
     ARTIFACT_CONTENT_CONTEXT, ARTIFACT_ENVELOPE_CONTEXT, KEY_ID_CONTEXT, SIGNATURE_DOMAIN]"
    by code_simp
  then show ?thesis by (simp add: foldl_hasher_update hash_one_def hasher_update_def)
qed

lemma signature_message_inject [simp]: "signature_message a = signature_message b \<longleftrightarrow> a = b"
  by (auto simp: signature_message_def intro: digest32.expand)

lemma length_signature_message: "wf_digest d \<Longrightarrow> length (signature_message d) = 52"
  by (simp add: signature_message_def SIGNATURE_DOMAIN_def wf_digest_def)

section \<open>Publisher trust (rebyte-signature/src/lib.rs)\<close>

definition MAX_PUBLISHER_NAME_BYTES :: nat where "MAX_PUBLISHER_NAME_BYTES = 256"

datatype trust_channel = Production | Staging | Development
datatype key_status = Active | Retired | Revoked

record trusted_public_key =
  tk_id :: key_id
  tk_public_key :: bytes
  tk_display_name :: bytes
  tk_channel :: trust_channel
  tk_status :: key_status

type_synonym trusted_keyring = "trusted_public_key list"

record verification_policy =
  allow_staging :: bool
  allow_development :: bool

record verified_publisher =
  vp_key_id :: key_id
  vp_display_name :: bytes
  vp_channel :: trust_channel

datatype signature_error =
    InvalidPublisherName
  | InvalidPublicKey
  | DuplicateKey
  | UnknownKey
  | DisallowedChannel
  | RetiredKey
  | RevokedKey
  | InvalidSignature

text \<open>The \<open>ed25519_dalek\<close> operations the crate calls, and the \<open>Signer\<close> trait.\<close>

record ed25519 =
  vk_from_bytes :: "bytes \<Rightarrow> bool"
  vk_is_weak :: "bytes \<Rightarrow> bool"
  vk_verify_strict :: "bytes \<Rightarrow> bytes \<Rightarrow> bytes \<Rightarrow> bool"

record 'e signer =
  public_key :: bytes
  sign :: "bytes \<Rightarrow> 'e + bytes"

definition policy_PRODUCTION :: verification_policy where
  "policy_PRODUCTION = \<lparr> allow_staging = False, allow_development = False \<rparr>"

definition validate_name :: "bytes \<Rightarrow> signature_error + unit" where
  "validate_name nm =
     (if nm = [] \<or> MAX_PUBLISHER_NAME_BYTES < length nm then Inl InvalidPublisherName else Inr ())"

definition trusted_public_key_new ::
    "blake3 \<Rightarrow> ed25519 \<Rightarrow> bytes \<Rightarrow> bytes \<Rightarrow> trust_channel \<Rightarrow> key_status \<Rightarrow> signature_error + trusted_public_key" where
  "trusted_public_key_new H ed display_name pk channel status =
     and_then (validate_name display_name) (\<lambda>_.
       if \<not> vk_from_bytes ed pk then Inl InvalidPublicKey
       else if vk_is_weak ed pk then Inl InvalidPublicKey
       else Inr \<lparr> tk_id = key_id_of H pk, tk_public_key = pk, tk_display_name = display_name,
                  tk_channel = channel, tk_status = status \<rparr>)"

definition trusted_keyring_new :: "trusted_public_key list \<Rightarrow> signature_error + trusted_keyring" where
  "trusted_keyring_new keys =
     and_then (try_for_each (\<lambda>(position, key).
         if list_ex (\<lambda>candidate. tk_id candidate = tk_id key) (take position keys)
         then Inl DuplicateKey else Inr ()) (enumerate 0 keys)) (\<lambda>_. Inr keys)"

definition keyring_get :: "trusted_keyring \<Rightarrow> key_id \<Rightarrow> trusted_public_key option" where
  "keyring_get keys i = find (\<lambda>key. tk_id key = i) keys"

definition enforce_policy :: "trusted_public_key \<Rightarrow> verification_policy \<Rightarrow> signature_error + unit" where
  "enforce_policy key policy =
     (case tk_status key of
        Retired \<Rightarrow> Inl RetiredKey
      | Revoked \<Rightarrow> Inl RevokedKey
      | Active \<Rightarrow>
          (case tk_channel key of
             Production \<Rightarrow> Inr ()
           | Staging \<Rightarrow> if allow_staging policy then Inr () else Inl DisallowedChannel
           | Development \<Rightarrow> if allow_development policy then Inr () else Inl DisallowedChannel))"

definition verify_signature ::
    "ed25519 \<Rightarrow> key_id \<Rightarrow> digest32 \<Rightarrow> bytes \<Rightarrow> verification_policy \<Rightarrow> trusted_keyring
     \<Rightarrow> signature_error + verified_publisher" where
  "verify_signature ed key_id d sig policy keyring =
     and_then (ok_or UnknownKey (keyring_get keyring key_id)) (\<lambda>trusted.
     and_then (enforce_policy trusted policy) (\<lambda>_.
       if \<not> vk_from_bytes ed (tk_public_key trusted) then Inl InvalidPublicKey
       else if \<not> vk_verify_strict ed (tk_public_key trusted) (signature_message d) sig then Inl InvalidSignature
       else Inr \<lparr> vp_key_id = tk_id trusted, vp_display_name = tk_display_name trusted,
                  vp_channel = tk_channel trusted \<rparr>))"

text \<open>What a signer adapter promises: signatures of 64 bytes that its public key verifies.\<close>

definition signer_contract :: "ed25519 \<Rightarrow> 'e signer \<Rightarrow> bool" where
  "signer_contract ed s \<longleftrightarrow>
     (\<forall>msg sig. sign s msg = Inr sig \<longrightarrow> length sig = 64 \<and> vk_verify_strict ed (public_key s) msg sig)"

section \<open>Facts about trust\<close>

definition permitted :: "trusted_public_key \<Rightarrow> verification_policy \<Rightarrow> bool" where
  "permitted key policy \<longleftrightarrow>
     tk_status key = Active \<and>
     (tk_channel key = Staging \<longrightarrow> allow_staging policy) \<and>
     (tk_channel key = Development \<longrightarrow> allow_development policy)"

lemma enforce_policy_eq_Inr [simp]: "enforce_policy key policy = Inr u \<longleftrightarrow> permitted key policy"
  by (auto simp: enforce_policy_def permitted_def split: key_status.splits trust_channel.splits)

lemma trusted_keyring_new_eq_Inr:
  "trusted_keyring_new keys = Inr kr \<longleftrightarrow> kr = keys \<and> distinct (map tk_id keys)"
proof -
  have "(\<forall>(i, k)\<in>set (enumerate 0 keys). \<not> list_ex (\<lambda>c. tk_id c = tk_id k) (take i keys)) \<longleftrightarrow>
      (\<forall>i < length keys. \<forall>j < i. tk_id (keys ! j) \<noteq> tk_id (keys ! i))"
  proof -
    have "set (enumerate 0 keys) = (\<lambda>i. (i, keys ! i)) ` {..<length keys}"
      by (auto simp: in_set_enumerate_eq image_iff)
    then show ?thesis by (auto simp: list_ex_length)
  qed
  also have "\<dots> \<longleftrightarrow> distinct (map tk_id keys)"
    by (auto simp: distinct_conv_nth) (metis linorder_neqE_nat order.strict_trans)
  finally show ?thesis
    by (auto simp: trusted_keyring_new_def and_then_eq_Inr split_def split: if_splits)
qed

lemma keyring_get_member: "keyring_get keys i = Some k \<Longrightarrow> k \<in> set keys \<and> tk_id k = i"
  by (auto simp: keyring_get_def find_Some_iff)

lemma keyring_get_unique:
  "distinct (map tk_id keys) \<Longrightarrow> k \<in> set keys \<Longrightarrow> keyring_get keys (tk_id k) = Some k"
  by (induction keys) (auto simp: keyring_get_def image_iff)

lemma verify_signature_eq_Inr:
  "verify_signature ed i d sig policy keyring = Inr v \<longleftrightarrow>
     (\<exists>k. keyring_get keyring i = Some k \<and> permitted k policy \<and> vk_from_bytes ed (tk_public_key k) \<and>
        vk_verify_strict ed (tk_public_key k) (signature_message d) sig \<and>
        v = \<lparr> vp_key_id = tk_id k, vp_display_name = tk_display_name k, vp_channel = tk_channel k \<rparr>)"
  by (auto simp: verify_signature_def and_then_eq_Inr)

section \<open>Concrete instances\<close>

text \<open>
  Small computable stand-ins that meet the contracts, used only to show that the hypotheses of
  the properties can hold together.
\<close>

definition sample_hash :: blake3 where
  "sample_hash c m = take 32 (rev (c @ m) @ replicate 32 0)"

definition sample_ed25519 :: ed25519 where
  "sample_ed25519 =
     \<lparr> vk_from_bytes = (\<lambda>pk. length pk = 32), vk_is_weak = (\<lambda>pk. False),
       vk_verify_strict = (\<lambda>pk msg sig. sig = take 64 (pk @ rev msg @ replicate 64 0)) \<rparr>"

definition sample_signer :: "unit signer" where
  "sample_signer =
     \<lparr> public_key = replicate 32 7,
       sign = (\<lambda>msg. Inr (take 64 (replicate 32 7 @ rev msg @ replicate 64 0))) \<rparr>"

lemma sample_contracts [simp]:
  "blake3_contract sample_hash" "signer_contract sample_ed25519 sample_signer"
  by (simp_all add: blake3_contract_def sample_hash_def signer_contract_def sample_ed25519_def
      sample_signer_def del: take_append)

end
