(* ===== verification/Rap_Compression.thy ===== *)
theory Rap_Compression
  imports Rap_Format
begin

text \<open>
  The crate \<open>rebyte-compression\<close>: bounded compression and decompression. The Zstandard codec is
  third-party code: an encoder is a transducer (bytes in, frame bytes out) and a decoder a source
  of chunks, both given by a record of functions. A source is read by \<open>rd n r\<close> (\<open>io::Read::read\<close>
  with a buffer of \<open>n\<close> bytes: \<open>None\<close> is an I/O error, no bytes is the end), a sink is written by \<open>wr\<close>.
  The copy loops are total functions: their termination proof is the statement that an endless
  decoder cannot keep them running.
\<close>

section \<open>Errors, profiles and limits\<close>

datatype compression_error =
    CompressedInputTooLarge u64 u64
  | OutputTooLarge u64 u64
  | CompressionRatioExceeded u64
  | SizeMismatch u64 u64
  | InvalidStream
  | CompressionFailed
  | InvalidDictionary
  | InputReadFailed
  | OutputWriteFailed
  | UnsupportedEncoder
  | CompressionLengthOverflow

datatype compression_profile = Fast | Balanced | Maximum

definition BUFFER_SIZE :: nat where "BUFFER_SIZE = 64 * 1024"
definition ZSTD_LEVEL_V1 :: int where "ZSTD_LEVEL_V1 = 3"
definition ZSTD_LEVEL_FAST :: int where "ZSTD_LEVEL_FAST = 1"
definition ZSTD_LEVEL_MAXIMUM :: int where "ZSTD_LEVEL_MAXIMUM = 19"
definition MAXIMUM_WINDOW_LOG :: nat where "MAXIMUM_WINDOW_LOG = 27"

definition profile_level :: "compression_profile \<Rightarrow> int" where
  "profile_level p =
     (case p of Fast \<Rightarrow> ZSTD_LEVEL_FAST | Balanced \<Rightarrow> ZSTD_LEVEL_V1 | Maximum \<Rightarrow> ZSTD_LEVEL_MAXIMUM)"

record compression_stats =
  input_bytes :: u64
  output_bytes :: u64

record compression_method =
  method_algorithm :: compression_algorithm
  method_dictionary :: bytes

definition method_new :: "compression_algorithm \<Rightarrow> compression_method" where
  "method_new algorithm = \<lparr> method_algorithm = algorithm, method_dictionary = [] \<rparr>"

definition zstd_with_dictionary :: "bytes \<Rightarrow> compression_method" where
  "zstd_with_dictionary dictionary = \<lparr> method_algorithm = CompressionZstd, method_dictionary = dictionary \<rparr>"

definition enforce_compressed_limit :: "u64 \<Rightarrow> security_limits \<Rightarrow> compression_error + unit" where
  "enforce_compressed_limit actual limits =
     (if max_compressed_payload_bytes limits < actual
      then Inl (CompressedInputTooLarge (max_compressed_payload_bytes limits) actual) else Inr ())"

definition enforce_output_limit :: "u64 \<Rightarrow> security_limits \<Rightarrow> compression_error + unit" where
  "enforce_output_limit actual limits =
     (if max_uncompressed_payload_bytes limits < actual
      then Inl (OutputTooLarge (max_uncompressed_payload_bytes limits) actual) else Inr ())"

definition enforce_ratio :: "u64 \<Rightarrow> u64 \<Rightarrow> security_limits \<Rightarrow> compression_error + unit" where
  "enforce_ratio compressed uncompressed limits =
     (if uncompressed = 0 then Inr ()
      else if compressed = 0 \<or> saturating_mul compressed (max_compression_ratio limits) < uncompressed
      then Inl (CompressionRatioExceeded (max_compression_ratio limits))
      else Inr ())"

definition usize_to_u64 :: "nat \<Rightarrow> compression_error + u64" where
  "usize_to_u64 value = try_from_usize CompressionLengthOverflow value"

section \<open>Sinks: write_all, Vec and BoundedWriter\<close>

text \<open>
  A sink's \<open>write\<close> may take a part of the buffer; \<open>write_all\<close> is the standard library's loop
  over it (accepting nothing is the error \<open>WriteZero\<close>).
\<close>

function write_all :: "('w \<Rightarrow> bytes \<Rightarrow> nat option \<times> 'w) \<Rightarrow> 'w \<Rightarrow> bytes \<Rightarrow> bool \<times> 'w" where
  "write_all wr w bs =
     (if bs = [] then (True, w)
      else case wr w bs of
             (None, w') \<Rightarrow> (False, w')
           | (Some n, w') \<Rightarrow>
               if n = 0 \<or> length bs < n then (False, w') else write_all wr w' (drop n bs))"
  by pat_completeness auto
termination
  by (relation "measure (\<lambda>(wr, w, bs). length bs)") auto

declare write_all.simps [simp del]

definition vec_write :: "bytes \<Rightarrow> bytes \<Rightarrow> nat option \<times> bytes" where
  "vec_write w bs = (Some (length bs), w @ bs)"

record 'w bounded_writer =
  bw_inner :: 'w
  bw_maximum :: u64
  bw_written :: u64
  bw_attempted :: u64
  bw_exceeded :: bool

definition bounded_writer_new :: "'w \<Rightarrow> u64 \<Rightarrow> 'w bounded_writer" where
  "bounded_writer_new inner maximum =
     \<lparr> bw_inner = inner, bw_maximum = maximum, bw_written = 0, bw_attempted = 0, bw_exceeded = False \<rparr>"

definition bounded_write ::
    "('w \<Rightarrow> bytes \<Rightarrow> nat option \<times> 'w) \<Rightarrow> 'w bounded_writer \<Rightarrow> bytes \<Rightarrow> nat option \<times> 'w bounded_writer" where
  "bounded_write wr self bs =
     (case try_from_usize () (length bs) of
        Inl _ \<Rightarrow> (None, self)
      | Inr len \<Rightarrow>
     (case checked_add (bw_written self) len of
        None \<Rightarrow> (None, self)
      | Some nxt \<Rightarrow>
          let self = self\<lparr> bw_attempted := nxt \<rparr> in
          if bw_maximum self < nxt then (None, self\<lparr> bw_exceeded := True \<rparr>)
          else
     (case wr (bw_inner self) bs of
        (None, inner) \<Rightarrow> (None, self\<lparr> bw_inner := inner \<rparr>)
      | (Some written, inner) \<Rightarrow>
          let self = self\<lparr> bw_inner := inner \<rparr> in
     (case try_from_usize () written of
        Inl _ \<Rightarrow> (None, self)
      | Inr written64 \<Rightarrow>
     (case checked_add (bw_written self) written64 of
        None \<Rightarrow> (None, self)
      | Some now \<Rightarrow> (Some written, self\<lparr> bw_written := now \<rparr>))))))"

section \<open>Sources: LimitedReader and the copy loops\<close>

record 'r limited_reader =
  lr_inner :: 'r
  lr_remaining :: u64

definition limited_read ::
    "(nat \<Rightarrow> 'r \<Rightarrow> (bytes \<times> 'r) option) \<Rightarrow> nat \<Rightarrow> 'r limited_reader \<Rightarrow> (bytes \<times> 'r limited_reader) option" where
  "limited_read rd n self =
     (if lr_remaining self = 0 then Some ([], self)
      else let maximum = min (unat (lr_remaining self)) n in
        case rd maximum (lr_inner self) of
          None \<Rightarrow> None
        | Some (bs, inner) \<Rightarrow>
            if unat (lr_remaining self) < length bs then None
            else Some (bs, self\<lparr> lr_inner := inner, lr_remaining := lr_remaining self - of_nat (length bs) \<rparr>))"

text \<open>Both loops return the source and the sink with the result, also when they fail.\<close>

function copy_decoded ::
    "(nat \<Rightarrow> 'r \<Rightarrow> (bytes \<times> 'r) option) \<Rightarrow> ('w \<Rightarrow> bytes \<Rightarrow> nat option \<times> 'w) \<Rightarrow> u64 \<Rightarrow> security_limits
     \<Rightarrow> u64 \<Rightarrow> 'r \<Rightarrow> 'w \<Rightarrow> (compression_error + u64) \<times> 'r \<times> 'w" where
  "copy_decoded rd wr declared limits written r w =
     (case rd BUFFER_SIZE r of
        None \<Rightarrow> (Inl InvalidStream, r, w)
      | Some (chunk, r) \<Rightarrow>
          if chunk = [] then
            (if written \<noteq> declared then (Inl (SizeMismatch declared written), r, w) else (Inr written, r, w))
          else
     (case and_then (usize_to_u64 (length chunk)) (\<lambda>read. ok_or CompressionLengthOverflow (checked_add written read)) of
        Inl e \<Rightarrow> (Inl e, r, w)
      | Inr nxt \<Rightarrow>
          if declared < nxt then (Inl (SizeMismatch declared nxt), r, w)
          else (case enforce_output_limit nxt limits of
            Inl e \<Rightarrow> (Inl e, r, w)
          | Inr _ \<Rightarrow>
              if BUFFER_SIZE < length chunk then (Inl CompressionLengthOverflow, r, w)
              else (case write_all wr w chunk of
                (False, w) \<Rightarrow> (Inl OutputWriteFailed, r, w)
              | (True, w) \<Rightarrow> copy_decoded rd wr declared limits nxt r w))))"
  by pat_completeness auto

function copy_declared ::
    "(nat \<Rightarrow> 'r \<Rightarrow> (bytes \<times> 'r) option) \<Rightarrow> ('w \<Rightarrow> bytes \<Rightarrow> nat option \<times> 'w) \<Rightarrow> u64
     \<Rightarrow> u64 \<Rightarrow> 'r \<Rightarrow> 'w \<Rightarrow> (compression_error + unit) \<times> 'r \<times> 'w" where
  "copy_declared rd wr expected consumed r w =
     (case rd BUFFER_SIZE r of
        None \<Rightarrow> (Inl InputReadFailed, r, w)
      | Some (chunk, r) \<Rightarrow>
          if chunk = [] then
            (if consumed \<noteq> expected then (Inl (SizeMismatch expected consumed), r, w) else (Inr (), r, w))
          else
     (case and_then (usize_to_u64 (length chunk)) (\<lambda>read. ok_or CompressionLengthOverflow (checked_add consumed read)) of
        Inl e \<Rightarrow> (Inl e, r, w)
      | Inr nxt \<Rightarrow>
          if expected < nxt then (Inl (SizeMismatch expected nxt), r, w)
          else if BUFFER_SIZE < length chunk then (Inl CompressionLengthOverflow, r, w)
          else (case write_all wr w chunk of
                (False, w) \<Rightarrow> (Inl OutputWriteFailed, r, w)
              | (True, w) \<Rightarrow> copy_declared rd wr expected nxt r w)))"
  by pat_completeness auto

lemma next_position:
  "and_then (usize_to_u64 n) (\<lambda>read. ok_or CompressionLengthOverflow (checked_add a read)) = Inr b \<longleftrightarrow>
     unat b = unat a + n"
proof
  assume "and_then (usize_to_u64 n) (\<lambda>read. ok_or CompressionLengthOverflow (checked_add a read)) = Inr b"
  then show "unat b = unat a + n"
    by (auto simp: usize_to_u64_def and_then_eq_Inr checked_add_eq_Some)
next
  assume b: "unat b = unat a + n"
  then have "n < 2 ^ 64" "unat (of_nat n :: u64) = n" "b = a + of_nat n"
    using unsigned_less [of b, where ?'a = nat]
    by (simp_all add: unat_of_nat word_unat_eq_iff unat_word_ariths)
  with b show "and_then (usize_to_u64 n) (\<lambda>read. ok_or CompressionLengthOverflow (checked_add a read)) = Inr b"
    by (simp add: usize_to_u64_def try_from_usize_ok checked_add_eq_Some)
qed

lemma next_position_decreases:
  fixes written nxt declared :: u64 and chunk :: bytes
  assumes "chunk \<noteq> []" "unat nxt = unat written + length chunk" "\<not> declared < nxt"
  shows "unat declared - (unat written + length chunk) < unat declared - unat written"
  using assms by (cases chunk) (auto simp: word_less_nat_alt)

termination copy_decoded
  by (relation "measure (\<lambda>(rd, wr, declared, limits, written, r, w). unat declared - unat written)")
    (auto simp: next_position intro: next_position_decreases)

termination copy_declared
  by (relation "measure (\<lambda>(rd, wr, expected, consumed, r, w). unat expected - unat consumed)")
    (auto simp: next_position intro: next_position_decreases)

declare copy_decoded.simps [simp del] copy_declared.simps [simp del]

section \<open>The Zstandard engine\<close>

text \<open>
  \<open>enc_new level dictionary pledged long\<close> opens an encoder (with the long-distance window when \<open>long\<close>),
  \<open>enc_step\<close> feeds bytes and yields frame bytes, \<open>enc_end\<close> yields the rest of the frame; \<open>dec_new\<close> opens
  a decoder on a complete frame and \<open>dec_read\<close> reads from it. \<open>None\<close> is a failure of the library.
\<close>

record ('e, 'd) zstd_engine =
  enc_new :: "int \<Rightarrow> bytes \<Rightarrow> u64 \<Rightarrow> nat option \<Rightarrow> 'e option"
  enc_step :: "'e \<Rightarrow> bytes \<Rightarrow> (bytes \<times> 'e) option"
  enc_end :: "'e \<Rightarrow> bytes option"
  dec_new :: "bytes \<Rightarrow> bytes \<Rightarrow> 'd option"
  dec_read :: "nat \<Rightarrow> 'd \<Rightarrow> (bytes \<times> 'd) option"

text \<open>The encoder as a sink over another sink: what it emits is written through.\<close>

definition encoder_write ::
    "('e, 'd) zstd_engine \<Rightarrow> ('w \<Rightarrow> bytes \<Rightarrow> nat option \<times> 'w) \<Rightarrow> 'e \<times> 'w \<Rightarrow> bytes \<Rightarrow> nat option \<times> ('e \<times> 'w)" where
  "encoder_write z wr st bs =
     (case st of (e, w) \<Rightarrow>
      case enc_step z e bs of
        None \<Rightarrow> (None, st)
      | Some (out, e) \<Rightarrow>
          (case write_all wr w out of
             (True, w) \<Rightarrow> (Some (length bs), (e, w))
           | (False, w) \<Rightarrow> (None, (e, w))))"

definition compress_zstd_stream ::
    "('e, 'd) zstd_engine \<Rightarrow> (nat \<Rightarrow> 'r \<Rightarrow> (bytes \<times> 'r) option) \<Rightarrow> ('w \<Rightarrow> bytes \<Rightarrow> nat option \<times> 'w)
     \<Rightarrow> compression_profile \<Rightarrow> bytes \<Rightarrow> u64 \<Rightarrow> 'r \<Rightarrow> 'w \<Rightarrow> (compression_error + unit) \<times> 'w" where
  "compress_zstd_stream z rd wr profile dictionary declared r w =
     (case enc_new z (profile_level profile) dictionary declared
             (if profile = Maximum then Some MAXIMUM_WINDOW_LOG else None) of
        None \<Rightarrow> (Inl CompressionFailed, w)
      | Some e \<Rightarrow>
          (case copy_declared rd (encoder_write z wr) declared 0 r (e, w) of (copied, r, e, w) \<Rightarrow>
           let (finished, w) =
             (case enc_end z e of
                None \<Rightarrow> (Inl CompressionFailed, w)
              | Some out \<Rightarrow> (case write_all wr w out of
                    (True, w) \<Rightarrow> (Inr (), w)
                  | (False, w) \<Rightarrow> (Inl CompressionFailed, w)))
           in (and_then copied (\<lambda>_. finished), w)))"

text \<open>A slice as a source: \<open>read\<close> copies as much as fits.\<close>

definition slice_read :: "nat \<Rightarrow> bytes \<Rightarrow> (bytes \<times> bytes) option" where
  "slice_read n bs = Some (take n bs, drop n bs)"

definition compress_zstd ::
    "('e, 'd) zstd_engine \<Rightarrow> bytes \<Rightarrow> compression_profile \<Rightarrow> bytes \<Rightarrow> compression_error + bytes" where
  "compress_zstd z inp profile dictionary =
     and_then (usize_to_u64 (length inp)) (\<lambda>declared.
       case compress_zstd_stream z slice_read vec_write profile dictionary declared inp [] of
         (result, out) \<Rightarrow> and_then result (\<lambda>_. Inr out))"

definition read_bounded_output ::
    "(nat \<Rightarrow> 'r \<Rightarrow> (bytes \<times> 'r) option) \<Rightarrow> u64 \<Rightarrow> security_limits \<Rightarrow> 'r \<Rightarrow> compression_error + bytes" where
  "read_bounded_output rd declared limits r =
     and_then (usize_try_from CompressionLengthOverflow declared) (\<lambda>_.
       case copy_decoded rd vec_write declared limits 0 r [] of
         (result, _, out) \<Rightarrow> and_then result (\<lambda>_. Inr out))"

definition decompress_zstd ::
    "('e, 'd) zstd_engine \<Rightarrow> bytes \<Rightarrow> bytes \<Rightarrow> u64 \<Rightarrow> security_limits \<Rightarrow> compression_error + bytes" where
  "decompress_zstd z inp dictionary declared limits =
     and_then (ok_or InvalidStream (dec_new z dictionary inp)) (\<lambda>decoder.
       read_bounded_output (dec_read z) declared limits decoder)"

section \<open>The public operations\<close>

definition compress_with_dictionary ::
    "('e, 'd) zstd_engine \<Rightarrow> bytes \<Rightarrow> compression_algorithm \<Rightarrow> compression_profile \<Rightarrow> bytes \<Rightarrow> security_limits
     \<Rightarrow> compression_error + bytes" where
  "compress_with_dictionary z inp algorithm profile dictionary limits =
     and_then (usize_to_u64 (length inp)) (\<lambda>input_len.
     and_then (enforce_output_limit input_len limits) (\<lambda>_.
     and_then (case algorithm of
         CompressionNone \<Rightarrow> if dictionary = [] then Inr inp else Inl InvalidDictionary
       | CompressionZstd \<Rightarrow> compress_zstd z inp profile dictionary) (\<lambda>out.
     and_then (usize_to_u64 (length out)) (\<lambda>out_len.
     and_then (enforce_compressed_limit out_len limits) (\<lambda>_. Inr out)))))"

definition compress_with_profile ::
    "('e, 'd) zstd_engine \<Rightarrow> bytes \<Rightarrow> compression_algorithm \<Rightarrow> compression_profile \<Rightarrow> security_limits
     \<Rightarrow> compression_error + bytes" where
  "compress_with_profile z inp algorithm profile limits =
     compress_with_dictionary z inp algorithm profile [] limits"

definition compress ::
    "('e, 'd) zstd_engine \<Rightarrow> bytes \<Rightarrow> compression_algorithm \<Rightarrow> security_limits \<Rightarrow> compression_error + bytes" where
  "compress z inp algorithm limits = compress_with_profile z inp algorithm Balanced limits"

definition decompress_with_dictionary ::
    "('e, 'd) zstd_engine \<Rightarrow> bytes \<Rightarrow> compression_algorithm \<Rightarrow> bytes \<Rightarrow> u64 \<Rightarrow> security_limits
     \<Rightarrow> compression_error + bytes" where
  "decompress_with_dictionary z inp algorithm dictionary declared limits =
     and_then (usize_to_u64 (length inp)) (\<lambda>compressed_size.
     and_then (enforce_compressed_limit compressed_size limits) (\<lambda>_.
     and_then (enforce_output_limit declared limits) (\<lambda>_.
     and_then (enforce_ratio compressed_size declared limits) (\<lambda>_.
     and_then (case algorithm of
         CompressionNone \<Rightarrow> if dictionary = [] then Inr inp else Inl InvalidDictionary
       | CompressionZstd \<Rightarrow> decompress_zstd z inp dictionary declared limits) (\<lambda>out.
     and_then (usize_to_u64 (length out)) (\<lambda>actual.
       if actual \<noteq> declared then Inl (SizeMismatch declared actual) else Inr out))))))"

definition decompress ::
    "('e, 'd) zstd_engine \<Rightarrow> bytes \<Rightarrow> compression_algorithm \<Rightarrow> u64 \<Rightarrow> security_limits \<Rightarrow> compression_error + bytes" where
  "decompress z inp algorithm declared limits = decompress_with_dictionary z inp algorithm [] declared limits"

definition compress_stream_with_dictionary ::
    "('e, 'd) zstd_engine \<Rightarrow> (nat \<Rightarrow> 'r \<Rightarrow> (bytes \<times> 'r) option) \<Rightarrow> ('w \<Rightarrow> bytes \<Rightarrow> nat option \<times> 'w)
     \<Rightarrow> 'r \<Rightarrow> 'w \<Rightarrow> compression_method \<Rightarrow> compression_profile \<Rightarrow> u64 \<Rightarrow> security_limits
     \<Rightarrow> (compression_error + compression_stats) \<times> 'w" where
  "compress_stream_with_dictionary z rd wr r w method profile declared limits =
     (case enforce_output_limit declared limits of
        Inl e \<Rightarrow> (Inl e, w)
      | Inr _ \<Rightarrow>
          let bounded = bounded_writer_new w (max_compressed_payload_bytes limits) in
          if method_algorithm method = CompressionNone \<and> method_dictionary method \<noteq> []
          then (Inl InvalidDictionary, w)
          else
          let (operation, bounded) =
            (case method_algorithm method of
               CompressionNone \<Rightarrow>
                 (case copy_declared rd (bounded_write wr) declared 0 r bounded of (res, _, b) \<Rightarrow> (res, b))
             | CompressionZstd \<Rightarrow>
                 compress_zstd_stream z rd (bounded_write wr) profile (method_dictionary method) declared r bounded)
          in (if bw_exceeded bounded
              then Inl (CompressedInputTooLarge (max_compressed_payload_bytes limits) (bw_attempted bounded))
              else and_then operation (\<lambda>_. Inr \<lparr> input_bytes = declared, output_bytes = bw_written bounded \<rparr>),
              bw_inner bounded))"

definition compress_stream ::
    "('e, 'd) zstd_engine \<Rightarrow> (nat \<Rightarrow> 'r \<Rightarrow> (bytes \<times> 'r) option) \<Rightarrow> ('w \<Rightarrow> bytes \<Rightarrow> nat option \<times> 'w)
     \<Rightarrow> 'r \<Rightarrow> 'w \<Rightarrow> compression_algorithm \<Rightarrow> compression_profile \<Rightarrow> u64 \<Rightarrow> security_limits
     \<Rightarrow> (compression_error + compression_stats) \<times> 'w" where
  "compress_stream z rd wr r w algorithm profile declared limits =
     compress_stream_with_dictionary z rd wr r w (method_new algorithm) profile declared limits"

section \<open>The sink interface\<close>

text \<open>
  What the loops need of a sink: a property of its state that every \<open>write\<close> keeps, whether it
  succeeds or not. Everything that only writes through the sink keeps it too.
\<close>

lemmas copy_splits = option.splits sum.splits prod.splits bool.splits if_splits

locale sink =
  fixes wr :: "'w \<Rightarrow> bytes \<Rightarrow> nat option \<times> 'w"
    and inv :: "'w \<Rightarrow> bool"
  assumes write_inv: "inv w \<Longrightarrow> wr w bs = (res, w') \<Longrightarrow> inv w'"
begin

lemma write_all_inv: "f = wr \<Longrightarrow> inv w \<Longrightarrow> write_all f w bs = (ok, w') \<Longrightarrow> inv w'"
proof (induction f w bs rule: write_all.induct)
  case (1 f w bs)
  obtain n v where v: "wr w bs = (n, v)" by (cases "wr w bs")
  with 1 write_inv [OF 1(3) v] show ?case
    by (subst (asm) write_all.simps) (auto split: copy_splits)
qed

lemmas write_all_keeps = write_all_inv [OF refl]

lemma copy_declared_inv:
  "f = wr \<Longrightarrow> inv w \<Longrightarrow> copy_declared rd f expected consumed r w = (res, r', w') \<Longrightarrow> inv w'"
proof (induction rd f expected consumed r w rule: copy_declared.induct)
  case (1 rd f expected consumed r w)
  then show ?case
    by (subst (asm) copy_declared.simps [of rd f expected consumed r w])
      (auto split: copy_splits dest: write_all_keeps)
qed

lemma copy_decoded_inv:
  "f = wr \<Longrightarrow> inv w \<Longrightarrow> copy_decoded rd f declared limits written r w = (res, r', w') \<Longrightarrow> inv w'"
proof (induction rd f declared limits written r w rule: copy_decoded.induct)
  case (1 rd f declared limits written r w)
  then show ?case
    by (subst (asm) copy_decoded.simps [of rd f declared limits written r w])
      (auto split: copy_splits dest: write_all_keeps)
qed

lemma encoder_sink: "sink (encoder_write z wr) (\<lambda>st. inv (snd st))"
  by unfold_locales (auto simp: encoder_write_def split: copy_splits dest: write_all_keeps)

lemma compress_zstd_stream_inv:
  assumes "inv w" "compress_zstd_stream z rd wr profile dictionary declared r w = (res, w')"
  shows "inv w'"
proof -
  have copied: "inv v" if "copy_declared rd (encoder_write z wr) declared 0 r (e, w) = (cp, q, e', v)" for cp q e e' v
    using sink.copy_declared_inv [OF encoder_sink refl _ that] assms(1) by simp
  with assms show ?thesis
    by (auto simp: compress_zstd_stream_def Let_def split: copy_splits intro: write_all_keeps [OF copied])
qed

end

text \<open>The bounded writer over a vector: it counts what it wrote and stays within its maximum.\<close>

definition bounded_inv :: "bytes \<Rightarrow> u64 \<Rightarrow> bytes bounded_writer \<Rightarrow> bool" where
  "bounded_inv start maximum bw \<longleftrightarrow>
     bw_maximum bw = maximum \<and> bw_written bw \<le> maximum \<and>
     (\<exists>ext. bw_inner bw = start @ ext \<and> length ext = unat (bw_written bw))"

lemma bounded_write_vec:
  "bounded_write vec_write self bs =
     (case try_from_usize () (length bs) of
        Inl _ \<Rightarrow> (None, self)
      | Inr len \<Rightarrow> (case checked_add (bw_written self) len of
          None \<Rightarrow> (None, self)
        | Some nxt \<Rightarrow>
            if bw_maximum self < nxt then (None, self\<lparr> bw_attempted := nxt, bw_exceeded := True \<rparr>)
            else (Some (length bs),
              self\<lparr> bw_attempted := nxt, bw_inner := bw_inner self @ bs, bw_written := nxt \<rparr>)))"
  by (simp add: bounded_write_def vec_write_def Let_def split: sum.split option.split)

interpretation bw: sink "bounded_write vec_write" "bounded_inv start maximum"
  for start maximum
proof unfold_locales
  fix w w' bs res
  assume "bounded_inv start maximum w" "bounded_write vec_write w bs = (res, w')"
  then show "bounded_inv start maximum w'"
    by (auto simp: bounded_inv_def bounded_write_vec checked_add_eq_Some split: copy_splits)
qed

section \<open>What a decoder emits\<close>

inductive emits :: "(nat \<Rightarrow> 'r \<Rightarrow> (bytes \<times> 'r) option) \<Rightarrow> 'r \<Rightarrow> bytes \<Rightarrow> bool" for rd where
  emits_end: "rd BUFFER_SIZE r = Some ([], r') \<Longrightarrow> emits rd r []"
| emits_chunk: "rd BUFFER_SIZE r = Some (chunk, r') \<Longrightarrow> chunk \<noteq> [] \<Longrightarrow> length chunk \<le> BUFFER_SIZE \<Longrightarrow>
    emits rd r' bs \<Longrightarrow> emits rd r (chunk @ bs)"

fun enc_run :: "('e, 'd) zstd_engine \<Rightarrow> 'e \<Rightarrow> bytes list \<Rightarrow> bytes option" where
  "enc_run z e [] = enc_end z e"
| "enc_run z e (c # cs) =
     (case enc_step z e c of None \<Rightarrow> None | Some (out, e) \<Rightarrow> map_option ((@) out) (enc_run z e cs))"

text \<open>
  The documented behaviour of Zstandard the crate relies on: whatever the level, dictionary, window
  and chunking, a frame that was finished decodes, with the same dictionary, to the bytes fed in.
\<close>

definition zstd_contract :: "('e, 'd) zstd_engine \<Rightarrow> bool" where
  "zstd_contract z \<longleftrightarrow>
     (\<forall>level dictionary pledged window e chunks frame.
        enc_new z level dictionary pledged window = Some e \<and> enc_run z e chunks = Some frame \<and>
        length (concat chunks) = unat pledged \<longrightarrow>
        (\<exists>d. dec_new z dictionary frame = Some d \<and> emits (dec_read z) d (concat chunks)))"

lemma write_all_Nil [simp]: "write_all wr w [] = (True, w)"
  by (simp add: write_all.simps)

lemma write_all_vec [simp]: "write_all vec_write w bs = (True, w @ bs)"
  by (subst write_all.simps) (simp add: vec_write_def)

lemma write_all_encoder:
  "bs \<noteq> [] \<Longrightarrow> write_all (encoder_write z vec_write) (e, w) bs =
     (case enc_step z e bs of None \<Rightarrow> (False, (e, w)) | Some (out, e') \<Rightarrow> (True, (e', w @ out)))"
  by (subst write_all.simps) (simp add: encoder_write_def split: option.split)

lemma enforce_limit_eq_Inr [simp]:
  "enforce_output_limit a limits = Inr u \<longleftrightarrow> a \<le> max_uncompressed_payload_bytes limits"
  "enforce_compressed_limit a limits = Inr u \<longleftrightarrow> a \<le> max_compressed_payload_bytes limits"
  by (auto simp: enforce_output_limit_def enforce_compressed_limit_def)

lemma copy_decoded_emits:
  assumes "emits rd r bs" "unat written + length bs = unat declared"
    "declared \<le> max_uncompressed_payload_bytes limits"
  shows "\<exists>r'. copy_decoded rd vec_write declared limits written r w = (Inr declared, r', w @ bs)"
  using assms
proof (induction arbitrary: written w rule: emits.induct)
  case (emits_end r r')
  then have "written = declared" by (simp add: word_unat_eq_iff)
  with emits_end show ?case by (subst copy_decoded.simps) simp
next
  case (emits_chunk r chunk r' bs)
  define nxt where "nxt = written + (of_nat (length chunk) :: u64)"
  have small: "unat written + length chunk < 2 ^ 64"
    using emits_chunk.prems(1) unsigned_less [of declared, where ?'a = nat] by simp
  then have nxt: "unat nxt = unat written + length chunk"
    by (simp add: nxt_def unat_word_ariths unat_of_nat)
  then have pos: "and_then (usize_to_u64 (length chunk))
      (\<lambda>read. ok_or CompressionLengthOverflow (checked_add written read)) = Inr nxt"
    by (simp only: next_position)
  have le: "\<not> declared < nxt" "nxt \<le> max_uncompressed_payload_bytes limits"
    using emits_chunk.prems nxt by (auto simp: word_less_nat_alt word_le_nat_alt)
  from le(2) have lim: "enforce_output_limit nxt limits = Inr ()" by simp
  from emits_chunk.IH [of nxt "w @ chunk"] emits_chunk.prems nxt
  obtain q where "copy_decoded rd vec_write declared limits nxt r' (w @ chunk) = (Inr declared, q, (w @ chunk) @ bs)"
    by auto
  with emits_chunk.hyps le(1) show ?case
    by (subst copy_decoded.simps) (simp add: pos lim)
qed

lemma copy_decoded_bound:
  "f = vec_write \<Longrightarrow> copy_decoded rd f declared limits written r w = (res, r', out) \<Longrightarrow> written \<le> declared \<Longrightarrow>
   \<exists>ext. out = w @ ext \<and> unat written + length ext \<le> unat declared \<and>
     (\<forall>n. res = Inr n \<longrightarrow> n = declared \<and> unat written + length ext = unat declared)"
proof (induction rd f declared limits written r w rule: copy_decoded.induct)
  case (1 rd f declared limits written r w)
  show ?case
  proof (cases "rd BUFFER_SIZE r")
    case None
    with 1(2-) show ?thesis
      by (subst (asm) copy_decoded.simps) (auto simp: word_le_nat_alt)
  next
    case (Some p)
    then obtain chunk q where p: "rd BUFFER_SIZE r = Some (chunk, q)" by (cases p) auto
    let ?next = "and_then (usize_to_u64 (length chunk))
      (\<lambda>read. ok_or CompressionLengthOverflow (checked_add written read))"
    show ?thesis
    proof (cases "chunk \<noteq> [] \<and> (\<exists>nxt. ?next = Inr nxt \<and> nxt \<le> declared \<and>
        nxt \<le> max_uncompressed_payload_bytes limits) \<and> length chunk \<le> BUFFER_SIZE")
      case True
      then obtain nxt where nxt: "?next = Inr nxt" "nxt \<le> declared" "enforce_output_limit nxt limits = Inr ()"
        "\<not> declared < nxt" "\<not> BUFFER_SIZE < length chunk"
        by (auto simp: not_less)
      from 1(3) True nxt p have rec:
        "copy_decoded rd f declared limits nxt q (w @ chunk) = (res, r', out)"
        by (subst (asm) copy_decoded.simps) (simp add: 1(2))
      from True have "chunk \<noteq> []" by simp
      from 1(1) [OF p refl this nxt(1,4,3,5) _ refl 1(2) rec nxt(2)] obtain ext where
        "out = (w @ chunk) @ ext" "unat nxt + length ext \<le> unat declared"
        "\<forall>n. res = Inr n \<longrightarrow> n = declared \<and> unat nxt + length ext = unat declared"
        unfolding 1(2) write_all_vec by blast
      with nxt(1) [unfolded next_position] show ?thesis by (intro exI [of _ "chunk @ ext"]) (auto simp: add.assoc)
    next
      case False
      with 1(2-) p show ?thesis
        by (subst (asm) copy_decoded.simps) (auto simp: word_le_nat_alt not_less split: copy_splits)
    qed
  qed
qed

lemma map_option_append_Nil [simp]: "map_option ((@) []) x = x"
  by (cases x) simp_all

lemma copy_declared_encoder:
  assumes "copy_declared slice_read f expected consumed bs (e, w) = (Inr (), r', e', w')"
    "f = encoder_write z vec_write"
  shows "\<exists>chunks out. concat chunks = bs \<and> w' = w @ out \<and> unat consumed + length bs = unat expected \<and>
    enc_run z e chunks = map_option ((@) out) (enc_end z e')"
  using assms
proof (induction "length bs" arbitrary: bs e w consumed rule: less_induct)
  case less
  let ?c = "take BUFFER_SIZE bs" and ?r = "drop BUFFER_SIZE bs"
  show ?case
  proof (cases "bs = []")
    case True
    with less.prems show ?thesis
      by (subst (asm) copy_declared.simps)
        (auto simp: slice_read_def split: if_splits intro!: exI [of _ "[]"])
  next
    case False
    then have c: "?c \<noteq> []" "length ?r < length bs" by (auto simp: BUFFER_SIZE_def)
    from less.prems False c obtain nxt out e1 where
      nxt: "and_then (usize_to_u64 (length ?c))
        (\<lambda>read. ok_or CompressionLengthOverflow (checked_add consumed read)) = Inr nxt"
      and out: "enc_step z e ?c = Some (out, e1)"
      and rec: "copy_declared slice_read f expected nxt ?r (e1, w @ out) = (Inr (), r', e', w')"
      by (subst (asm) copy_declared.simps)
        (auto simp: slice_read_def write_all_encoder split: copy_splits)
    from less.hyps [OF c(2) rec less.prems(2)] obtain chunks out' where
      IH: "concat chunks = ?r" "w' = (w @ out) @ out'" "unat nxt + length ?r = unat expected"
      "enc_run z e1 chunks = map_option ((@) out') (enc_end z e')" by blast
    from nxt have "unat nxt = unat consumed + length ?c" by (simp only: next_position)
    with IH out show ?thesis
      by (intro exI [of _ "?c # chunks"] exI [of _ "out @ out'"], cases "enc_end z e'") auto
  qed
qed

lemma compress_zstd_frame:
  assumes "compress_zstd z inp profile dictionary = Inr frame"
  obtains e chunks where "length inp < 2 ^ 64"
    "enc_new z (profile_level profile) dictionary (of_nat (length inp))
       (if profile = Maximum then Some MAXIMUM_WINDOW_LOG else None) = Some e"
    "concat chunks = inp" "enc_run z e chunks = Some frame"
proof -
  let ?n = "of_nat (length inp) :: u64"
  have len: "length inp < 2 ^ 64"
    using assms by (auto simp: compress_zstd_def usize_to_u64_def try_from_usize_def split: if_splits)
  then have "usize_to_u64 (length inp) = Inr ?n" by (simp add: usize_to_u64_def try_from_usize_ok)
  with assms have "compress_zstd_stream z slice_read vec_write profile dictionary ?n inp [] = (Inr (), frame)"
    by (auto simp: compress_zstd_def and_then_eq_Inr split: prod.splits)
  then obtain e r' e' w' out where e: "enc_new z (profile_level profile) dictionary ?n
       (if profile = Maximum then Some MAXIMUM_WINDOW_LOG else None) = Some e"
    and cp: "copy_declared slice_read (encoder_write z vec_write) ?n 0 inp (e, []) = (Inr (), r', e', w')"
    and fin: "enc_end z e' = Some out" "frame = w' @ out"
    by (auto simp: compress_zstd_stream_def Let_def and_then_eq_Inr split: option.splits prod.splits)
  from copy_declared_encoder [OF cp refl] fin obtain chunks where
    "concat chunks = inp" "enc_run z e chunks = Some frame" by auto
  with e len that show thesis by blast
qed

lemma compress_zstd_decodes:
  assumes "zstd_contract z" "compress_zstd z inp profile dictionary = Inr frame"
  obtains d where "dec_new z dictionary frame = Some d" "emits (dec_read z) d inp"
proof (rule compress_zstd_frame [OF assms(2)])
  fix e chunks
  assume "length inp < 2 ^ 64"
    "enc_new z (profile_level profile) dictionary (of_nat (length inp))
       (if profile = Maximum then Some MAXIMUM_WINDOW_LOG else None) = Some e"
    "concat chunks = inp" "enc_run z e chunks = Some frame"
  moreover from this have "length (concat chunks) = unat (of_nat (length inp) :: u64)"
    by (simp add: unat_of_nat)
  ultimately show thesis using assms(1) that unfolding zstd_contract_def by blast
qed

lemma enforce_ratio_eq_Inr:
  "enforce_ratio c u limits = Inr x \<longleftrightarrow>
     u = 0 \<or> c \<noteq> 0 \<and> (unat u \<le> unat c * unat (max_compression_ratio limits))"
proof -
  have "unat u < 2 ^ 64" using unsigned_less [of u, where ?'a = nat] by simp
  then have "\<not> saturating_mul c (max_compression_ratio limits) < u \<longleftrightarrow>
      unat u \<le> unat c * unat (max_compression_ratio limits)"
    by (auto simp: word_less_nat_alt unat_saturating_mul min_def)
  then show ?thesis by (auto simp: enforce_ratio_def)
qed

lemma enforce_ratio_ok:
  "u = 0 \<or> c \<noteq> 0 \<and> unat u \<le> unat c * unat (max_compression_ratio limits) \<Longrightarrow> enforce_ratio c u limits = Inr ()"
  by (simp add: enforce_ratio_eq_Inr)

lemma decompress_compress:
  assumes "zstd_contract z" "compress_with_dictionary z inp algorithm profile dictionary limits = Inr out"
    "length inp \<le> length out * unat (max_compression_ratio limits)"
  shows "decompress_with_dictionary z out algorithm dictionary (of_nat (length inp)) limits = Inr inp"
proof -
  let ?n = "of_nat (length inp) :: u64" and ?m = "of_nat (length out) :: u64"
  from assms(2) have inp: "length inp < 2 ^ 64" "?n \<le> max_uncompressed_payload_bytes limits"
    and out: "length out < 2 ^ 64" "?m \<le> max_compressed_payload_bytes limits"
    by (auto simp: compress_with_dictionary_def and_then_eq_Inr usize_to_u64_def try_from_usize_def split: if_splits)
  then have unats: "unat ?n = length inp" "unat ?m = length out" by (simp_all add: unat_of_nat)
  have "enforce_ratio ?m ?n limits = Inr ()"
    using assms(3) by (intro enforce_ratio_ok) (auto simp: unats word_unat_eq_iff)
  moreover have "(case algorithm of
         CompressionNone \<Rightarrow> if dictionary = [] then Inr out else Inl InvalidDictionary
       | CompressionZstd \<Rightarrow> decompress_zstd z out dictionary ?n limits) = Inr inp"
  proof (cases algorithm)
    case CompressionNone
    with assms(2) show ?thesis
      by (auto simp: compress_with_dictionary_def and_then_eq_Inr split: if_splits)
  next
    case CompressionZstd
    with assms(2) have "compress_zstd z inp profile dictionary = Inr out"
      by (auto simp: compress_with_dictionary_def and_then_eq_Inr)
    from compress_zstd_decodes [OF assms(1) this] obtain d where
      d: "dec_new z dictionary out = Some d" "emits (dec_read z) d inp" .
    from copy_decoded_emits [OF d(2), of 0 ?n limits "[]"] inp unats d(1) CompressionZstd show ?thesis
      by (auto simp: decompress_zstd_def read_bounded_output_def)
  qed
  moreover have "enforce_compressed_limit ?m limits = Inr ()" "enforce_output_limit ?n limits = Inr ()"
    using inp out by simp_all
  ultimately show ?thesis
    using inp(1) out(1)
    by (simp add: decompress_with_dictionary_def usize_to_u64_def try_from_usize_ok del: enforce_limit_eq_Inr)
qed

section \<open>Properties of compression\<close>

text \<open>
  C38. Decompression undoes compression: for both algorithms, any profile and any dictionary, what
  \<open>compress_with_dictionary\<close> returns decompresses under the same limits and declared size to the
  original bytes, whenever the achieved ratio is within the limit the decoder enforces.
\<close>

theorem compress_decompress:
  assumes "zstd_contract z" "compress_with_dictionary z inp algorithm profile dictionary limits = Inr out"
    "length inp \<le> length out * unat (max_compression_ratio limits)"
  shows "decompress_with_dictionary z out algorithm dictionary (of_nat (length inp)) limits = Inr inp"
  using assms by (rule decompress_compress)

text \<open>A computable engine that stores its input meets the contract.\<close>

definition stored_zstd :: "(unit, bytes) zstd_engine" where
  "stored_zstd =
     \<lparr> enc_new = (\<lambda>_ _ _ _. Some ()), enc_step = (\<lambda>e c. Some (c, e)), enc_end = (\<lambda>_. Some []),
       dec_new = (\<lambda>_ frame. Some frame), dec_read = slice_read \<rparr>"

lemma emits_slice: "emits slice_read bs bs"
proof (induction "length bs" arbitrary: bs rule: less_induct)
  case less
  let ?c = "take BUFFER_SIZE bs" and ?r = "drop BUFFER_SIZE bs"
  show ?case
  proof (cases "bs = []")
    case True
    then show ?thesis by (auto simp: slice_read_def intro: emits_end)
  next
    case False
    then have "length ?r < length bs" "?c \<noteq> []" by (auto simp: BUFFER_SIZE_def)
    with less have "emits slice_read bs (?c @ ?r)"
      by (intro emits_chunk [where r' = ?r]) (simp_all add: slice_read_def)
    then show ?thesis by simp
  qed
qed

lemma stored_zstd_contract: "zstd_contract stored_zstd"
proof -
  have "enc_run stored_zstd e chunks = Some (concat chunks)" for e chunks
    by (induction chunks arbitrary: e) (simp_all add: stored_zstd_def)
  moreover have "dec_read stored_zstd = slice_read" "dec_new stored_zstd dictionary frame = Some frame"
    for dictionary frame by (simp_all add: stored_zstd_def)
  ultimately show ?thesis by (auto simp: zstd_contract_def intro: emits_slice)
qed

theorem compress_decompress_witness:
  "zstd_contract stored_zstd \<and>
   compress_with_dictionary stored_zstd [1, 2, 3] CompressionZstd Balanced [] limits_V1 = Inr [1, 2, 3] \<and>
   decompress_with_dictionary stored_zstd [1, 2, 3] CompressionZstd [] 3 limits_V1 = Inr [1, 2, 3]"
proof -
  have c: "compress_with_dictionary stored_zstd [1, 2, 3] CompressionZstd Balanced [] limits_V1 = Inr [1, 2, 3]"
    by (simp add: compress_with_dictionary_def compress_zstd_def compress_zstd_stream_def usize_to_u64_def
        try_from_usize_def enforce_output_limit_def enforce_compressed_limit_def limits_V1_def copy_declared.simps
        slice_read_def BUFFER_SIZE_def write_all_encoder stored_zstd_def checked_add_def)
  from compress_decompress [OF stored_zstd_contract this] show ?thesis
    using stored_zstd_contract c by (simp add: limits_V1_def)
qed

text \<open>
  A decompressed output is exactly what was declared and what policy allows: its length is the
  declared size, the declared size and the compressed input are within their limits, and the
  expansion is at most the maximum ratio. This holds for every decoder, also a faulty one.
\<close>

theorem decompress_within_policy:
  assumes "decompress_with_dictionary z inp algorithm dictionary declared limits = Inr out"
  shows "length out = unat declared \<and> declared \<le> max_uncompressed_payload_bytes limits \<and>
    length inp \<le> unat (max_compressed_payload_bytes limits) \<and>
    length out \<le> length inp * unat (max_compression_ratio limits)"
  using assms
  by (auto simp: decompress_with_dictionary_def and_then_eq_Inr usize_to_u64_def enforce_ratio_eq_Inr
      word_le_nat_alt split: if_splits)

theorem decompress_within_policy_witness:
  "decompress_with_dictionary stored_zstd [1, 2, 3] CompressionNone [] 3 limits_V1 = Inr [1, 2, 3] \<and>
   length [1, 2, 3 :: u8] \<le> 3 * unat (max_compression_ratio limits_V1)"
proof -
  have "decompress_with_dictionary stored_zstd [1, 2, 3] CompressionNone [] 3 limits_V1 = Inr [1, 2, 3]"
    by (simp add: decompress_with_dictionary_def usize_to_u64_def try_from_usize_def enforce_output_limit_def
        enforce_compressed_limit_def enforce_ratio_def saturating_mul_def limits_V1_def)
  from decompress_within_policy [OF this] this show ?thesis by simp
qed

text \<open>
  C10. No decoder can make the decompression loop grow its buffer beyond the declared size or run
  forever: for every source, including one that never ends, the loop returns, and the bytes it
  has collected, also when it returns an error, are at most the declared number.
\<close>

theorem decompression_bomb_bound:
  "length (snd (snd (copy_decoded rd vec_write declared limits 0 r []))) \<le> unat declared"
  using copy_decoded_bound [OF refl, of rd declared limits 0 r "[]"]
  by (metis append_Nil add_0 prod.collapse unsigned_0 word_zero_le)

text \<open>
  Streaming compression never writes more than the compressed limit: for every source and every
  encoder, on success and on failure, the destination grows by at most
  \<open>max_compressed_payload_bytes\<close>, and on success the reported byte count is the exact growth.
\<close>

theorem compress_stream_bounded:
  "\<exists>ext. snd (compress_stream_with_dictionary z rd vec_write r w method profile declared limits) = w @ ext \<and>
     length ext \<le> unat (max_compressed_payload_bytes limits) \<and>
     (case fst (compress_stream_with_dictionary z rd vec_write r w method profile declared limits) of
        Inl _ \<Rightarrow> True | Inr stats \<Rightarrow> input_bytes stats = declared \<and> unat (output_bytes stats) = length ext)"
proof -
  let ?M = "max_compressed_payload_bytes limits"
  have start: "bounded_inv w ?M (bounded_writer_new w ?M)"
    by (simp add: bounded_inv_def bounded_writer_new_def)
  have end_ok: "\<exists>ext. bw_inner b = w @ ext \<and> length ext \<le> unat ?M \<and> unat (bw_written b) = length ext"
    if "bounded_inv w ?M b" for b
    using that by (auto simp: bounded_inv_def word_le_nat_alt)
  note ends = bw.compress_zstd_stream_inv [OF start, THEN end_ok] bw.copy_declared_inv [OF refl start, THEN end_ok]
  show ?thesis
    by (auto simp: compress_stream_with_dictionary_def Let_def and_then_def
        split: sum.split prod.split compression_algorithm.split dest!: ends)
qed

end
