(* ===== verification/Rap_Pack.thy ===== *)
theory Rap_Pack
  imports Rap_Crypto Rap_Compression "HOL-Library.Multiset"
begin

text \<open>
  The crate \<open>rebyte-pack\<close>: deterministic construction of an unsigned capsule from a set of files.
  \<open>sort_unstable_by\<close> on the paths is \<open>sort_key\<close>; the two differ only on equal paths, which the next
  line of \<open>pack\<close> rejects.
\<close>

section \<open>Data\<close>

record artifact_file =
  relative_path :: relative_artifact_path
  file_bytes :: bytes
  file_executable :: bool

record pack_options =
  po_capsule_name :: "bounded_string option"
  po_description :: "bounded_string option"
  po_producer :: producer_metadata
  po_compression :: compression_algorithm
  po_limits :: security_limits

record unsigned_capsule =
  uc_manifest :: capsule_manifest
  uc_compressed_payload :: bytes
  uc_uncompressed_payload_size :: u64
  uc_compression :: compression_algorithm

datatype pack_error =
    PackPath path_error
  | PackFormat format_error
  | PackCodec codec_error
  | PackCompression compression_error
  | DuplicatePath
  | TooManyFiles u32 u32
  | FileTooLarge u64 u64
  | PackOutputTooLarge u64 u64
  | ManifestTooLarge u64 u64
  | PackLengthOverflow

section \<open>Operations\<close>

definition artifact_file_new :: "bytes \<Rightarrow> bytes \<Rightarrow> pack_error + artifact_file" where
  "artifact_file_new p bs =
     and_then (map_err PackPath (path_new p)) (\<lambda>p.
       Inr \<lparr> relative_path = p, file_bytes = bs, file_executable = False \<rparr>)"

definition with_executable :: "artifact_file \<Rightarrow> bool \<Rightarrow> artifact_file" where
  "with_executable f e = f\<lparr> file_executable := e \<rparr>"

definition pack_options_new :: "bytes \<Rightarrow> pack_error + pack_options" where
  "pack_options_new pname =
     and_then (map_err PackFormat (bounded_string_new MAX_PRODUCER_NAME_BYTES pname ''producer name'')) (\<lambda>nm.
       Inr \<lparr> po_capsule_name = None, po_description = None,
             po_producer = \<lparr> producer_name = nm, producer_version = None \<rparr>,
             po_compression = CompressionZstd, po_limits = limits_V1 \<rparr>)"

definition with_producer_version :: "pack_options \<Rightarrow> bytes \<Rightarrow> pack_error + pack_options" where
  "with_producer_version self version =
     and_then (map_err PackFormat (bounded_string_new MAX_PRODUCER_VERSION_BYTES version ''producer version'')) (\<lambda>v.
       Inr (self\<lparr> po_producer := (po_producer self)\<lparr> producer_version := Some v \<rparr> \<rparr>))"

definition with_capsule_name :: "pack_options \<Rightarrow> bytes \<Rightarrow> pack_error + pack_options" where
  "with_capsule_name self nm =
     and_then (map_err PackFormat (bounded_string_new MAX_CAPSULE_NAME_BYTES nm ''capsule name'')) (\<lambda>v.
       Inr (self\<lparr> po_capsule_name := Some v \<rparr>))"

definition with_description :: "pack_options \<Rightarrow> bytes \<Rightarrow> pack_error + pack_options" where
  "with_description self d =
     and_then (map_err PackFormat (bounded_string_new MAX_DESCRIPTION_BYTES d ''description'')) (\<lambda>v.
       Inr (self\<lparr> po_description := Some v \<rparr>))"

definition reject_duplicates :: "artifact_file list \<Rightarrow> pack_error + unit" where
  "reject_duplicates artifacts =
     (if any_window2 (\<lambda>a b. relative_path a = relative_path b) artifacts then Inl DuplicatePath else Inr ())"

definition total_size_step :: "security_limits \<Rightarrow> u64 \<Rightarrow> artifact_file \<Rightarrow> pack_error + u64" where
  "total_size_step limits total_so_far artifact =
     and_then (try_from_usize PackLengthOverflow (length (file_bytes artifact))) (\<lambda>sz.
       if max_single_file_bytes limits < sz then Inl (FileTooLarge (max_single_file_bytes limits) sz)
       else and_then (ok_or PackLengthOverflow (checked_add total_so_far sz)) (\<lambda>t.
         if max_uncompressed_payload_bytes limits < t
         then Inl (PackOutputTooLarge (max_uncompressed_payload_bytes limits) t)
         else Inr t))"

definition total_size :: "artifact_file list \<Rightarrow> security_limits \<Rightarrow> pack_error + u64" where
  "total_size artifacts limits = try_fold (total_size_step limits) 0 artifacts"

definition pack_entry ::
    "blake3 \<Rightarrow> bytes \<times> file_entry list \<times> u64 \<Rightarrow> artifact_file \<Rightarrow> pack_error + bytes \<times> file_entry list \<times> u64" where
  "pack_entry H st artifact =
     (case st of (payload, entries, off) \<Rightarrow>
      and_then (try_from_usize PackLengthOverflow (length (file_bytes artifact))) (\<lambda>sz.
        let kind = (if from_utf8 (file_bytes artifact) then TextUtf8 else Binary);
            entries = entries @ [\<lparr> path = relative_path artifact, operation = CreateOrReplace,
              content_kind = kind, executable = file_executable artifact, offset = off, size = sz,
              digest = file_digest H (file_bytes artifact) \<rparr>];
            payload = payload @ file_bytes artifact
        in and_then (ok_or PackLengthOverflow (checked_add off sz)) (\<lambda>off.
             Inr (payload, entries, off))))"

definition pack ::
    "blake3 \<Rightarrow> ('e, 'd) zstd_engine \<Rightarrow> artifact_file list \<Rightarrow> pack_options \<Rightarrow> pack_error + unsigned_capsule" where
  "pack H z artifacts options =
     and_then (try_from_usize PackLengthOverflow (length artifacts)) (\<lambda>count.
       if max_file_count (po_limits options) < count
       then Inl (TooManyFiles (max_file_count (po_limits options)) count)
       else
     let ordered = sort_key relative_path artifacts in
     and_then (reject_duplicates ordered) (\<lambda>_.
     and_then (total_size ordered (po_limits options)) (\<lambda>total.
     and_then (usize_try_from PackLengthOverflow total) (\<lambda>_.
     and_then (try_fold (pack_entry H) ([], [], 0) ordered) (\<lambda>(payload, entries, _).
     let manifest = \<lparr> capsule_name = po_capsule_name options, description = po_description options,
                      producer = po_producer options, files = entries \<rparr> in
     and_then (map_err PackCodec (encode_manifest manifest)) (\<lambda>manifest_bytes.
     and_then (try_from_usize PackLengthOverflow (length manifest_bytes)) (\<lambda>manifest_size.
       if max_manifest_bytes (po_limits options) < manifest_size
       then Inl (ManifestTooLarge (max_manifest_bytes (po_limits options)) manifest_size)
       else
     and_then (map_err PackCompression (compress z payload (po_compression options) (po_limits options))) (\<lambda>compressed.
       Inr \<lparr> uc_manifest = manifest, uc_compressed_payload = compressed,
             uc_uncompressed_payload_size = total, uc_compression = po_compression options \<rparr>))))))))"

section \<open>What pack produces\<close>

text \<open>The entries of a list of files laid out one after another from an offset.\<close>

fun entries_of :: "blake3 \<Rightarrow> u64 \<Rightarrow> artifact_file list \<Rightarrow> file_entry list" where
  "entries_of H off [] = []"
| "entries_of H off (f # fs) =
     \<lparr> path = relative_path f, operation = CreateOrReplace,
       content_kind = (if from_utf8 (file_bytes f) then TextUtf8 else Binary),
       executable = file_executable f, offset = off, size = of_nat (length (file_bytes f)),
       digest = file_digest H (file_bytes f) \<rparr>
     # entries_of H (off + of_nat (length (file_bytes f))) fs"

definition payload_of :: "artifact_file list \<Rightarrow> bytes" where
  "payload_of fs = concat (map file_bytes fs)"

lemma length_entries_of [simp]: "length (entries_of H off fs) = length fs"
  by (induction fs arbitrary: off) simp_all

lemma path_entries_of [simp]: "map path (entries_of H off fs) = map relative_path fs"
  by (induction fs arbitrary: off) simp_all

lemma reject_duplicates_sorted:
  assumes "sorted (map relative_path fs)"
  shows "reject_duplicates fs = Inr u \<longleftrightarrow> distinct (map relative_path fs)"
  using sorted_no_equal_window [OF assms]
  by (auto simp: reject_duplicates_def any_window2_map)

lemma total_size_eq_Inr:
  "try_fold (total_size_step limits) a fs = Inr t \<Longrightarrow>
     unat t = unat a + length (payload_of fs) \<and>
     (\<forall>f\<in>set fs. length (file_bytes f) \<le> unat (max_single_file_bytes limits)) \<and>
     (a \<le> max_uncompressed_payload_bytes limits \<longrightarrow> t \<le> max_uncompressed_payload_bytes limits)"
proof (induction fs arbitrary: a)
  case Nil
  then show ?case by (simp add: payload_of_def)
next
  case (Cons f fs)
  then obtain b where b: "total_size_step limits a f = Inr b" "try_fold (total_size_step limits) b fs = Inr t"
    by (auto simp: and_then_eq_Inr)
  from b(1) have "unat b = unat a + length (file_bytes f)" "b \<le> max_uncompressed_payload_bytes limits"
    "length (file_bytes f) \<le> unat (max_single_file_bytes limits)"
    by (auto simp: total_size_step_def and_then_eq_Inr checked_add_eq_Some word_le_nat_alt not_less split: if_splits)
  with Cons.IH [OF b(2)] show ?case by (auto simp: payload_of_def)
qed

lemma pack_entries_eq_Inr:
  "try_fold (pack_entry H) (payload, entries, off) fs = Inr (payload', entries', off') \<Longrightarrow>
     payload' = payload @ payload_of fs \<and> entries' = entries @ entries_of H off fs \<and>
     unat off' = unat off + length (payload_of fs)"
proof (induction fs arbitrary: payload entries off)
  case Nil
  then show ?case by (simp add: payload_of_def)
next
  case (Cons f fs)
  then obtain st where step: "pack_entry H (payload, entries, off) f = Inr st"
    and fold: "try_fold (pack_entry H) st fs = Inr (payload', entries', off')"
    by (auto simp: and_then_eq_Inr)
  from step obtain sz where sz: "length (file_bytes f) = unat sz"
    and off: "unat (off + sz) = unat off + unat sz"
    and st: "st = (payload @ file_bytes f, entries @ [hd (entries_of H off (f # fs))], off + sz)"
    by (auto simp: pack_entry_def and_then_eq_Inr checked_add_eq_Some Let_def)
  have len: "unat (of_nat (length (file_bytes f)) :: u64) = length (file_bytes f)"
    and eq: "sz = of_nat (length (file_bytes f))" by (simp_all add: sz)
  show ?case
    using Cons.IH [OF fold [unfolded st]] off unfolding eq len by (simp add: payload_of_def)
qed

lemma pack_eq_Inr:
  assumes "pack H z artifacts options = Inr u"
  defines "fs \<equiv> sort_key relative_path artifacts" and "limits \<equiv> po_limits options"
  shows "distinct (map relative_path artifacts)"
    and "length artifacts \<le> unat (max_file_count limits)"
    and "uc_manifest u = \<lparr> capsule_name = po_capsule_name options, description = po_description options,
          producer = po_producer options, files = entries_of H 0 fs \<rparr>"
    and "unat (uc_uncompressed_payload_size u) = length (payload_of fs)"
    and "uc_uncompressed_payload_size u \<le> max_uncompressed_payload_bytes limits"
    and "compress z (payload_of fs) (po_compression options) limits = Inr (uc_compressed_payload u)"
    and "\<exists>mb. encode_manifest (uc_manifest u) = Inr mb \<and> length mb \<le> unat (max_manifest_bytes limits)"
    and "uc_compression u = po_compression options"
proof -
  from assms(1) obtain cnt total payload entries off mb ms where
    cnt: "length artifacts = unat (cnt :: u32)" "\<not> max_file_count limits < cnt"
    and dup: "reject_duplicates fs = Inr ()" and tot: "total_size fs limits = Inr total"
    and ent: "try_fold (pack_entry H) ([], [], 0) fs = Inr (payload, entries, off)"
    and man: "encode_manifest \<lparr> capsule_name = po_capsule_name options, description = po_description options,
          producer = po_producer options, files = entries \<rparr> = Inr mb"
    and ms: "length mb = unat (ms :: u64)" "\<not> max_manifest_bytes limits < ms"
    and comp: "compress z payload (po_compression options) limits = Inr (uc_compressed_payload u)"
    and u: "uc_manifest u = \<lparr> capsule_name = po_capsule_name options, description = po_description options,
          producer = po_producer options, files = entries \<rparr>" "uc_uncompressed_payload_size u = total"
          "uc_compression u = po_compression options"
    by (auto simp: pack_def fs_def limits_def Let_def and_then_eq_Inr split: if_splits prod.splits)
  have "sorted (map relative_path fs)" by (simp add: fs_def)
  from reject_duplicates_sorted [OF this] dup
  show "distinct (map relative_path artifacts)"
    by (simp add: fs_def distinct_map)
  show "length artifacts \<le> unat (max_file_count limits)" using cnt by (simp add: word_less_nat_alt)
  from pack_entries_eq_Inr [OF ent] have e: "payload = payload_of fs" "entries = entries_of H 0 fs" by simp_all
  with u show "uc_manifest u = \<lparr> capsule_name = po_capsule_name options, description = po_description options,
          producer = po_producer options, files = entries_of H 0 fs \<rparr>" by simp
  from total_size_eq_Inr [OF tot [unfolded total_size_def]] u
  show "unat (uc_uncompressed_payload_size u) = length (payload_of fs)"
    "uc_uncompressed_payload_size u \<le> max_uncompressed_payload_bytes limits" by simp_all
  show "compress z (payload_of fs) (po_compression options) limits = Inr (uc_compressed_payload u)"
    using comp e by simp
  show "\<exists>mb. encode_manifest (uc_manifest u) = Inr mb \<and> length mb \<le> unat (max_manifest_bytes limits)"
    using man ms u by (auto simp: word_less_nat_alt)
  show "uc_compression u = po_compression options" by (rule u)
qed

section \<open>Properties of packing\<close>

lemma sort_key_cong_mset:
  "mset as = mset bs \<Longrightarrow> distinct (map f as) \<Longrightarrow> sort_key f as = sort_key f bs"
  by (rule sort_key_inj_key_eq) (simp_all add: distinct_map)

lemma reject_duplicates_sort:
  "reject_duplicates (sort_key relative_path as) =
     (if distinct (map relative_path as) then Inr () else Inl DuplicatePath)"
proof -
  have "distinct (map relative_path (sort_key relative_path as)) \<longleftrightarrow> distinct (map relative_path as)"
    by (simp add: distinct_map)
  with reject_duplicates_sorted [of "sort_key relative_path as"] show ?thesis
    by (auto simp: reject_duplicates_def split: if_splits)
qed

text \<open>
  Packing does not depend on the order in which the files are supplied: any permutation of the
  input gives the same capsule, or the same error.
\<close>

theorem pack_order_independent:
  assumes "mset as = mset bs"
  shows "pack H z as options = pack H z bs options"
proof -
  have len: "length as = length bs" using assms by (rule mset_eq_length)
  have dist: "distinct (map relative_path as) \<longleftrightarrow> distinct (map relative_path bs)"
    using assms by (metis mset_eq_imp_distinct_iff mset_map)
  show ?thesis
  proof (cases "distinct (map relative_path as)")
    case True
    with sort_key_cong_mset [OF assms True] len show ?thesis by (simp add: pack_def cong: if_cong)
  next
    case False
    with dist len show ?thesis by (simp add: pack_def reject_duplicates_sort cong: if_cong)
  qed
qed

definition sample_file :: "string \<Rightarrow> bytes \<Rightarrow> artifact_file" where
  "sample_file p bs = \<lparr> relative_path = RelativeArtifactPath (ascii p), file_bytes = bs, file_executable = False \<rparr>"

definition sample_options :: pack_options where
  "sample_options =
     \<lparr> po_capsule_name = None, po_description = None,
       po_producer = \<lparr> producer_name = BoundedString (ascii ''rebyte''), producer_version = None \<rparr>,
       po_compression = CompressionNone, po_limits = limits_V1 \<rparr>"

theorem pack_order_independent_witness:
  "pack sample_hash stored_zstd [sample_file ''b'' [3], sample_file ''a'' [1, 2]] sample_options =
   pack sample_hash stored_zstd [sample_file ''a'' [1, 2], sample_file ''b'' [3]] sample_options"
  by (rule pack_order_independent) simp

end
