(* ===== verification/Rap_Token.thy ===== *)
theory Rap_Token
  imports Rap_Codec_Correct
begin

text \<open>
  The \<open>rb1_\<close> token adapter (\<open>token.rs\<close>) over an abstract Base64URL engine, and one concrete engine
  (the unpadded alphabet of RFC 4648 section 5) which shows that the engine's contract can be met.
\<close>

section \<open>A concrete Base64URL engine\<close>

definition b64_char :: "nat \<Rightarrow> u8" where
  "b64_char n =
     (if n < 26 then 65 + of_nat n else if n < 52 then 71 + of_nat n else if n < 62 then of_nat n - 4
      else if n = 62 then 45 else 95)"

definition b64_val :: "u8 \<Rightarrow> nat option" where
  "b64_val b =
     (if 65 \<le> b \<and> b \<le> 90 then Some (unat b - 65) else if 97 \<le> b \<and> b \<le> 122 then Some (unat b - 71)
      else if 48 \<le> b \<and> b \<le> 57 then Some (unat b + 4) else if b = 45 then Some 62
      else if b = 95 then Some 63 else None)"

lemma b64_alphabet:
  "list_all (\<lambda>n. b64_val (b64_char n) = Some n \<and> base64url_byte (b64_char n)) [0..<64]"
  by code_simp

lemma b64_char_ok:
  "n < 64 \<Longrightarrow> b64_val (b64_char n) = Some n" "n < 64 \<Longrightarrow> base64url_byte (b64_char n)"
  using b64_alphabet by (auto simp: list_all_iff)

fun url_encode :: "bytes \<Rightarrow> bytes" where
  "url_encode (a # b # c # bs) =
     b64_char (unat a div 4) # b64_char (unat a mod 4 * 16 + unat b div 16) #
     b64_char (unat b mod 16 * 4 + unat c div 64) # b64_char (unat c mod 64) # url_encode bs"
| "url_encode [a, b] =
     [b64_char (unat a div 4), b64_char (unat a mod 4 * 16 + unat b div 16), b64_char (unat b mod 16 * 4)]"
| "url_encode [a] = [b64_char (unat a div 4), b64_char (unat a mod 4 * 16)]"
| "url_encode [] = []"

fun sextets_to_bytes :: "nat list \<Rightarrow> bytes option" where
  "sextets_to_bytes (w # x # y # z # ns) =
     map_option (\<lambda>bs. of_nat (w * 4 + x div 16) # of_nat (x mod 16 * 16 + y div 4) # of_nat (y mod 4 * 64 + z) # bs)
       (sextets_to_bytes ns)"
| "sextets_to_bytes [w, x, y] =
     (if y mod 4 = 0 then Some [of_nat (w * 4 + x div 16), of_nat (x mod 16 * 16 + y div 4)] else None)"
| "sextets_to_bytes [w, x] = (if x mod 16 = 0 then Some [of_nat (w * 4 + x div 16)] else None)"
| "sextets_to_bytes [w] = None"
| "sextets_to_bytes [] = Some []"

fun all_sextets :: "bytes \<Rightarrow> nat list option" where
  "all_sextets [] = Some []"
| "all_sextets (b # bs) = (case b64_val b of None \<Rightarrow> None | Some n \<Rightarrow> map_option (Cons n) (all_sextets bs))"

definition url_safe_no_pad :: base64_engine where
  "url_safe_no_pad = \<lparr> b64_encode = url_encode, b64_decode = (\<lambda>bs. Option.bind (all_sextets bs) sextets_to_bytes) \<rparr>"

lemma unat_u8_less: "unat (b :: u8) < 256"
  using unsigned_less [of b, where ?'a = nat] by simp

lemma div_mod_block: "y < k \<Longrightarrow> (x * k + y) div k = (x :: nat)" "y < k \<Longrightarrow> (x * k + y) mod k = (y :: nat)"
  by simp_all

lemma sextet_bounds:
  fixes a b c :: u8
  shows "unat a div 4 < 64" "unat a mod 4 * 16 + unat b div 16 < 64" "unat b mod 16 * 4 + unat c div 64 < 64"
    "unat c mod 64 < 64" "unat b mod 16 * 4 < 64" "unat a mod 4 * 16 < 64"
proof -
  have "unat a div 4 < 64" "unat b div 16 < 16" "unat c div 64 < 4" "unat a mod 4 < 4" "unat b mod 16 < 16"
    using unat_u8_less [of a] unat_u8_less [of b] unat_u8_less [of c] by simp_all
  then show "unat a div 4 < 64" "unat a mod 4 * 16 + unat b div 16 < 64" "unat b mod 16 * 4 + unat c div 64 < 64"
    "unat c mod 64 < 64" "unat b mod 16 * 4 < 64" "unat a mod 4 * 16 < 64" by simp_all
qed

lemma sextet_values:
  fixes a b c :: u8
  shows "unat a div 4 * 4 + (unat a mod 4 * 16 + unat b div 16) div 16 = unat a"
    "(unat a mod 4 * 16 + unat b div 16) mod 16 * 16 + (unat b mod 16 * 4 + unat c div 64) div 4 = unat b"
    "(unat b mod 16 * 4 + unat c div 64) mod 4 * 64 + unat c mod 64 = unat c"
proof -
  have "unat b div 16 < 16" "unat c div 64 < 4"
    using unat_u8_less [of b] unat_u8_less [of c] by simp_all
  note * = this [THEN div_mod_block(1)] this [THEN div_mod_block(2)]
  show "unat a div 4 * 4 + (unat a mod 4 * 16 + unat b div 16) div 16 = unat a"
    "(unat a mod 4 * 16 + unat b div 16) mod 16 * 16 + (unat b mod 16 * 4 + unat c div 64) div 4 = unat b"
    "(unat b mod 16 * 4 + unat c div 64) mod 4 * 64 + unat c mod 64 = unat c"
    unfolding * by (simp_all only: div_mult_mod_eq)
qed

lemma url_round_trip: "Option.bind (all_sextets (url_encode bs)) sextets_to_bytes = Some bs"
proof (induction bs rule: url_encode.induct)
  case (1 a b c bs)
  then obtain ns where "all_sextets (url_encode bs) = Some ns" "sextets_to_bytes ns = Some bs"
    by (auto simp: Option.bind_eq_Some_conv)
  then show ?case
    by (simp add: b64_char_ok sextet_bounds sextet_values del: of_nat_add of_nat_mult div_mult_self3 mod_mult_self3)
next
  case (2 a b)
  then show ?case
    using sextet_values(1) [of a b] sextet_values(2) [of a b 0] by (simp add: b64_char_ok sextet_bounds)
next
  case (3 a)
  then show ?case
    using sextet_values(1) [of a 0] by (simp add: b64_char_ok sextet_bounds)
qed simp

lemma url_safe_no_pad_contract: "base64_contract url_safe_no_pad"
proof -
  have "list_all base64url_byte (url_encode bs)" for bs
    by (induction bs rule: url_encode.induct) (simp_all add: b64_char_ok sextet_bounds)
  moreover have "length (url_encode bs) = (4 * length bs + 2) div 3" for bs
    by (induction bs rule: url_encode.induct) simp_all
  ultimately show ?thesis
    by (simp add: base64_contract_def url_safe_no_pad_def url_round_trip)
qed

section \<open>Properties of tokens\<close>

lemma decode_encode_token:
  assumes "base64_contract b64" "bs \<noteq> []" "4 + (4 * length bs + 2) div 3 \<le> unat (max_token_bytes limits)"
  shows "decode_token b64 (encode_token b64 bs) limits = Inr bs"
proof -
  let ?t = "encode_token b64 bs"
  have len: "length ?t = 4 + (4 * length bs + 2) div 3"
    and enc: "b64_encode b64 bs \<noteq> []" "\<not> list_ex (\<lambda>b. \<not> base64url_byte b) (b64_encode b64 bs)"
    and dec: "b64_decode b64 (b64_encode b64 bs) = Some bs"
  proof -
    show "length ?t = 4 + (4 * length bs + 2) div 3" "b64_decode b64 (b64_encode b64 bs) = Some bs"
      "\<not> list_ex (\<lambda>b. \<not> base64url_byte b) (b64_encode b64 bs)"
      using assms(1) by (simp_all add: base64_contract_def encode_token_def TOKEN_PREFIX_def list_all_iff list_ex_iff)
    have "0 < length (b64_encode b64 bs)"
      using assms(1,2) by (cases bs) (simp_all add: base64_contract_def)
    then show "b64_encode b64 bs \<noteq> []" by simp
  qed
  have "length ?t < 2 ^ 64" "\<not> max_token_bytes limits < of_nat (length ?t)"
    unfolding len using assms(3) unsigned_less [of "max_token_bytes limits", where ?'a = nat]
    by (simp_all add: word_less_nat_alt unat_of_nat del: of_nat_add)
  then show ?thesis
    using enc dec by (simp add: decode_token_def try_from_usize_ok encode_token_def)
qed

text \<open>
  A capsule survives the copy-and-paste transport: for every engine that meets the documented
  Base64URL contract, the token of an encoded capsule passes the v1 token limit, prefix and
  alphabet checks, and decodes back to the same capsule.
\<close>

theorem token_capsule_round_trip:
  assumes "base64_contract b64" "wf_capsule c" "encode_capsule c = Inr bs"
  shows "and_then (decode_token b64 (encode_token b64 bs) limits_V1)
           (\<lambda>bytes. decode_capsule bytes limits_V1) = Inr c"
proof -
  from assms(2,3) have c: "canonical_capsule limits_V1 c" and bs: "bs = wire_capsule c"
    by (auto simp: encode_capsule_iff)
  have "length bs \<le> 34 * 1024 * 1024" "bs \<noteq> []"
    using wire_capsule_V1_bound [OF c] length_wire_capsule [OF c] bs by auto
  then have "decode_token b64 (encode_token b64 bs) limits_V1 = Inr bs"
    by (intro decode_encode_token [OF assms(1)]) (simp_all add: limits_V1_def)
  moreover have "decode_capsule bs limits_V1 = Inr c"
    using wire_capsule_V1_bound [OF c] decode_capsule_wire [OF c] by (simp add: bs limits_V1_def)
  ultimately show ?thesis by simp
qed

theorem token_capsule_round_trip_witness:
  "base64_contract url_safe_no_pad \<and> wf_capsule sample_capsule \<and>
   and_then (decode_token url_safe_no_pad (encode_token url_safe_no_pad (wire_capsule sample_capsule)) limits_V1)
     (\<lambda>bytes. decode_capsule bytes limits_V1) = Inr sample_capsule"
proof -
  have "encode_capsule sample_capsule = Inr (wire_capsule sample_capsule)"
    by (simp add: encode_capsule_iff sample_wf sample_capsule_canonical)
  from token_capsule_round_trip [OF url_safe_no_pad_contract sample_wf this]
  show ?thesis using url_safe_no_pad_contract sample_wf by simp
qed

end
