(* ===== verification/Rap_Verify.thy ===== *)
theory Rap_Verify
  imports Rap_Pack Rap_Token
begin

text \<open>
  The crate \<open>rebyte-verify\<close>: the typestate pipeline unverified, structurally valid, signature
  verified, payload verified, fully verified, and \<open>sign_capsule\<close>. Each typestate is a record and
  each transition a function, so a value of a later record is only made by the transition before
  it. The last section proves the pipeline sound for every hash, verifier and decoder, and complete
  for what \<open>pack\<close> and \<open>sign_capsule\<close> produce.
\<close>

section \<open>Typestates and errors\<close>

datatype capsule_input = InputBinary bytes | InputToken bytes

datatype verification_error =
    VerifyInputTooLarge u64 u64
  | VerifyCodec codec_error
  | CapsuleDigestMismatch
  | VerifySignature signature_error
  | VerifyCompression compression_error
  | PayloadRangeMismatch
  | VerifyInvalidTextContent
  | FileDigestMismatch
  | VerifyLengthOverflow

datatype 'e sign_capsule_error =
    SignCodec codec_error
  | SignSigner 'e
  | SignLengthOverflow

datatype unverified_capsule = UnverifiedCapsule (unverified_bytes: bytes)

record structurally_valid_capsule =
  sv_decoded :: decoded_capsule
  sv_header_bytes :: bytes
  sv_manifest_bytes :: bytes

record signature_verified_capsule =
  sg_decoded :: decoded_capsule
  sg_publisher :: verified_publisher

record verified_file =
  vf_path :: relative_artifact_path
  vf_bytes :: bytes
  vf_executable :: bool
  vf_content_kind :: content_kind

record payload_verified_capsule =
  pv_header :: capsule_header
  pv_manifest :: capsule_manifest
  pv_publisher :: verified_publisher
  pv_capsule_digest :: digest32
  pv_files :: "verified_file list"

record fully_verified_capsule =
  fv_header :: capsule_header
  fv_manifest :: capsule_manifest
  fv_publisher :: verified_publisher
  fv_capsule_digest :: digest32
  fv_files :: "verified_file list"

section \<open>Transitions\<close>

definition from_input ::
    "base64_engine \<Rightarrow> capsule_input \<Rightarrow> security_limits \<Rightarrow> verification_error + unverified_capsule" where
  "from_input b64 inp limits =
     and_then (case inp of
         InputBinary bs \<Rightarrow>
           and_then (try_from_usize VerifyLengthOverflow (length bs)) (\<lambda>actual.
             if max_capsule_bytes limits < actual
             then Inl (VerifyInputTooLarge (max_capsule_bytes limits) actual)
             else Inr bs)
       | InputToken token \<Rightarrow> map_err VerifyCodec (decode_token b64 token limits)) (\<lambda>bs.
       Inr (UnverifiedCapsule bs))"

definition decode_unverified ::
    "unverified_capsule \<Rightarrow> security_limits \<Rightarrow> verification_error + structurally_valid_capsule" where
  "decode_unverified self limits =
     and_then (map_err VerifyCodec (decode_capsule (unverified_bytes self) limits)) (\<lambda>decoded.
     and_then (map_err VerifyCodec (encode_header (header decoded))) (\<lambda>header_bytes.
     and_then (map_err VerifyCodec (encode_manifest (manifest decoded))) (\<lambda>manifest_bytes.
       Inr \<lparr> sv_decoded = decoded, sv_header_bytes = header_bytes, sv_manifest_bytes = manifest_bytes \<rparr>)))"

definition verify_signature_stage ::
    "blake3 \<Rightarrow> ed25519 \<Rightarrow> structurally_valid_capsule \<Rightarrow> verification_policy \<Rightarrow> trusted_keyring
     \<Rightarrow> verification_error + signature_verified_capsule" where
  "verify_signature_stage H ed self policy keyring =
     (let actual_digest = capsule_digest_of H (sv_header_bytes self) (sv_manifest_bytes self)
            (compressed_payload (sv_decoded self)) in
      if \<not> digest_matches (capsule_digest (sv_decoded self)) actual_digest then Inl CapsuleDigestMismatch
      else
        and_then (map_err VerifySignature (verify_signature ed (publisher_key_id (header (sv_decoded self)))
            actual_digest (signature_raw (signature (sv_decoded self))) policy keyring)) (\<lambda>publisher.
          Inr \<lparr> sg_decoded = sv_decoded self, sg_publisher = publisher \<rparr>))"

definition verify_entry :: "blake3 \<Rightarrow> bytes \<Rightarrow> file_entry \<Rightarrow> verification_error + verified_file" where
  "verify_entry H payload entry =
     and_then (usize_try_from VerifyLengthOverflow (offset entry)) (\<lambda>start.
     and_then (usize_try_from VerifyLengthOverflow (size entry)) (\<lambda>sz.
     and_then (ok_or VerifyLengthOverflow (usize_checked_add start sz)) (\<lambda>end_pos.
     and_then (ok_or PayloadRangeMismatch (slice_get start end_pos payload)) (\<lambda>bs.
       if content_kind entry = TextUtf8 \<and> \<not> from_utf8 bs then Inl VerifyInvalidTextContent
       else if \<not> digest_matches (digest entry) (file_digest H bs) then Inl FileDigestMismatch
       else Inr \<lparr> vf_path = path entry, vf_bytes = bs, vf_executable = executable entry,
                  vf_content_kind = content_kind entry \<rparr>))))"

definition verify_payload ::
    "blake3 \<Rightarrow> ('e, 'd) zstd_engine \<Rightarrow> signature_verified_capsule \<Rightarrow> security_limits
     \<Rightarrow> verification_error + payload_verified_capsule" where
  "verify_payload H z self limits =
     and_then (map_err VerifyCompression (decompress z (compressed_payload (sg_decoded self))
         (compression (header (sg_decoded self))) (uncompressed_payload_size (header (sg_decoded self))) limits)) (\<lambda>payload.
     and_then (try_map (verify_entry H payload) (files (manifest (sg_decoded self)))) (\<lambda>fs.
       Inr \<lparr> pv_header = header (sg_decoded self), pv_manifest = manifest (sg_decoded self),
             pv_publisher = sg_publisher self, pv_capsule_digest = capsule_digest (sg_decoded self),
             pv_files = fs \<rparr>))"

definition finish :: "payload_verified_capsule \<Rightarrow> fully_verified_capsule" where
  "finish self =
     \<lparr> fv_header = pv_header self, fv_manifest = pv_manifest self, fv_publisher = pv_publisher self,
       fv_capsule_digest = pv_capsule_digest self, fv_files = pv_files self \<rparr>"

definition verify_capsule_with_limits ::
    "base64_engine \<Rightarrow> blake3 \<Rightarrow> ed25519 \<Rightarrow> ('e, 'd) zstd_engine \<Rightarrow> capsule_input \<Rightarrow> security_limits
     \<Rightarrow> verification_policy \<Rightarrow> trusted_keyring \<Rightarrow> verification_error + fully_verified_capsule" where
  "verify_capsule_with_limits b64 H ed z inp limits policy keyring =
     and_then (from_input b64 inp limits) (\<lambda>u.
     and_then (decode_unverified u limits) (\<lambda>s.
     and_then (verify_signature_stage H ed s policy keyring) (\<lambda>g.
     and_then (verify_payload H z g limits) (\<lambda>p. Inr (finish p)))))"

definition verify_capsule ::
    "base64_engine \<Rightarrow> blake3 \<Rightarrow> ed25519 \<Rightarrow> ('e, 'd) zstd_engine \<Rightarrow> capsule_input
     \<Rightarrow> verification_policy \<Rightarrow> trusted_keyring \<Rightarrow> verification_error + fully_verified_capsule" where
  "verify_capsule b64 H ed z inp policy keyring =
     verify_capsule_with_limits b64 H ed z inp limits_V1 policy keyring"

definition sign_capsule :: "blake3 \<Rightarrow> unsigned_capsule \<Rightarrow> 'e signer \<Rightarrow> 'e sign_capsule_error + bytes" where
  "sign_capsule H u s =
     and_then (map_err SignCodec (encode_manifest (uc_manifest u))) (\<lambda>manifest_bytes.
     and_then (try_from_usize SignLengthOverflow (length manifest_bytes)) (\<lambda>msize.
     and_then (try_from_usize SignLengthOverflow (length (uc_compressed_payload u))) (\<lambda>psize.
     and_then (try_from_usize SignLengthOverflow (length (files (uc_manifest u)))) (\<lambda>count.
     let h = \<lparr> protocol_version = protocol_V1, header_size = HEADER_SIZE_V1, flags = 0,
               compression = uc_compression u, signature_alg = Ed25519, manifest_size = msize,
               compressed_payload_size = psize, uncompressed_payload_size = uc_uncompressed_payload_size u,
               file_count = count, publisher_key_id = key_id_of H (public_key s) \<rparr> in
     and_then (map_err SignCodec (encode_header h)) (\<lambda>header_bytes.
     let d = capsule_digest_of H header_bytes manifest_bytes (uc_compressed_payload u) in
     and_then (map_err SignSigner (sign s (signature_message d))) (\<lambda>sig.
     let decoded = \<lparr> header = h, manifest = uc_manifest u, compressed_payload = uc_compressed_payload u,
                     capsule_digest = d, signature = SignatureBytes sig \<rparr> in
       map_err SignCodec (encode_capsule decoded)))))))"

definition to_token :: "base64_engine \<Rightarrow> bytes \<Rightarrow> bytes" where
  "to_token b64 capsule = encode_token b64 capsule"

section \<open>Soundness\<close>

text \<open>The bytes an input denotes.\<close>

fun input_bytes_of :: "base64_engine \<Rightarrow> security_limits \<Rightarrow> capsule_input \<Rightarrow> bytes option" where
  "input_bytes_of b64 limits (InputBinary bs) = Some bs"
| "input_bytes_of b64 limits (InputToken t) =
     (case decode_token b64 t limits of Inl _ \<Rightarrow> None | Inr bs \<Rightarrow> Some bs)"

lemma from_input_eq_Inr:
  "from_input b64 inp limits = Inr u \<Longrightarrow> input_bytes_of b64 limits inp = Some (unverified_bytes u)"
  by (cases inp) (auto simp: from_input_def and_then_eq_Inr split: if_splits)

lemma decode_unverified_eq_Inr:
  assumes "decode_unverified u limits = Inr s"
  shows "decode_capsule (unverified_bytes u) limits = Inr (sv_decoded s)"
    "sv_header_bytes s = wire_header (header (sv_decoded s))"
    "sv_manifest_bytes s = wire_manifest (manifest (sv_decoded s))"
  using assms
  by (auto simp: decode_unverified_def and_then_eq_Inr encode_header_eq_Inr dest: encode_manifest_inv)

lemma verify_signature_stage_eq_Inr:
  "verify_signature_stage H ed s policy keyring = Inr g \<longleftrightarrow>
     capsule_digest (sv_decoded s) =
       capsule_digest_of H (sv_header_bytes s) (sv_manifest_bytes s) (compressed_payload (sv_decoded s)) \<and>
     sg_decoded g = sv_decoded s \<and>
     verify_signature ed (publisher_key_id (header (sv_decoded s))) (capsule_digest (sv_decoded s))
       (signature_raw (signature (sv_decoded s))) policy keyring = Inr (sg_publisher g)"
  by (cases g) (auto simp: verify_signature_stage_def and_then_eq_Inr Let_def)

lemma verify_entry_eq_Inr:
  "verify_entry H payload e = Inr f \<longleftrightarrow>
     slice_get (unat (offset e)) (unat (offset e) + unat (size e)) payload = Some (vf_bytes f) \<and>
     unat (offset e) + unat (size e) \<le> usize_max \<and>
     (content_kind e = TextUtf8 \<longrightarrow> from_utf8 (vf_bytes f)) \<and> digest e = file_digest H (vf_bytes f) \<and>
     vf_path f = path e \<and> vf_executable f = executable e \<and> vf_content_kind f = content_kind e"
  by (cases f) (auto simp: verify_entry_def and_then_eq_Inr)

text \<open>The files of a contiguous layout partition the payload.\<close>

lemma verify_entries_concat:
  assumes "layout prev off es t" "try_map (verify_entry H payload) es = Inr fs"
  shows "concat (map vf_bytes fs) = take (unat t - unat off) (drop (unat off) payload)"
  using assms
proof (induction prev off es t arbitrary: fs rule: layout.induct)
  case (2 prev off e es t)
  then obtain f gs where fs: "fs = f # gs" "verify_entry H payload e = Inr f"
    "try_map (verify_entry H payload) es = Inr gs"
    by (auto simp: and_then_eq_Inr)
  from fs(2) 2(2) have sl: "slice_get (unat off) (unat off + unat (size e)) payload = Some (vf_bytes f)"
    by (simp add: verify_entry_eq_Inr)
  from 2(2) have o2: "unat (off + size e) = unat off + unat (size e)"
    and rest: "layout (Some (path e)) (off + size e) es t" by simp_all
  from 2(1) [OF rest fs(3)] have IH:
    "concat (map vf_bytes gs) = take (unat t - (unat off + unat (size e))) (drop (unat off + unat (size e)) payload)"
    by (simp add: o2)
  have "unat t \<ge> unat off + unat (size e)" using layout_total [OF rest] o2 by simp
  moreover from slice_get_drop [OF sl] have "drop (unat off) payload = vf_bytes f @ drop (unat off + unat (size e)) payload" .
  moreover from slice_get_length [OF sl] have "length (vf_bytes f) = unat (size e)" by simp
  ultimately show ?case using IH fs(1) by (simp add: diff_diff_eq)
qed simp

lemma verify_payload_eq_Inr:
  assumes "verify_payload H z g limits = Inr p"
  obtains payload where
    "decompress z (compressed_payload (sg_decoded g)) (compression (header (sg_decoded g)))
       (uncompressed_payload_size (header (sg_decoded g))) limits = Inr payload"
    "try_map (verify_entry H payload) (files (manifest (sg_decoded g))) = Inr (pv_files p)"
    "pv_header p = header (sg_decoded g)" "pv_manifest p = manifest (sg_decoded g)"
    "pv_publisher p = sg_publisher g" "pv_capsule_digest p = capsule_digest (sg_decoded g)"
  using assms that by (auto simp: verify_payload_def and_then_eq_Inr)

lemma verify_capsule_stages:
  assumes "verify_capsule_with_limits b64 H ed z inp limits policy keyring = Inr v"
  obtains bs c payload where "input_bytes_of b64 limits inp = Some bs" "decode_capsule bs limits = Inr c"
    "capsule_digest c = Digest32 (H CAPSULE_CONTEXT
       (wire_header (header c) @ wire_manifest (manifest c) @ compressed_payload c))"
    "verify_signature ed (publisher_key_id (header c)) (capsule_digest c) (signature_raw (signature c))
       policy keyring = Inr (fv_publisher v)"
    "decompress z (compressed_payload c) (compression (header c)) (uncompressed_payload_size (header c)) limits = Inr payload"
    "try_map (verify_entry H payload) (files (manifest c)) = Inr (fv_files v)"
    "fv_header v = header c" "fv_manifest v = manifest c" "fv_capsule_digest v = capsule_digest c"
proof -
  from assms obtain u s g p where st: "from_input b64 inp limits = Inr u" "decode_unverified u limits = Inr s"
    "verify_signature_stage H ed s policy keyring = Inr g" "verify_payload H z g limits = Inr p" "v = finish p"
    by (auto simp: verify_capsule_with_limits_def and_then_eq_Inr)
  from verify_payload_eq_Inr [OF st(4)] obtain payload where
    "decompress z (compressed_payload (sg_decoded g)) (compression (header (sg_decoded g)))
       (uncompressed_payload_size (header (sg_decoded g))) limits = Inr payload"
    "try_map (verify_entry H payload) (files (manifest (sg_decoded g))) = Inr (pv_files p)"
    "pv_header p = header (sg_decoded g)" "pv_manifest p = manifest (sg_decoded g)"
    "pv_publisher p = sg_publisher g" "pv_capsule_digest p = capsule_digest (sg_decoded g)" .
  note facts = this from_input_eq_Inr [OF st(1)] decode_unverified_eq_Inr [OF st(2)]
    st(3) [unfolded verify_signature_stage_eq_Inr] st(5)
  show thesis
    by (rule that [of "unverified_bytes u" "sv_decoded s" payload])
      (use facts in \<open>auto simp: capsule_digest_of_eq finish_def\<close>)
qed

text \<open>
  C2. Verification is sound, whatever the limits, hash, signature scheme and decoder: if a capsule is
  accepted, its last 96 bytes are a digest and a signature, the digest is the domain-separated
  hash of every byte before them, the signature verifies that digest under a key of the
  keyring whose identifier the header names and whose status and channel the policy
  permits, and that key is the reported publisher.
\<close>

theorem verify_capsule_authentic:
  assumes "verify_capsule_with_limits b64 H ed z inp limits policy keyring = Inr v"
  shows "\<exists>bs body d sig k. input_bytes_of b64 limits inp = Some bs \<and> bs = body @ d @ sig \<and>
    length d = 32 \<and> length sig = 64 \<and> d = H CAPSULE_CONTEXT body \<and>
    k \<in> set keyring \<and> tk_id k = publisher_key_id (fv_header v) \<and> permitted k policy \<and>
    vk_verify_strict ed (tk_public_key k) (SIGNATURE_DOMAIN @ d) sig \<and>
    fv_publisher v = \<lparr> vp_key_id = tk_id k, vp_display_name = tk_display_name k, vp_channel = tk_channel k \<rparr>"
proof (rule verify_capsule_stages [OF assms])
  fix bs c payload
  assume bs: "input_bytes_of b64 limits inp = Some bs" "decode_capsule bs limits = Inr c"
    and d: "capsule_digest c = Digest32 (H CAPSULE_CONTEXT
       (wire_header (header c) @ wire_manifest (manifest c) @ compressed_payload c))"
    and sg: "verify_signature ed (publisher_key_id (header c)) (capsule_digest c) (signature_raw (signature c))
       policy keyring = Inr (fv_publisher v)"
    and h: "fv_header v = header c"
  from sg obtain k where k: "keyring_get keyring (publisher_key_id (header c)) = Some k" "permitted k policy"
    "vk_verify_strict ed (tk_public_key k) (signature_message (capsule_digest c)) (signature_raw (signature c))"
    "fv_publisher v = \<lparr> vp_key_id = tk_id k, vp_display_name = tk_display_name k, vp_channel = tk_channel k \<rparr>"
    by (auto simp: verify_signature_eq_Inr)
  from bs(2) have c: "canonical_capsule limits c" "bs = wire_capsule c" by (simp_all add: decode_capsule_iff)
  then have "length (digest_bytes (capsule_digest c)) = 32" "length (signature_raw (signature c)) = 64"
    by (simp_all add: canonical_capsule_def wf_digest_def)
  then show ?thesis
    using bs(1) c(2) d h k keyring_get_member [OF k(1)]
    by (intro exI [of _ bs] exI [of _ "wire_header (header c) @ wire_manifest (manifest c) @ compressed_payload c"]
        exI [of _ "digest_bytes (capsule_digest c)"] exI [of _ "signature_raw (signature c)"] exI [of _ k])
      (simp add: wire_capsule_def signature_message_def)
qed


section \<open>Completeness\<close>

text \<open>The type invariants of what a producer supplies.\<close>

definition wf_artifact :: "artifact_file \<Rightarrow> bool" where
  "wf_artifact f \<longleftrightarrow> wf_path (max_path_bytes limits_V1) (relative_path f)"

definition wf_options :: "pack_options \<Rightarrow> bool" where
  "wf_options o' \<longleftrightarrow>
     pred_option (wf_bounded MAX_CAPSULE_NAME_BYTES) (po_capsule_name o') \<and>
     pred_option (wf_bounded MAX_DESCRIPTION_BYTES) (po_description o') \<and>
     wf_bounded MAX_PRODUCER_NAME_BYTES (producer_name (po_producer o')) \<and>
     pred_option (wf_bounded MAX_PRODUCER_VERSION_BYTES) (producer_version (po_producer o'))"

text \<open>The file a verifier hands out for a packed file.\<close>

definition verified_of :: "artifact_file \<Rightarrow> verified_file" where
  "verified_of f = \<lparr> vf_path = relative_path f, vf_bytes = file_bytes f, vf_executable = file_executable f,
     vf_content_kind = (if from_utf8 (file_bytes f) then TextUtf8 else Binary) \<rparr>"

lemma verify_packed_entries:
  assumes "unat off = length pre" "length pre + length (payload_of fs) < 2 ^ 64"
  shows "try_map (verify_entry H (pre @ payload_of fs @ post)) (entries_of H off fs) = Inr (map verified_of fs)"
  using assms
proof (induction fs arbitrary: off pre)
  case Nil
  then show ?case by simp
next
  case (Cons f fs)
  let ?n = "of_nat (length (file_bytes f)) :: u64"
  have n: "unat ?n = length (file_bytes f)" "unat (off + ?n) = unat off + length (file_bytes f)"
    using Cons.prems by (simp_all add: payload_of_def unat_of_nat unat_word_ariths)
  have "verify_entry H (pre @ payload_of (f # fs) @ post) (hd (entries_of H off (f # fs))) = Inr (verified_of f)"
    using Cons.prems n(1)
    by (simp add: verify_entry_eq_Inr verified_of_def payload_of_def usize_max_def)
  moreover have "try_map (verify_entry H ((pre @ file_bytes f) @ payload_of fs @ post)) (entries_of H (off + ?n) fs) =
      Inr (map verified_of fs)"
    using Cons.prems n by (intro Cons.IH) (simp_all add: payload_of_def)
  ultimately show ?case by (simp add: payload_of_def)
qed

lemma wf_entries_of:
  "blake3_contract H \<Longrightarrow> list_all wf_artifact fs \<Longrightarrow> list_all (wf_entry (max_path_bytes limits_V1)) (entries_of H off fs)"
  by (induction fs arbitrary: off) (simp_all add: wf_entry_def wf_artifact_def wf_digests)

lemma sign_capsule_eq_Inr:
  assumes "sign_capsule H u s = Inr bs"
  obtains c where "encode_capsule c = Inr bs" "manifest c = uc_manifest u"
    "compressed_payload c = uc_compressed_payload u" "compression (header c) = uc_compression u"
    "uncompressed_payload_size (header c) = uc_uncompressed_payload_size u"
    "publisher_key_id (header c) = key_id_of H (public_key s)"
    "encode_header (header c) = Inr (wire_header (header c))"
    "encode_manifest (manifest c) = Inr (wire_manifest (manifest c))"
    "capsule_digest c = capsule_digest_of H (wire_header (header c)) (wire_manifest (manifest c)) (compressed_payload c)"
    "sign s (signature_message (capsule_digest c)) = Inr (signature_raw (signature c))"
proof -
  from assms obtain mb msize psize count h d sig where
    mb: "encode_manifest (uc_manifest u) = Inr mb" and hb: "encode_header h = Inr (wire_header h)"
    and h: "compression h = uc_compression u" "uncompressed_payload_size h = uc_uncompressed_payload_size u"
      "publisher_key_id h = key_id_of H (public_key s)"
    and d: "d = capsule_digest_of H (wire_header h) mb (uc_compressed_payload u)"
    and sig: "sign s (signature_message d) = Inr sig"
    and enc: "encode_capsule \<lparr> header = h, manifest = uc_manifest u, compressed_payload = uc_compressed_payload u,
        capsule_digest = d, signature = SignatureBytes sig \<rparr> = Inr bs"
    by (auto simp: sign_capsule_def and_then_eq_Inr Let_def encode_header_eq_Inr)
  from encode_manifest_inv [OF mb] show thesis
    by (intro that [OF enc]) (use mb hb h d sig in simp_all)
qed

lemma pack_sign_wf:
  assumes "blake3_contract H" "signer_contract ed s" "list_all wf_artifact artifacts" "wf_options options"
    "pack H z artifacts options = Inr u" "manifest c = uc_manifest u"
    "publisher_key_id (header c) = key_id_of H (public_key s)"
    "capsule_digest c = capsule_digest_of H hb mb p"
    "sign s (signature_message (capsule_digest c)) = Inr (signature_raw (signature c))"
  shows "wf_capsule c"
proof -
  have "list_all wf_artifact (sort_key relative_path artifacts)" using assms(3) by (simp add: list_all_iff)
  from wf_entries_of [OF assms(1) this] show ?thesis
    using assms pack_eq_Inr(3) [OF assms(5)]
    by (auto simp: wf_capsule_def wf_manifest_def wf_options_def wf_digests signer_contract_def)
qed

lemma from_input_V1:
  assumes "base64_contract b64" "decode_capsule bs limits_V1 = Inr c"
    "inp = InputBinary bs \<or> inp = InputToken (to_token b64 bs)"
  shows "from_input b64 inp limits_V1 = Inr (UnverifiedCapsule bs)"
proof -
  from assms(2) have c: "canonical_capsule limits_V1 c" "bs = wire_capsule c"
    by (simp_all add: decode_capsule_iff)
  then have len: "length bs \<le> 34 * 1024 * 1024" by (simp only: wire_capsule_V1_bound)
  from c have "bs \<noteq> []" using length_wire_capsule [OF c(1)] by auto
  then have "decode_token b64 (encode_token b64 bs) limits_V1 = Inr bs"
    using len by (intro decode_encode_token [OF assms(1)]) (simp_all add: limits_V1_def)
  moreover have "\<not> max_capsule_bytes limits_V1 < of_nat (length bs)" "length bs < 2 ^ 64"
    using len by (simp_all add: limits_V1_def word_less_nat_alt unat_of_nat)
  ultimately show ?thesis
    using assms(3) by (auto simp: from_input_def to_token_def try_from_usize_ok)
qed

lemma length_payload_sort:
  "length (payload_of (sort_key k fs)) = length (concat (map file_bytes fs))"
proof -
  have "mset (map (\<lambda>f. length (file_bytes f)) (sort_key k fs)) = mset (map (\<lambda>f. length (file_bytes f)) fs)"
    by simp
  then have "sum_list (map (\<lambda>f. length (file_bytes f)) (sort_key k fs)) = (\<Sum>f\<leftarrow>fs. length (file_bytes f))"
    by (metis sum_mset_sum_list)
  then show ?thesis by (simp add: payload_of_def length_concat comp_def)
qed

lemma pack_sign_verifies:
  assumes "base64_contract b64" "blake3_contract H" "zstd_contract z" "signer_contract ed s"
    and "list_all wf_artifact artifacts" "wf_options options" "po_limits options = limits_V1"
    and "pack H z artifacts options = Inr u" "sign_capsule H u s = Inr bs"
    and "length (concat (map file_bytes artifacts)) \<le> 200 * length (uc_compressed_payload u)"
    and "keyring_get keyring (key_id_of H (public_key s)) = Some k" "tk_public_key k = public_key s"
    and "permitted k policy" "vk_from_bytes ed (public_key s)"
    and "inp = InputBinary bs \<or> inp = InputToken (to_token b64 bs)"
  shows "\<exists>v. verify_capsule b64 H ed z inp policy keyring = Inr v \<and>
    fv_files v = map verified_of (sort_key relative_path artifacts) \<and>
    vp_key_id (fv_publisher v) = tk_id k \<and> vp_display_name (fv_publisher v) = tk_display_name k"
proof (rule sign_capsule_eq_Inr [OF assms(9)])
  fix c
  assume c: "encode_capsule c = Inr bs" "manifest c = uc_manifest u"
    "compressed_payload c = uc_compressed_payload u" "compression (header c) = uc_compression u"
    "uncompressed_payload_size (header c) = uc_uncompressed_payload_size u"
    "publisher_key_id (header c) = key_id_of H (public_key s)"
    and encs: "encode_header (header c) = Inr (wire_header (header c))"
      "encode_manifest (manifest c) = Inr (wire_manifest (manifest c))"
    and d: "capsule_digest c = capsule_digest_of H (wire_header (header c)) (wire_manifest (manifest c)) (compressed_payload c)"
    and sig: "sign s (signature_message (capsule_digest c)) = Inr (signature_raw (signature c))"
  let ?fs = "sort_key relative_path artifacts"
  note pk = pack_eq_Inr [OF assms(8), unfolded assms(7)]
  have wf: "wf_capsule c" by (rule pack_sign_wf [OF assms(2,4,5,6,8) c(2,6) d sig])
  then have dec: "decode_capsule bs limits_V1 = Inr c" using c(1) encode_decode_V1 by blast
  have inp: "from_input b64 inp limits_V1 = Inr (UnverifiedCapsule bs)"
    by (rule from_input_V1 [OF assms(1) dec assms(15)])
  have "decode_unverified (UnverifiedCapsule bs) limits_V1 =
      Inr \<lparr> sv_decoded = c, sv_header_bytes = wire_header (header c), sv_manifest_bytes = wire_manifest (manifest c) \<rparr>"
    (is "_ = Inr ?sv") by (simp add: decode_unverified_def dec encs)
  moreover define g where "g = \<lparr> sg_decoded = c, sg_publisher =
      \<lparr> vp_key_id = tk_id k, vp_display_name = tk_display_name k, vp_channel = tk_channel k \<rparr> \<rparr>"
  have "verify_signature_stage H ed ?sv policy keyring = Inr g"
    using assms(4,11-14) sig c(6) d
    by (auto simp: verify_signature_stage_eq_Inr verify_signature_eq_Inr g_def signer_contract_def)
  moreover have "decompress z (uc_compressed_payload u) (uc_compression u) (uc_uncompressed_payload_size u) limits_V1 =
      Inr (payload_of ?fs)"
  proof -
    have "uc_uncompressed_payload_size u = of_nat (length (payload_of ?fs))" by (simp flip: pk(4))
    moreover have "length (payload_of ?fs) \<le> length (uc_compressed_payload u) * unat (max_compression_ratio limits_V1)"
      using assms(10) by (simp add: length_payload_sort limits_V1_def)
    ultimately show ?thesis
      using decompress_compress [OF assms(3)] pk(6,8)
      by (simp add: decompress_def compress_def compress_with_profile_def)
  qed
  moreover have "try_map (verify_entry H (payload_of ?fs)) (files (uc_manifest u)) = Inr (map verified_of ?fs)"
  proof -
    have "length (payload_of ?fs) < 2 ^ 64"
      using unsigned_less [of "uc_uncompressed_payload_size u", where ?'a = nat] by (simp flip: pk(4))
    then show ?thesis using verify_packed_entries [of 0 "[]" ?fs H "[]"] pk(3) by simp
  qed
  ultimately show ?thesis
    using inp c by (simp add: verify_capsule_def verify_capsule_with_limits_def verify_payload_def g_def finish_def)
qed


section \<open>A concrete run\<close>

definition sample_artifacts :: "artifact_file list" where
  "sample_artifacts = [sample_file ''docs/b.txt'' [104, 105], sample_file ''a.bin'' [1, 2, 255]]"

definition sample_key :: trusted_public_key where
  "sample_key = \<lparr> tk_id = key_id_of sample_hash (public_key sample_signer),
     tk_public_key = public_key sample_signer, tk_display_name = ascii ''ci'', tk_channel = Production,
     tk_status = Active \<rparr>"

lemma sample_pack_sign:
  "\<exists>u bs. pack sample_hash stored_zstd sample_artifacts sample_options = Inr u \<and>
     sign_capsule sample_hash u sample_signer = Inr bs"
proof -
  have "(case pack sample_hash stored_zstd sample_artifacts sample_options of
      Inl _ \<Rightarrow> False | Inr u \<Rightarrow> is_ok (sign_capsule sample_hash u sample_signer))"
    by code_simp
  then show ?thesis by (auto simp: is_ok_iff split: sum.splits)
qed

lemma sample_run_facts:
  "list_all wf_artifact sample_artifacts" "wf_options sample_options"
  "po_limits sample_options = limits_V1"
  "keyring_get [sample_key] (key_id_of sample_hash (public_key sample_signer)) = Some sample_key"
  "tk_public_key sample_key = public_key sample_signer" "permitted sample_key policy_PRODUCTION"
  "vk_from_bytes sample_ed25519 (public_key sample_signer)"
  by (code_simp, code_simp, simp add: sample_options_def, code_simp, code_simp, code_simp, code_simp)

lemma sample_sorted:
  "sort_key relative_path sample_artifacts = [sample_file ''a.bin'' [1, 2, 255], sample_file ''docs/b.txt'' [104, 105]]"
  by code_simp

lemma sample_ratio:
  assumes "pack sample_hash stored_zstd sample_artifacts sample_options = Inr u"
  shows "length (concat (map file_bytes sample_artifacts)) \<le> 200 * length (uc_compressed_payload u)"
proof -
  have "compress stored_zstd (payload_of (sort_key relative_path sample_artifacts)) CompressionNone limits_V1 =
      Inr (uc_compressed_payload u)"
    using pack_eq_Inr(6) [OF assms] by (simp add: sample_options_def)
  then have "uc_compressed_payload u = payload_of (sort_key relative_path sample_artifacts)"
    by (auto simp: compress_def compress_with_profile_def compress_with_dictionary_def and_then_eq_Inr)
  then show ?thesis by (simp add: length_payload_sort)
qed


lemma sample_verified:
  obtains bs v where "verify_capsule_with_limits url_safe_no_pad sample_hash sample_ed25519 stored_zstd
      (InputBinary bs) limits_V1 policy_PRODUCTION [sample_key] = Inr v"
proof -
  obtain u bs where u: "pack sample_hash stored_zstd sample_artifacts sample_options = Inr u"
    "sign_capsule sample_hash u sample_signer = Inr bs" using sample_pack_sign by blast
  from pack_sign_verifies [OF url_safe_no_pad_contract sample_contracts(1) stored_zstd_contract sample_contracts(2)
      sample_run_facts(1-3) u sample_ratio [OF u(1)] sample_run_facts(4-7), of "InputBinary bs"] that
  show thesis by (auto simp: verify_capsule_def)
qed

theorem verify_capsule_authentic_witness:
  "\<exists>bs v body d sig. verify_capsule_with_limits url_safe_no_pad sample_hash sample_ed25519 stored_zstd
      (InputBinary bs) limits_V1 policy_PRODUCTION [sample_key] = Inr v \<and>
     bs = body @ d @ sig \<and> d = sample_hash CAPSULE_CONTEXT body \<and>
     vk_verify_strict sample_ed25519 (tk_public_key sample_key) (SIGNATURE_DOMAIN @ d) sig"
proof (rule sample_verified)
  fix bs v
  assume v: "verify_capsule_with_limits url_safe_no_pad sample_hash sample_ed25519 stored_zstd
      (InputBinary bs) limits_V1 policy_PRODUCTION [sample_key] = Inr v"
  from verify_capsule_authentic [OF v] obtain body d sig k where "bs = body @ d @ sig"
    "d = sample_hash CAPSULE_CONTEXT body" "k = sample_key"
    "vk_verify_strict sample_ed25519 (tk_public_key k) (SIGNATURE_DOMAIN @ d) sig"
    by auto
  with v show ?thesis by blast
qed


end
