(* ===== verification/Chain_Base.thy ===== *)
theory Chain_Base
  imports Wire_Bytes
begin

text \<open>The error type of the crate \<open>rebyte-chain\<close> (\<open>error.rs\<close>); its constructors carry the prefix \<open>Chain\<close>.\<close>

datatype chain_error =
    ChainEntropyUnavailable
  | ChainInvalidPassphrase
  | ChainInvalidDocument
  | ChainUnsupportedDocument
  | ChainLimitExceeded
  | ChainLengthOverflow
  | ChainInvalidName
  | ChainInvalidEncoding
  | ChainInvalidPublicKey
  | ChainKeyDerivation
  | ChainEncryptionFailed
  | ChainAuthenticationFailed
  | ChainIdentityMismatch
  | ChainDuplicateIdentity
  | ChainNonCanonicalOrder
  | ChainInvalidThreshold
  | ChainNotGroupMember
  | ChainIncompleteGroup
  | ChainInsufficientApprovals
  | ChainInvalidSignature
  | ChainBindingMismatch
  | ChainUnexpectedEof
  | ChainNonCanonicalEnvelope
  | ChainInvalidArtifact
  | ChainInvalidContent
  | ChainInvalidContract
  | ChainUnsupportedReleasePolicy
  | ChainCryptographicFailure
  | ChainNotRecipient
  | ChainNotWitness
  | ChainInvalidRelease
  | ChainReleaseNotYetAvailable
  | ChainReleaseLimitReached
  | ChainInvalidShare
  | ChainReleaseAuthorityUnavailable
  | ChainIntegrityMismatch

end
