(* ===== verification/Interpolation.thy ===== *)
theory Interpolation
  imports Main
begin

text \<open>
  Polynomial functions over a field, as far as threshold sharing needs them: a non-zero polynomial
  function of degree below \<open>n\<close> has fewer than \<open>n\<close> roots, and through \<open>n\<close> points with distinct
  abscissae passes exactly one of them, Lagrange's.
\<close>

fun peval :: "'a::comm_ring_1 list \<Rightarrow> 'a \<Rightarrow> 'a" where
  "peval [] x = 0"
| "peval (c # cs) x = c + x * peval cs x"

definition poly_fun :: "nat \<Rightarrow> ('a::comm_ring_1 \<Rightarrow> 'a) \<Rightarrow> bool" where
  "poly_fun n f \<longleftrightarrow> (\<exists>cs. length cs \<le> n \<and> f = peval cs)"

fun padd :: "'a::comm_ring_1 list \<Rightarrow> 'a list \<Rightarrow> 'a list" where
  "padd [] ds = ds"
| "padd cs [] = cs"
| "padd (c # cs) (d # ds) = (c + d) # padd cs ds"

lemma length_padd: "length (padd cs ds) = max (length cs) (length ds)"
  by (induction cs ds rule: padd.induct) simp_all

lemma peval_padd: "peval (padd cs ds) x = peval cs x + peval ds x"
  by (induction cs ds rule: padd.induct) (simp_all add: algebra_simps)

lemma peval_map_mult: "peval (map ((*) a) cs) x = a * peval cs x"
  by (induction cs) (simp_all add: algebra_simps)

lemma poly_funI: "length cs \<le> n \<Longrightarrow> (\<And>x. f x = peval cs x) \<Longrightarrow> poly_fun n f"
  unfolding poly_fun_def by blast

lemma poly_fun_zero: "poly_fun n (\<lambda>_. 0)"
  by (rule poly_funI [of "[]"]) simp_all

lemma poly_fun_const: "0 < n \<Longrightarrow> poly_fun n (\<lambda>_. c)"
  by (rule poly_funI [of "[c]"]) simp_all

lemma poly_fun_add: "poly_fun n f \<Longrightarrow> poly_fun n g \<Longrightarrow> poly_fun n (\<lambda>x. f x + g x)"
proof -
  assume "poly_fun n f" "poly_fun n g"
  then obtain cs ds where "length cs \<le> n" "f = peval cs" "length ds \<le> n" "g = peval ds"
    by (auto simp: poly_fun_def)
  then show ?thesis by (intro poly_funI [of "padd cs ds"]) (simp_all add: length_padd peval_padd)
qed

lemma poly_fun_scale: "poly_fun n f \<Longrightarrow> poly_fun n (\<lambda>x. a * f x)"
proof -
  assume "poly_fun n f"
  then obtain cs where "length cs \<le> n" "f = peval cs" by (auto simp: poly_fun_def)
  then show ?thesis by (intro poly_funI [of "map ((*) a) cs"]) (simp_all add: peval_map_mult)
qed

lemma poly_fun_shift:
  assumes "poly_fun n f"
  shows "poly_fun (Suc n) (\<lambda>x. (c + d * x) * f x)"
proof -
  from assms obtain cs where cs: "length cs \<le> n" "f = peval cs" by (auto simp: poly_fun_def)
  show ?thesis
    by (rule poly_funI [of "padd (map ((*) c) cs) (0 # map ((*) d) cs)"])
      (use cs in \<open>simp_all add: length_padd peval_padd peval_map_mult algebra_simps\<close>)
qed

lemma poly_fun_sum: "finite A \<Longrightarrow> (\<And>i. i \<in> A \<Longrightarrow> poly_fun n (f i)) \<Longrightarrow> poly_fun n (\<lambda>x. \<Sum>i\<in>A. f i x)"
proof (induction A rule: finite_induct)
  case empty
  then show ?case by (simp add: poly_fun_zero)
next
  case (insert a A)
  then show ?case by (simp add: poly_fun_add)
qed

lemma poly_fun_prod:
  "finite A \<Longrightarrow> poly_fun (Suc (card A)) (\<lambda>x. \<Prod>i\<in>A. c i + d i * x)"
proof (induction A rule: finite_induct)
  case empty
  then show ?case by (simp add: poly_fun_const)
next
  case (insert a A)
  then show ?case by (simp add: poly_fun_shift)
qed

section \<open>Roots\<close>

lemma synthetic_division: "\<exists>ds. length ds = length cs - 1 \<and> (\<forall>x. peval cs x - peval cs r = (x - r) * peval ds x)"
proof (induction cs)
  case Nil
  then show ?case by simp
next
  case (Cons c cs)
  then obtain ds where ds: "length ds = length cs - 1" "\<forall>x. peval cs x - peval cs r = (x - r) * peval ds x"
    by blast
  show ?case
  proof (cases cs)
    case Nil
    then show ?thesis by (intro exI [of _ "[]"]) simp
  next
    case (Cons b bs)
    have "peval (c # cs) x - peval (c # cs) r = (x - r) * peval (peval cs r # ds) x" for x
    proof -
      have "peval (c # cs) x - peval (c # cs) r = x * (peval cs x - peval cs r) + (x - r) * peval cs r"
        by (simp add: algebra_simps)
      also have "\<dots> = (x - r) * peval (peval cs r # ds) x"
        unfolding ds(2) [rule_format] by (simp add: algebra_simps)
      finally show ?thesis .
    qed
    with ds(1) Cons show ?thesis by (intro exI [of _ "peval cs r # ds"]) simp
  qed
qed

lemma poly_fun_roots:
  fixes f :: "'a::field \<Rightarrow> 'a"
  assumes "poly_fun n f" "finite S" "card S = n" "\<And>x. x \<in> S \<Longrightarrow> f x = 0"
  shows "f x = 0"
  using assms
proof (induction n arbitrary: f S x)
  case 0
  then show ?case by (auto simp: poly_fun_def)
next
  case (Suc n)
  then obtain r T where S: "S = insert r T" "r \<notin> T" "finite T" "card T = n"
    by (metis card_Suc_eq finite_insert)
  from Suc.prems(1) obtain cs where cs: "length cs \<le> Suc n" "f = peval cs" by (auto simp: poly_fun_def)
  from synthetic_division [of cs r] obtain ds where
    ds: "length ds = length cs - 1" "\<And>x. peval cs x - peval cs r = (x - r) * peval ds x" by blast
  have r: "peval cs r = 0" using Suc.prems(4) S cs by simp
  have "peval ds y = 0" if "y \<in> T" for y
    using ds(2) [of y] r Suc.prems(4) [of y] S that cs by auto
  moreover have "poly_fun n (peval ds)" using cs(1) ds(1) by (intro poly_funI [of ds]) auto
  ultimately have "peval ds x = 0" using Suc.IH [of "peval ds" T x] S by blast
  with ds(2) [of x] r cs show ?case by simp
qed

section \<open>Lagrange interpolation\<close>

definition lagrange :: "'a::field set \<Rightarrow> ('a \<Rightarrow> 'a) \<Rightarrow> 'a \<Rightarrow> 'a" where
  "lagrange S y x = (\<Sum>a\<in>S. y a * (\<Prod>b\<in>S - {a}. (b - x) / (b - a)))"

lemma poly_fun_lagrange:
  assumes "finite S"
  shows "poly_fun (card S) (lagrange S y)"
proof -
  have "poly_fun (card S) (\<lambda>x. y a * (\<Prod>b\<in>S - {a}. (b - x) / (b - a)))" if "a \<in> S" for a
  proof -
    have "poly_fun (Suc (card (S - {a}))) (\<lambda>x. \<Prod>b\<in>S - {a}. b / (b - a) + (- 1 / (b - a)) * x)"
      using assms by (intro poly_fun_prod) simp
    then have "poly_fun (card S) (\<lambda>x. \<Prod>b\<in>S - {a}. (b - x) / (b - a))"
      using card.remove [OF assms that] by (simp add: diff_divide_distrib)
    then show ?thesis by (rule poly_fun_scale)
  qed
  with assms have "poly_fun (card S) (\<lambda>x. \<Sum>a\<in>S. y a * (\<Prod>b\<in>S - {a}. (b - x) / (b - a)))"
    by (intro poly_fun_sum)
  then show ?thesis by (simp add: lagrange_def [abs_def])
qed

lemma lagrange_at:
  assumes "finite S" "c \<in> S"
  shows "lagrange S y c = y c"
proof -
  have zero: "y a * (\<Prod>b\<in>S - {a}. (b - c) / (b - a)) = 0" if "a \<in> S - {c}" for a
  proof -
    have "(\<Prod>b\<in>S - {a}. (b - c) / (b - a)) = 0"
      using that assms by (intro prod_zero) auto
    then show ?thesis by (simp only: mult_zero_right)
  qed
  have "lagrange S y c = y c * (\<Prod>b\<in>S - {c}. (b - c) / (b - c)) +
      (\<Sum>a\<in>S - {c}. y a * (\<Prod>b\<in>S - {a}. (b - c) / (b - a)))"
    unfolding lagrange_def using assms by (rule sum.remove)
  also have "(\<Sum>a\<in>S - {c}. y a * (\<Prod>b\<in>S - {a}. (b - c) / (b - a))) = 0"
    using zero by (intro sum.neutral) blast
  also have "(\<Prod>b\<in>S - {c}. (b - c) / (b - c)) = 1" by (intro prod.neutral) auto
  finally show ?thesis by simp
qed

lemma lagrange_unique:
  fixes f :: "'a::field \<Rightarrow> 'a"
  assumes "poly_fun (card S) f" "finite S"
  shows "lagrange S f x = f x"
proof -
  have "poly_fun (card S) (\<lambda>x. lagrange S f x + (- 1) * f x)"
    by (intro poly_fun_add poly_fun_scale poly_fun_lagrange assms)
  then have "lagrange S f x + (- 1) * f x = 0"
    by (rule poly_fun_roots [OF _ assms(2) refl]) (simp add: lagrange_at assms)
  then show ?thesis by simp
qed

lemma lagrange_list:
  assumes "distinct xs"
  shows "lagrange (set xs) y x =
    (\<Sum>i<length xs. y (xs ! i) * (\<Prod>j\<in>{..<length xs} - {i}. (xs ! j - x) / (xs ! j - xs ! i)))"
proof -
  have inj: "inj_on ((!) xs) {..<length xs}" using assms by (auto simp: inj_on_def nth_eq_iff_index_eq)
  have set: "set xs = (!) xs ` {..<length xs}" by (auto simp: set_conv_nth)
  have diff: "set xs - {xs ! i} = (!) xs ` ({..<length xs} - {i})" if "i < length xs" for i
    using that assms by (auto simp: set_conv_nth nth_eq_iff_index_eq)
  have "(\<Prod>b\<in>set xs - {xs ! i}. (b - x) / (b - xs ! i)) =
      (\<Prod>j\<in>{..<length xs} - {i}. (xs ! j - x) / (xs ! j - xs ! i))" if "i < length xs" for i
    unfolding diff [OF that] by (subst prod.reindex) (use inj in \<open>auto simp: inj_on_diff\<close>)
  moreover have "lagrange (set xs) y x =
      (\<Sum>i<length xs. y (xs ! i) * (\<Prod>b\<in>set xs - {xs ! i}. (b - x) / (b - xs ! i)))"
    unfolding lagrange_def set by (subst sum.reindex [OF inj]) simp
  ultimately show ?thesis by simp
qed

lemma poly_fun_coefficients:
  assumes "poly_fun n f"
  obtains cs where "length cs = n" "\<And>x. f x = peval cs x"
proof -
  from assms obtain cs where cs: "length cs \<le> n" "f = peval cs" by (auto simp: poly_fun_def)
  have "peval (cs @ replicate k 0) x = peval cs x" for k x
  proof (induction cs)
    case Nil
    show ?case by (induction k) simp_all
  qed simp
  with cs that [of "cs @ replicate (n - length cs) 0"] show thesis by simp
qed

lemma foldl_horner: "foldl (\<lambda>v c. v * x + c) 0 (rev cs) = peval cs x"
  by (induction cs) (simp_all add: ac_simps)

end
