(* ===== verification/GF256.thy ===== *)
theory GF256
  imports Chain_Base Interpolation
begin

unbundle bit_operations_syntax

text \<open>
  The arithmetic of \<open>rebyte-chain/src/secret_sharing.rs\<close>: the branch-free multiplication and
  inversion of bytes modulo \<open>x ^ 8 + x ^ 4 + x ^ 3 + x + 1\<close>. The type \<open>gf\<close> wraps a byte; its
  instance of the class \<open>field\<close>, with the program's own functions as operations, is the proof
  that they implement the field with 256 elements.
\<close>

section \<open>The program's functions\<close>

fun gf_mul_loop :: "nat \<Rightarrow> u8 \<Rightarrow> u8 \<Rightarrow> u8 \<Rightarrow> u8" where
  "gf_mul_loop 0 product left right = product"
| "gf_mul_loop (Suc n) product left right =
     (let product = product XOR (left AND (0 - (right AND 1)));
          high_bit = drop_bit 7 left;
          left = push_bit 1 left XOR (0x1b AND (0 - high_bit));
          right = drop_bit 1 right
      in gf_mul_loop n product left right)"

definition gf_mul :: "u8 \<Rightarrow> u8 \<Rightarrow> u8" where
  "gf_mul left right = gf_mul_loop 8 0 left right"

definition select_u8 :: "u8 \<Rightarrow> u8 \<Rightarrow> u8 \<Rightarrow> u8" where
  "select_u8 if_zero if_one selector =
     (let mask = 0 - (selector AND 1) in (if_zero AND NOT mask) OR (if_one AND mask))"

fun gf_inverse_loop :: "nat \<Rightarrow> u8 \<Rightarrow> u8 \<Rightarrow> u8 \<Rightarrow> u8" where
  "gf_inverse_loop 0 result base exponent = result"
| "gf_inverse_loop (Suc n) result base exponent =
     gf_inverse_loop n (gf_mul result (select_u8 1 base (exponent AND 1))) (gf_mul base base)
       (drop_bit 1 exponent)"

definition gf_inverse :: "u8 \<Rightarrow> chain_error + u8" where
  "gf_inverse value =
     (if value = 0 then Inl ChainInvalidShare else Inr (gf_inverse_loop 8 1 value 254))"

section \<open>Multiplication is bilinear\<close>

definition xtime :: "u8 \<Rightarrow> u8" where
  "xtime a = push_bit 1 a XOR (if bit a 7 then 0x1b else 0)"

fun gmul :: "nat \<Rightarrow> u8 \<Rightarrow> u8 \<Rightarrow> u8" where
  "gmul 0 l r = 0"
| "gmul (Suc n) l r = (if bit r 0 then l else 0) XOR gmul n (xtime l) (drop_bit 1 r)"

lemma bit_mask: "- (w AND 1 :: u8) = (if bit w 0 then - 1 else 0)"
  by (simp add: and_one_eq bit_0 mod_2_eq_odd)

lemma high_bit_mask: "- drop_bit 7 (a :: u8) = (if bit a 7 then - 1 else 0)"
proof -
  have "drop_bit 7 a = (if bit a 7 then 1 else 0)"
  proof (rule bit_word_eqI)
    fix n
    show "bit (drop_bit 7 a) n = bit (if bit a 7 then 1 else 0 :: u8) n"
      by (cases n) (auto simp: bit_drop_bit_eq bit_1_iff dest: bit_imp_le_length)
  qed
  then show ?thesis by simp
qed

lemma gf_mul_loop_eq: "gf_mul_loop n p l r = p XOR gmul n l r"
  by (induction n arbitrary: p l r)
    (simp_all add: Let_def bit_mask high_bit_mask xtime_def ac_simps)

lemma xtime_xor: "xtime (a XOR b) = xtime a XOR xtime b"
  by (rule bit_word_eqI) (auto simp: xtime_def bit_xor_iff simp flip: push_bit_eq_mult)

lemma xtime_0 [simp]: "xtime 0 = 0"
  by (simp add: xtime_def)

lemma gmul_0 [simp]: "gmul n 0 r = 0" "gmul n l 0 = 0"
  by (induction n arbitrary: l r) simp_all

lemma gmul_xor_left: "gmul n (a XOR b) r = gmul n a r XOR gmul n b r"
  by (induction n arbitrary: a b r) (simp_all add: xtime_xor ac_simps)

lemma gmul_xor_right: "gmul n l (a XOR b) = gmul n l a XOR gmul n l b"
  by (induction n arbitrary: a b l) (simp_all add: bit_xor_iff drop_bit_xor ac_simps)

lemma gmul_xtime: "gmul n (xtime l) r = xtime (gmul n l r)"
  by (induction n arbitrary: l r) (simp_all add: xtime_xor)

lemma gf_mul_eq: "gf_mul l r = gmul 8 l r"
  by (simp add: gf_mul_def gf_mul_loop_eq)

lemma gmul_gmul: "gmul m (gmul n l a) b = gmul n (gmul m l b) a"
  by (induction n arbitrary: l a) (simp_all add: gmul_xor_left gmul_xtime)

lemma gf_mul_1: "gf_mul a 1 = a"
  by (simp add: gf_mul_eq numeral_eq_Suc bit_1_iff)

lemma gf_mul_1_left: "gf_mul 1 a = a"
proof (rule bit_word_eqI)
  fix n
  assume "n < LENGTH(8)"
  then consider "n = 0" | "n = 1" | "n = 2" | "n = 3" | "n = 4" | "n = 5" | "n = 6" | "n = 7"
    by (auto simp: numeral_eq_Suc less_Suc_eq)
  then show "bit (gf_mul 1 a) n = bit a n"
    by cases (simp_all add: gf_mul_eq eval_nat_numeral xtime_def bit_simps)
qed

lemma gf_mul_commute: "gf_mul a b = gf_mul b a"
  using gmul_gmul [of 8 8 1 a b] by (simp add: gf_mul_1_left flip: gf_mul_eq)

lemma gf_mul_assoc: "gf_mul (gf_mul a b) c = gf_mul a (gf_mul b c)"
proof -
  have "gf_mul (gf_mul a b) c = gf_mul (gf_mul b a) c" by (simp only: gf_mul_commute)
  also have "\<dots> = gf_mul (gf_mul b c) a" using gmul_gmul [of 8 8 b a c] by (simp flip: gf_mul_eq)
  finally show ?thesis by (simp only: gf_mul_commute)
qed

section \<open>The field with 256 elements\<close>

typedef gf = "UNIV :: u8 set"
  morphisms gf_byte to_gf ..

setup_lifting type_definition_gf

instantiation gf :: comm_ring_1
begin

lift_definition zero_gf :: gf is "0 :: u8" .
lift_definition one_gf :: gf is "1 :: u8" .
lift_definition plus_gf :: "gf \<Rightarrow> gf \<Rightarrow> gf" is "\<lambda>a b. a XOR b" .
lift_definition minus_gf :: "gf \<Rightarrow> gf \<Rightarrow> gf" is "\<lambda>a b. a XOR b" .
lift_definition uminus_gf :: "gf \<Rightarrow> gf" is "\<lambda>a. a" .
lift_definition times_gf :: "gf \<Rightarrow> gf \<Rightarrow> gf" is gf_mul .

instance
proof
  fix a b c :: gf
  show "a + b + c = a + (b + c)" "a + b = b + a" "0 + a = a" "- a + a = 0" "a - b = a + - b"
    by (transfer; simp add: ac_simps)+
  show "a * b * c = a * (b * c)" by transfer (rule gf_mul_assoc)
  show "a * b = b * a" by transfer (rule gf_mul_commute)
  show "1 * a = a" by transfer (rule gf_mul_1_left)
  show "(a + b) * c = a * c + b * c" by transfer (simp add: gf_mul_eq gmul_xor_left)
  show "0 \<noteq> (1 :: gf)" by transfer simp
qed

end

lemma to_gf_simps:
  "to_gf (a XOR b) = to_gf a + to_gf b" "to_gf (gf_mul a b) = to_gf a * to_gf b"
  "to_gf 0 = 0" "to_gf 1 = 1"
  by (transfer; simp)+

lemma to_gf_eq_iff [simp]: "to_gf a = to_gf b \<longleftrightarrow> a = b"
  by transfer simp

lemma to_gf_gf_byte [simp]: "to_gf (gf_byte x) = x" "gf_byte (to_gf a) = a"
  by (simp_all add: gf_byte_inverse to_gf_inverse)

lemma gf_minus [simp]: "- a = (a :: gf)" "a - b = a + (b :: gf)"
  by (transfer; simp)+

lemma finite_gf: "finite (UNIV :: gf set)" "card (UNIV :: gf set) = 256"
proof -
  have b: "bij to_gf" by (rule bijI') (auto intro: to_gf_gf_byte(1) [symmetric])
  then show "finite (UNIV :: gf set)" by (metis bij_betw_finite finite)
  show "card (UNIV :: gf set) = 256" using bij_betw_same_card [OF b] by (simp add: card_word)
qed

section \<open>Three generates the multiplicative group\<close>

text \<open>Powers by repeated squaring, to be evaluated.\<close>

fun byte_power :: "u8 \<Rightarrow> nat \<Rightarrow> u8" where
  "byte_power b n =
     (if n = 0 then 1 else let h = byte_power (gf_mul b b) (n div 2) in if odd n then gf_mul b h else h)"

declare byte_power.simps [simp del]

lemma to_gf_byte_power: "to_gf (byte_power b n) = to_gf b ^ n"
proof (induction b n rule: byte_power.induct)
  case (1 b n)
  show ?case
  proof (cases "n = 0")
    case True
    then show ?thesis by (simp add: to_gf_simps byte_power.simps)
  next
    case False
    have "to_gf b ^ n = (to_gf b * to_gf b) ^ (n div 2) * to_gf b ^ (n mod 2)"
    proof -
      have "to_gf b ^ n = to_gf b ^ (2 * (n div 2) + n mod 2)" by simp
      then show ?thesis by (simp only: power_add power_mult power2_eq_square)
    qed
    with 1 [OF False] show ?thesis
      using False by (subst byte_power.simps) (auto simp: Let_def to_gf_simps mod_2_eq_odd ac_simps)
  qed
qed

text \<open>The products that repeated squaring of three needs.\<close>

lemma products_of_three:
  "gf_mul 3 3 = 5" "gf_mul 5 5 = 17" "gf_mul 17 17 = 26" "gf_mul 26 26 = 95" "gf_mul 95 95 = 229"
  "gf_mul 229 229 = 76" "gf_mul 76 76 = 251" "gf_mul 76 251 = 252" "gf_mul 229 252 = 18" "gf_mul 95 18 = 57"
  "gf_mul 26 57 = 28" "gf_mul 17 28 = 199" "gf_mul 5 199 = 246" "gf_mul 3 246 = 1" "gf_mul 95 76 = 131"
  "gf_mul 17 131 = 107" "gf_mul 3 107 = 189" "gf_mul 95 229 = 83" "gf_mul 5 83 = 4" "gf_mul 3 4 = 12"
  "gf_mul 17 26 = 161" "gf_mul 5 161 = 19" "gf_mul 3 19 = 53"
  by code_simp+

lemma powers_of_three:
  "byte_power 3 255 = 1" "byte_power 3 85 \<noteq> 1" "byte_power 3 51 \<noteq> 1" "byte_power 3 15 \<noteq> 1"
  by (simp_all add: byte_power.simps products_of_three gf_mul_1)

definition gen :: gf where "gen = to_gf 3"

lemma gen_powers: "gen ^ 255 = 1" "gen ^ 85 \<noteq> 1" "gen ^ 51 \<noteq> 1" "gen ^ 15 \<noteq> 1"
  using powers_of_three unfolding gen_def
  by (simp_all only: to_gf_byte_power [symmetric] to_gf_simps(4) [symmetric] to_gf_eq_iff not_False_eq_True)

lemma divisors_of_255:
  assumes "e dvd 255" "e \<noteq> 255"
  shows "e dvd 85 \<or> e dvd 51 \<or> e dvd (15 :: nat)"
proof -
  have "list_all (\<lambda>d. 255 mod d = 0 \<longrightarrow> 85 mod d = 0 \<or> 51 mod d = 0 \<or> 15 mod d = 0) [1..<128]"
    by code_simp
  moreover from assms(1) obtain k where k: "255 = e * k" by (rule dvdE)
  have "0 < e" "2 \<le> k"
  proof -
    show "0 < e" using k by (intro Nat.gr0I) simp
    show "2 \<le> k"
    proof (rule ccontr)
      assume "\<not> 2 \<le> k"
      then have "k = 0 \<or> k = 1" by arith
      with k assms(2) show False by auto
    qed
  qed
  then have "e < 128" using k mult_le_mono2 [of 2 k e] by simp
  ultimately show ?thesis using assms(1) \<open>0 < e\<close> by (auto simp: list_all_iff dvd_eq_mod_eq_0)
qed

lemma gen_power_one:
  assumes "gen ^ d = 1"
  shows "255 dvd d"
proof (rule ccontr)
  assume "\<not> 255 dvd d"
  let ?e = "gcd d 255"
  have "d \<noteq> 0" using \<open>\<not> 255 dvd d\<close> by (intro notI) simp
  from bezout_nat [OF this, of 255] obtain x y where xy: "d * x = 255 * y + ?e" by blast
  have "gen ^ ?e = gen ^ (255 * y) * gen ^ ?e" by (simp add: power_mult gen_powers)
  also have "\<dots> = gen ^ (d * x)" by (simp only: xy power_add)
  also have "\<dots> = 1" by (simp add: power_mult assms)
  finally have e: "gen ^ ?e = 1" .
  have "?e \<noteq> 255" using \<open>\<not> 255 dvd d\<close> by (metis gcd_dvd1)
  with divisors_of_255 [of ?e] have "?e dvd 85 \<or> ?e dvd 51 \<or> ?e dvd 15" by simp
  with e gen_powers(2-4) show False by (metis dvdE power_mult power_one)
qed

lemma gen_powers_inj: "inj_on (\<lambda>i. gen ^ i) {..<255}"
proof -
  have False if "i < j" "j < 255" "gen ^ i = gen ^ j" for i j
  proof -
    have "gen ^ (j - i) = gen ^ (j - i) * gen ^ 255" by (simp add: gen_powers)
    also have "\<dots> = gen ^ (j - i + 255)" by (simp only: power_add)
    also have "j - i + 255 = j + (255 - i)" using that by simp
    also have "gen ^ (j + (255 - i)) = gen ^ i * gen ^ (255 - i)" by (simp only: power_add that(3))
    also have "\<dots> = gen ^ (i + (255 - i))" by (simp only: power_add)
    also have "i + (255 - i) = 255" using that(1,2) by simp
    also have "gen ^ 255 = 1" by (rule gen_powers)
    finally have "255 dvd j - i" by (rule gen_power_one)
    with that show False by (auto dest: dvd_imp_le)
  qed
  then show ?thesis by (intro inj_onI) (metis lessThan_iff linorder_neqE_nat)
qed

lemma gen_power_nonzero: "gen ^ i \<noteq> 0"
proof
  assume "gen ^ i = 0"
  then have "gen ^ (255 * i) = 0" if "i \<noteq> 0"
    using that by (metis mult.commute power_mult power_zero_numeral)
  then show False using \<open>gen ^ i = 0\<close> gen_powers(1) by (cases "i = 0") (auto simp: power_mult)
qed

lemma nonzero_powers: "{a. a \<noteq> 0} = (\<lambda>i. gen ^ i) ` {..<255}"
proof (rule sym, rule card_subset_eq)
  show "finite {a :: gf. a \<noteq> 0}" using finite_gf(1) by (rule rev_finite_subset) simp
  show "(\<lambda>i. gen ^ i) ` {..<255} \<subseteq> {a. a \<noteq> 0}" using gen_power_nonzero by auto
  have "{a :: gf. a \<noteq> 0} = UNIV - {0}" by auto
  then have "card {a :: gf. a \<noteq> 0} = 255" using finite_gf by (simp add: card_Diff_singleton)
  then show "card ((\<lambda>i. gen ^ i) ` {..<255}) = card {a :: gf. a \<noteq> 0}"
    by (simp add: card_image [OF gen_powers_inj])
qed

lemma fermat_gf: "a \<noteq> 0 \<Longrightarrow> (a :: gf) ^ 255 = 1"
proof -
  assume "a \<noteq> 0"
  then obtain i where "a = gen ^ i" using nonzero_powers by blast
  then have "a ^ 255 = (gen ^ 255) ^ i" by (simp only: power_mult [symmetric] mult.commute)
  then show ?thesis by (simp add: gen_powers)
qed

instantiation gf :: field
begin

definition inverse_gf :: "gf \<Rightarrow> gf" where "inverse_gf a = a ^ 254"
definition divide_gf :: "gf \<Rightarrow> gf \<Rightarrow> gf" where "divide_gf a b = a * inverse b"

instance
proof
  fix a b :: gf
  show "a div b = a * inverse b" by (simp add: divide_gf_def)
  show "inverse (0 :: gf) = 0" by (simp add: inverse_gf_def)
  assume "a \<noteq> 0"
  from fermat_gf [OF this] show "inverse a * a = 1"
    by (simp add: inverse_gf_def power_Suc2 [symmetric])
qed

end

section \<open>The byte-level inverse\<close>

lemma select_u8_eq: "select_u8 x y (e AND 1) = (if bit e 0 then y else x)"
proof -
  have "0 - ((e AND 1) AND 1) = (if bit e 0 then - 1 else 0)"
    using bit_mask [of e] by (simp add: and.assoc)
  then show ?thesis by (simp add: select_u8_def Let_def)
qed

lemma to_gf_inverse_loop:
  "to_gf (gf_inverse_loop n result base e) = to_gf result * to_gf base ^ (unat e mod 2 ^ n)"
proof (induction n arbitrary: result base e)
  case 0
  then show ?case by simp
next
  case (Suc n)
  let ?h = "unat e div 2 mod 2 ^ n"
  have split: "unat e mod 2 ^ Suc n = 2 * ?h + unat e mod 2"
    by (metis mod_mult2_eq power_Suc)
  have "unat (drop_bit 1 e) = unat e div 2" using unat_drop_bit_eq [of 1 e] by (simp only: drop_bit_eq_div power_one_right)
  moreover have "to_gf (gf_mul base base) ^ ?h = to_gf base ^ (2 * ?h)"
    by (simp only: to_gf_simps power2_eq_square [symmetric] power_mult)
  moreover have "to_gf (select_u8 1 base (e AND 1)) = to_gf base ^ (unat e mod 2)"
  proof -
    have "bit e 0 \<longleftrightarrow> odd (unat e)" by (metis bit_0 bit_unsigned_iff bit_imp_le_length possible_bit_nat)
    then show ?thesis by (simp add: select_u8_eq to_gf_simps mod_2_eq_odd)
  qed
  ultimately show ?case
    unfolding split power_add by (simp add: Suc.IH to_gf_simps ac_simps)
qed

text \<open>
  C18. The branch-free byte arithmetic is the field with 256 elements: multiplication is
  commutative, associative and distributes over exclusive or, one is neutral, and
  \<open>gf_inverse\<close> rejects zero and returns the multiplicative inverse of every other byte.
\<close>

theorem gf_arithmetic_is_field:
  "gf_mul a b = gf_mul b a \<and> gf_mul (gf_mul a b) c = gf_mul a (gf_mul b c) \<and>
   gf_mul a (b XOR c) = gf_mul a b XOR gf_mul a c \<and> gf_mul 1 a = a \<and>
   (case gf_inverse a of Inl e \<Rightarrow> a = 0 \<and> e = ChainInvalidShare | Inr i \<Rightarrow> a \<noteq> 0 \<and> gf_mul a i = 1)"
proof -
  have "gf_mul a (gf_inverse_loop 8 1 a 254) = 1" if "a \<noteq> 0"
  proof -
    have "to_gf a \<noteq> 0" using that by (simp flip: to_gf_simps(3))
    then have "to_gf (gf_mul a (gf_inverse_loop 8 1 a 254)) = 1"
      by (simp add: to_gf_simps to_gf_inverse_loop fermat_gf flip: power_Suc)
    then show ?thesis by (simp flip: to_gf_simps(4))
  qed
  moreover have "gf_mul a (b XOR c) = gf_mul a b XOR gf_mul a c" by (simp add: gf_mul_eq gmul_xor_right)
  ultimately show ?thesis
    using gf_mul_commute [of a b] gf_mul_assoc [of a b c] gf_mul_1_left [of a] by (simp add: gf_inverse_def)
qed

lemma gf_inverse_eq: "gf_inverse a = Inr i \<longleftrightarrow> a \<noteq> 0 \<and> to_gf i = inverse (to_gf a)"
proof -
  have "to_gf (gf_inverse_loop 8 1 a 254) = inverse (to_gf a)"
    by (simp add: to_gf_inverse_loop to_gf_simps inverse_gf_def)
  then show ?thesis by (auto simp: gf_inverse_def) (metis to_gf_eq_iff)
qed

end
