(* ===== verification/Secret_Sharing.thy ===== *)
theory Secret_Sharing
  imports GF256
begin

unbundle bit_operations_syntax

text \<open>
  Shamir sharing of the 32-byte content key (\<open>rebyte-chain/src/secret_sharing.rs\<close>), byte by byte
  over the field of the theory \<open>GF256\<close>. A share is 33 bytes, its abscissa first. Random
  coefficients come from the operating system and are an argument.
\<close>

section \<open>The program's functions\<close>

definition SECRET_BYTES :: nat where "SECRET_BYTES = 32"
definition SHARE_BYTES :: nat where "SHARE_BYTES = SECRET_BYTES + 1"
definition MAX_SHARES :: nat where "MAX_SHARES = 64"

definition validate_parameters :: "nat \<Rightarrow> nat \<Rightarrow> chain_error + unit" where
  "validate_parameters share_count threshold =
     (if share_count = 0 \<or> MAX_SHARES < share_count \<or> threshold = 0 \<or> share_count < threshold
      then Inl ChainInvalidThreshold else Inr ())"

definition evaluate_polynomial :: "u8 \<Rightarrow> bytes \<Rightarrow> u8 \<Rightarrow> u8" where
  "evaluate_polynomial constant coefficients x =
     (let value = foldl (\<lambda>value coefficient. gf_mul value x XOR coefficient) 0 (rev coefficients)
      in gf_mul value x XOR constant)"

definition share_byte :: "nat \<Rightarrow> bytes \<Rightarrow> u8 \<Rightarrow> nat \<times> u8 \<Rightarrow> chain_error + u8" where
  "share_byte threshold coefficients x p =
     (case p of (byte_index, secret_byte) \<Rightarrow>
      and_then (ok_or ChainLengthOverflow (usize_checked_mul byte_index (threshold - 1))) (\<lambda>start.
      and_then (ok_or ChainLengthOverflow (usize_checked_add start (threshold - 1))) (\<lambda>end_pos.
      and_then (ok_or ChainInvalidShare (slice_get start end_pos coefficients)) (\<lambda>polynomial.
        Inr (evaluate_polynomial secret_byte polynomial x)))))"

definition split_with_coefficients :: "bytes \<Rightarrow> u8 \<Rightarrow> u8 \<Rightarrow> bytes \<Rightarrow> chain_error + bytes list" where
  "split_with_coefficients secret share_count threshold coefficients =
     and_then (validate_parameters (unat share_count) (unat threshold)) (\<lambda>_.
     and_then (ok_or ChainLengthOverflow (usize_checked_mul (unat threshold - 1) SECRET_BYTES)) (\<lambda>expected.
       if length coefficients \<noteq> expected then Inl ChainInvalidShare
       else try_map (\<lambda>x.
              and_then (try_map (share_byte (unat threshold) coefficients x) (enumerate 0 secret)) (\<lambda>ys.
                Inr (x # ys)))
            (map of_nat [1..<unat share_count + 1])))"

definition split_secret :: "(nat \<Rightarrow> bytes option) \<Rightarrow> bytes \<Rightarrow> u8 \<Rightarrow> u8 \<Rightarrow> chain_error + bytes list" where
  "split_secret getrandom secret share_count threshold =
     and_then (validate_parameters (unat share_count) (unat threshold)) (\<lambda>_.
     and_then (ok_or ChainLengthOverflow (usize_checked_mul (unat threshold - 1) SECRET_BYTES)) (\<lambda>coefficient_count.
     and_then (ok_or ChainEntropyUnavailable (getrandom coefficient_count)) (\<lambda>coefficients.
       split_with_coefficients secret share_count threshold coefficients)))"

definition mark_seen :: "bool list \<Rightarrow> bytes \<Rightarrow> chain_error + bool list" where
  "mark_seen seen share =
     (let x = unat (share ! 0) in
      if x = 0 \<or> seen ! x then Inl ChainInvalidShare else Inr (seen[x := True]))"

definition lagrange_factors :: "bytes list \<Rightarrow> nat \<Rightarrow> u8 \<Rightarrow> u8 \<times> u8" where
  "lagrange_factors shares index x_i =
     foldl (\<lambda>(numerator, denominator) (other_index, other).
       if index \<noteq> other_index
       then (gf_mul numerator (other ! 0), gf_mul denominator (other ! 0 XOR x_i))
       else (numerator, denominator)) (1, 1) (enumerate 0 shares)"

definition combine_byte_step :: "bytes list \<Rightarrow> nat \<Rightarrow> u8 \<Rightarrow> nat \<times> bytes \<Rightarrow> chain_error + u8" where
  "combine_byte_step shares byte_index value p =
     (case p of (index, share) \<Rightarrow>
      (case lagrange_factors shares index (share ! 0) of (numerator, denominator) \<Rightarrow>
       and_then (gf_inverse denominator) (\<lambda>i.
         Inr (value XOR gf_mul (share ! (byte_index + 1)) (gf_mul numerator i)))))"

definition combine_byte :: "bytes list \<Rightarrow> nat \<Rightarrow> chain_error + u8" where
  "combine_byte shares byte_index = try_fold (combine_byte_step shares byte_index) 0 (enumerate 0 shares)"

definition combine_shares :: "bytes list \<Rightarrow> u8 \<Rightarrow> chain_error + bytes" where
  "combine_shares shares threshold =
     and_then (validate_parameters (length shares) (unat threshold)) (\<lambda>_.
       if length shares \<noteq> unat threshold then Inl ChainInvalidShare
       else
     and_then (try_fold mark_seen (replicate 256 False) shares) (\<lambda>_.
       try_map (combine_byte shares) [0..<SECRET_BYTES]))"

section \<open>Shares are points of a polynomial\<close>

lemma to_gf_foldl_horner:
  "to_gf (foldl (\<lambda>v c. gf_mul v x XOR c) a cs) = foldl (\<lambda>v c. v * to_gf x + c) (to_gf a) (map to_gf cs)"
  by (induction cs arbitrary: a) (simp_all add: to_gf_simps)

lemma to_gf_evaluate_polynomial:
  "to_gf (evaluate_polynomial s cs x) = peval (to_gf s # map to_gf cs) (to_gf x)"
  unfolding evaluate_polynomial_def Let_def
  by (simp only: to_gf_simps to_gf_foldl_horner rev_map [symmetric] foldl_horner peval.simps)
    (simp only: mult.commute add.commute)

lemma validate_parameters_eq_Inr [simp]:
  "validate_parameters n t = Inr u \<longleftrightarrow> 0 < t \<and> t \<le> n \<and> n \<le> 64"
  by (auto simp: validate_parameters_def MAX_SHARES_def)

section \<open>Combination computes Lagrange's value at zero\<close>

lemma to_gf_lagrange_factors_aux:
  "foldl (\<lambda>(n, d) (j, other :: bytes). if i \<noteq> j then (gf_mul n (other ! 0), gf_mul d (other ! 0 XOR x)) else (n, d))
     (n0, d0) L = (n1, d1) \<Longrightarrow>
   to_gf n1 = to_gf n0 * prod_list (map (\<lambda>(j, other). if i \<noteq> j then to_gf (other ! 0) else 1) L) \<and>
   to_gf d1 = to_gf d0 * prod_list (map (\<lambda>(j, other). if i \<noteq> j then to_gf (other ! 0) - to_gf x else 1) L)"
proof (induction L arbitrary: n0 d0)
  case (Cons p L)
  obtain j other where p: "p = (j, other)" by (cases p)
  with Cons show ?case by (cases "i = j") (fastforce simp: to_gf_simps mult.assoc)+
qed simp

lemma prod_list_enumerate:
  "prod_list (map (\<lambda>(j, other). if i \<noteq> j then (g other :: gf) else 1) (enumerate 0 ys)) =
     (\<Prod>j\<in>{..<length ys} - {i}. g (ys ! j))"
proof -
  have "prod_list (map (\<lambda>(j, other). if i \<noteq> j then g other else 1) (enumerate 0 ys)) =
      (\<Prod>j<length ys. if i \<noteq> j then g (ys ! j) else 1)"
    by (simp add: prod.list_conv_set_nth nth_enumerate_eq atLeast0LessThan)
  also have "\<dots> = (\<Prod>j\<in>{..<length ys} - {i}. g (ys ! j))"
    by (rule prod.mono_neutral_cong_right) auto
  finally show ?thesis .
qed

lemma to_gf_lagrange_factors:
  assumes "lagrange_factors shares i x = (n, d)"
  shows "to_gf n = (\<Prod>j\<in>{..<length shares} - {i}. to_gf (shares ! j ! 0))"
    "to_gf d = (\<Prod>j\<in>{..<length shares} - {i}. to_gf (shares ! j ! 0) - to_gf x)"
  using to_gf_lagrange_factors_aux [OF assms [unfolded lagrange_factors_def]]
  by (simp_all add: to_gf_simps prod_list_enumerate [of i "\<lambda>other. to_gf (other ! 0)"]
      prod_list_enumerate [of i "\<lambda>other. to_gf (other ! 0) - to_gf x"])

lemma enumerate_members: "\<forall>(i, y)\<in>set (enumerate 0 ys). i < length ys \<and> y = ys ! i"
  by (auto simp: in_set_enumerate_eq)

lemma combine_fold_eq:
  assumes "try_fold (combine_byte_step shares k) v L = Inr w"
    "\<forall>(i, share)\<in>set L. i < length shares \<and> share = shares ! i"
  shows "to_gf w = to_gf v + (\<Sum>(i, share)\<leftarrow>L. to_gf (share ! (k + 1)) *
    (\<Prod>j\<in>{..<length shares} - {i}. to_gf (shares ! j ! 0) / (to_gf (shares ! j ! 0) - to_gf (share ! 0))))"
  using assms
proof (induction L arbitrary: v)
  case Nil
  then show ?case by simp
next
  case (Cons p L)
  obtain i share where p: "p = (i, share)" by (cases p)
  obtain n d where f: "lagrange_factors shares i (share ! 0) = (n, d)" by (cases "lagrange_factors shares i (share ! 0)")
  from Cons.prems(1) obtain u where step: "combine_byte_step shares k v p = Inr u"
    and fold: "try_fold (combine_byte_step shares k) u L = Inr w" by (auto simp: and_then_eq_Inr)
  from step p f obtain r where r: "gf_inverse d = Inr r"
    and u: "u = v XOR gf_mul (share ! (k + 1)) (gf_mul n r)"
    by (auto simp: and_then_eq_Inr combine_byte_step_def)
  from r have "to_gf r = inverse (to_gf d)" by (simp add: gf_inverse_eq)
  then have c: "to_gf n * to_gf r =
      (\<Prod>j\<in>{..<length shares} - {i}. to_gf (shares ! j ! 0) / (to_gf (shares ! j ! 0) - to_gf (share ! 0)))"
    unfolding prod_dividef by (simp only: to_gf_lagrange_factors [OF f] divide_inverse)
  have "to_gf w = to_gf u + (\<Sum>(i, share)\<leftarrow>L. to_gf (share ! (k + 1)) *
    (\<Prod>j\<in>{..<length shares} - {i}. to_gf (shares ! j ! 0) / (to_gf (shares ! j ! 0) - to_gf (share ! 0))))"
    using Cons.IH [OF fold] Cons.prems(2) by simp
  then show ?case by (simp only: u p to_gf_simps c list.map sum_list.Cons prod.case add.assoc)
qed

lemma combine_byte_eq:
  assumes "combine_byte shares k = Inr w" "distinct (map (\<lambda>s. s ! 0) shares)"
    "\<And>s. s \<in> set shares \<Longrightarrow> to_gf (s ! (k + 1)) = f (to_gf (s ! 0))"
  shows "to_gf w = lagrange (set (map (\<lambda>s. to_gf (s ! 0)) shares)) f 0"
proof -
  let ?xs = "map (\<lambda>s. to_gf (s ! 0)) shares"
  have "distinct ?xs" using assms(2) by (simp add: distinct_map inj_on_def)
  moreover have "to_gf w = (\<Sum>(i, share)\<leftarrow>enumerate 0 shares. to_gf (share ! (k + 1)) *
    (\<Prod>j\<in>{..<length shares} - {i}. to_gf (shares ! j ! 0) / (to_gf (shares ! j ! 0) - to_gf (share ! 0))))"
    using combine_fold_eq [OF assms(1) [unfolded combine_byte_def]] by (simp add: enumerate_members to_gf_simps)
  ultimately show ?thesis
    unfolding lagrange_list [OF \<open>distinct ?xs\<close>] using assms(3)
    by (simp add: sum.list_conv_set_nth nth_enumerate_eq atLeast0LessThan del: gf_minus)
qed

lemma combine_fold_ok:
  assumes "\<And>i. i < length shares \<Longrightarrow> \<exists>r. gf_inverse (snd (lagrange_factors shares i (shares ! i ! 0))) = Inr r"
    "\<forall>(i, share)\<in>set L. i < length shares \<and> share = shares ! i"
  shows "\<exists>w. try_fold (combine_byte_step shares k) v L = Inr w"
  using assms(2)
proof (induction L arbitrary: v)
  case (Cons p L)
  obtain i share where p: "p = (i, share)" by (cases p)
  with Cons.prems assms(1) [of i] obtain r where
    "gf_inverse (snd (lagrange_factors shares i (share ! 0))) = Inr r" by auto
  with p Cons show ?case by (simp add: combine_byte_step_def split_def)
qed simp

lemma combine_byte_ok:
  assumes "distinct (map (\<lambda>s. s ! 0) shares)"
  shows "\<exists>w. combine_byte shares k = Inr w"
  unfolding combine_byte_def
proof (rule combine_fold_ok)
  fix i
  assume i: "i < length shares"
  obtain n d where f: "lagrange_factors shares i (shares ! i ! 0) = (n, d)" by force
  have "shares ! j ! 0 \<noteq> shares ! i ! 0" if "j < length shares" "j \<noteq> i" for j
    using assms i that nth_eq_iff_index_eq [of "map (\<lambda>s. s ! 0) shares" j i] by simp
  then have "to_gf d \<noteq> 0" using to_gf_lagrange_factors(2) [OF f] by (simp del: gf_minus)
  then have "d \<noteq> 0" by (auto simp: to_gf_simps)
  then show "\<exists>r. gf_inverse (snd (lagrange_factors shares i (shares ! i ! 0))) = Inr r"
    using f by (simp add: gf_inverse_def)
qed (rule enumerate_members)

section \<open>The duplicate check\<close>

lemma mark_seen_fold:
  assumes "length seen = 256"
  shows "try_fold mark_seen seen shares = (if 0 \<notin> set (map (\<lambda>s. s ! 0) shares) \<and> distinct (map (\<lambda>s. s ! 0) shares) \<and>
      (\<forall>s\<in>set shares. \<not> seen ! unat (s ! 0))
    then Inr (fold (\<lambda>s seen. seen[unat (s ! 0) := True]) shares seen) else Inl ChainInvalidShare)"
  using assms
proof (induction shares arbitrary: seen)
  case (Cons s shares)
  have lt: "unat (s ! 0) < length seen" using unsigned_less [of "s ! 0", where ?'a = nat] Cons.prems by simp
  have upd: "seen[unat (s ! 0) := True] ! unat (t ! 0) \<longleftrightarrow> s ! 0 = t ! 0 \<or> seen ! unat (t ! 0)" for t
    using lt by (auto simp: nth_list_update word_unat_eq_iff)
  show ?case
  proof (cases "s ! 0 = 0 \<or> seen ! unat (s ! 0)")
    case True
    then show ?thesis by (auto simp: mark_seen_def Let_def)
  next
    case False
    then have "mark_seen seen s = Inr (seen[unat (s ! 0) := True])"
      by (simp add: mark_seen_def Let_def unat_eq_zero)
    with False Cons.IH [of "seen[unat (s ! 0) := True]"] Cons.prems show ?thesis
      by (auto simp: upd)
  qed
qed simp

lemma combine_shares_eq:
  "combine_shares shares t =
     (if length shares = 0 \<or> 64 < length shares \<or> unat t = 0 \<or> length shares < unat t then Inl ChainInvalidThreshold
      else if length shares = unat t \<and> 0 \<notin> set (map (\<lambda>s. s ! 0) shares) \<and> distinct (map (\<lambda>s. s ! 0) shares)
      then try_map (combine_byte shares) [0..<32] else Inl ChainInvalidShare)"
proof -
  have "\<forall>s. \<not> replicate 256 False ! unat (s ! 0 :: u8)"
    using unsigned_less [where ?'a = nat and ?'b = 8] by (auto simp: nth_replicate)
  then show ?thesis
    by (auto simp: combine_shares_def mark_seen_fold validate_parameters_def MAX_SHARES_def SECRET_BYTES_def)
qed

section \<open>Splitting\<close>

text \<open>The polynomial of one secret byte, and the share at an abscissa.\<close>

definition byte_polynomial :: "nat \<Rightarrow> bytes \<Rightarrow> nat \<Rightarrow> bytes" where
  "byte_polynomial t coefficients k = take (t - 1) (drop (k * (t - 1)) coefficients)"

definition share_at :: "bytes \<Rightarrow> nat \<Rightarrow> bytes \<Rightarrow> u8 \<Rightarrow> bytes" where
  "share_at secret t coefficients x =
     x # map (\<lambda>k. evaluate_polynomial (secret ! k) (byte_polynomial t coefficients k) x) [0..<length secret]"

lemma share_bytes_eq:
  assumes "length secret = 32" "length coefficients = (t - 1) * 32" "t \<le> 64"
  shows "try_map (share_byte t coefficients x) (enumerate 0 secret) =
    Inr (map (\<lambda>k. evaluate_polynomial (secret ! k) (byte_polynomial t coefficients k) x) [0..<length secret])"
proof -
  have "share_byte t coefficients x (k, b) = Inr (evaluate_polynomial b (byte_polynomial t coefficients k) x)"
    if "k < 32" for k b
  proof -
    have "(k + 1) * (t - 1) \<le> 32 * (t - 1)" using that by (intro mult_le_mono1) simp
    then have le: "k * (t - 1) + (t - 1) \<le> length coefficients" unfolding assms(2) by simp
    moreover have "length coefficients \<le> usize_max" unfolding assms(2) using assms(3) by (simp add: usize_max_def)
    ultimately have "k * (t - 1) \<le> usize_max" "k * (t - 1) + (t - 1) \<le> usize_max" by linarith+
    with le show ?thesis
      by (simp add: share_byte_def usize_checked_mul_ok usize_checked_add_ok slice_get_def byte_polynomial_def)
  qed
  then have "try_map (share_byte t coefficients x) (enumerate 0 secret) =
      Inr (map (\<lambda>(k, b). evaluate_polynomial b (byte_polynomial t coefficients k) x) (enumerate 0 secret))"
    using assms(1) by (intro try_map_total) (auto simp: in_set_enumerate_eq)
  also have "map (\<lambda>(k, b). evaluate_polynomial b (byte_polynomial t coefficients k) x) (enumerate 0 secret) =
      map (\<lambda>k. evaluate_polynomial (secret ! k) (byte_polynomial t coefficients k) x) [0..<length secret]"
    by (rule nth_equalityI) (simp_all add: nth_enumerate_eq)
  finally show ?thesis .
qed

lemma split_with_coefficients_eq:
  assumes "length secret = 32"
  shows "split_with_coefficients secret n t coefficients =
    (if \<not> (0 < unat t \<and> unat t \<le> unat n \<and> unat n \<le> 64) then Inl ChainInvalidThreshold
     else if length coefficients \<noteq> (unat t - 1) * 32 then Inl ChainInvalidShare
     else Inr (map (\<lambda>i. share_at secret (unat t) coefficients (of_nat i)) [1..<unat n + 1]))"
proof (cases "0 < unat t \<and> unat t \<le> unat n \<and> unat n \<le> 64")
  case True
  then have "unat t \<le> 64" by linarith
  then have "(unat t - 1) * 32 \<le> usize_max" by (simp add: usize_max_def)
  moreover from True have "validate_parameters (unat n) (unat t) = Inr ()" by simp
  moreover have "try_map (\<lambda>x. and_then (try_map (share_byte (unat t) coefficients x) (enumerate 0 secret)) (\<lambda>ys. Inr (x # ys)))
      (map of_nat [1..<unat n + 1]) = Inr (map (share_at secret (unat t) coefficients) (map of_nat [1..<unat n + 1]))"
    if "length coefficients = (unat t - 1) * 32"
    by (rule try_map_total) (use True in \<open>simp add: share_bytes_eq [OF assms that] share_at_def\<close>)
  ultimately show ?thesis
    using True by (simp add: split_with_coefficients_def usize_checked_mul_ok SECRET_BYTES_def comp_def
        del: upt_Suc validate_parameters_eq_Inr)
next
  case False
  then show ?thesis by (auto simp: split_with_coefficients_def validate_parameters_def MAX_SHARES_def)
qed

lemma share_at_point:
  assumes "k < length secret"
  shows "to_gf (share_at secret t coefficients x ! (k + 1)) =
    peval (to_gf (secret ! k) # map to_gf (byte_polynomial t coefficients k)) (to_gf x)"
  using assms by (simp add: share_at_def to_gf_evaluate_polynomial del: peval.simps)

lemma combine_recovers:
  assumes secret: "length secret = 32" and t: "0 < t" "length chosen = t"
    and shares: "\<And>s. s \<in> set chosen \<Longrightarrow> \<exists>x. s = share_at secret t coefficients x"
    and distinct: "distinct (map (\<lambda>s. s ! 0) chosen)" and k: "k < 32"
  shows "combine_byte chosen k = Inr (secret ! k)"
proof -
  let ?f = "peval (to_gf (secret ! k) # map to_gf (byte_polynomial t coefficients k))"
  let ?S = "set (map (\<lambda>s. to_gf (s ! 0)) chosen)"
  obtain w where w: "combine_byte chosen k = Inr w" using combine_byte_ok [OF distinct] by blast
  have "to_gf (s ! (k + 1)) = ?f (to_gf (s ! 0))" if "s \<in> set chosen" for s
  proof -
    from shares [OF that] obtain x where "s = share_at secret t coefficients x" ..
    then show ?thesis using share_at_point [of k secret t coefficients x] k secret by (simp add: share_at_def)
  qed
  from combine_byte_eq [OF w distinct this] have "to_gf w = lagrange ?S ?f 0" .
  also have "\<dots> = ?f 0"
  proof (rule lagrange_unique)
    have "distinct (map (\<lambda>s. to_gf (s ! 0)) chosen)" using distinct by (simp add: distinct_map inj_on_def)
    then have "card ?S = t" using t(2) distinct_card by fastforce
    then show "poly_fun (card ?S) ?f"
      using t(1) by (intro poly_funI [of "to_gf (secret ! k) # map to_gf (byte_polynomial t coefficients k)"])
        (simp_all add: byte_polynomial_def)
  qed simp
  finally show ?thesis using w by simp
qed

lemma chosen_shares_recover:
  assumes "length secret = 32" "0 < unat t" "unat t \<le> unat n" "unat n \<le> 64"
    and c: "set chosen \<subseteq> set (map (\<lambda>i. share_at secret (unat t) coefficients (of_nat i)) [1..<unat n + 1])"
      "distinct chosen" "length chosen = unat t"
  shows "combine_shares chosen t = Inr secret"
proof -
  let ?shares = "map (\<lambda>i. share_at secret (unat t) coefficients (of_nat i)) [1..<unat n + 1]"
  have member: "\<exists>i. s = share_at secret (unat t) coefficients (of_nat i) \<and> 1 \<le> i \<and> i \<le> 64" if "s \<in> set chosen" for s
  proof -
    from c(1) that have "s \<in> set ?shares" by (rule subsetD)
    then obtain i where "s = share_at secret (unat t) coefficients (of_nat i)" "i \<in> set [1..<unat n + 1]"
      unfolding set_map by (rule imageE)
    with assms(4) show ?thesis by auto
  qed
  have "s = share_at secret (unat t) coefficients (s ! 0)" if "s \<in> set chosen" for s
  proof -
    from member [OF that] obtain i where s: "s = share_at secret (unat t) coefficients (of_nat i)" by blast
    then have hd: "s ! 0 = of_nat i" by (simp add: share_at_def)
    show ?thesis unfolding hd by (rule s)
  qed
  then have "inj_on (\<lambda>s. s ! 0) (set chosen)" by (rule inj_on_inverseI [OF sym])
  then have dist: "distinct (map (\<lambda>s. s ! 0) chosen)" using c(2) by (simp add: distinct_map)
  have "s ! 0 \<noteq> 0" if "s \<in> set chosen" for s
  proof -
    from member [OF that] obtain i where i: "s ! 0 = of_nat i" "1 \<le> i" "i \<le> 64" by (auto simp: share_at_def)
    then have "unat (s ! 0) = i" by (simp add: unat_of_nat)
    with i(2) show ?thesis by auto
  qed
  then have nz: "0 \<notin> set (map (\<lambda>s. s ! 0) chosen)" by fastforce
  have "combine_byte chosen k = Inr (secret ! k)" if "k \<in> set [0..<32]" for k
    by (rule combine_recovers [OF assms(1,2) c(3) _ dist]) (use member that in auto)
  then have "try_map (combine_byte chosen) [0..<32] = Inr (map ((!) secret) [0..<32])"
    by (rule try_map_total)
  also have "map ((!) secret) [0..<32] = secret" using assms(1) by (metis map_nth)
  finally show ?thesis using assms(2-4) c(3) dist nz by (simp add: combine_shares_eq)
qed

section \<open>Properties of threshold sharing\<close>

text \<open>
  C4. Any \<open>threshold\<close> of the shares recover the key: whatever coefficients were drawn, splitting a
  32-byte secret succeeds for every valid threshold with one share per abscissa, and combining
  any choice of that many different shares, in any order, returns exactly the secret.
\<close>

theorem any_threshold_shares_recover:
  assumes "length secret = 32" "0 < unat t" "unat t \<le> unat n" "unat n \<le> 64"
    and "length coefficients = (unat t - 1) * 32"
  shows "\<exists>shares. split_with_coefficients secret n t coefficients = Inr shares \<and> length shares = unat n \<and>
    (\<forall>chosen. set chosen \<subseteq> set shares \<and> distinct chosen \<and> length chosen = unat t \<longrightarrow>
       combine_shares chosen t = Inr secret)"
proof -
  let ?shares = "map (\<lambda>i. share_at secret (unat t) coefficients (of_nat i)) [1..<unat n + 1]"
  have split: "split_with_coefficients secret n t coefficients = Inr ?shares"
    using assms by (simp add: split_with_coefficients_eq del: upt_Suc)
  with chosen_shares_recover [OF assms(1-4), of _ coefficients] show ?thesis by (intro exI [of _ ?shares]) simp
qed

text \<open>
  C17. Combination accepts exactly the well-formed share sets and rejects every other one before
  using it: it succeeds if and only if the number of shares is the threshold, between 1 and 64, and
  their abscissae are non-zero and pairwise different.
\<close>

theorem combine_shares_accepts:
  "is_ok (combine_shares shares t) \<longleftrightarrow>
     0 < unat t \<and> unat t \<le> 64 \<and> length shares = unat t \<and>
     0 \<notin> set (map (\<lambda>s. s ! 0) shares) \<and> distinct (map (\<lambda>s. s ! 0) shares)"
proof -
  have "is_ok (combine_byte shares k)" if "distinct (map (\<lambda>s. s ! 0) shares)" for k
    using combine_byte_ok [OF that] by (simp add: is_ok_iff)
  then show ?thesis by (auto simp: combine_shares_eq)
qed

lemma coefficients_exist:
  assumes "distinct xs" "0 \<notin> set xs" "length ys = length xs"
  shows "\<exists>cs. length cs = length xs \<and> map (evaluate_polynomial secret_byte cs) xs = ys"
proof -
  define y where "y a = to_gf (if a = 0 then secret_byte else the (map_of (zip xs ys) (gf_byte a)))" for a
  let ?S = "insert 0 (to_gf ` set xs)"
  have card: "card ?S = Suc (length xs)"
  proof -
    have "0 \<notin> to_gf ` set xs" using assms(2) by (auto simp flip: to_gf_simps(3))
    moreover have "card (to_gf ` set xs) = length xs"
      using assms(1) by (simp add: card_image inj_on_def distinct_card)
    ultimately show ?thesis by simp
  qed
  have "poly_fun (Suc (length xs)) (lagrange ?S y)" using poly_fun_lagrange [of ?S y] card by simp
  then obtain cs where cs: "length cs = Suc (length xs)" "\<And>x. lagrange ?S y x = peval cs x"
    by (rule poly_fun_coefficients) blast
  then obtain c ds where ds: "cs = c # ds" "length ds = length xs" by (cases cs) auto
  have at: "peval cs a = y a" if "a \<in> ?S" for a
    using cs(2) [of a] lagrange_at [OF _ that, of y] by simp
  from at [of 0] have c: "c = to_gf secret_byte" by (simp add: ds y_def)
  have "evaluate_polynomial secret_byte (map gf_byte ds) (xs ! i) = ys ! i" if i: "i < length xs" for i
  proof -
    have "to_gf (xs ! i) \<noteq> 0" using assms(2) nth_mem [OF i] by (metis to_gf_eq_iff to_gf_simps(3))
    then have "y (to_gf (xs ! i)) = to_gf (ys ! i)"
      using i assms by (simp add: y_def map_of_zip_nth)
    moreover have "to_gf (evaluate_polynomial secret_byte (map gf_byte ds) (xs ! i)) = peval cs (to_gf (xs ! i))"
      by (simp add: to_gf_evaluate_polynomial ds c comp_def)
    ultimately show ?thesis using at [of "to_gf (xs ! i)"] i by simp
  qed
  then have "map (evaluate_polynomial secret_byte (map gf_byte ds)) xs = ys"
    using assms(3) by (intro nth_equalityI) simp_all
  with ds(2) show ?thesis by (intro exI [of _ "map gf_byte ds"]) simp
qed


text \<open>A split with two of three shares, evaluated.\<close>

definition sample_secret :: bytes where "sample_secret = map of_nat [1..<33]"

theorem any_threshold_shares_recover_witness:
  "\<exists>a b c. split_with_coefficients sample_secret 3 2 (replicate 32 5) = Inr [a, b, c] \<and> c \<noteq> a \<and>
     combine_shares [c, a] 2 = Inr sample_secret"
proof -
  have p: "length sample_secret = 32" "0 < unat (2 :: u8)" "unat (2 :: u8) \<le> unat (3 :: u8)" "unat (3 :: u8) \<le> 64"
    "length (replicate 32 (5 :: u8)) = (unat (2 :: u8) - 1) * 32"
    by (simp_all add: sample_secret_def)
  from any_threshold_shares_recover [OF p] obtain shares where
    s: "split_with_coefficients sample_secret 3 2 (replicate 32 5) = Inr shares" "length shares = 3"
    "\<forall>chosen. set chosen \<subseteq> set shares \<and> distinct chosen \<and> length chosen = 2 \<longrightarrow> combine_shares chosen 2 = Inr sample_secret"
    by auto
  then obtain a b c where abc: "shares = [a, b, c]" by (auto simp: numeral_eq_Suc length_Suc_conv)
  from s(1) p have "shares = map (\<lambda>i. share_at sample_secret 2 (replicate 32 5) (of_nat i)) [1..<4]"
    by (simp add: split_with_coefficients_eq del: upt_Suc)
  with abc have "c ! 0 = 3" "a ! 0 = 1" by (auto simp: share_at_def upt_rec)
  then have "c \<noteq> a" by auto
  with s abc show ?thesis by (intro exI [of _ a] exI [of _ b] exI [of _ c]) simp
qed


end
