(* ===== verification/Access_Contract.thy ===== *)
theory Access_Contract
  imports Rap_Crypto
begin

unbundle bit_operations_syntax

text \<open>
  The crate \<open>rebyte-contract\<close>: canonical access contracts, with the five release mechanisms, their
  validation, the binary encoding, its reader and the \<open>rc1_\<close> token. The hash and the Base64URL engine
  are arguments, and so is the entropy of \<open>AccessContract::new\<close>.
\<close>

section \<open>Constants and identifiers\<close>

definition CONTRACT_MAGIC :: bytes where "CONTRACT_MAGIC = ascii ''RBAC''"
definition CONTRACT_VERSION :: u16 where "CONTRACT_VERSION = 1"
definition CONTRACT_TOKEN_PREFIX :: bytes where "CONTRACT_TOKEN_PREFIX = ascii ''rc1_''"
definition MAX_PRINCIPALS :: nat where "MAX_PRINCIPALS = 64"
definition MAX_CONTRACT_BYTES :: nat where "MAX_CONTRACT_BYTES = 16 * 1024"
definition MIN_CHALLENGE_MEMORY_KIB :: u32 where "MIN_CHALLENGE_MEMORY_KIB = 8 * 1024"
definition MAX_CHALLENGE_MEMORY_KIB :: u32 where "MAX_CHALLENGE_MEMORY_KIB = 1024 * 1024"
definition MAX_CHALLENGE_ITERATIONS :: u32 where "MAX_CHALLENGE_ITERATIONS = 16"
definition MAX_CHALLENGE_HINT_BYTES :: nat where "MAX_CHALLENGE_HINT_BYTES = 1024"
definition MAX_CHALLENGE_SHARDS :: nat where "MAX_CHALLENGE_SHARDS = 32"
definition MIN_CHALLENGE_SHARDS :: nat where "MIN_CHALLENGE_SHARDS = 2"
definition MAX_SHARD_HINT_BYTES :: nat where "MAX_SHARD_HINT_BYTES = 128"
definition MIN_SEQUENCE_DEPTH :: u16 where "MIN_SEQUENCE_DEPTH = 2"
definition MAX_SEQUENCE_DEPTH :: u16 where "MAX_SEQUENCE_DEPTH = 8"
definition MAX_TOKEN_BYTES :: nat where "MAX_TOKEN_BYTES = 22 * 1024"
definition CONTRACT_ID_CONTEXT :: bytes where
  "CONTRACT_ID_CONTEXT = ascii ''Rebyte access contract id v1 2026-07-18''"

lemmas contract_constants =
  MAX_PRINCIPALS_def MAX_CONTRACT_BYTES_def MIN_CHALLENGE_MEMORY_KIB_def MAX_CHALLENGE_MEMORY_KIB_def
  MAX_CHALLENGE_ITERATIONS_def MAX_CHALLENGE_HINT_BYTES_def MAX_CHALLENGE_SHARDS_def MIN_CHALLENGE_SHARDS_def
  MAX_SHARD_HINT_BYTES_def MIN_SEQUENCE_DEPTH_def MAX_SEQUENCE_DEPTH_def MAX_TOKEN_BYTES_def

datatype principal_id = PrincipalId (principal_bytes: bytes)
datatype contract_id = ContractId (contract_id_bytes: bytes)

instantiation principal_id :: linorder
begin

definition less_eq_principal_id :: "principal_id \<Rightarrow> principal_id \<Rightarrow> bool" where
  "less_eq_principal_id p q \<longleftrightarrow> principal_bytes p \<le> principal_bytes q"

definition less_principal_id :: "principal_id \<Rightarrow> principal_id \<Rightarrow> bool" where
  "less_principal_id p q \<longleftrightarrow> principal_bytes p < principal_bytes q"

instance
  by standard (auto simp: less_eq_principal_id_def less_principal_id_def principal_id.expand)

end

datatype contract_error =
    ContractEntropyUnavailable
  | ContractLimitExceeded
  | ContractLengthOverflow
  | ContractDuplicatePrincipal
  | ContractNonCanonicalOrder
  | ContractInvalidThreshold
  | ContractInvalidUsageLimit
  | ContractInvalidUsageThreshold
  | ContractInvalidCapabilities
  | ContractUnsupportedValue
  | ContractUnexpectedEof
  | ContractNonCanonical
  | ContractBindingMismatch
  | ContractInvalidEncoding

section \<open>Content and capabilities\<close>

datatype protected_kind = ExactArtifact | SemanticPatch

definition kind_wire :: "protected_kind \<Rightarrow> u8" where
  "kind_wire k = (case k of ExactArtifact \<Rightarrow> 1 | SemanticPatch \<Rightarrow> 2)"

definition kind_from_wire :: "u8 \<Rightarrow> contract_error + protected_kind" where
  "kind_from_wire v =
     (if v = 1 then Inr ExactArtifact else if v = 2 then Inr SemanticPatch else Inl ContractUnsupportedValue)"

record content_commitment =
  cc_kind :: protected_kind
  cc_digest :: bytes
  cc_size :: u64

datatype capability = InspectMetadata | Decrypt | Reconstruct | Diff | Apply | ApplySemanticPatch

definition capability_bit :: "capability \<Rightarrow> u16" where
  "capability_bit c =
     (case c of
        InspectMetadata \<Rightarrow> push_bit 0 1
      | Decrypt \<Rightarrow> push_bit 1 1
      | Reconstruct \<Rightarrow> push_bit 2 1
      | Diff \<Rightarrow> push_bit 3 1
      | Apply \<Rightarrow> push_bit 4 1
      | ApplySemanticPatch \<Rightarrow> push_bit 5 1)"

datatype capabilities = Capabilities (capability_bits: u16)

definition KNOWN_MASK :: u16 where "KNOWN_MASK = push_bit 6 1 - 1"

definition capabilities_from_bits :: "u16 \<Rightarrow> contract_error + capabilities" where
  "capabilities_from_bits bits =
     (if bits = 0 \<or> bits AND NOT KNOWN_MASK \<noteq> 0 then Inl ContractInvalidCapabilities
      else Inr (Capabilities bits))"

definition capabilities_new :: "capability list \<Rightarrow> contract_error + capabilities" where
  "capabilities_new values = capabilities_from_bits (foldl (\<lambda>set value. set OR capability_bit value) 0 values)"

definition capabilities_contains :: "capabilities \<Rightarrow> capability \<Rightarrow> bool" where
  "capabilities_contains cs c \<longleftrightarrow> capability_bits cs AND capability_bit c \<noteq> 0"

definition CAP_RECONSTRUCT :: capabilities where
  "CAP_RECONSTRUCT =
     Capabilities (capability_bit InspectMetadata OR capability_bit Decrypt OR capability_bit Reconstruct)"

definition CAP_APPLY_EXACT :: capabilities where
  "CAP_APPLY_EXACT = Capabilities (capability_bits CAP_RECONSTRUCT OR capability_bit Diff OR capability_bit Apply)"

definition CAP_APPLY_PATCH :: capabilities where
  "CAP_APPLY_PATCH =
     Capabilities (capability_bit InspectMetadata OR capability_bit Decrypt OR capability_bit Diff
       OR capability_bit ApplySemanticPatch)"

section \<open>Principals\<close>

fun principals_ordered :: "principal_id list \<Rightarrow> contract_error + unit" where
  "principals_ordered (left # right # rest) =
     (if right \<le> left
      then Inl (if left = right then ContractDuplicatePrincipal else ContractNonCanonicalOrder)
      else principals_ordered (right # rest))"
| "principals_ordered _ = Inr ()"

definition validate_canonical_principals :: "principal_id list \<Rightarrow> contract_error + unit" where
  "validate_canonical_principals principals =
     (if principals = [] \<or> MAX_PRINCIPALS < length principals then Inl ContractLimitExceeded
      else principals_ordered principals)"

definition canonical_principals :: "principal_id list \<Rightarrow> contract_error + principal_id list" where
  "canonical_principals principals =
     (let principals = sort principals in
      and_then (validate_canonical_principals principals) (\<lambda>_. Inr principals))"

section \<open>Release policies\<close>

record quorum_release =
  qr_witnesses :: "principal_id list"
  qr_threshold :: u16
  qr_not_before_unix_ms :: "u64 option"
  qr_maximum_successful_releases :: "u32 option"

definition quorum_validate :: "quorum_release \<Rightarrow> contract_error + unit" where
  "quorum_validate self =
     and_then (validate_canonical_principals (qr_witnesses self)) (\<lambda>_.
     and_then (try_from_usize ContractLengthOverflow (length (qr_witnesses self))) (\<lambda>count.
       if qr_threshold self = 0 \<or> count < qr_threshold self then Inl ContractInvalidThreshold
       else if qr_maximum_successful_releases self = Some 0 then Inl ContractInvalidUsageLimit
       else if qr_maximum_successful_releases self \<noteq> None \<and> qr_threshold self \<noteq> count
       then Inl ContractInvalidUsageThreshold
       else Inr ()))"

definition quorum_release_new ::
    "principal_id list \<Rightarrow> u16 \<Rightarrow> u64 option \<Rightarrow> u32 option \<Rightarrow> contract_error + quorum_release" where
  "quorum_release_new witnesses threshold not_before maximum =
     and_then (canonical_principals witnesses) (\<lambda>witnesses.
       let policy = \<lparr> qr_witnesses = witnesses, qr_threshold = threshold, qr_not_before_unix_ms = not_before,
                      qr_maximum_successful_releases = maximum \<rparr>
       in and_then (quorum_validate policy) (\<lambda>_. Inr policy))"

definition hint_invalid :: "nat \<Rightarrow> bytes \<Rightarrow> bool" where
  "hint_invalid maximum hint \<longleftrightarrow>
     maximum < length hint \<or> list_ex (\<lambda>c. char_is_control c \<or> c = 0x7f) (str_chars hint)"

definition kdf_invalid :: "u32 \<Rightarrow> u32 \<Rightarrow> bool" where
  "kdf_invalid memory iterations \<longleftrightarrow>
     \<not> (MIN_CHALLENGE_MEMORY_KIB \<le> memory \<and> memory \<le> MAX_CHALLENGE_MEMORY_KIB)
     \<or> \<not> (1 \<le> iterations \<and> iterations \<le> MAX_CHALLENGE_ITERATIONS)"

record challenge_release =
  cr_kdf_memory_kib :: u32
  cr_kdf_iterations :: u32
  cr_solution_commitment :: bytes
  cr_challenge_salt :: bytes
  cr_hint :: bytes

definition challenge_validate :: "challenge_release \<Rightarrow> contract_error + unit" where
  "challenge_validate self =
     (if kdf_invalid (cr_kdf_memory_kib self) (cr_kdf_iterations self) then Inl ContractUnsupportedValue
      else if hint_invalid MAX_CHALLENGE_HINT_BYTES (cr_hint self) then Inl ContractLimitExceeded
      else Inr ())"

record challenge_shard =
  cs_salt :: bytes
  cs_commitment :: bytes
  cs_hint :: bytes

definition shard_validate :: "challenge_shard \<Rightarrow> contract_error + unit" where
  "shard_validate self =
     (if hint_invalid MAX_SHARD_HINT_BYTES (cs_hint self) then Inl ContractLimitExceeded else Inr ())"

record sharded_challenge_release =
  sc_kdf_memory_kib :: u32
  sc_kdf_iterations :: u32
  sc_threshold :: u16
  sc_shards :: "challenge_shard list"
  sc_hint :: bytes

definition sharded_validate :: "sharded_challenge_release \<Rightarrow> contract_error + unit" where
  "sharded_validate self =
     (if kdf_invalid (sc_kdf_memory_kib self) (sc_kdf_iterations self) then Inl ContractUnsupportedValue
      else if \<not> (MIN_CHALLENGE_SHARDS \<le> length (sc_shards self) \<and> length (sc_shards self) \<le> MAX_CHALLENGE_SHARDS)
      then Inl ContractLimitExceeded
      else and_then (try_from_usize ContractLengthOverflow (length (sc_shards self))) (\<lambda>count.
        if sc_threshold self = 0 \<or> count < sc_threshold self then Inl ContractInvalidThreshold
        else and_then (try_for_each shard_validate (sc_shards self)) (\<lambda>_.
          if hint_invalid MAX_CHALLENGE_HINT_BYTES (sc_hint self) then Inl ContractLimitExceeded else Inr ())))"

record key_sequence_release =
  ks_depth :: u16

definition sequence_validate :: "key_sequence_release \<Rightarrow> contract_error + unit" where
  "sequence_validate self =
     (if \<not> (MIN_SEQUENCE_DEPTH \<le> ks_depth self \<and> ks_depth self \<le> MAX_SEQUENCE_DEPTH)
      then Inl ContractInvalidThreshold else Inr ())"

definition challenge_release_new ::
    "u32 \<Rightarrow> u32 \<Rightarrow> bytes \<Rightarrow> bytes \<Rightarrow> bytes \<Rightarrow> contract_error + challenge_release" where
  "challenge_release_new memory iterations commitment salt hint =
     (let policy = \<lparr> cr_kdf_memory_kib = memory, cr_kdf_iterations = iterations,
                     cr_solution_commitment = commitment, cr_challenge_salt = salt, cr_hint = hint \<rparr>
      in and_then (challenge_validate policy) (\<lambda>_. Inr policy))"

definition challenge_shard_new :: "bytes \<Rightarrow> bytes \<Rightarrow> bytes \<Rightarrow> contract_error + challenge_shard" where
  "challenge_shard_new salt commitment hint =
     (let shard = \<lparr> cs_salt = salt, cs_commitment = commitment, cs_hint = hint \<rparr>
      in and_then (shard_validate shard) (\<lambda>_. Inr shard))"

definition sharded_challenge_new ::
    "u32 \<Rightarrow> u32 \<Rightarrow> u16 \<Rightarrow> challenge_shard list \<Rightarrow> bytes \<Rightarrow> contract_error + sharded_challenge_release" where
  "sharded_challenge_new memory iterations threshold shards hint =
     (let policy = \<lparr> sc_kdf_memory_kib = memory, sc_kdf_iterations = iterations, sc_threshold = threshold,
                     sc_shards = shards, sc_hint = hint \<rparr>
      in and_then (sharded_validate policy) (\<lambda>_. Inr policy))"

definition key_sequence_new :: "u16 \<Rightarrow> contract_error + key_sequence_release" where
  "key_sequence_new depth =
     (let policy = \<lparr> ks_depth = depth \<rparr> in and_then (sequence_validate policy) (\<lambda>_. Inr policy))"

datatype release_policy =
    DirectRecipients
  | Quorum quorum_release
  | Challenge challenge_release
  | ShardedChallenge sharded_challenge_release
  | KeySequence key_sequence_release

section \<open>Contracts\<close>

record access_contract_builder =
  bd_group_id :: principal_id
  bd_controllers :: "principal_id list"
  bd_seal_threshold :: u16
  bd_recipients :: "principal_id list"
  bd_capabilities :: capabilities
  bd_content :: content_commitment
  bd_release :: release_policy

definition builder_new :: "principal_id \<Rightarrow> content_commitment \<Rightarrow> access_contract_builder" where
  "builder_new group_id content =
     \<lparr> bd_group_id = group_id, bd_controllers = [], bd_seal_threshold = 0, bd_recipients = [],
       bd_capabilities = CAP_RECONSTRUCT, bd_content = content, bd_release = DirectRecipients \<rparr>"

definition builder_controllers :: "principal_id list \<Rightarrow> u16 \<Rightarrow> access_contract_builder \<Rightarrow> access_contract_builder" where
  "builder_controllers controllers threshold b = b\<lparr> bd_controllers := controllers, bd_seal_threshold := threshold \<rparr>"

definition builder_recipients :: "principal_id list \<Rightarrow> access_contract_builder \<Rightarrow> access_contract_builder" where
  "builder_recipients recipients b = b\<lparr> bd_recipients := recipients \<rparr>"

definition builder_capabilities :: "capabilities \<Rightarrow> access_contract_builder \<Rightarrow> access_contract_builder" where
  "builder_capabilities caps b = b\<lparr> bd_capabilities := caps \<rparr>"

definition builder_release :: "release_policy \<Rightarrow> access_contract_builder \<Rightarrow> access_contract_builder" where
  "builder_release release b = b\<lparr> bd_release := release \<rparr>"

record access_contract =
  ac_contract_nonce :: bytes
  ac_group_id :: principal_id
  ac_controllers :: "principal_id list"
  ac_seal_threshold :: u16
  ac_recipients :: "principal_id list"
  ac_capabilities :: capabilities
  ac_content :: content_commitment
  ac_release :: release_policy
  ac_contract_id :: contract_id

definition release_validate :: "release_policy \<Rightarrow> contract_error + unit" where
  "release_validate r =
     (case r of
        Quorum policy \<Rightarrow> quorum_validate policy
      | Challenge policy \<Rightarrow> challenge_validate policy
      | ShardedChallenge policy \<Rightarrow> sharded_validate policy
      | KeySequence policy \<Rightarrow> sequence_validate policy
      | DirectRecipients \<Rightarrow> Inr ())"

definition validate_shape :: "access_contract \<Rightarrow> contract_error + unit" where
  "validate_shape self =
     and_then (validate_canonical_principals (ac_controllers self)) (\<lambda>_.
     and_then (validate_canonical_principals (ac_recipients self)) (\<lambda>_.
     and_then (try_from_usize ContractLengthOverflow (length (ac_controllers self))) (\<lambda>controller_count.
       if ac_seal_threshold self = 0 \<or> controller_count < ac_seal_threshold self then Inl ContractInvalidThreshold
       else
     and_then (capabilities_from_bits (capability_bits (ac_capabilities self))) (\<lambda>_.
     and_then (case cc_kind (ac_content self) of
         ExactArtifact \<Rightarrow>
           if \<not> capabilities_contains (ac_capabilities self) Decrypt
              \<or> (\<not> capabilities_contains (ac_capabilities self) Reconstruct
                 \<and> \<not> capabilities_contains (ac_capabilities self) Diff
                 \<and> \<not> capabilities_contains (ac_capabilities self) Apply)
           then Inl ContractInvalidCapabilities else Inr ()
       | SemanticPatch \<Rightarrow>
           if \<not> capabilities_contains (ac_capabilities self) Decrypt
              \<or> \<not> capabilities_contains (ac_capabilities self) ApplySemanticPatch
           then Inl ContractInvalidCapabilities else Inr ()) (\<lambda>_.
       release_validate (ac_release self))))))"

section \<open>Writing\<close>

definition put_u16 :: "bytes \<Rightarrow> u16 \<Rightarrow> bytes" where "put_u16 out v = out @ u16_to_be_bytes v"
definition put_u32 :: "bytes \<Rightarrow> u32 \<Rightarrow> bytes" where "put_u32 out v = out @ u32_to_be_bytes v"
definition put_u64 :: "bytes \<Rightarrow> u64 \<Rightarrow> bytes" where "put_u64 out v = out @ u64_to_be_bytes v"

definition put_optional_u64 :: "bytes \<Rightarrow> u64 option \<Rightarrow> bytes" where
  "put_optional_u64 out v = (case v of Some v \<Rightarrow> put_u64 (out @ [1]) v | None \<Rightarrow> out @ [0])"

definition put_optional_u32 :: "bytes \<Rightarrow> u32 option \<Rightarrow> bytes" where
  "put_optional_u32 out v = (case v of Some v \<Rightarrow> put_u32 (out @ [1]) v | None \<Rightarrow> out @ [0])"

definition put_principals :: "bytes \<Rightarrow> principal_id list \<Rightarrow> contract_error + bytes" where
  "put_principals out principals =
     and_then (try_from_usize ContractLengthOverflow (length principals)) (\<lambda>count.
       Inr (foldl (\<lambda>out p. out @ principal_bytes p) (put_u16 out count) principals))"

definition put_hint :: "bytes \<Rightarrow> bytes \<Rightarrow> contract_error + bytes" where
  "put_hint out hint =
     and_then (try_from_usize ContractLengthOverflow (length hint)) (\<lambda>len. Inr (put_u16 out len @ hint))"

definition put_shard :: "bytes \<Rightarrow> challenge_shard \<Rightarrow> contract_error + bytes" where
  "put_shard out shard = put_hint (out @ cs_salt shard @ cs_commitment shard) (cs_hint shard)"

definition put_release :: "bytes \<Rightarrow> release_policy \<Rightarrow> contract_error + bytes" where
  "put_release out r =
     (case r of
        DirectRecipients \<Rightarrow> Inr (out @ [1])
      | Quorum policy \<Rightarrow>
          and_then (put_principals (out @ [2]) (qr_witnesses policy)) (\<lambda>out.
          let out = put_u16 out (qr_threshold policy);
              out = put_optional_u64 out (qr_not_before_unix_ms policy)
          in Inr (put_optional_u32 out (qr_maximum_successful_releases policy)))
      | Challenge policy \<Rightarrow>
          let out = put_u32 (out @ [3]) (cr_kdf_memory_kib policy);
              out = put_u32 out (cr_kdf_iterations policy);
              out = out @ cr_solution_commitment policy;
              out = out @ cr_challenge_salt policy
          in put_hint out (cr_hint policy)
      | KeySequence policy \<Rightarrow> Inr (put_u16 (out @ [5]) (ks_depth policy))
      | ShardedChallenge policy \<Rightarrow>
          let out = put_u32 (out @ [4]) (sc_kdf_memory_kib policy);
              out = put_u32 out (sc_kdf_iterations policy);
              out = put_u16 out (sc_threshold policy)
          in and_then (try_from_usize ContractLengthOverflow (length (sc_shards policy))) (\<lambda>count.
             and_then (try_fold put_shard (put_u16 out count) (sc_shards policy)) (\<lambda>out.
               put_hint out (sc_hint policy))))"

definition put_body :: "access_contract \<Rightarrow> contract_error + bytes" where
  "put_body c =
     (let out = CONTRACT_MAGIC;
          out = put_u16 out CONTRACT_VERSION;
          out = out @ ac_contract_nonce c;
          out = out @ principal_bytes (ac_group_id c)
      in and_then (put_principals out (ac_controllers c)) (\<lambda>out.
         let out = put_u16 out (ac_seal_threshold c) in
         and_then (put_principals out (ac_recipients c)) (\<lambda>out.
         let out = put_u16 out (capability_bits (ac_capabilities c));
             out = out @ [kind_wire (cc_kind (ac_content c))];
             out = out @ cc_digest (ac_content c);
             out = put_u64 out (cc_size (ac_content c))
         in put_release out (ac_release c))))"

definition calculate_contract_id :: "blake3 \<Rightarrow> access_contract \<Rightarrow> contract_error + bytes" where
  "calculate_contract_id H c = and_then (put_body c) (\<lambda>bs. Inr (H CONTRACT_ID_CONTEXT bs))"

definition contract_validate :: "blake3 \<Rightarrow> access_contract \<Rightarrow> contract_error + unit" where
  "contract_validate H self =
     and_then (validate_shape self) (\<lambda>_.
     and_then (calculate_contract_id H self) (\<lambda>i.
       if i \<noteq> contract_id_bytes (ac_contract_id self) then Inl ContractBindingMismatch else Inr ()))"

definition contract_to_bytes :: "blake3 \<Rightarrow> access_contract \<Rightarrow> contract_error + bytes" where
  "contract_to_bytes H self =
     and_then (contract_validate H self) (\<lambda>_.
     and_then (put_body self) (\<lambda>out.
       let out = out @ contract_id_bytes (ac_contract_id self) in
       if MAX_CONTRACT_BYTES < length out then Inl ContractLimitExceeded else Inr out))"

definition with_nonce :: "blake3 \<Rightarrow> bytes \<Rightarrow> access_contract_builder \<Rightarrow> contract_error + access_contract" where
  "with_nonce H nonce builder =
     and_then (canonical_principals (bd_controllers builder)) (\<lambda>controllers.
     and_then (canonical_principals (bd_recipients builder)) (\<lambda>recipients.
     let contract = \<lparr> ac_contract_nonce = nonce, ac_group_id = bd_group_id builder, ac_controllers = controllers,
                      ac_seal_threshold = bd_seal_threshold builder, ac_recipients = recipients,
                      ac_capabilities = bd_capabilities builder, ac_content = bd_content builder,
                      ac_release = bd_release builder, ac_contract_id = ContractId (replicate 32 0) \<rparr> in
     and_then (validate_shape contract) (\<lambda>_.
     and_then (calculate_contract_id H contract) (\<lambda>i.
     let contract = contract\<lparr> ac_contract_id := ContractId i \<rparr> in
     and_then (contract_validate H contract) (\<lambda>_. Inr contract)))))"

definition contract_new ::
    "blake3 \<Rightarrow> (nat \<Rightarrow> bytes option) \<Rightarrow> access_contract_builder \<Rightarrow> contract_error + access_contract" where
  "contract_new H getrandom builder =
     and_then (ok_or ContractEntropyUnavailable (getrandom 32)) (\<lambda>nonce. with_nonce H nonce builder)"

section \<open>Reading\<close>

record contract_reader =
  rd_input :: bytes
  rd_offset :: nat

definition reader_new :: "bytes \<Rightarrow> contract_reader" where
  "reader_new bs = \<lparr> rd_input = bs, rd_offset = 0 \<rparr>"

definition reader_take :: "nat \<Rightarrow> contract_reader \<Rightarrow> contract_error + bytes \<times> contract_reader" where
  "reader_take len r =
     and_then (ok_or ContractLengthOverflow (usize_checked_add (rd_offset r) len)) (\<lambda>end_pos.
     and_then (ok_or ContractUnexpectedEof (slice_get (rd_offset r) end_pos (rd_input r))) (\<lambda>bs.
       Inr (bs, r\<lparr> rd_offset := end_pos \<rparr>)))"

definition reader_array :: "nat \<Rightarrow> contract_reader \<Rightarrow> contract_error + bytes \<times> contract_reader" where
  "reader_array n r =
     and_then (reader_take n r) (\<lambda>(bs, r).
     and_then (array_of_slice ContractUnexpectedEof n bs) (\<lambda>bs. Inr (bs, r)))"

definition reader_u8 :: "contract_reader \<Rightarrow> contract_error + u8 \<times> contract_reader" where
  "reader_u8 r =
     and_then (reader_take 1 r) (\<lambda>(bs, r).
     and_then (ok_or ContractUnexpectedEof (if bs = [] then None else Some (hd bs))) (\<lambda>b. Inr (b, r)))"

definition reader_u16 :: "contract_reader \<Rightarrow> contract_error + u16 \<times> contract_reader" where
  "reader_u16 r = and_then (reader_array 2 r) (\<lambda>(bs, r). Inr (u16_from_be_bytes bs, r))"

definition reader_u32 :: "contract_reader \<Rightarrow> contract_error + u32 \<times> contract_reader" where
  "reader_u32 r = and_then (reader_array 4 r) (\<lambda>(bs, r). Inr (u32_from_be_bytes bs, r))"

definition reader_u64 :: "contract_reader \<Rightarrow> contract_error + u64 \<times> contract_reader" where
  "reader_u64 r = and_then (reader_array 8 r) (\<lambda>(bs, r). Inr (u64_from_be_bytes bs, r))"

definition reader_finish :: "contract_reader \<Rightarrow> contract_error + unit" where
  "reader_finish r = (if rd_offset r = length (rd_input r) then Inr () else Inl ContractNonCanonical)"

definition read_principal :: "contract_reader \<Rightarrow> contract_error + principal_id \<times> contract_reader" where
  "read_principal r = and_then (reader_array 32 r) (\<lambda>(bs, r). Inr (PrincipalId bs, r))"

definition read_principals :: "contract_reader \<Rightarrow> contract_error + principal_id list \<times> contract_reader" where
  "read_principals r =
     and_then (reader_u16 r) (\<lambda>(count, r).
       if unat count = 0 \<or> MAX_PRINCIPALS < unat count then Inl ContractLimitExceeded
       else repeat_read (unat count) read_principal r)"

definition read_optional_u64 :: "contract_reader \<Rightarrow> contract_error + u64 option \<times> contract_reader" where
  "read_optional_u64 r =
     and_then (reader_u8 r) (\<lambda>(tag, r).
       if tag = 0 then Inr (None, r)
       else if tag = 1 then and_then (reader_u64 r) (\<lambda>(v, r). Inr (Some v, r))
       else Inl ContractUnsupportedValue)"

definition read_optional_u32 :: "contract_reader \<Rightarrow> contract_error + u32 option \<times> contract_reader" where
  "read_optional_u32 r =
     and_then (reader_u8 r) (\<lambda>(tag, r).
       if tag = 0 then Inr (None, r)
       else if tag = 1 then and_then (reader_u32 r) (\<lambda>(v, r). Inr (Some v, r))
       else Inl ContractUnsupportedValue)"

definition read_hint :: "nat \<Rightarrow> contract_reader \<Rightarrow> contract_error + bytes \<times> contract_reader" where
  "read_hint maximum r =
     and_then (reader_u16 r) (\<lambda>(len, r).
       if maximum < unat len then Inl ContractLimitExceeded
       else and_then (reader_take (unat len) r) (\<lambda>(bs, r).
         if from_utf8 bs then Inr (bs, r) else Inl ContractInvalidEncoding))"

definition read_shard :: "contract_reader \<Rightarrow> contract_error + challenge_shard \<times> contract_reader" where
  "read_shard r =
     and_then (reader_array 16 r) (\<lambda>(salt, r).
     and_then (reader_array 32 r) (\<lambda>(commitment, r).
     and_then (read_hint MAX_SHARD_HINT_BYTES r) (\<lambda>(hint, r).
       Inr (\<lparr> cs_salt = salt, cs_commitment = commitment, cs_hint = hint \<rparr>, r))))"

definition read_release :: "contract_reader \<Rightarrow> contract_error + release_policy \<times> contract_reader" where
  "read_release r =
     and_then (reader_u8 r) (\<lambda>(tag, r).
       if tag = 1 then Inr (DirectRecipients, r)
       else if tag = 2 then
         and_then (read_principals r) (\<lambda>(witnesses, r).
         and_then (reader_u16 r) (\<lambda>(threshold, r).
         and_then (read_optional_u64 r) (\<lambda>(not_before, r).
         and_then (read_optional_u32 r) (\<lambda>(maximum, r).
           Inr (Quorum \<lparr> qr_witnesses = witnesses, qr_threshold = threshold,
             qr_not_before_unix_ms = not_before, qr_maximum_successful_releases = maximum \<rparr>, r)))))
       else if tag = 3 then
         and_then (reader_u32 r) (\<lambda>(memory, r).
         and_then (reader_u32 r) (\<lambda>(iterations, r).
         and_then (reader_array 32 r) (\<lambda>(commitment, r).
         and_then (reader_array 16 r) (\<lambda>(salt, r).
         and_then (read_hint MAX_CHALLENGE_HINT_BYTES r) (\<lambda>(hint, r).
           Inr (Challenge \<lparr> cr_kdf_memory_kib = memory, cr_kdf_iterations = iterations,
             cr_solution_commitment = commitment, cr_challenge_salt = salt, cr_hint = hint \<rparr>, r))))))
       else if tag = 4 then
         and_then (reader_u32 r) (\<lambda>(memory, r).
         and_then (reader_u32 r) (\<lambda>(iterations, r).
         and_then (reader_u16 r) (\<lambda>(threshold, r).
         and_then (reader_u16 r) (\<lambda>(count, r).
           if \<not> (MIN_CHALLENGE_SHARDS \<le> unat count \<and> unat count \<le> MAX_CHALLENGE_SHARDS)
           then Inl ContractLimitExceeded
           else
         and_then (repeat_read (unat count) read_shard r) (\<lambda>(shards, r).
         and_then (read_hint MAX_CHALLENGE_HINT_BYTES r) (\<lambda>(hint, r).
           Inr (ShardedChallenge \<lparr> sc_kdf_memory_kib = memory, sc_kdf_iterations = iterations,
             sc_threshold = threshold, sc_shards = shards, sc_hint = hint \<rparr>, r)))))))
       else if tag = 5 then
         and_then (reader_u16 r) (\<lambda>(depth, r). Inr (KeySequence \<lparr> ks_depth = depth \<rparr>, r))
       else Inl ContractUnsupportedValue)"

definition contract_from_bytes :: "blake3 \<Rightarrow> bytes \<Rightarrow> contract_error + access_contract" where
  "contract_from_bytes H bs =
     (if MAX_CONTRACT_BYTES < length bs then Inl ContractLimitExceeded
      else
     and_then (reader_array 4 (reader_new bs)) (\<lambda>(magic, r).
       if magic \<noteq> CONTRACT_MAGIC then Inl ContractUnsupportedValue else
     and_then (reader_u16 r) (\<lambda>(version, r).
       if version \<noteq> CONTRACT_VERSION then Inl ContractUnsupportedValue else
     and_then (reader_array 32 r) (\<lambda>(nonce, r).
     and_then (reader_array 32 r) (\<lambda>(group_id, r).
     and_then (read_principals r) (\<lambda>(controllers, r).
     and_then (reader_u16 r) (\<lambda>(seal_threshold, r).
     and_then (read_principals r) (\<lambda>(recipients, r).
     and_then (reader_u16 r) (\<lambda>(bits, r).
     and_then (capabilities_from_bits bits) (\<lambda>caps.
     and_then (reader_u8 r) (\<lambda>(kind, r).
     and_then (kind_from_wire kind) (\<lambda>kind.
     and_then (reader_array 32 r) (\<lambda>(d, r).
     and_then (reader_u64 r) (\<lambda>(sz, r).
     and_then (read_release r) (\<lambda>(release, r).
     and_then (reader_array 32 r) (\<lambda>(cid, r).
     and_then (reader_finish r) (\<lambda>_.
     let contract = \<lparr> ac_contract_nonce = nonce, ac_group_id = PrincipalId group_id,
           ac_controllers = controllers, ac_seal_threshold = seal_threshold, ac_recipients = recipients,
           ac_capabilities = caps, ac_content = \<lparr> cc_kind = kind, cc_digest = d, cc_size = sz \<rparr>,
           ac_release = release, ac_contract_id = ContractId cid \<rparr> in
     and_then (contract_validate H contract) (\<lambda>_.
     and_then (contract_to_bytes H contract) (\<lambda>out.
       if out \<noteq> bs then Inl ContractNonCanonical else Inr contract)))))))))))))))))))"

section \<open>Tokens\<close>

definition contract_to_token :: "blake3 \<Rightarrow> base64_engine \<Rightarrow> access_contract \<Rightarrow> contract_error + bytes" where
  "contract_to_token H b64 self =
     and_then (contract_to_bytes H self) (\<lambda>bs. Inr (CONTRACT_TOKEN_PREFIX @ b64_encode b64 bs))"

definition contract_from_token :: "blake3 \<Rightarrow> base64_engine \<Rightarrow> bytes \<Rightarrow> contract_error + access_contract" where
  "contract_from_token H b64 token =
     (if MAX_TOKEN_BYTES < length token then Inl ContractLimitExceeded
      else
     and_then (ok_or ContractInvalidEncoding (strip_prefix CONTRACT_TOKEN_PREFIX token)) (\<lambda>encoded.
       if encoded = [] \<or> list_ex (\<lambda>b. \<not> base64url_byte b) encoded then Inl ContractInvalidEncoding
       else
     and_then (ok_or ContractInvalidEncoding (b64_decode b64 encoded)) (\<lambda>bs.
       if b64_encode b64 bs \<noteq> encoded then Inl ContractInvalidEncoding
       else contract_from_bytes H bs)))"

end
