(* ===== verification/Access_Contract_Correct.thy ===== *)
theory Access_Contract_Correct
  imports Access_Contract Rap_Token
begin

text \<open>
  Correctness of the contract codec: the contract's reader is the second implementation of the
  \<open>byte_reader\<close> interface, every field reader inverts its writer, a valid contract always
  fits its size limits, and bytes and tokens round-trip.
\<close>

section \<open>The reader implements the interface\<close>

definition rc_at :: "bytes \<Rightarrow> bytes \<Rightarrow> contract_reader" where
  "rc_at pre post = \<lparr> rd_input = pre @ post, rd_offset = length pre \<rparr>"

lemma reader_new_at: "reader_new bs = rc_at [] bs"
  by (simp add: reader_new_def rc_at_def)

interpretation rc: byte_reader reader_take rc_at
proof unfold_locales
  fix pre bs r :: bytes
  assume "length pre + length bs \<le> usize_max"
  then show "reader_take (length bs) (rc_at pre (bs @ r)) = Inr (bs, rc_at (pre @ bs) r)"
    by (simp add: reader_take_def rc_at_def usize_checked_add_ok)
next
  fix n and pre post bs :: bytes and c
  assume "reader_take n (rc_at pre post) = Inr (bs, c)"
  then have "slice_get (length pre) (length pre + n) (pre @ post) = Some bs"
    and c: "c = \<lparr> rd_input = pre @ post, rd_offset = length pre + n \<rparr>"
    by (auto simp: reader_take_def rc_at_def and_then_eq_Inr)
  then show "length bs = n \<and> (\<exists>r. post = bs @ r \<and> c = rc_at (pre @ bs) r)"
    unfolding slice_get_at by (auto simp: rc_at_def)
qed

lemma reader_array_eq: "reader_array n = reader_take n"
proof
  fix r
  show "reader_array n r = reader_take n r"
    by (cases "slice_get (rd_offset r) (rd_offset r + n) (rd_input r)")
      (auto simp: reader_array_def reader_take_def and_then_def array_of_slice_def ok_or_def
        usize_checked_add_def dest: slice_get_length split: option.splits)
qed

lemma reader_u8_eq: "reader_u8 = (\<lambda>c. and_then (reader_take 1 c) (\<lambda>(bs, c). Inr (bs ! 0, c)))"
proof
  fix r
  show "reader_u8 r = and_then (reader_take 1 r) (\<lambda>(bs, c). Inr (bs ! 0, c))"
    by (cases "slice_get (rd_offset r) (rd_offset r + 1) (rd_input r)")
      (auto simp: reader_u8_def reader_take_def and_then_def ok_or_def usize_checked_add_def hd_conv_nth
        dest: slice_get_length split: option.splits)
qed

lemma rc_reads_ints:
  "rc.reads reader_u8 (\<lambda>b. [b]) (\<lambda>_. True)" "rc.reads reader_u16 u16_to_be_bytes (\<lambda>_. True)"
  "rc.reads reader_u32 u32_to_be_bytes (\<lambda>_. True)" "rc.reads reader_u64 u64_to_be_bytes (\<lambda>_. True)"
  using rc.reads_be8 rc.reads_be16 rc.reads_be32 rc.reads_be64
  by (simp_all add: reader_u8_eq reader_array_eq reader_u16_def [abs_def] reader_u32_def [abs_def]
      reader_u64_def [abs_def])

lemma rc_reads_array: "rc.reads (reader_array n) (\<lambda>bs. bs) (\<lambda>bs. length bs = n)"
  using rc.reads_take_n by (simp add: reader_array_eq)

lemmas rc_rules =
  rc.parses_reads [OF rc_reads_ints(1)] rc.parses_reads [OF rc_reads_ints(2)]
  rc.parses_reads [OF rc_reads_ints(3)] rc.parses_reads [OF rc_reads_ints(4)]
  rc.parses_reads [OF rc_reads_array] rc.parses_reads [OF rc.reads_take_n] rc.parses_rules

section \<open>Wire forms\<close>

definition wire_principals :: "principal_id list \<Rightarrow> bytes" where
  "wire_principals ps = u16_to_be_bytes (of_nat (length ps)) @ concat (map principal_bytes ps)"

definition wire_hint :: "bytes \<Rightarrow> bytes" where
  "wire_hint h = u16_to_be_bytes (of_nat (length h)) @ h"

definition wire_shard :: "challenge_shard \<Rightarrow> bytes" where
  "wire_shard s = cs_salt s @ cs_commitment s @ wire_hint (cs_hint s)"

definition wire_opt64 :: "u64 option \<Rightarrow> bytes" where
  "wire_opt64 v = (case v of None \<Rightarrow> [0] | Some v \<Rightarrow> 1 # u64_to_be_bytes v)"

definition wire_opt32 :: "u32 option \<Rightarrow> bytes" where
  "wire_opt32 v = (case v of None \<Rightarrow> [0] | Some v \<Rightarrow> 1 # u32_to_be_bytes v)"

definition wire_release :: "release_policy \<Rightarrow> bytes" where
  "wire_release r =
     (case r of
        DirectRecipients \<Rightarrow> [1]
      | Quorum p \<Rightarrow> 2 # wire_principals (qr_witnesses p) @ u16_to_be_bytes (qr_threshold p) @
          wire_opt64 (qr_not_before_unix_ms p) @ wire_opt32 (qr_maximum_successful_releases p)
      | Challenge p \<Rightarrow> 3 # u32_to_be_bytes (cr_kdf_memory_kib p) @ u32_to_be_bytes (cr_kdf_iterations p) @
          cr_solution_commitment p @ cr_challenge_salt p @ wire_hint (cr_hint p)
      | ShardedChallenge p \<Rightarrow> 4 # u32_to_be_bytes (sc_kdf_memory_kib p) @ u32_to_be_bytes (sc_kdf_iterations p) @
          u16_to_be_bytes (sc_threshold p) @ u16_to_be_bytes (of_nat (length (sc_shards p))) @
          concat (map wire_shard (sc_shards p)) @ wire_hint (sc_hint p)
      | KeySequence p \<Rightarrow> 5 # u16_to_be_bytes (ks_depth p))"

definition wire_body :: "access_contract \<Rightarrow> bytes" where
  "wire_body c =
     CONTRACT_MAGIC @ u16_to_be_bytes CONTRACT_VERSION @ ac_contract_nonce c @ principal_bytes (ac_group_id c) @
     wire_principals (ac_controllers c) @ u16_to_be_bytes (ac_seal_threshold c) @
     wire_principals (ac_recipients c) @ u16_to_be_bytes (capability_bits (ac_capabilities c)) @
     kind_wire (cc_kind (ac_content c)) # cc_digest (ac_content c) @ u64_to_be_bytes (cc_size (ac_content c)) @
     wire_release (ac_release c)"

definition wire_contract :: "access_contract \<Rightarrow> bytes" where
  "wire_contract c = wire_body c @ contract_id_bytes (ac_contract_id c)"

text \<open>The type invariants of the Rust values: array lengths and valid UTF-8.\<close>

definition wf_principal :: "principal_id \<Rightarrow> bool" where
  "wf_principal p \<longleftrightarrow> length (principal_bytes p) = 32"

definition wf_shard :: "challenge_shard \<Rightarrow> bool" where
  "wf_shard s \<longleftrightarrow> length (cs_salt s) = 16 \<and> length (cs_commitment s) = 32 \<and> from_utf8 (cs_hint s)"

definition wf_release :: "release_policy \<Rightarrow> bool" where
  "wf_release r \<longleftrightarrow>
     (case r of
        DirectRecipients \<Rightarrow> True
      | Quorum p \<Rightarrow> list_all wf_principal (qr_witnesses p)
      | Challenge p \<Rightarrow> length (cr_solution_commitment p) = 32 \<and> length (cr_challenge_salt p) = 16 \<and> from_utf8 (cr_hint p)
      | ShardedChallenge p \<Rightarrow> list_all wf_shard (sc_shards p) \<and> from_utf8 (sc_hint p)
      | KeySequence p \<Rightarrow> True)"

definition wf_contract :: "access_contract \<Rightarrow> bool" where
  "wf_contract c \<longleftrightarrow>
     length (ac_contract_nonce c) = 32 \<and> wf_principal (ac_group_id c) \<and>
     list_all wf_principal (ac_controllers c) \<and> list_all wf_principal (ac_recipients c) \<and>
     length (cc_digest (ac_content c)) = 32 \<and> wf_release (ac_release c) \<and>
     length (contract_id_bytes (ac_contract_id c)) = 32"

section \<open>Validation, characterised\<close>

lemma principals_ordered_eq_Inr: "principals_ordered ps = Inr u \<longleftrightarrow> sorted_wrt (<) ps"
proof (induction ps rule: principals_ordered.induct)
  case (1 left right rest)
  then show ?case by (auto simp: not_le dest: order.strict_trans)
qed simp_all

lemma validate_canonical_principals_eq_Inr [simp]:
  "validate_canonical_principals ps = Inr u \<longleftrightarrow> ps \<noteq> [] \<and> length ps \<le> 64 \<and> sorted_wrt (<) ps"
  by (auto simp: validate_canonical_principals_def principals_ordered_eq_Inr contract_constants)

lemma canonical_principals_eq_Inr:
  "canonical_principals ps = Inr qs \<longleftrightarrow> qs = sort ps \<and> ps \<noteq> [] \<and> length ps \<le> 64 \<and> distinct ps"
proof -
  have "sorted_wrt (<) (sort ps) \<longleftrightarrow> distinct ps" by (simp add: strict_sorted_iff)
  moreover have "sort ps = [] \<longleftrightarrow> ps = []" by (metis length_0_conv length_sort)
  ultimately show ?thesis by (auto simp: canonical_principals_def and_then_eq_Inr Let_def)
qed

lemma threshold_ok: "\<not> (t = 0 \<or> c < t) \<longleftrightarrow> 0 < unat (t :: u16) \<and> unat t \<le> unat c"
  by (metis linorder_not_less unat_gt_0 word_le_nat_alt)

lemma quorum_validate_eq_Inr:
  "quorum_validate p = Inr u \<longleftrightarrow>
     validate_canonical_principals (qr_witnesses p) = Inr () \<and>
     0 < unat (qr_threshold p) \<and> unat (qr_threshold p) \<le> length (qr_witnesses p) \<and>
     pred_option (\<lambda>m. m \<noteq> 0 \<and> unat (qr_threshold p) = length (qr_witnesses p)) (qr_maximum_successful_releases p)"
proof (cases "length (qr_witnesses p) \<le> 64")
  case True
  then obtain c :: u16 where c: "length (qr_witnesses p) = unat c"
    using try_from_usize_ok [of "length (qr_witnesses p)" _ , where ?'a = 16] try_from_usize_eq_Inr by fastforce
  have "unat (qr_threshold p) = unat c \<longleftrightarrow> qr_threshold p = c" by (simp add: word_unat_eq_iff)
  then show ?thesis
    using threshold_ok [of "qr_threshold p" c]
    by (cases "qr_maximum_successful_releases p")
      (auto simp: quorum_validate_def and_then_eq_Inr c split: if_splits)
next
  case False
  then show ?thesis by (simp add: quorum_validate_def and_then_eq_Inr)
qed

section \<open>Field readers invert field writers\<close>

lemma foldl_append_concat: "foldl (\<lambda>out x. out @ f x) out xs = out @ concat (map f xs)"
  by (induction xs arbitrary: out) simp_all

lemma u16_count:
  "n < 65536 \<Longrightarrow> try_from_usize e n = (Inr (of_nat n) :: 'e + u16)"
  "n < 65536 \<Longrightarrow> unat (of_nat n :: u16) = n"
  "n < 65536 \<Longrightarrow> (of_nat n :: u16) = 0 \<longleftrightarrow> n = 0"
  by (simp_all add: try_from_usize_def unat_of_nat word_unat_eq_iff)

lemma u16_count_iff:
  "unat (w :: u16) = n \<longleftrightarrow> n < 65536 \<and> w = of_nat n" "n = unat (w :: u16) \<longleftrightarrow> n < 65536 \<and> w = of_nat n"
  using unsigned_less [of w, where ?'a = nat] by (auto simp: unat_of_nat)

lemma reads_principal: "rc.reads read_principal principal_bytes wf_principal"
  unfolding read_principal_def [abs_def]
  by (rule rc.reads_by, (rule rc_rules)+) (auto simp: wf_principal_def intro!: exI principal_id.expand)

lemma reads_principals:
  "rc.reads read_principals wire_principals (\<lambda>ps. ps \<noteq> [] \<and> length ps \<le> 64 \<and> list_all wf_principal ps)"
  unfolding read_principals_def [abs_def]
  by (rule rc.reads_by, (rule rc_rules rc.parses_reads [OF rc.reads_repeat [OF reads_principal]])+)
    (auto simp: wire_principals_def contract_constants u16_count_iff u16_count)

lemma reads_optional_u64: "rc.reads read_optional_u64 wire_opt64 (\<lambda>_. True)"
  unfolding read_optional_u64_def [abs_def]
  by (rule rc.reads_by, (rule rc_rules)+) (auto simp: wire_opt64_def split: option.splits)

lemma reads_optional_u32: "rc.reads read_optional_u32 wire_opt32 (\<lambda>_. True)"
  unfolding read_optional_u32_def [abs_def]
  by (rule rc.reads_by, (rule rc_rules)+) (auto simp: wire_opt32_def split: option.splits)

lemma reads_hint:
  "n < 65536 \<Longrightarrow> rc.reads (read_hint n) wire_hint (\<lambda>h. length h \<le> n \<and> from_utf8 h)"
  unfolding read_hint_def [abs_def]
  by (rule rc.reads_by, (rule rc_rules)+) (auto simp: wire_hint_def u16_count_iff u16_count)

lemma reads_hints:
  "rc.reads (read_hint MAX_SHARD_HINT_BYTES) wire_hint (\<lambda>h. length h \<le> 128 \<and> from_utf8 h)"
  "rc.reads (read_hint MAX_CHALLENGE_HINT_BYTES) wire_hint (\<lambda>h. length h \<le> 1024 \<and> from_utf8 h)"
  using reads_hint [of 128] reads_hint [of 1024] by (simp_all add: contract_constants)

lemma reads_shard:
  "rc.reads read_shard wire_shard (\<lambda>s. wf_shard s \<and> length (cs_hint s) \<le> 128)"
  unfolding read_shard_def [abs_def]
  apply (rule rc.reads_by, (rule rc_rules rc.parses_reads [OF reads_hints(1)])+)
  subgoal for x bs by (cases x) (auto simp: wire_shard_def wf_shard_def)
  done

definition release_bounds :: "release_policy \<Rightarrow> bool" where
  "release_bounds r \<longleftrightarrow>
     (case r of
        DirectRecipients \<Rightarrow> True
      | Quorum p \<Rightarrow> qr_witnesses p \<noteq> [] \<and> length (qr_witnesses p) \<le> 64
      | Challenge p \<Rightarrow> length (cr_hint p) \<le> 1024
      | ShardedChallenge p \<Rightarrow> 2 \<le> length (sc_shards p) \<and> length (sc_shards p) \<le> 32 \<and>
          list_all (\<lambda>s. length (cs_hint s) \<le> 128) (sc_shards p) \<and> length (sc_hint p) \<le> 1024
      | KeySequence p \<Rightarrow> True)"

lemmas field_rules =
  rc_rules rc.parses_reads [OF reads_principals] rc.parses_reads [OF reads_hints(2)]
  rc.parses_reads [OF reads_optional_u64] rc.parses_reads [OF reads_optional_u32]
  rc.parses_reads [OF rc.reads_repeat [OF reads_shard]]

lemma release_cases:
  obtains "x = DirectRecipients"
  | ws t nb mx where "x = Quorum \<lparr> qr_witnesses = ws, qr_threshold = t, qr_not_before_unix_ms = nb,
      qr_maximum_successful_releases = mx \<rparr>"
  | m i k s h where "x = Challenge \<lparr> cr_kdf_memory_kib = m, cr_kdf_iterations = i, cr_solution_commitment = k,
      cr_challenge_salt = s, cr_hint = h \<rparr>"
  | m i t ss h where "x = ShardedChallenge \<lparr> sc_kdf_memory_kib = m, sc_kdf_iterations = i, sc_threshold = t,
      sc_shards = ss, sc_hint = h \<rparr>"
  | d where "x = KeySequence \<lparr> ks_depth = d \<rparr>"
  by (metis release_policy.exhaust quorum_release.cases challenge_release.cases
      sharded_challenge_release.cases key_sequence_release.cases)

lemma reads_release: "rc.reads read_release wire_release (\<lambda>r. wf_release r \<and> release_bounds r)"
  unfolding read_release_def [abs_def]
  apply (rule rc.reads_by, (rule field_rules)+)
  subgoal for x bs
    by (cases x rule: release_cases)
      (auto simp: contract_constants wire_release_def wf_release_def release_bounds_def u16_count_iff u16_count
        list_all_iff)
  done

section \<open>The whole contract\<close>

text \<open>The reader of all fields, without the checks that follow it in \<open>from_bytes\<close>.\<close>

definition read_fields :: "contract_reader \<Rightarrow> contract_error + access_contract \<times> contract_reader" where
  "read_fields r =
     and_then (reader_array 4 r) (\<lambda>(magic, r).
       if magic \<noteq> CONTRACT_MAGIC then Inl ContractUnsupportedValue else
     and_then (reader_u16 r) (\<lambda>(version, r).
       if version \<noteq> CONTRACT_VERSION then Inl ContractUnsupportedValue else
     and_then (reader_array 32 r) (\<lambda>(nonce, r).
     and_then (reader_array 32 r) (\<lambda>(group_id, r).
     and_then (read_principals r) (\<lambda>(controllers, r).
     and_then (reader_u16 r) (\<lambda>(seal_threshold, r).
     and_then (read_principals r) (\<lambda>(recipients, r).
     and_then (reader_u16 r) (\<lambda>(bits, r).
     and_then (capabilities_from_bits bits) (\<lambda>caps.
     and_then (reader_u8 r) (\<lambda>(kind, r).
     and_then (kind_from_wire kind) (\<lambda>kind.
     and_then (reader_array 32 r) (\<lambda>(d, r).
     and_then (reader_u64 r) (\<lambda>(sz, r).
     and_then (read_release r) (\<lambda>(release, r).
     and_then (reader_array 32 r) (\<lambda>(cid, r).
     Inr (\<lparr> ac_contract_nonce = nonce, ac_group_id = PrincipalId group_id,
           ac_controllers = controllers, ac_seal_threshold = seal_threshold, ac_recipients = recipients,
           ac_capabilities = caps, ac_content = \<lparr> cc_kind = kind, cc_digest = d, cc_size = sz \<rparr>,
           ac_release = release, ac_contract_id = ContractId cid \<rparr>, r))))))))))))))))"

definition fields_ok :: "access_contract \<Rightarrow> bool" where
  "fields_ok c \<longleftrightarrow>
     wf_contract c \<and> ac_controllers c \<noteq> [] \<and> length (ac_controllers c) \<le> 64 \<and>
     ac_recipients c \<noteq> [] \<and> length (ac_recipients c) \<le> 64 \<and>
     is_ok (capabilities_from_bits (capability_bits (ac_capabilities c))) \<and> release_bounds (ac_release c)"

lemma kind_from_wire_eq_Inr: "kind_from_wire w = Inr k \<longleftrightarrow> w = kind_wire k"
  by (cases k) (auto simp: kind_from_wire_def kind_wire_def)

lemma capabilities_from_bits_eq_Inr:
  "capabilities_from_bits b = Inr c \<longleftrightarrow> b = capability_bits c \<and> is_ok (capabilities_from_bits b)"
  by (cases c) (auto simp: capabilities_from_bits_def)

lemma contract_cases:
  obtains n g cs t rs bits k d z rel i where "c = \<lparr> ac_contract_nonce = n, ac_group_id = PrincipalId g,
    ac_controllers = cs, ac_seal_threshold = t, ac_recipients = rs, ac_capabilities = Capabilities bits,
    ac_content = \<lparr> cc_kind = k, cc_digest = d, cc_size = z \<rparr>, ac_release = rel, ac_contract_id = ContractId i \<rparr>"
  by (metis (full_types) access_contract.cases content_commitment.cases capabilities.exhaust contract_id.exhaust
      principal_id.exhaust)

lemma reads_fields: "rc.reads read_fields wire_contract fields_ok"
  unfolding read_fields_def [abs_def]
  apply (rule rc.reads_by, (rule field_rules rc.parses_reads [OF reads_release])+)
  subgoal for x bs
    by (cases x rule: contract_cases)
      (auto simp: fields_ok_def wf_contract_def wf_principal_def wire_contract_def wire_body_def CONTRACT_MAGIC_def
        kind_from_wire_eq_Inr capabilities_from_bits_eq_Inr)
  done

lemma contract_from_bytes_fields:
  "contract_from_bytes H bs =
     (if MAX_CONTRACT_BYTES < length bs then Inl ContractLimitExceeded
      else and_then (read_fields (rc_at [] bs)) (\<lambda>(c, r).
           and_then (reader_finish r) (\<lambda>_.
           and_then (contract_validate H c) (\<lambda>_.
           and_then (contract_to_bytes H c) (\<lambda>out. if out \<noteq> bs then Inl ContractNonCanonical else Inr c)))))"
  unfolding contract_from_bytes_def read_fields_def reader_new_at Let_def
  by (simp add: and_then_assoc case_prod_unfold if_distrib [of "\<lambda>r. and_then r f" for f] cong: if_cong)

lemma hint_bound: "\<not> hint_invalid n h \<Longrightarrow> length h \<le> n"
  by (simp add: hint_invalid_def)

lemma release_validate_bounds: "release_validate r = Inr u \<Longrightarrow> release_bounds r"
  by (auto simp: release_validate_def release_bounds_def quorum_validate_eq_Inr challenge_validate_def
      sharded_validate_def shard_validate_def contract_constants list_all_iff and_then_eq_Inr
      split: release_policy.splits if_splits dest!: hint_bound)

lemma validate_shape_eq_Inr:
  "validate_shape c = Inr u \<longleftrightarrow>
     validate_canonical_principals (ac_controllers c) = Inr () \<and>
     validate_canonical_principals (ac_recipients c) = Inr () \<and>
     0 < unat (ac_seal_threshold c) \<and> unat (ac_seal_threshold c) \<le> length (ac_controllers c) \<and>
     is_ok (capabilities_from_bits (capability_bits (ac_capabilities c))) \<and>
     capabilities_contains (ac_capabilities c) Decrypt \<and>
     (case cc_kind (ac_content c) of
        ExactArtifact \<Rightarrow> list_ex (capabilities_contains (ac_capabilities c)) [Reconstruct, Diff, Apply]
      | SemanticPatch \<Rightarrow> capabilities_contains (ac_capabilities c) ApplySemanticPatch) \<and>
     release_validate (ac_release c) = Inr ()"
proof (cases "length (ac_controllers c) \<le> 64")
  case True
  then obtain k :: u16 where k: "length (ac_controllers c) = unat k"
    using u16_count_iff(2) [of "length (ac_controllers c)"] by fastforce
  show ?thesis
    using threshold_ok [of "ac_seal_threshold c" k]
    by (auto simp: validate_shape_def and_then_eq_Inr k is_ok_iff split: if_splits protected_kind.splits)
next
  case False
  then show ?thesis by (simp add: validate_shape_def and_then_eq_Inr)
qed

lemma put_release_bounds: "release_bounds r \<Longrightarrow> put_release out r = Inr (out @ wire_release r)"
proof -
  have shards: "list_all (\<lambda>s. length (cs_hint s) \<le> 128) ss \<Longrightarrow>
      try_fold put_shard out ss = Inr (out @ concat (map wire_shard ss))" for ss out
    by (induction ss arbitrary: out)
      (simp_all add: put_shard_def put_hint_def put_u16_def u16_count wire_shard_def wire_hint_def)
  assume "release_bounds r"
  then show ?thesis
    by (cases r)
      (simp_all add: put_release_def release_bounds_def wire_release_def wire_principals_def wire_hint_def Let_def
        put_principals_def put_u16_def put_u32_def put_u64_def put_hint_def put_optional_u64_def put_optional_u32_def
        wire_opt64_def wire_opt32_def u16_count foldl_append_concat shards split: option.splits)
qed

lemma put_body_shape:
  assumes "validate_shape c = Inr u"
  shows "put_body c = Inr (wire_body c)"
proof -
  have "release_bounds (ac_release c)" "length (ac_controllers c) \<le> 64" "length (ac_recipients c) \<le> 64"
    using assms release_validate_bounds by (auto simp: validate_shape_eq_Inr)
  then show ?thesis
    by (simp add: put_body_def wire_body_def put_principals_def wire_principals_def put_u16_def put_u64_def
        Let_def u16_count foldl_append_concat put_release_bounds)
qed

definition contract_bound :: "blake3 \<Rightarrow> access_contract \<Rightarrow> bool" where
  "contract_bound H c \<longleftrightarrow> H CONTRACT_ID_CONTEXT (wire_body c) = contract_id_bytes (ac_contract_id c)"

lemma contract_validate_eq_Inr:
  "contract_validate H c = Inr u \<longleftrightarrow> validate_shape c = Inr () \<and> contract_bound H c"
  by (auto simp: contract_validate_def calculate_contract_id_def and_then_eq_Inr put_body_shape contract_bound_def)

lemma contract_to_bytes_eq_Inr:
  "contract_to_bytes H c = Inr bs \<longleftrightarrow>
     validate_shape c = Inr () \<and> contract_bound H c \<and> bs = wire_contract c \<and> length bs \<le> 16384"
  by (cases "validate_shape c = Inr ()")
    (auto simp: contract_to_bytes_def contract_validate_eq_Inr and_then_eq_Inr put_body_shape wire_contract_def
      MAX_CONTRACT_BYTES_def Let_def)

text \<open>No valid contract reaches the 16 KiB limit: the largest has 10982 bytes.\<close>

lemma length_concat_le: "list_all (\<lambda>x. length (f x) \<le> k) xs \<Longrightarrow> length (concat (map f xs)) \<le> k * length xs"
  by (induction xs) auto

lemma length_wire_principals:
  "list_all wf_principal ps \<Longrightarrow> length ps \<le> 64 \<Longrightarrow> length (wire_principals ps) \<le> 2050"
  using length_concat_le [of principal_bytes 32 ps]
  by (simp add: wire_principals_def wf_principal_def list_all_iff)

lemma length_wire_release: "wf_release r \<Longrightarrow> release_bounds r \<Longrightarrow> length (wire_release r) \<le> 6735"
proof (cases r rule: release_cases)
  case (4 m i t ss h)
  assume "wf_release r" "release_bounds r"
  with 4 have "list_all (\<lambda>s. length (wire_shard s) \<le> 178) ss" "length ss \<le> 32" "length h \<le> 1024"
    by (auto simp: wf_release_def release_bounds_def list_all_iff wire_shard_def wf_shard_def wire_hint_def)
  with length_concat_le [of wire_shard 178 ss] 4 show ?thesis
    by (simp add: wire_release_def wire_hint_def)
qed (auto simp: wf_release_def release_bounds_def wire_release_def wire_hint_def wire_opt64_def wire_opt32_def
    split: option.splits dest!: length_wire_principals)

lemma length_wire_contract:
  assumes "wf_contract c" "validate_shape c = Inr u"
  shows "length (wire_contract c) \<le> 10982"
proof -
  have "length (wire_release (ac_release c)) \<le> 6735"
    using assms length_wire_release release_validate_bounds by (simp add: wf_contract_def validate_shape_eq_Inr)
  moreover have "length (wire_principals (ac_controllers c)) \<le> 2050" "length (wire_principals (ac_recipients c)) \<le> 2050"
    using assms length_wire_principals by (simp_all add: wf_contract_def validate_shape_eq_Inr)
  ultimately show ?thesis
    using assms(1) by (simp add: wire_contract_def wire_body_def CONTRACT_MAGIC_def wf_contract_def wf_principal_def)
qed

lemma contract_to_bytes_iff:
  assumes "wf_contract c"
  shows "contract_to_bytes H c = Inr bs \<longleftrightarrow>
    validate_shape c = Inr () \<and> contract_bound H c \<and> bs = wire_contract c"
  using length_wire_contract [OF assms] by (fastforce simp: contract_to_bytes_eq_Inr)

lemma contract_from_bytes_iff:
  "contract_from_bytes H bs = Inr c \<longleftrightarrow> wf_contract c \<and> contract_to_bytes H c = Inr bs"
proof
  assume "contract_from_bytes H bs = Inr c"
  then obtain r where "read_fields (rc_at [] bs) = Inr (c, r)" "contract_to_bytes H c = Inr bs"
    by (auto simp: contract_from_bytes_fields and_then_eq_Inr split: if_splits)
  then show "wf_contract c \<and> contract_to_bytes H c = Inr bs"
    by (auto simp: fields_ok_def elim: rc.reads_bwd [OF reads_fields])
next
  assume c: "wf_contract c \<and> contract_to_bytes H c = Inr bs"
  then have shape: "validate_shape c = Inr ()" and bs: "bs = wire_contract c" "length bs \<le> 16384"
    by (auto simp: contract_to_bytes_eq_Inr)
  then have "fields_ok c"
    using c by (auto simp: fields_ok_def validate_shape_eq_Inr dest: release_validate_bounds)
  moreover have "length ([] :: bytes) + length (wire_contract c) \<le> usize_max"
    using bs by (simp add: usize_max_def)
  ultimately have "read_fields (rc_at [] (wire_contract c @ [])) = Inr (c, rc_at ([] @ wire_contract c) [])"
    by (rule rc.reads_fwd [OF reads_fields])
  moreover have "contract_validate H c = Inr ()"
    using c by (simp add: contract_validate_eq_Inr contract_to_bytes_eq_Inr)
  ultimately show "contract_from_bytes H bs = Inr c"
    using c bs by (simp add: contract_from_bytes_fields MAX_CONTRACT_BYTES_def reader_finish_def rc_at_def)
qed

section \<open>What a valid policy promises\<close>

definition hint_ok :: "nat \<Rightarrow> bytes \<Rightarrow> bool" where
  "hint_ok n h \<longleftrightarrow> length h \<le> n \<and> list_all (\<lambda>c. \<not> char_is_control c) (str_chars h)"

definition kdf_ok :: "u32 \<Rightarrow> u32 \<Rightarrow> bool" where
  "kdf_ok m i \<longleftrightarrow> 8192 \<le> unat m \<and> unat m \<le> 1048576 \<and> 1 \<le> unat i \<and> unat i \<le> 16"

definition principals_ok :: "principal_id list \<Rightarrow> bool" where
  "principals_ok ps \<longleftrightarrow> sorted ps \<and> distinct ps \<and> 1 \<le> length ps \<and> length ps \<le> 64"

definition release_ok :: "release_policy \<Rightarrow> bool" where
  "release_ok r \<longleftrightarrow>
     (case r of
        DirectRecipients \<Rightarrow> True
      | Quorum p \<Rightarrow> principals_ok (qr_witnesses p) \<and>
          1 \<le> unat (qr_threshold p) \<and> unat (qr_threshold p) \<le> length (qr_witnesses p) \<and>
          pred_option (\<lambda>m. 1 \<le> unat m \<and> unat (qr_threshold p) = length (qr_witnesses p))
            (qr_maximum_successful_releases p)
      | Challenge p \<Rightarrow> kdf_ok (cr_kdf_memory_kib p) (cr_kdf_iterations p) \<and> hint_ok 1024 (cr_hint p)
      | ShardedChallenge p \<Rightarrow> kdf_ok (sc_kdf_memory_kib p) (sc_kdf_iterations p) \<and>
          2 \<le> length (sc_shards p) \<and> length (sc_shards p) \<le> 32 \<and>
          1 \<le> unat (sc_threshold p) \<and> unat (sc_threshold p) \<le> length (sc_shards p) \<and>
          list_all (\<lambda>s. hint_ok 128 (cs_hint s)) (sc_shards p) \<and> hint_ok 1024 (sc_hint p)
      | KeySequence p \<Rightarrow> 2 \<le> unat (ks_depth p) \<and> unat (ks_depth p) \<le> 8)"

lemma hint_invalid_iff: "hint_invalid n h \<longleftrightarrow> \<not> hint_ok n h"
  by (auto simp: hint_invalid_def hint_ok_def list_ex_iff list_all_iff char_is_control_def)

lemma kdf_invalid_iff: "kdf_invalid m i \<longleftrightarrow> \<not> kdf_ok m i"
  by (auto simp: kdf_invalid_def kdf_ok_def contract_constants word_le_nat_alt)

lemma principals_ok_iff: "validate_canonical_principals ps = Inr u \<longleftrightarrow> principals_ok ps"
  by (auto simp: principals_ok_def strict_sorted_iff Suc_le_eq)

lemma sharded_validate_eq_Inr: "sharded_validate p = Inr u \<longleftrightarrow> release_ok (ShardedChallenge p)"
proof (cases "length (sc_shards p) \<le> 32")
  case True
  then obtain k :: u16 where k: "length (sc_shards p) = unat k"
    using u16_count_iff(2) [of "length (sc_shards p)"] by fastforce
  show ?thesis
    using threshold_ok [of "sc_threshold p" k]
    by (auto simp: sharded_validate_def shard_validate_def release_ok_def and_then_eq_Inr k kdf_invalid_iff
        hint_invalid_iff contract_constants list_all_iff split: if_splits)
next
  case False
  then show ?thesis by (simp add: sharded_validate_def release_ok_def contract_constants)
qed

lemma release_validate_eq_Inr: "release_validate r = Inr u \<longleftrightarrow> release_ok r"
proof (cases r)
  case (Quorum p)
  have "m \<noteq> 0 \<longleftrightarrow> 1 \<le> unat m" for m :: u32 by (metis One_nat_def Suc_le_eq unat_gt_0)
  then show ?thesis
    unfolding Quorum
    by (simp add: release_validate_def release_ok_def quorum_validate_eq_Inr Suc_le_eq pred_option_def
        del: validate_canonical_principals_eq_Inr) (simp only: principals_ok_iff)
qed (auto simp: release_validate_def release_ok_def challenge_validate_def sequence_validate_def kdf_invalid_iff
    hint_invalid_iff contract_constants sharded_validate_eq_Inr word_le_nat_alt)

section \<open>Building a contract\<close>

definition capabilities_ok :: "protected_kind \<Rightarrow> capabilities \<Rightarrow> bool" where
  "capabilities_ok k cs \<longleftrightarrow>
     capability_bits cs AND NOT 63 = 0 \<and> capabilities_contains cs Decrypt \<and>
     (case k of
        ExactArtifact \<Rightarrow> list_ex (capabilities_contains cs) [Reconstruct, Diff, Apply]
      | SemanticPatch \<Rightarrow> capabilities_contains cs ApplySemanticPatch)"

definition contract_ok :: "access_contract \<Rightarrow> bool" where
  "contract_ok c \<longleftrightarrow>
     principals_ok (ac_controllers c) \<and> principals_ok (ac_recipients c) \<and>
     1 \<le> unat (ac_seal_threshold c) \<and> unat (ac_seal_threshold c) \<le> length (ac_controllers c) \<and>
     capabilities_ok (cc_kind (ac_content c)) (ac_capabilities c) \<and> release_ok (ac_release c)"

lemma capabilities_ok_iff:
  "is_ok (capabilities_from_bits (capability_bits cs)) \<and> capabilities_contains cs Decrypt \<longleftrightarrow>
   capability_bits cs AND NOT 63 = 0 \<and> capabilities_contains cs Decrypt"
  by (auto simp: is_ok_iff capabilities_from_bits_def KNOWN_MASK_def capabilities_contains_def)

lemma contract_ok_iff: "validate_shape c = Inr u \<longleftrightarrow> contract_ok c"
  unfolding validate_shape_eq_Inr contract_ok_def capabilities_ok_def principals_ok_iff release_validate_eq_Inr
  using capabilities_ok_iff [of "ac_capabilities c"] by (auto simp: Suc_le_eq)

text \<open>What the builder asks for, in any order of its lists.\<close>

definition builder_contract :: "bytes \<Rightarrow> access_contract_builder \<Rightarrow> contract_id \<Rightarrow> access_contract" where
  "builder_contract nonce b i =
     \<lparr> ac_contract_nonce = nonce, ac_group_id = bd_group_id b, ac_controllers = sort (bd_controllers b),
       ac_seal_threshold = bd_seal_threshold b, ac_recipients = sort (bd_recipients b),
       ac_capabilities = bd_capabilities b, ac_content = bd_content b, ac_release = bd_release b,
       ac_contract_id = i \<rparr>"

lemma contract_ok_id [simp]: "contract_ok (c\<lparr> ac_contract_id := i \<rparr>) = contract_ok c"
  by (simp add: contract_ok_def)

lemma wire_body_id [simp]: "wire_body (c\<lparr> ac_contract_id := i \<rparr>) = wire_body c"
  by (simp add: wire_body_def)

lemma with_nonce_eq:
  "with_nonce H nonce b = Inr c \<longleftrightarrow>
     contract_ok (builder_contract nonce b (ContractId [])) \<and>
     c = builder_contract nonce b (ContractId (H CONTRACT_ID_CONTEXT (wire_body (builder_contract nonce b (ContractId [])))))"
proof -
  let ?c = "\<lambda>i. builder_contract nonce b i"
  define W K where "W = wire_body (?c (ContractId []))" and "K = contract_ok (?c (ContractId []))"
  have body: "wire_body (?c i) = W" and ok: "contract_ok (?c i) = K" for i
    by (simp_all add: W_def K_def contract_ok_def wire_body_def builder_contract_def)
  have K: "K \<Longrightarrow> principals_ok (sort (bd_controllers b)) \<and> principals_ok (sort (bd_recipients b))"
    by (simp add: K_def contract_ok_def builder_contract_def)
  have i: "contract_id_bytes (ac_contract_id (?c i)) = contract_id_bytes i" for i
    by (simp add: builder_contract_def)
  have canon: "canonical_principals ps = Inr qs \<longleftrightarrow> principals_ok qs \<and> qs = sort ps" for ps qs
  proof -
    have "sort ps = [] \<longleftrightarrow> ps = []" by (metis length_0_conv length_sort)
    then show ?thesis by (auto simp: canonical_principals_eq_Inr principals_ok_def Suc_le_eq)
  qed
  have run: "with_nonce H nonce b =
      and_then (canonical_principals (bd_controllers b)) (\<lambda>_. and_then (canonical_principals (bd_recipients b)) (\<lambda>_.
      and_then (validate_shape (?c (ContractId (replicate 32 0)))) (\<lambda>_.
      and_then (calculate_contract_id H (?c (ContractId (replicate 32 0)))) (\<lambda>i.
      and_then (contract_validate H (?c (ContractId i))) (\<lambda>_. Inr (?c (ContractId i)))))))"
    by (auto simp: with_nonce_def builder_contract_def Let_def canonical_principals_def and_then_def split: sum.splits)
  show ?thesis
    unfolding run body ok using K
    by (auto simp: and_then_eq_Inr canon contract_ok_iff ok calculate_contract_id_def contract_validate_eq_Inr
        put_body_shape contract_bound_def body i)
qed

definition wf_builder :: "access_contract_builder \<Rightarrow> bool" where
  "wf_builder b \<longleftrightarrow>
     wf_principal (bd_group_id b) \<and> list_all wf_principal (bd_controllers b) \<and>
     list_all wf_principal (bd_recipients b) \<and> length (cc_digest (bd_content b)) = 32 \<and> wf_release (bd_release b)"

lemma with_nonce_wf:
  assumes "with_nonce H nonce b = Inr c" "wf_builder b" "length nonce = 32" "blake3_contract H"
  shows "wf_contract c \<and> contract_to_bytes H c = Inr (wire_contract c)"
proof -
  let ?c = "builder_contract nonce b"
  have c: "c = ?c (ContractId (H CONTRACT_ID_CONTEXT (wire_body (?c (ContractId [])))))"
    and ok: "contract_ok (?c (ContractId []))"
    using assms(1) by (simp_all add: with_nonce_eq)
  have "wf_contract c"
    using assms(2-4) unfolding c
    by (simp add: wf_contract_def wf_builder_def builder_contract_def list_all_iff blake3_contract_def)
  moreover have "validate_shape c = Inr ()" "contract_bound H c"
    using ok unfolding c contract_ok_iff
    by (simp_all add: contract_ok_def builder_contract_def contract_bound_def wire_body_def)
  ultimately show ?thesis by (simp add: contract_to_bytes_iff)
qed

lemma contract_token_ok:
  assumes "base64_contract b64" "wf_contract c" "contract_to_bytes H c = Inr bs"
  shows "contract_to_token H b64 c = Inr (CONTRACT_TOKEN_PREFIX @ b64_encode b64 bs) \<and>
    length (CONTRACT_TOKEN_PREFIX @ b64_encode b64 bs) \<le> MAX_TOKEN_BYTES \<and>
    contract_from_token H b64 (CONTRACT_TOKEN_PREFIX @ b64_encode b64 bs) = Inr c"
proof -
  have bs: "bs = wire_contract c" "length bs \<le> 10982"
    using assms(2,3) length_wire_contract by (auto simp: contract_to_bytes_iff)
  have enc: "b64_decode b64 (b64_encode b64 bs) = Some bs" "\<not> list_ex (\<lambda>b. \<not> base64url_byte b) (b64_encode b64 bs)"
    "length (b64_encode b64 bs) = (4 * length bs + 2) div 3"
    using assms(1) by (simp_all add: base64_contract_def list_all_iff list_ex_iff)
  have "0 < length bs" by (simp add: bs(1) wire_contract_def wire_body_def CONTRACT_MAGIC_def)
  then have "b64_encode b64 bs \<noteq> []" using enc(3) by (auto simp flip: length_greater_0_conv)
  moreover have "4 + (4 * length bs + 2) div 3 \<le> 22528" using bs(2) by simp
  ultimately show ?thesis
    using assms(2,3) enc
    by (simp add: contract_to_token_def contract_from_token_def CONTRACT_TOKEN_PREFIX_def MAX_TOKEN_BYTES_def
        contract_from_bytes_iff)
qed

section \<open>Properties of access contracts\<close>

definition sample_quorum :: release_policy where
  "sample_quorum = Quorum \<lparr> qr_witnesses = [PrincipalId (replicate 32 1), PrincipalId (replicate 32 2)],
     qr_threshold = 2, qr_not_before_unix_ms = Some 5, qr_maximum_successful_releases = Some 3 \<rparr>"

definition sample_builder :: access_contract_builder where
  "sample_builder =
     builder_release sample_quorum (builder_capabilities CAP_RECONSTRUCT
       (builder_recipients [PrincipalId (replicate 32 8)]
         (builder_controllers [PrincipalId (replicate 32 7), PrincipalId (replicate 32 6)] 2
           (builder_new (PrincipalId (replicate 32 9))
              \<lparr> cc_kind = ExactArtifact, cc_digest = replicate 32 4, cc_size = 77 \<rparr>))))"

lemmas builder_defs = builder_new_def builder_controllers_def builder_recipients_def builder_capabilities_def
  builder_release_def

definition sample_contract :: access_contract where
  "sample_contract = builder_contract (replicate 32 3) sample_builder
     (ContractId (sample_hash CONTRACT_ID_CONTEXT
       (wire_body (builder_contract (replicate 32 3) sample_builder (ContractId [])))))"

lemma replicate_less: "a < b \<Longrightarrow> 0 < n \<Longrightarrow> replicate n (a :: 'a::linorder) < replicate n b"
  by (cases n) simp_all

lemma sample_builder_ok:
  "wf_builder sample_builder" "with_nonce sample_hash (replicate 32 3) sample_builder = Inr sample_contract"
proof -
  have lt: "replicate 32 (6 :: u8) < replicate 32 7" "replicate 32 (1 :: u8) < replicate 32 2"
    using replicate_less [of 6 "7 :: u8" 32] replicate_less [of 1 "2 :: u8" 32] by simp_all
  have sorted: "sort (bd_controllers sample_builder) = [PrincipalId (replicate 32 6), PrincipalId (replicate 32 7)]"
    using lt by (simp add: sample_builder_def builder_defs less_eq_principal_id_def not_le)
  show "wf_builder sample_builder"
    by (simp add: wf_builder_def sample_builder_def builder_defs wf_principal_def sample_quorum_def wf_release_def)
  have "contract_ok (builder_contract (replicate 32 3) sample_builder (ContractId []))"
    using lt lt [THEN less_imp_le] unfolding contract_ok_def builder_contract_def
    by (simp add: sorted) (simp add: sample_builder_def builder_defs sample_quorum_def release_ok_def
        principals_ok_def less_eq_principal_id_def capabilities_ok_def CAP_RECONSTRUCT_def capabilities_contains_def
        capability_bit_def)
  then show "with_nonce sample_hash (replicate 32 3) sample_builder = Inr sample_contract"
    by (simp add: with_nonce_eq sample_contract_def)
qed

text \<open>
  C6. Writing and reading a contract are inverse: for a contract whose arrays and strings are well formed,
  \<open>to_bytes\<close> produces some bytes exactly when \<open>from_bytes\<close> accepts these bytes and returns the same
  contract. So nothing is lost on the wire, and each contract has one accepted encoding.
\<close>

theorem contract_codec_inverse:
  assumes "wf_contract c"
  shows "contract_to_bytes H c = Inr bs \<longleftrightarrow> contract_from_bytes H bs = Inr c"
  using assms by (simp add: contract_from_bytes_iff)

theorem contract_codec_inverse_witness:
  "contract_from_bytes sample_hash (wire_contract sample_contract) = Inr sample_contract"
proof -
  have "wf_contract sample_contract \<and> contract_to_bytes sample_hash sample_contract = Inr (wire_contract sample_contract)"
    using with_nonce_wf [OF sample_builder_ok(2,1)] by simp
  then show ?thesis using contract_codec_inverse by blast
qed

text \<open>
  C9. Whatever \<open>from_bytes\<close> accepts is a valid contract: both principal lists are sorted, free of duplicates and
  hold 1 to 64 entries, every threshold lies between 1 and the number of its holders, a usage limit
  comes with a unanimous quorum, the derivation cost and the hints are within bounds, the capabilities allow what
  the content kind needs, and the last 32 bytes are the hash of all bytes before them.
\<close>

theorem contract_from_bytes_valid:
  assumes "contract_from_bytes H bs = Inr c"
  shows "contract_ok c \<and> contract_id_bytes (ac_contract_id c) = H CONTRACT_ID_CONTEXT (take (length bs - 32) bs) \<and>
    drop (length bs - 32) bs = contract_id_bytes (ac_contract_id c)"
proof -
  have c: "contract_ok c" "contract_bound H c" and bs: "bs = wire_contract c"
    and "length (contract_id_bytes (ac_contract_id c)) = 32"
    using assms by (auto simp: contract_from_bytes_iff contract_to_bytes_iff contract_ok_iff wf_contract_def)
  then show ?thesis by (simp add: wire_contract_def contract_bound_def)
qed

theorem contract_from_bytes_valid_witness:
  "contract_ok sample_contract"
proof -
  have "contract_from_bytes sample_hash (wire_contract sample_contract) = Inr sample_contract"
    using with_nonce_wf [OF sample_builder_ok(2,1)] by (simp add: contract_from_bytes_iff)
  from contract_from_bytes_valid [OF this] show ?thesis by blast
qed

text \<open>
  C16. \<open>AccessContract::new\<close>, once it has its nonce, succeeds exactly on valid requests, and its
  result holds the requested controllers and recipients in canonical order whatever order they were
  given in, with the hash of the contract's body as its identifier.
\<close>

theorem with_nonce_builds:
  "with_nonce H nonce b = Inr c \<longleftrightarrow>
     contract_ok (builder_contract nonce b (ContractId [])) \<and>
     c = builder_contract nonce b
           (ContractId (H CONTRACT_ID_CONTEXT (wire_body (builder_contract nonce b (ContractId [])))))"
  by (rule with_nonce_eq)

text \<open>
  A contract that was built has a token: writing it never fails on a size limit, the token is at most
  22 KiB long, and reading the token gives the contract back.
\<close>

theorem contract_token_round_trip:
  assumes "with_nonce H nonce b = Inr c" "wf_builder b" "length nonce = 32" "blake3_contract H" "base64_contract b64"
  shows "\<exists>t. contract_to_token H b64 c = Inr t \<and> length t \<le> MAX_TOKEN_BYTES \<and> contract_from_token H b64 t = Inr c"
  using with_nonce_wf [OF assms(1-4)] contract_token_ok [OF assms(5)] by blast

theorem contract_token_round_trip_witness:
  "\<exists>t. contract_to_token sample_hash url_safe_no_pad sample_contract = Inr t \<and> length t \<le> MAX_TOKEN_BYTES \<and>
     contract_from_token sample_hash url_safe_no_pad t = Inr sample_contract"
  by (rule contract_token_round_trip [OF sample_builder_ok(2,1)]) (simp_all add: url_safe_no_pad_contract)

end
