(* ===== verification/Release_Ledger.thy ===== *)
theory Release_Ledger
  imports Rap_Crypto Chain_Base
begin

text \<open>
  The release ledgers that bound how often a witness lets a content key go: the trait \<open>ReleaseLedger\<close>
  and its in-memory implementation (\<open>rebyte-chain/src/release.rs\<close>), and the append-only file of the command
  line (\<open>rebyte-cli/src/release_ledger.rs\<close>) with every fallible file operation as an explicit outcome.
\<close>

section \<open>Authorizations and the in-memory ledger\<close>

record release_authorization =
  ra_contract_id :: bytes
  ra_proposal_id :: bytes
  ra_request_id :: bytes
  ra_maximum_successful_releases :: "u32 option"

type_synonym release_scope = "bytes \<times> bytes"

definition ra_scope :: "release_authorization \<Rightarrow> release_scope" where
  "ra_scope a = (ra_contract_id a, ra_proposal_id a)"

primrec position :: "('a \<Rightarrow> bool) \<Rightarrow> 'a list \<Rightarrow> nat option" where
  "position p [] = None"
| "position p (x # xs) = (if p x then Some 0 else map_option Suc (position p xs))"

record memory_release_ledger =
  ml_requests :: "release_scope \<rightharpoonup> bytes list"

definition memory_authorize ::
    "memory_release_ledger \<Rightarrow> release_authorization \<Rightarrow> (u32 \<Rightarrow> chain_error + 'a) \<Rightarrow>
     (chain_error + 'a) \<times> memory_release_ledger" where
  "memory_authorize self authorization issue =
     (let scope = ra_scope authorization;
          requests = (case ml_requests self scope of Some rs \<Rightarrow> rs | None \<Rightarrow> []);
          self = self\<lparr> ml_requests := (ml_requests self)(scope \<mapsto> requests) \<rparr>
      in case position (\<lambda>request. request = ra_request_id authorization) requests of
        Some index \<Rightarrow>
          (and_then (try_from_usize ChainReleaseAuthorityUnavailable (min (index + 1) usize_max)) issue, self)
      | None \<Rightarrow>
          (case try_from_usize ChainReleaseAuthorityUnavailable (length requests) of
             Inl e \<Rightarrow> (Inl e, self)
           | Inr current \<Rightarrow>
               if pred_option (\<lambda>maximum. current < maximum) (ra_maximum_successful_releases authorization) then
                 (case checked_add current 1 of
                    None \<Rightarrow> (Inl ChainReleaseAuthorityUnavailable, self)
                  | Some ordinal \<Rightarrow>
                      (case issue ordinal of
                         Inl e \<Rightarrow> (Inl e, self)
                       | Inr issued \<Rightarrow>
                           (Inr issued,
                            self\<lparr> ml_requests := (ml_requests self)(scope \<mapsto> requests @ [ra_request_id authorization]) \<rparr>)))
               else (Inl ChainReleaseLimitReached, self)))"

section \<open>The file format of the append-only ledger\<close>

definition LEDGER_MAGIC :: bytes where "LEDGER_MAGIC = ascii ''RBRL''"
definition LEDGER_VERSION :: u16 where "LEDGER_VERSION = 1"
definition HEADER_BYTES :: nat where "HEADER_BYTES = 4 + 2 + 32"
definition RECORD_BODY_BYTES :: nat where "RECORD_BODY_BYTES = 32 + 32 + 32 + 4"
definition RECORD_BYTES :: nat where "RECORD_BYTES = RECORD_BODY_BYTES + 32"
definition MAX_RECORDS :: nat where "MAX_RECORDS = 65536"
definition RECORD_CONTEXT :: bytes where
  "RECORD_CONTEXT = ascii ''Rebyte cooperative release ledger record v1 2026-07-18''"

lemmas ledger_constants = HEADER_BYTES_def RECORD_BODY_BYTES_def RECORD_BYTES_def MAX_RECORDS_def

record ledger_record =
  lr_contract_id :: bytes
  lr_proposal_id :: bytes
  lr_request_id :: bytes
  lr_ordinal :: u32

record parsed_ledger =
  pl_records :: "ledger_record list"
  pl_previous_digest :: bytes
  pl_complete_length :: nat

record file_release_ledger =
  fl_file :: bytes
  fl_witness_id :: bytes
  fl_records :: "ledger_record list"
  fl_previous_digest :: bytes

definition record_digest :: "blake3 \<Rightarrow> bytes \<Rightarrow> bytes \<Rightarrow> bytes \<Rightarrow> bytes" where
  "record_digest H witness_id previous body = H RECORD_CONTEXT (witness_id @ previous @ body)"

definition array_at :: "nat \<Rightarrow> bytes \<Rightarrow> nat \<Rightarrow> chain_error + bytes" where
  "array_at n bs start =
     and_then (ok_or ChainReleaseAuthorityUnavailable (usize_checked_add start n)) (\<lambda>end_pos.
     and_then (ok_or ChainReleaseAuthorityUnavailable (slice_get start end_pos bs))
       (array_of_slice ChainReleaseAuthorityUnavailable n))"

definition same_scope :: "ledger_record \<Rightarrow> ledger_record \<Rightarrow> bool" where
  "same_scope c r \<longleftrightarrow> lr_contract_id c = lr_contract_id r \<and> lr_proposal_id c = lr_proposal_id r"

definition parse_record ::
    "blake3 \<Rightarrow> bytes \<Rightarrow> bytes \<Rightarrow> ledger_record list \<times> bytes \<Rightarrow> nat \<Rightarrow> chain_error + ledger_record list \<times> bytes" where
  "parse_record H bs expected_witness st index =
     (case st of (records, previous_digest) \<Rightarrow>
      and_then (ok_or ChainReleaseAuthorityUnavailable (usize_checked_mul index RECORD_BYTES)) (\<lambda>off.
      and_then (ok_or ChainReleaseAuthorityUnavailable (usize_checked_add HEADER_BYTES off)) (\<lambda>start.
      and_then (ok_or ChainReleaseAuthorityUnavailable (usize_checked_add start RECORD_BODY_BYTES)) (\<lambda>body_end.
      and_then (ok_or ChainReleaseAuthorityUnavailable (usize_checked_add body_end 32)) (\<lambda>end_pos.
      and_then (ok_or ChainReleaseAuthorityUnavailable (slice_get start body_end bs)) (\<lambda>body.
      and_then (ok_or ChainReleaseAuthorityUnavailable (slice_get body_end end_pos bs)) (\<lambda>d.
      and_then (array_of_slice ChainReleaseAuthorityUnavailable 32 d) (\<lambda>d.
        if record_digest H expected_witness previous_digest body \<noteq> d then Inl ChainReleaseAuthorityUnavailable
        else
      and_then (array_at 32 body 0) (\<lambda>contract_id.
      and_then (array_at 32 body 32) (\<lambda>proposal_id.
      and_then (array_at 32 body 64) (\<lambda>request_id.
      and_then (array_at 4 body 96) (\<lambda>ordinal.
      let r = \<lparr> lr_contract_id = contract_id, lr_proposal_id = proposal_id, lr_request_id = request_id,
                lr_ordinal = u32_from_be_bytes ordinal \<rparr> in
      and_then (ok_or ChainReleaseAuthorityUnavailable
        (usize_checked_add (length (filter (\<lambda>c. same_scope c r) records)) 1)) (\<lambda>value.
      and_then (try_from_usize ChainReleaseAuthorityUnavailable value) (\<lambda>expected_ordinal.
        if lr_ordinal r \<noteq> expected_ordinal
           \<or> list_ex (\<lambda>c. same_scope c r \<and> lr_request_id c = lr_request_id r) records
        then Inl ChainReleaseAuthorityUnavailable
        else Inr (records @ [r], d)))))))))))))))"

definition parse_ledger :: "blake3 \<Rightarrow> bytes \<Rightarrow> bytes \<Rightarrow> chain_error + parsed_ledger" where
  "parse_ledger H bs expected_witness =
     (if length bs < HEADER_BYTES \<or> slice_get 0 4 bs \<noteq> Some LEDGER_MAGIC
         \<or> slice_get 4 6 bs \<noteq> Some (u16_to_be_bytes LEDGER_VERSION)
         \<or> slice_get 6 HEADER_BYTES bs \<noteq> Some expected_witness
      then Inl ChainReleaseAuthorityUnavailable
      else let complete_records = (length bs - HEADER_BYTES) div RECORD_BYTES in
        if MAX_RECORDS < complete_records then Inl ChainReleaseAuthorityUnavailable
        else
      and_then (try_fold (parse_record H bs expected_witness) ([], replicate 32 0) [0..<complete_records])
        (\<lambda>(records, previous_digest).
      and_then (ok_or ChainReleaseAuthorityUnavailable (usize_checked_mul complete_records RECORD_BYTES)) (\<lambda>n.
      and_then (ok_or ChainReleaseAuthorityUnavailable (usize_checked_add HEADER_BYTES n)) (\<lambda>complete_length.
        Inr \<lparr> pl_records = records, pl_previous_digest = previous_digest, pl_complete_length = complete_length \<rparr>))))"

section \<open>Opening and appending, with the outcome of every file operation\<close>

text \<open>
  \<open>io_ok\<close> says which calls succeed. A failing write leaves the first \<open>io_written\<close> bytes of its data in the file (a
  failing \<open>sync_all\<close> after complete writes is the case that all bytes arrived); \<open>io_truncated\<close> says whether
  a failing truncation took effect. A crash inside an operation has the same effect on the file
  as the failure of the call it interrupts.
\<close>

datatype io_call =
    IoFileName | IoOpenDir | IoOpenFile | IoLock | IoPermissions | IoMetadata | IoIsFile
  | IoWriteHeader | IoSyncParent | IoSeekStart | IoRead | IoTruncate
  | IoSeekEnd | IoAppend | IoRollback

record ledger_io =
  io_ok :: "io_call \<Rightarrow> bool"
  io_written :: nat
  io_truncated :: bool

definition write_and_sync :: "ledger_io \<Rightarrow> io_call \<Rightarrow> bytes \<Rightarrow> bytes \<Rightarrow> bool \<times> bytes" where
  "write_and_sync io call file bs =
     (if io_ok io call then (True, file @ bs) else (False, file @ take (io_written io) bs))"

definition set_len :: "ledger_io \<Rightarrow> io_call \<Rightarrow> nat \<Rightarrow> bytes \<Rightarrow> bool \<times> bytes" where
  "set_len io call n file =
     (if io_ok io call then (True, take n file)
      else (False, if io_truncated io then take n file else file))"

definition ledger_header :: "bytes \<Rightarrow> bytes" where
  "ledger_header witness_id = LEDGER_MAGIC @ u16_to_be_bytes LEDGER_VERSION @ witness_id"

definition ledger_open ::
    "blake3 \<Rightarrow> ledger_io \<Rightarrow> bytes \<Rightarrow> bytes \<Rightarrow> (chain_error + file_release_ledger) \<times> bytes" where
  "ledger_open H io file witness_id =
     (if \<not> list_all (io_ok io) [IoFileName, IoOpenDir, IoOpenFile, IoLock, IoPermissions, IoMetadata, IoIsFile]
      then (Inl ChainReleaseAuthorityUnavailable, file)
      else
      (case (if file = [] then write_and_sync io IoWriteHeader file (ledger_header witness_id) else (True, file)) of
         (written, file') \<Rightarrow>
      if \<not> written \<or> file = [] \<and> \<not> io_ok io IoSyncParent \<or> \<not> io_ok io IoSeekStart \<or> \<not> io_ok io IoRead
      then (Inl ChainReleaseAuthorityUnavailable, file')
      else
      (case and_then (ok_or ChainReleaseAuthorityUnavailable (usize_checked_mul RECORD_BYTES MAX_RECORDS)) (\<lambda>n.
            and_then (ok_or ChainReleaseAuthorityUnavailable (usize_checked_add HEADER_BYTES n)) (\<lambda>maximum_bytes.
            let bs = take (maximum_bytes + 1) file' in
            if maximum_bytes < length bs then Inl ChainReleaseAuthorityUnavailable
            else and_then (parse_ledger H bs witness_id) (\<lambda>parsed. Inr (bs, parsed)))) of
         Inl e \<Rightarrow> (Inl e, file')
       | Inr (bs, parsed) \<Rightarrow>
           (case (if pl_complete_length parsed \<noteq> length bs
                  then set_len io IoTruncate (pl_complete_length parsed) file' else (True, file')) of
              (ok, file'') \<Rightarrow>
                if \<not> ok then (Inl ChainReleaseAuthorityUnavailable, file'')
                else (Inr \<lparr> fl_file = file'', fl_witness_id = witness_id, fl_records = pl_records parsed,
                            fl_previous_digest = pl_previous_digest parsed \<rparr>, file'')))))"

definition record_matches :: "release_authorization \<Rightarrow> ledger_record \<Rightarrow> bool" where
  "record_matches a r \<longleftrightarrow> lr_contract_id r = ra_contract_id a \<and> lr_proposal_id r = ra_proposal_id a"

definition record_body :: "ledger_record \<Rightarrow> bytes" where
  "record_body r = lr_contract_id r @ lr_proposal_id r @ lr_request_id r @ u32_to_be_bytes (lr_ordinal r)"

definition append_record ::
    "blake3 \<Rightarrow> ledger_io \<Rightarrow> file_release_ledger \<Rightarrow> ledger_record \<Rightarrow> 'a \<Rightarrow>
     (chain_error + 'a) \<times> file_release_ledger" where
  "append_record H io self r issued =
     (let body = record_body r;
          d = record_digest H (fl_witness_id self) (fl_previous_digest self) body;
          original_length = length (fl_file self)
      in if \<not> io_ok io IoSeekEnd then (Inl ChainReleaseAuthorityUnavailable, self)
         else case write_and_sync io IoAppend (fl_file self) (body @ d) of
           (False, file) \<Rightarrow>
             (Inl ChainReleaseAuthorityUnavailable,
              self\<lparr> fl_file := snd (set_len io IoRollback original_length file) \<rparr>)
         | (True, file) \<Rightarrow>
             (Inr issued,
              self\<lparr> fl_file := file, fl_records := fl_records self @ [r], fl_previous_digest := d \<rparr>))"

definition file_authorize ::
    "blake3 \<Rightarrow> ledger_io \<Rightarrow> file_release_ledger \<Rightarrow> release_authorization \<Rightarrow> (u32 \<Rightarrow> chain_error + 'a) \<Rightarrow>
     (chain_error + 'a) \<times> file_release_ledger" where
  "file_authorize H io self a issue =
     (case find (\<lambda>r. record_matches a r \<and> lr_request_id r = ra_request_id a) (fl_records self) of
        Some r \<Rightarrow> (issue (lr_ordinal r), self)
      | None \<Rightarrow>
          if MAX_RECORDS \<le> length (fl_records self) then (Inl ChainReleaseAuthorityUnavailable, self)
          else
          (case try_from_usize ChainReleaseAuthorityUnavailable (length (filter (record_matches a) (fl_records self))) of
             Inl e \<Rightarrow> (Inl e, self)
           | Inr current \<Rightarrow>
               if pred_option (\<lambda>maximum. current < maximum) (ra_maximum_successful_releases a) then
                 (case checked_add current 1 of
                    None \<Rightarrow> (Inl ChainReleaseAuthorityUnavailable, self)
                  | Some ordinal \<Rightarrow>
                      (case issue ordinal of
                         Inl e \<Rightarrow> (Inl e, self)
                       | Inr issued \<Rightarrow>
                           append_record H io self
                             \<lparr> lr_contract_id = ra_contract_id a, lr_proposal_id = ra_proposal_id a,
                               lr_request_id = ra_request_id a, lr_ordinal = ordinal \<rparr> issued))
               else (Inl ChainReleaseLimitReached, self)))"

text \<open>One run of \<open>chain release grant\<close>: open the ledger, authorize once, exit; what stays is the file.\<close>

definition grant_session ::
    "blake3 \<Rightarrow> bytes \<Rightarrow> ledger_io \<Rightarrow> bytes \<Rightarrow> release_authorization \<Rightarrow> (u32 \<Rightarrow> chain_error + 'a) \<Rightarrow>
     (chain_error + 'a) \<times> bytes" where
  "grant_session H witness_id io file a issue =
     (case ledger_open H io file witness_id of
        (Inl e, file) \<Rightarrow> (Inl e, file)
      | (Inr ledger, _) \<Rightarrow>
          (case file_authorize H io ledger a issue of (r, ledger) \<Rightarrow> (r, fl_file ledger)))"

end
