(* ===== verification/Release_Ledger_Correct.thy ===== *)
theory Release_Ledger_Correct
  imports Release_Ledger
begin

text \<open>
  What a release ledger promises, as an interface, and the proof that the in-memory ledger, the open
  file ledger and the file across restarts and crashes all keep it.
\<close>

section \<open>The interface\<close>

definition wf_authorization :: "release_authorization \<Rightarrow> bool" where
  "wf_authorization a \<longleftrightarrow>
     length (ra_contract_id a) = 32 \<and> length (ra_proposal_id a) = 32 \<and> length (ra_request_id a) = 32"

type_synonym ledger_log = "release_scope \<Rightarrow> bytes list"

definition logged :: "ledger_log \<Rightarrow> release_authorization \<Rightarrow> ledger_log" where
  "logged L a = L(ra_scope a := L (ra_scope a) @ [ra_request_id a])"

definition room :: "ledger_log \<Rightarrow> release_authorization \<Rightarrow> bool" where
  "room L a \<longleftrightarrow> pred_option (\<lambda>m. length (L (ra_scope a)) < unat m) (ra_maximum_successful_releases a)"

text \<open>\<open>numbered L a k\<close>: the request of \<open>a\<close> has ordinal \<open>k\<close> in the log.\<close>

definition numbered :: "ledger_log \<Rightarrow> release_authorization \<Rightarrow> nat \<Rightarrow> bool" where
  "numbered L a k \<longleftrightarrow> 0 < k \<and> k \<le> length (L (ra_scope a)) \<and> L (ra_scope a) ! (k - 1) = ra_request_id a"

primrec ledger_run ::
    "('io \<Rightarrow> 's \<Rightarrow> release_authorization \<Rightarrow> (u32 \<Rightarrow> chain_error + 'a) \<Rightarrow> (chain_error + 'a) \<times> 's) \<Rightarrow> 's \<Rightarrow>
     ('io \<times> release_authorization \<times> (u32 \<Rightarrow> chain_error + 'a)) list \<Rightarrow> (chain_error + 'a) list \<times> 's" where
  "ledger_run authorize s [] = ([], s)"
| "ledger_run authorize s (e # es) =
     (case e of (io, a, issue) \<Rightarrow>
      case authorize io s a issue of (r, s) \<Rightarrow>
      case ledger_run authorize s es of (rs, s) \<Rightarrow> (r # rs, s))"

locale durable_ledger =
  fixes authorize :: "'io \<Rightarrow> 's \<Rightarrow> release_authorization \<Rightarrow> (u32 \<Rightarrow> chain_error + 'a) \<Rightarrow> (chain_error + 'a) \<times> 's"
    and log_of :: "'s \<Rightarrow> ledger_log"
    and inv :: "'s \<Rightarrow> bool"
  assumes inv_log: "inv s \<Longrightarrow> distinct (log_of s sc) \<and> length (log_of s sc) < 2 ^ 32"
    and authorize_inv: "inv s \<Longrightarrow> wf_authorization a \<Longrightarrow> authorize io s a issue = (r, s') \<Longrightarrow> inv s'"
    and replay: "inv s \<Longrightarrow> wf_authorization a \<Longrightarrow> numbered (log_of s) a k \<Longrightarrow> authorize io s a issue = (r, s') \<Longrightarrow>
      log_of s' = log_of s \<and> (r = issue (of_nat k) \<or> r = Inl ChainReleaseAuthorityUnavailable)"
    and fresh_ok: "inv s \<Longrightarrow> wf_authorization a \<Longrightarrow> ra_request_id a \<notin> set (log_of s (ra_scope a)) \<Longrightarrow>
      authorize io s a issue = (Inr t, s') \<Longrightarrow>
      log_of s' = logged (log_of s) a \<and> room (log_of s) a \<and> issue (of_nat (Suc (length (log_of s (ra_scope a))))) = Inr t"
    and fresh_err: "inv s \<Longrightarrow> wf_authorization a \<Longrightarrow> ra_request_id a \<notin> set (log_of s (ra_scope a)) \<Longrightarrow>
      authorize io s a issue = (Inl e, s') \<Longrightarrow>
      log_of s' = log_of s \<or>
      log_of s' = logged (log_of s) a \<and> room (log_of s) a \<and> e = ChainReleaseAuthorityUnavailable"
begin

lemma log_step:
  assumes "inv s" "wf_authorization a" "authorize io s a issue = (r, s')"
  shows "log_of s' = log_of s \<or> log_of s' = logged (log_of s) a \<and> room (log_of s) a"
proof (cases "ra_request_id a \<in> set (log_of s (ra_scope a))")
  case True
  then obtain k where "numbered (log_of s) a (Suc k)" by (auto simp: numbered_def in_set_conv_nth Suc_le_eq)
  then show ?thesis using replay assms by blast
next
  case False
  then show ?thesis using fresh_ok fresh_err assms by (cases r) blast+
qed

lemma log_grows:
  assumes "inv s" "wf_authorization a" "authorize io s a issue = (r, s')"
  shows "numbered (log_of s) b k \<Longrightarrow> numbered (log_of s') b k"
  using log_step [OF assms] by (auto simp: numbered_def logged_def nth_append)

lemma success_numbered:
  assumes "inv s" "wf_authorization a" "authorize io s a issue = (Inr t, s')"
  shows "\<exists>k. numbered (log_of s') a k \<and> issue (of_nat k) = Inr t"
proof (cases "ra_request_id a \<in> set (log_of s (ra_scope a))")
  case True
  then obtain k where "numbered (log_of s) a (Suc k)" by (auto simp: numbered_def in_set_conv_nth Suc_le_eq)
  then show ?thesis using replay [OF assms(1,2) _ assms(3)] by force
next
  case False
  from fresh_ok [OF assms(1,2) False assms(3)] show ?thesis
    by (intro exI [of _ "Suc (length (log_of s (ra_scope a)))"]) (simp add: numbered_def logged_def)
qed

text \<open>Along a whole run every success carries the final position of its request.\<close>

lemma run_numbered:
  assumes "inv s" "\<forall>(io, a, issue) \<in> set es. wf_authorization a" "ledger_run authorize s es = (rs, s')"
  shows "inv s' \<and> (\<forall>b k. numbered (log_of s) b k \<longrightarrow> numbered (log_of s') b k) \<and>
    list_all2 (\<lambda>(io, a, issue) r. \<forall>t. r = Inr t \<longrightarrow> (\<exists>k. numbered (log_of s') a k \<and> issue (of_nat k) = Inr t)) es rs"
  using assms
proof (induction es arbitrary: s rs)
  case Nil
  then show ?case by simp
next
  case (Cons e es)
  obtain io a issue where e: "e = (io, a, issue)" by (cases e)
  obtain r u where step: "authorize io s a issue = (r, u)" by (cases "authorize io s a issue")
  obtain qs where run: "ledger_run authorize u es = (qs, s')" and rs: "rs = r # qs"
    using Cons.prems(3) by (auto simp: e step split: prod.splits)
  have wf: "wf_authorization a" using Cons.prems(2) by (auto simp: e)
  have u: "inv u" using authorize_inv [OF Cons.prems(1) wf step] .
  note IH = Cons.IH [OF u _ run]
  have "\<exists>k. numbered (log_of s') a k \<and> issue (of_nat k) = Inr t" if "r = Inr t" for t
    using success_numbered [OF Cons.prems(1) wf step [unfolded that]] IH Cons.prems(2) by auto
  then show ?case using IH Cons.prems(2) log_grows [OF Cons.prems(1) wf step] by (simp add: rs e)
qed

lemma run_bounded:
  assumes "inv s" "\<forall>(io, a, issue) \<in> set es. wf_authorization a" "ledger_run authorize s es = (rs, s')"
    and "\<forall>(io, a, issue) \<in> set es. ra_scope a = sc \<longrightarrow> ra_maximum_successful_releases a = Some m"
    and "length (log_of s sc) \<le> unat m"
  shows "length (log_of s' sc) \<le> unat m"
  using assms
proof (induction es arbitrary: s rs)
  case Nil
  then show ?case by simp
next
  case (Cons e es)
  obtain io a issue where e: "e = (io, a, issue)" by (cases e)
  obtain r u where step: "authorize io s a issue = (r, u)" by (cases "authorize io s a issue")
  obtain qs where run: "ledger_run authorize u es = (qs, s')"
    using Cons.prems(3) by (auto simp: e step split: prod.splits)
  have wf: "wf_authorization a" using Cons.prems(2) by (auto simp: e)
  have "length (log_of u sc) \<le> unat m"
    using log_step [OF Cons.prems(1) wf step] Cons.prems(4,5) by (auto simp: e logged_def room_def)
  then show ?case using Cons.IH [OF authorize_inv [OF Cons.prems(1) wf step] _ run] Cons.prems(2,4) by auto
qed

end

text \<open>A ledger whose failures never consume an allowance and which always answers a replay.\<close>

locale release_ledger = durable_ledger +
  assumes replay_answers: "inv s \<Longrightarrow> wf_authorization a \<Longrightarrow> numbered (log_of s) a k \<Longrightarrow> fst (authorize io s a issue) = issue (of_nat k)"
    and error_free: "inv s \<Longrightarrow> wf_authorization a \<Longrightarrow> authorize io s a issue = (Inl e, s') \<Longrightarrow> log_of s' = log_of s"

section \<open>The in-memory ledger\<close>

definition memory_log :: "memory_release_ledger \<Rightarrow> ledger_log" where
  "memory_log s sc = (case ml_requests s sc of Some rs \<Rightarrow> rs | None \<Rightarrow> [])"

definition memory_inv :: "memory_release_ledger \<Rightarrow> bool" where
  "memory_inv s \<longleftrightarrow> (\<forall>sc. distinct (memory_log s sc) \<and> length (memory_log s sc) < 2 ^ 32)"

lemma memory_inv_at: "memory_inv s \<Longrightarrow> distinct (memory_log s sc) \<and> length (memory_log s sc) < 2 ^ 32"
  unfolding memory_inv_def by blast

lemma position_None: "position (\<lambda>y. y = x) xs = None \<longleftrightarrow> x \<notin> set xs"
  by (induction xs) auto

lemma position_Some: "position (\<lambda>y. y = x) xs = Some i \<Longrightarrow> i < length xs \<and> xs ! i = x"
  by (induction xs arbitrary: i) (auto split: if_splits)

lemma position_nth: "distinct xs \<Longrightarrow> i < length xs \<Longrightarrow> position (\<lambda>y. y = xs ! i) xs = Some i"
proof (induction xs arbitrary: i)
  case (Cons x xs)
  then show ?case by (cases i) auto
qed simp

lemma memory_log_entry:
  "memory_log (s\<lparr> ml_requests := (ml_requests s)(sc \<mapsto> rs) \<rparr>) = (memory_log s)(sc := rs)"
  by (auto simp: memory_log_def)

lemma u32_ordinal:
  "n < 2 ^ 32 \<Longrightarrow> (try_from_usize e n :: 'e + u32) = Inr (of_nat n)"
  "n < 2 ^ 32 \<Longrightarrow> checked_add (of_nat n :: u32) 1 = (if Suc n < 2 ^ 32 then Some (of_nat (Suc n)) else None)"
  "n < 2 ^ 32 \<Longrightarrow> pred_option ((<) (of_nat n :: u32)) mx = pred_option (\<lambda>m. n < unat m) mx"
  by (simp_all add: try_from_usize_def checked_add_def unat_of_nat word_less_nat_alt pred_option_def)

text \<open>The decision both implementations make for a request they have not seen.\<close>

definition fresh_decision :: "nat \<Rightarrow> u32 option \<Rightarrow> (u32 \<Rightarrow> chain_error + 'a) \<Rightarrow> chain_error + u32 \<times> 'a" where
  "fresh_decision n maximum issue =
     (if \<not> pred_option (\<lambda>m. n < unat m) maximum then Inl ChainReleaseLimitReached
      else if Suc n < 2 ^ 32 then and_then (issue (of_nat (Suc n))) (\<lambda>t. Inr (of_nat (Suc n), t))
      else Inl ChainReleaseAuthorityUnavailable)"

lemma memory_authorize_replay:
  assumes "memory_inv s" "numbered (memory_log s) a k"
  shows "memory_authorize s a issue =
    (issue (of_nat k), s\<lparr> ml_requests := (ml_requests s)(ra_scope a \<mapsto> memory_log s (ra_scope a)) \<rparr>)"
proof -
  have k: "0 < k" "k \<le> length (memory_log s (ra_scope a))" "memory_log s (ra_scope a) ! (k - 1) = ra_request_id a"
    using assms(2) by (simp_all add: numbered_def)
  have len: "length (memory_log s (ra_scope a)) < 2 ^ 32" "distinct (memory_log s (ra_scope a))"
    using memory_inv_at [OF assms(1)] by blast+
  have "position (\<lambda>y. y = ra_request_id a) (memory_log s (ra_scope a)) = Some (k - 1)"
    using position_nth [OF len(2), of "k - 1"] k by simp
  moreover have "min k usize_max = k" "k < 2 ^ 32" using k len by (simp_all add: usize_max_def)
  ultimately show ?thesis
    using k by (simp add: memory_authorize_def Let_def memory_log_def [symmetric] u32_ordinal(1))
qed

lemma memory_authorize_fresh:
  assumes "memory_inv s" "ra_request_id a \<notin> set (memory_log s (ra_scope a))"
  shows "memory_authorize s a issue =
    (let s' = \<lambda>rs. s\<lparr> ml_requests := (ml_requests s)(ra_scope a \<mapsto> rs) \<rparr>; rs = memory_log s (ra_scope a) in
     case fresh_decision (length rs) (ra_maximum_successful_releases a) issue of
       Inl e \<Rightarrow> (Inl e, s' rs) | Inr (n, t) \<Rightarrow> (Inr t, s' (rs @ [ra_request_id a])))"
proof -
  have "length (memory_log s (ra_scope a)) < 2 ^ 32" using memory_inv_at [OF assms(1)] by blast
  note u = u32_ordinal [OF this]
  have "position (\<lambda>y. y = ra_request_id a) (memory_log s (ra_scope a)) = None"
    using assms(2) by (simp add: position_None)
  then show ?thesis
    by (simp add: memory_authorize_def Let_def memory_log_def [symmetric] fresh_decision_def u and_then_def
        split: sum.split)
qed

lemma fresh_decision_Inr:
  "fresh_decision n mx issue = Inr (i, t) \<longleftrightarrow>
     pred_option (\<lambda>m. n < unat m) mx \<and> Suc n < 2 ^ 32 \<and> issue (of_nat (Suc n)) = Inr t \<and> i = of_nat (Suc n)"
  by (auto simp: fresh_decision_def and_then_eq_Inr)

lemma numbered_mem: "numbered L a k \<Longrightarrow> ra_request_id a \<in> set (L (ra_scope a))"
  unfolding numbered_def by (metis Suc_pred' Suc_le_eq nth_mem)

interpretation mem: release_ledger "\<lambda>_ :: unit. memory_authorize" memory_log memory_inv
proof unfold_locales
  fix s sc assume "memory_inv s"
  then show "distinct (memory_log s sc) \<and> length (memory_log s sc) < 2 ^ 32" by (rule memory_inv_at)
next
  fix s a and issue :: "u32 \<Rightarrow> chain_error + 'b" and r s'
  assume inv: "memory_inv s" and step: "memory_authorize s a issue = (r, s')"
  show "memory_inv s'"
  proof (cases "ra_request_id a \<in> set (memory_log s (ra_scope a))")
    case True
    then obtain k where "numbered (memory_log s) a (Suc k)" by (auto simp: numbered_def in_set_conv_nth Suc_le_eq)
    with inv step show ?thesis by (auto simp: memory_authorize_replay memory_inv_def memory_log_entry
        simp del: split_paired_All)
  next
    case False
    with inv step show ?thesis
      by (auto simp: memory_authorize_fresh Let_def memory_inv_def memory_log_entry fresh_decision_Inr
          simp del: split_paired_All split: sum.splits)
  qed
next
  fix s a k and issue :: "u32 \<Rightarrow> chain_error + 'b" and r s'
  assume "memory_inv s" "numbered (memory_log s) a k"
  note replay = memory_authorize_replay [OF this, of issue]
  then show "fst (memory_authorize s a issue) = issue (of_nat k)" by simp
  assume "memory_authorize s a issue = (r, s')"
  with replay show "memory_log s' = memory_log s \<and> (r = issue (of_nat k) \<or> r = Inl ChainReleaseAuthorityUnavailable)"
    by (auto simp: memory_log_entry)
next
  fix s a and issue :: "u32 \<Rightarrow> chain_error + 'b" and t s'
  assume "memory_inv s" "ra_request_id a \<notin> set (memory_log s (ra_scope a))" "memory_authorize s a issue = (Inr t, s')"
  then show "memory_log s' = logged (memory_log s) a \<and> room (memory_log s) a \<and>
      issue (of_nat (Suc (length (memory_log s (ra_scope a))))) = Inr t"
    by (auto simp: memory_authorize_fresh Let_def memory_log_entry fresh_decision_Inr logged_def room_def
        split: sum.splits)
next
  fix s a and issue :: "u32 \<Rightarrow> chain_error + 'b" and e s'
  assume "memory_inv s" "memory_authorize s a issue = (Inl e, s')"
  then show "memory_log s' = memory_log s"
  proof (cases "ra_request_id a \<in> set (memory_log s (ra_scope a))")
    case True
    then obtain k where "numbered (memory_log s) a (Suc k)" by (auto simp: numbered_def in_set_conv_nth Suc_le_eq)
    with \<open>memory_inv s\<close> \<open>memory_authorize s a issue = (Inl e, s')\<close> show ?thesis
      by (auto simp: memory_authorize_replay memory_log_entry)
  next
    case False
    with \<open>memory_inv s\<close> \<open>memory_authorize s a issue = (Inl e, s')\<close> show ?thesis
      by (auto simp: memory_authorize_fresh Let_def memory_log_entry split: sum.splits)
  qed
  then show "memory_log s' = memory_log s \<or> memory_log s' = logged (memory_log s) a \<and> room (memory_log s) a \<and>
      e = ChainReleaseAuthorityUnavailable" by blast
qed

section \<open>The open file ledger\<close>

definition record_scope :: "ledger_record \<Rightarrow> release_scope" where
  "record_scope r = (lr_contract_id r, lr_proposal_id r)"

definition records_log :: "ledger_record list \<Rightarrow> ledger_log" where
  "records_log rs sc = map lr_request_id (filter (\<lambda>r. record_scope r = sc) rs)"

definition next_record :: "ledger_record list \<Rightarrow> ledger_record \<Rightarrow> bool" where
  "next_record rs r \<longleftrightarrow>
     lr_request_id r \<notin> set (records_log rs (record_scope r)) \<and>
     unat (lr_ordinal r) = Suc (length (records_log rs (record_scope r)))"

definition records_ok :: "ledger_record list \<Rightarrow> bool" where
  "records_ok rs \<longleftrightarrow> (\<forall>i < length rs. next_record (take i rs) (rs ! i))"

lemma records_ok_Nil [simp]: "records_ok []"
  by (simp add: records_ok_def)

lemma records_ok_snoc: "records_ok (rs @ [r]) \<longleftrightarrow> records_ok rs \<and> next_record rs r"
proof -
  have "(\<forall>i < Suc n. P i) \<longleftrightarrow> (\<forall>i < n. P i) \<and> P n" for n and P :: "nat \<Rightarrow> bool" by (auto simp: less_Suc_eq)
  then show ?thesis by (simp add: records_ok_def nth_append)
qed

lemma records_ok_take: "records_ok rs \<Longrightarrow> records_ok (take n rs)"
  by (simp add: records_ok_def min_def)

lemma records_log_snoc: "records_log (rs @ [r]) sc = records_log rs sc @ (if record_scope r = sc then [lr_request_id r] else [])"
  by (simp add: records_log_def)

lemma records_log_length: "length (records_log rs sc) \<le> length rs"
  by (simp add: records_log_def)

lemma records_ok_distinct: "records_ok rs \<Longrightarrow> distinct (records_log rs sc)"
  by (induction rs rule: rev_induct)
    (auto simp: records_ok_snoc records_log_snoc next_record_def records_log_def [of "[]"])

lemma record_matches_scope: "record_matches a r \<longleftrightarrow> record_scope r = ra_scope a"
  by (simp add: record_matches_def record_scope_def ra_scope_def)

lemma length_matching: "length (filter (record_matches a) rs) = length (records_log rs (ra_scope a))"
  by (simp add: records_log_def record_matches_scope [abs_def])

lemma find_append: "find p (xs @ ys) = (case find p xs of Some x \<Rightarrow> Some x | None \<Rightarrow> find p ys)"
  by (induction xs) simp_all

lemma find_fresh:
  "ra_request_id a \<notin> set (records_log rs (ra_scope a)) \<Longrightarrow>
   find (\<lambda>r. record_matches a r \<and> lr_request_id r = ra_request_id a) rs = None"
  by (force simp: find_None_iff records_log_def record_matches_scope)

lemma find_record:
  assumes "records_ok rs" "numbered (records_log rs) a k"
  shows "\<exists>r. find (\<lambda>r. record_matches a r \<and> lr_request_id r = ra_request_id a) rs = Some r \<and> unat (lr_ordinal r) = k"
  using assms
proof (induction rs rule: rev_induct)
  case Nil
  then show ?case by (auto simp: numbered_def records_log_def)
next
  case (snoc r rs)
  then have ok: "records_ok rs" "next_record rs r" by (simp_all add: records_ok_snoc)
  show ?case
  proof (cases "ra_request_id a \<in> set (records_log rs (ra_scope a))")
    case True
    then obtain j where j: "numbered (records_log rs) a (Suc j)"
      by (auto simp: numbered_def in_set_conv_nth Suc_le_eq)
    have "numbered (records_log (rs @ [r])) a (Suc j)"
      using j by (simp add: numbered_def records_log_snoc nth_append)
    moreover have "distinct (records_log (rs @ [r]) (ra_scope a))" using snoc.prems(1) by (rule records_ok_distinct)
    ultimately have "k = Suc j"
      using snoc.prems(2) unfolding numbered_def
      by (metis One_nat_def Suc_le_eq Suc_pred diff_Suc_1 nth_eq_iff_index_eq)
    with snoc.IH [OF ok(1)] j show ?thesis by (auto simp: find_append)
  next
    case False
    then have none: "find (\<lambda>r. record_matches a r \<and> lr_request_id r = ra_request_id a) rs = None"
      by (rule find_fresh)
    have "ra_request_id a \<in> set (records_log (rs @ [r]) (ra_scope a))"
      using snoc.prems(2) numbered_mem by blast
    with False have r: "record_scope r = ra_scope a" "lr_request_id r = ra_request_id a"
      by (auto simp: records_log_snoc split: if_splits)
    have "\<not> k \<le> length (records_log rs (ra_scope a))"
      using snoc.prems(2) False r unfolding numbered_def records_log_snoc
      by (metis Suc_le_eq Suc_pred' nth_append nth_mem)
    then have "k = Suc (length (records_log rs (ra_scope a)))"
      using snoc.prems(2) r by (simp add: numbered_def records_log_snoc)
    with none r ok(2) show ?thesis by (simp add: find_append record_matches_scope next_record_def)
  qed
qed

definition file_inv :: "file_release_ledger \<Rightarrow> bool" where
  "file_inv s \<longleftrightarrow> records_ok (fl_records s) \<and> length (fl_records s) \<le> MAX_RECORDS"

definition authorized_record :: "release_authorization \<Rightarrow> u32 \<Rightarrow> ledger_record" where
  "authorized_record a n = \<lparr> lr_contract_id = ra_contract_id a, lr_proposal_id = ra_proposal_id a,
     lr_request_id = ra_request_id a, lr_ordinal = n \<rparr>"

lemma file_authorize_replay:
  assumes "file_inv s" "numbered (records_log (fl_records s)) a k"
  shows "file_authorize H io s a issue = (issue (of_nat k), s)"
proof -
  obtain r where "find (\<lambda>r. record_matches a r \<and> lr_request_id r = ra_request_id a) (fl_records s) = Some r"
    and "unat (lr_ordinal r) = k"
    using find_record [OF _ assms(2)] assms(1) by (auto simp: file_inv_def)
  then show ?thesis by (auto simp: file_authorize_def)
qed

lemma file_authorize_fresh:
  assumes "file_inv s" "ra_request_id a \<notin> set (records_log (fl_records s) (ra_scope a))"
  shows "file_authorize H io s a issue =
    (if MAX_RECORDS \<le> length (fl_records s) then (Inl ChainReleaseAuthorityUnavailable, s)
     else case fresh_decision (length (records_log (fl_records s) (ra_scope a))) (ra_maximum_successful_releases a) issue of
       Inl e \<Rightarrow> (Inl e, s) | Inr (n, t) \<Rightarrow> append_record H io s (authorized_record a n) t)"
proof -
  have "length (records_log (fl_records s) (ra_scope a)) < 2 ^ 32"
    using assms(1) records_log_length [of "fl_records s" "ra_scope a"] by (simp add: file_inv_def MAX_RECORDS_def)
  note u = u32_ordinal [OF this]
  show ?thesis
    using find_fresh [OF assms(2)]
    by (simp add: file_authorize_def length_matching fresh_decision_def u and_then_def authorized_record_def
        split: sum.split)
qed

lemma append_record_cases:
  assumes "append_record H io s r t = (res, s')"
  obtains (Appended) "res = Inr t" "fl_records s' = fl_records s @ [r]"
      "fl_file s' = fl_file s @ record_body r @ record_digest H (fl_witness_id s) (fl_previous_digest s) (record_body r)"
      "fl_previous_digest s' = record_digest H (fl_witness_id s) (fl_previous_digest s) (record_body r)"
      "fl_witness_id s' = fl_witness_id s"
  | (Failed) n where "res = Inl ChainReleaseAuthorityUnavailable" "fl_records s' = fl_records s"
      "fl_file s' = fl_file s @ take n (record_body r @ record_digest H (fl_witness_id s) (fl_previous_digest s) (record_body r))"
      "fl_witness_id s' = fl_witness_id s"
proof (cases "io_ok io IoSeekEnd")
  case False
  show ?thesis by (rule Failed [of 0]) (use assms False in \<open>simp_all add: append_record_def Let_def\<close>)
next
  case True
  show ?thesis
  proof (cases "io_ok io IoAppend")
    case True
    show ?thesis
      by (rule Appended) (use assms True \<open>io_ok io IoSeekEnd\<close> in \<open>auto simp: append_record_def Let_def write_and_sync_def\<close>)
  next
    case False
    show ?thesis
      by (rule Failed [of "if io_ok io IoRollback \<or> io_truncated io then 0 else io_written io"])
        (use assms False \<open>io_ok io IoSeekEnd\<close> in
          \<open>auto simp: append_record_def Let_def write_and_sync_def set_len_def\<close>)
  qed
qed

lemma next_authorized:
  assumes "file_inv s" "ra_request_id a \<notin> set (records_log (fl_records s) (ra_scope a))"
    and "fresh_decision (length (records_log (fl_records s) (ra_scope a))) mx issue = Inr (n, t)"
  shows "next_record (fl_records s) (authorized_record a n)" "record_scope (authorized_record a n) = ra_scope a"
    "lr_request_id (authorized_record a n) = ra_request_id a"
proof -
  show sc: "record_scope (authorized_record a n) = ra_scope a" "lr_request_id (authorized_record a n) = ra_request_id a"
    by (simp_all add: authorized_record_def record_scope_def ra_scope_def)
  have "unat n = Suc (length (records_log (fl_records s) (ra_scope a)))"
    using assms(3) by (auto simp: fresh_decision_Inr unat_of_nat simp del: of_nat_Suc)
  then show "next_record (fl_records s) (authorized_record a n)"
    using assms(2) sc by (simp add: next_record_def authorized_record_def)
qed

lemma records_log_logged:
  "record_scope r = ra_scope a \<Longrightarrow> lr_request_id r = ra_request_id a \<Longrightarrow>
   records_log (rs @ [r]) = logged (records_log rs) a"
  by (rule ext) (simp add: records_log_snoc logged_def)

text \<open>What one authorization does to an open ledger: replay, refusal, or one more record.\<close>

lemma file_authorize_cases:
  assumes "file_inv s" "file_authorize H io s a issue = (r, s')"
  obtains (Replay) k where "numbered (records_log (fl_records s)) a k" "r = issue (of_nat k)" "s' = s"
  | (Refused) e where "ra_request_id a \<notin> set (records_log (fl_records s) (ra_scope a))" "r = Inl e" "s' = s"
  | (Append) n t where "ra_request_id a \<notin> set (records_log (fl_records s) (ra_scope a))"
      "length (fl_records s) < MAX_RECORDS" "room (records_log (fl_records s)) a"
      "issue (of_nat (Suc (length (records_log (fl_records s) (ra_scope a))))) = Inr t"
      "next_record (fl_records s) (authorized_record a n)"
      "records_log (fl_records s @ [authorized_record a n]) = logged (records_log (fl_records s)) a"
      "append_record H io s (authorized_record a n) t = (r, s')"
proof (cases "ra_request_id a \<in> set (records_log (fl_records s) (ra_scope a))")
  case True
  then obtain k where "numbered (records_log (fl_records s)) a (Suc k)"
    by (auto simp: numbered_def in_set_conv_nth Suc_le_eq)
  with file_authorize_replay [OF assms(1), of a "Suc k" H io issue] assms(2)
  show ?thesis by (intro Replay) auto
next
  case False
  note fresh = file_authorize_fresh [OF assms(1) False, of H io issue, unfolded assms(2)]
  show ?thesis
  proof (cases "fresh_decision (length (records_log (fl_records s) (ra_scope a))) (ra_maximum_successful_releases a) issue")
    case (Inl e)
    show ?thesis
      by (rule Refused [OF False, of "if MAX_RECORDS \<le> length (fl_records s) then ChainReleaseAuthorityUnavailable else e"])
        (use fresh Inl in \<open>simp_all split: if_splits\<close>)
  next
    case (Inr p)
    obtain n t where p: "p = (n, t)" by (cases p)
    show ?thesis
    proof (cases "MAX_RECORDS \<le> length (fl_records s)")
      case True
      show ?thesis by (rule Refused [OF False]) (use fresh True in simp_all)
    next
      case False
      have app: "append_record H io s (authorized_record a n) t = (r, s')" using fresh Inr p False by simp
      note n = next_authorized [OF assms(1) \<open>_ \<notin> _\<close> Inr [unfolded p]]
      show ?thesis
        by (rule Append [OF \<open>_ \<notin> _\<close> _ _ _ n(1) records_log_logged [OF n(2,3)] app])
          (use False Inr [unfolded p fresh_decision_Inr] in \<open>simp_all add: room_def\<close>)
    qed
  qed
qed

lemma file_inv_at: "file_inv s \<Longrightarrow> distinct (records_log (fl_records s) sc) \<and> length (records_log (fl_records s) sc) < 2 ^ 32"
  using records_ok_distinct [of "fl_records s" sc] records_log_length [of "fl_records s" sc]
  by (simp add: file_inv_def MAX_RECORDS_def)

lemma numbered_unique: "distinct (L (ra_scope a)) \<Longrightarrow> numbered L a j \<Longrightarrow> numbered L a k \<Longrightarrow> j = k"
  unfolding numbered_def
  by (metis Suc_pred' nth_eq_iff_index_eq Suc_le_eq)

interpretation filed: release_ledger "file_authorize H" "\<lambda>s. records_log (fl_records s)" file_inv for H
proof unfold_locales
  fix s :: file_release_ledger and sc assume "file_inv s"
  then show "distinct (records_log (fl_records s) sc) \<and> length (records_log (fl_records s) sc) < 2 ^ 32"
    by (rule file_inv_at)
next
  fix s :: file_release_ledger and a io and issue :: "u32 \<Rightarrow> chain_error + 'b" and r s'
  assume inv: "file_inv s" and step: "file_authorize H io s a issue = (r, s')"
  from inv step show "file_inv s'"
  proof (cases rule: file_authorize_cases)
    case (Append n t)
    from Append(7) show ?thesis
      by (cases rule: append_record_cases) (use Append inv in \<open>auto simp: file_inv_def records_ok_snoc\<close>)
  qed (use inv in auto)
next
  fix s :: file_release_ledger and a k io and issue :: "u32 \<Rightarrow> chain_error + 'b" and r s'
  assume "file_inv s" "numbered (records_log (fl_records s)) a k"
  note replay = file_authorize_replay [OF this, of H io issue]
  then show "fst (file_authorize H io s a issue) = issue (of_nat k)" by simp
  assume "file_authorize H io s a issue = (r, s')"
  with replay show "records_log (fl_records s') = records_log (fl_records s) \<and>
      (r = issue (of_nat k) \<or> r = Inl ChainReleaseAuthorityUnavailable)" by auto
next
  fix s :: file_release_ledger and a io and issue :: "u32 \<Rightarrow> chain_error + 'b" and t s'
  assume new: "ra_request_id a \<notin> set (records_log (fl_records s) (ra_scope a))"
  assume "file_inv s" "file_authorize H io s a issue = (Inr t, s')"
  then show "records_log (fl_records s') = logged (records_log (fl_records s)) a \<and> room (records_log (fl_records s)) a \<and>
      issue (of_nat (Suc (length (records_log (fl_records s) (ra_scope a))))) = Inr t"
  proof (cases rule: file_authorize_cases)
    case (Append n u)
    from Append(7) show ?thesis by (cases rule: append_record_cases) (use Append in auto)
  qed (use new numbered_mem in auto)
next
  fix s :: file_release_ledger and a io and issue :: "u32 \<Rightarrow> chain_error + 'b" and e s'
  assume "file_inv s" "file_authorize H io s a issue = (Inl e, s')"
  then show "records_log (fl_records s') = records_log (fl_records s)"
  proof (cases rule: file_authorize_cases)
    case (Append n u)
    from Append(7) show ?thesis by (cases rule: append_record_cases) auto
  qed auto
  then show "records_log (fl_records s') = records_log (fl_records s) \<or>
      records_log (fl_records s') = logged (records_log (fl_records s)) a \<and> room (records_log (fl_records s)) a \<and>
      e = ChainReleaseAuthorityUnavailable" by blast
qed

section \<open>The file\<close>

fun chain_bytes :: "blake3 \<Rightarrow> bytes \<Rightarrow> bytes \<Rightarrow> ledger_record list \<Rightarrow> bytes" where
  "chain_bytes H w prev [] = []"
| "chain_bytes H w prev (r # rs) =
     (let d = record_digest H w prev (record_body r) in record_body r @ d @ chain_bytes H w d rs)"

fun chain_digest :: "blake3 \<Rightarrow> bytes \<Rightarrow> bytes \<Rightarrow> ledger_record list \<Rightarrow> bytes" where
  "chain_digest H w prev [] = prev"
| "chain_digest H w prev (r # rs) = chain_digest H w (record_digest H w prev (record_body r)) rs"

definition wf_record :: "ledger_record \<Rightarrow> bool" where
  "wf_record r \<longleftrightarrow> length (lr_contract_id r) = 32 \<and> length (lr_proposal_id r) = 32 \<and> length (lr_request_id r) = 32"

abbreviation "zeros \<equiv> replicate 32 (0 :: u8)"

definition disk_of :: "blake3 \<Rightarrow> bytes \<Rightarrow> ledger_record list \<Rightarrow> bytes" where
  "disk_of H w rs = ledger_header w @ chain_bytes H w zeros rs"

lemma chain_snoc:
  "chain_digest H w p (rs @ [r]) = record_digest H w (chain_digest H w p rs) (record_body r)"
  "chain_bytes H w p (rs @ [r]) =
     chain_bytes H w p rs @ record_body r @ record_digest H w (chain_digest H w p rs) (record_body r)"
  by (induction rs arbitrary: p) (simp_all add: Let_def)

lemma length_record: "wf_record r \<Longrightarrow> length (record_body r) = 100"
  by (simp add: record_body_def wf_record_def)

lemma length_digest: "blake3_contract H \<Longrightarrow> length (record_digest H w p b) = 32"
  by (simp add: blake3_contract_def record_digest_def)

lemma length_chain:
  "blake3_contract H \<Longrightarrow> list_all wf_record rs \<Longrightarrow> length (chain_bytes H w p rs) = 132 * length rs"
  by (induction rs arbitrary: p) (simp_all add: Let_def length_record length_digest)

lemma length_header: "length w = 32 \<Longrightarrow> length (ledger_header w) = 38"
  by (simp add: ledger_header_def LEDGER_MAGIC_def)

lemma length_disk_of:
  "blake3_contract H \<Longrightarrow> list_all wf_record rs \<Longrightarrow> length w = 32 \<Longrightarrow> length (disk_of H w rs) = 38 + 132 * length rs"
  by (simp add: disk_of_def length_chain length_header)

lemma array_at_body:
  assumes "wf_record r"
  shows "array_at 32 (record_body r) 0 = Inr (lr_contract_id r)" "array_at 32 (record_body r) 32 = Inr (lr_proposal_id r)"
    "array_at 32 (record_body r) 64 = Inr (lr_request_id r)"
    "array_at 4 (record_body r) 96 = Inr (u32_to_be_bytes (lr_ordinal r))"
  using assms
  by (simp_all add: array_at_def record_body_def wf_record_def slice_get_def array_of_slice_def
      usize_checked_add_def usize_max_def)

lemma parse_record_step:
  assumes bs: "bs = pre @ record_body r @ record_digest H w prev (record_body r) @ post"
    and pre: "length pre = 38 + 132 * i" "i \<le> 65536" and r: "wf_record r" "next_record rs r" "length rs \<le> 65536"
    and H: "blake3_contract H"
  shows "parse_record H bs w (rs, prev) i = Inr (rs @ [r], record_digest H w prev (record_body r))"
proof -
  let ?d = "record_digest H w prev (record_body r)"
  have sl: "slice_get (38 + i * 132) (138 + i * 132) bs = Some (record_body r)"
    "slice_get (138 + i * 132) (170 + i * 132) bs = Some ?d"
    using slice_get_append [of pre "38 + i * 132" "138 + i * 132" "record_body r" "?d @ post"]
      slice_get_append [of "pre @ record_body r" "138 + i * 132" "170 + i * 132" ?d post]
      length_record [OF r(1)] length_digest [OF H] pre by (simp_all add: bs)
  have ch: "usize_checked_mul i 132 = Some (i * 132)" "usize_checked_add 38 (i * 132) = Some (38 + i * 132)"
    "usize_checked_add (38 + i * 132) 100 = Some (138 + i * 132)"
    "usize_checked_add (138 + i * 132) 32 = Some (170 + i * 132)"
    using pre by (simp_all add: usize_checked_mul_def usize_checked_add_def usize_max_def)
  have n: "length (filter (\<lambda>c. same_scope c r) rs) = length (records_log rs (record_scope r))"
    by (simp add: records_log_def same_scope_def record_scope_def)
  have "length (records_log rs (record_scope r)) + 1 \<le> usize_max"
    using records_log_length [of rs "record_scope r"] r(3) by (simp add: usize_max_def)
  then have add: "usize_checked_add (length (records_log rs (record_scope r))) 1 =
      Some (length (records_log rs (record_scope r)) + 1)" by (rule usize_checked_add_ok)
  have ord: "try_from_usize ChainReleaseAuthorityUnavailable (length (records_log rs (record_scope r)) + 1) =
      Inr (lr_ordinal r)"
    using r(2) by (simp only: try_from_usize_eq_Inr) (simp add: next_record_def)
  have dup: "\<not> list_ex (\<lambda>c. same_scope c r \<and> lr_request_id c = lr_request_id r) rs"
  proof -
    have "list_ex (\<lambda>c. same_scope c r \<and> lr_request_id c = lr_request_id r) rs \<longleftrightarrow>
        lr_request_id r \<in> set (records_log rs (record_scope r))"
      by (auto simp: records_log_def list_ex_iff same_scope_def record_scope_def image_iff)
    then show ?thesis using r(2) by (simp add: next_record_def)
  qed
  have ss: "same_scope c \<lparr> lr_contract_id = lr_contract_id r, lr_proposal_id = lr_proposal_id r,
      lr_request_id = lr_request_id r, lr_ordinal = y \<rparr> = same_scope c r" for c y
    by (simp add: same_scope_def)
  show ?thesis
    by (simp add: parse_record_def HEADER_BYTES_def RECORD_BYTES_def RECORD_BODY_BYTES_def ch sl array_at_body r
        array_of_slice_def length_digest H Let_def ss n add ord dup del: One_nat_def)
qed

lemma chain_take:
  assumes "i < length rs"
  shows "chain_bytes H w p rs = chain_bytes H w p (take i rs) @ record_body (rs ! i) @
    record_digest H w (chain_digest H w p (take i rs)) (record_body (rs ! i)) @
    chain_bytes H w (chain_digest H w p (take (Suc i) rs)) (drop (Suc i) rs)"
  using assms
proof (induction rs arbitrary: i p)
  case (Cons r rs)
  then show ?case by (cases i) (simp_all add: Let_def)
qed simp

lemma list_all_take: "list_all P xs \<Longrightarrow> list_all P (take n xs)"
  by (metis append_take_drop_id list_all_append)

text \<open>A ledger of valid records, also one with a torn last record, is parsed to exactly these records.\<close>

lemma parse_disk:
  assumes H: "blake3_contract H" and w: "length w = 32"
    and rs: "records_ok rs" "list_all wf_record rs" "length rs \<le> MAX_RECORDS" and tail: "length tail < 132"
  shows "parse_ledger H (disk_of H w rs @ tail) w =
    Inr \<lparr> pl_records = rs, pl_previous_digest = chain_digest H w zeros rs, pl_complete_length = length (disk_of H w rs) \<rparr>"
proof -
  let ?bs = "disk_of H w rs @ tail"
  have len: "length (disk_of H w rs) = 38 + 132 * length rs" using H w rs(2) by (simp add: length_disk_of)
  have hd: "slice_get 0 4 ?bs = Some LEDGER_MAGIC" "slice_get 4 6 ?bs = Some (u16_to_be_bytes LEDGER_VERSION)"
    "slice_get 6 38 ?bs = Some w"
    using w len by (simp_all add: slice_get_def disk_of_def ledger_header_def LEDGER_MAGIC_def)
  have n: "(length ?bs - 38) div 132 = length rs" using len tail by simp
  have step: "parse_record H ?bs w (take i rs, chain_digest H w zeros (take i rs)) i =
      Inr (take (Suc i) rs, chain_digest H w zeros (take (Suc i) rs))" if i: "i < length rs" for i
  proof -
    let ?pre = "ledger_header w @ chain_bytes H w zeros (take i rs)"
    have 1: "?bs = ?pre @ record_body (rs ! i) @
        record_digest H w (chain_digest H w zeros (take i rs)) (record_body (rs ! i)) @
        chain_bytes H w (chain_digest H w zeros (take (Suc i) rs)) (drop (Suc i) rs) @ tail"
      using chain_take [OF i] by (simp add: disk_of_def)
    have 2: "length ?pre = 38 + 132 * i"
      using w H i list_all_take [OF rs(2), of i] by (simp add: length_header length_chain)
    have 3: "wf_record (rs ! i)" "next_record (take i rs) (rs ! i)"
      using rs(1,2) i by (simp_all add: records_ok_def list_all_length)
    have 4: "i \<le> 65536" "length (take i rs) \<le> 65536" using rs(3) i by (simp_all add: MAX_RECORDS_def)
    show ?thesis
      using parse_record_step [OF 1 2 4(1) 3 4(2) H] by (simp only: take_Suc_conv_app_nth [OF i] chain_snoc)
  qed
  have "try_fold (parse_record H ?bs w) ([], zeros) [0..<k] = Inr (take k rs, chain_digest H w zeros (take k rs))"
    if "k \<le> length rs" for k
    using that by (induction k) (simp_all add: try_fold_append step)
  from this [of "length rs"] have fold: "try_fold (parse_record H ?bs w) ([], zeros) [0..<length rs] =
      Inr (rs, chain_digest H w zeros rs)" by simp
  have "usize_checked_mul (length rs) 132 = Some (length rs * 132)" "38 + length rs * 132 \<le> usize_max"
    using rs(3) by (simp_all add: usize_checked_mul_def usize_max_def MAX_RECORDS_def)
  then show ?thesis
    using hd n fold rs(3) len
    by (simp add: usize_checked_add_ok mult.commute parse_ledger_def Let_def HEADER_BYTES_def RECORD_BYTES_def RECORD_BODY_BYTES_def)
qed

text \<open>
  The files that can be on disk: nothing, a header cut short, or a header, valid records and less than
  one more record.
\<close>

definition disk_holds :: "blake3 \<Rightarrow> bytes \<Rightarrow> ledger_record list \<Rightarrow> bytes \<Rightarrow> bool" where
  "disk_holds H w rs d \<longleftrightarrow>
     records_ok rs \<and> list_all wf_record rs \<and> length rs \<le> MAX_RECORDS \<and>
     (\<exists>tail. d = disk_of H w rs @ tail \<and> length tail < 132 \<and> (tail = [] \<or> length rs < MAX_RECORDS))"

definition disk_torn :: "bytes \<Rightarrow> bytes \<Rightarrow> bool" where
  "disk_torn w d \<longleftrightarrow> (\<exists>n < 38. d = take n (ledger_header w))"

definition disk_inv :: "blake3 \<Rightarrow> bytes \<Rightarrow> bytes \<Rightarrow> bool" where
  "disk_inv H w d \<longleftrightarrow> blake3_contract H \<and> length w = 32 \<and> (disk_torn w d \<or> (\<exists>rs. disk_holds H w rs d))"

definition disk_log :: "blake3 \<Rightarrow> bytes \<Rightarrow> bytes \<Rightarrow> ledger_log" where
  "disk_log H w d = (case parse_ledger H d w of Inl _ \<Rightarrow> (\<lambda>_. []) | Inr p \<Rightarrow> records_log (pl_records p))"

lemma disk_log_holds:
  "blake3_contract H \<Longrightarrow> length w = 32 \<Longrightarrow> disk_holds H w rs d \<Longrightarrow> disk_log H w d = records_log rs"
  unfolding disk_holds_def disk_log_def by (elim conjE exE) (simp only: parse_disk, simp)

lemma parse_torn: "length w = 32 \<Longrightarrow> disk_torn w d \<Longrightarrow> parse_ledger H d w = Inl ChainReleaseAuthorityUnavailable"
  by (auto simp: disk_torn_def parse_ledger_def HEADER_BYTES_def length_header)

lemma disk_log_torn: "length w = 32 \<Longrightarrow> disk_torn w d \<Longrightarrow> disk_log H w d = (\<lambda>_. [])"
  by (simp add: disk_log_def parse_torn)

lemma torn_Nil [simp]: "disk_torn w []"
  by (auto simp: disk_torn_def intro!: exI [of _ 0])

lemma holds_empty: "length w = 32 \<Longrightarrow> disk_holds H w [] (ledger_header w)"
  by (simp add: disk_holds_def disk_of_def)

lemma holds_exact:
  "disk_holds H w rs d \<Longrightarrow> disk_holds H w rs (disk_of H w rs)"
  by (auto simp: disk_holds_def)

lemma ledger_limit:
  "usize_checked_mul RECORD_BYTES MAX_RECORDS = Some 8650752" "usize_checked_add HEADER_BYTES 8650752 = Some 8650790"
  by (simp_all add: usize_checked_mul_def usize_checked_add_def usize_max_def ledger_constants)

definition opened :: "blake3 \<Rightarrow> bytes \<Rightarrow> ledger_record list \<Rightarrow> file_release_ledger" where
  "opened H w rs = \<lparr> fl_file = disk_of H w rs, fl_witness_id = w, fl_records = rs,
     fl_previous_digest = chain_digest H w zeros rs \<rparr>"

text \<open>Reading a file that already has its header.\<close>

lemma open_holds_eq:
  assumes H: "blake3_contract H" and w: "length w = 32" and d: "disk_holds H w rs d" and "d \<noteq> []"
  shows "ledger_open H io d w =
    (if \<not> list_all (io_ok io) [IoFileName, IoOpenDir, IoOpenFile, IoLock, IoPermissions, IoMetadata, IoIsFile] \<or>
        \<not> io_ok io IoSeekStart \<or> \<not> io_ok io IoRead then (Inl ChainReleaseAuthorityUnavailable, d)
     else if d = disk_of H w rs \<or> io_ok io IoTruncate then (Inr (opened H w rs), disk_of H w rs)
     else (Inl ChainReleaseAuthorityUnavailable, if io_truncated io then disk_of H w rs else d))"
proof -
  from d obtain tail where rs: "records_ok rs" "list_all wf_record rs" "length rs \<le> MAX_RECORDS"
    and tail: "d = disk_of H w rs @ tail" "length tail < 132" "tail = [] \<or> length rs < MAX_RECORDS"
    by (auto simp: disk_holds_def)
  have "length (disk_of H w rs) = 38 + 132 * length rs" using length_disk_of [OF H rs(2) w] .
  then have len: "length d \<le> 8650790" using tail rs(3) by (auto simp: MAX_RECORDS_def)
  then have take_all: "take 8650791 d = d" by simp
  have parse: "parse_ledger H d w = Inr \<lparr> pl_records = rs, pl_previous_digest = chain_digest H w zeros rs,
      pl_complete_length = length (disk_of H w rs) \<rparr>"
    unfolding tail(1) by (rule parse_disk [OF H w rs tail(2)])
  have tk: "take (length (disk_of H w rs)) d = disk_of H w rs" by (simp add: tail(1))
  have "length (disk_of H w rs) = length d \<longleftrightarrow> d = disk_of H w rs" by (simp add: tail(1))
  then show ?thesis
    using len \<open>d \<noteq> []\<close> by (simp add: ledger_open_def ledger_limit take_all parse set_len_def tk opened_def)
qed

lemma open_holds:
  assumes "blake3_contract H" "length w = 32" "disk_holds H w rs d" "d \<noteq> []"
  shows "fst (ledger_open H io d w) = Inr (opened H w rs) \<and> snd (ledger_open H io d w) = disk_of H w rs \<or>
    fst (ledger_open H io d w) = Inl ChainReleaseAuthorityUnavailable \<and> disk_holds H w rs (snd (ledger_open H io d w))"
  using assms(3) holds_exact [OF assms(3)] by (simp add: open_holds_eq [OF assms])

lemma header_nonempty: "ledger_header w \<noteq> []"
  by (simp add: ledger_header_def LEDGER_MAGIC_def ascii_def)

lemma open_fine:
  assumes "blake3_contract H" "length w = 32" "disk_holds H w rs d \<or> d = [] \<and> rs = []" "\<forall>c. io_ok io c"
  shows "ledger_open H io d w = (Inr (opened H w rs), disk_of H w rs)"
proof (cases "d = []")
  case False
  with assms(3,4) show ?thesis by (simp add: open_holds_eq [OF assms(1,2)])
next
  case True
  have "disk_of H w rs \<noteq> []" by (simp add: disk_of_def header_nonempty)
  with assms(3) True have "rs = []" by (auto simp: disk_holds_def)
  moreover have "ledger_open H io [] w = ledger_open H io (ledger_header w) w"
    using assms(4) header_nonempty by (simp add: ledger_open_def write_and_sync_def)
  ultimately show ?thesis
    using True assms(4) by (simp add: open_holds_eq [OF assms(1,2) holds_empty [OF assms(2)] header_nonempty])
qed

lemma open_empty:
  assumes H: "blake3_contract H" and w: "length w = 32"
  shows "fst (ledger_open H io [] w) = Inr (opened H w []) \<and> snd (ledger_open H io [] w) = disk_of H w [] \<or>
    fst (ledger_open H io [] w) = Inl ChainReleaseAuthorityUnavailable \<and>
      (disk_torn w (snd (ledger_open H io [] w)) \<or> disk_holds H w [] (snd (ledger_open H io [] w)))"
proof (cases "io_ok io IoWriteHeader")
  case True
  have ne: "ledger_header w \<noteq> []" by (rule header_nonempty)
  have eq: "ledger_open H io [] w = ledger_open H io (ledger_header w) w \<or>
      ledger_open H io [] w = (Inl ChainReleaseAuthorityUnavailable, ledger_header w) \<or>
      ledger_open H io [] w = (Inl ChainReleaseAuthorityUnavailable, [])"
    using True ne by (simp add: ledger_open_def write_and_sync_def)
  have "disk_torn w []" by (auto simp: disk_torn_def intro!: exI [of _ 0])
  with eq open_holds [OF H w holds_empty [OF w] ne, of io] holds_empty [OF w] show ?thesis by auto
next
  case False
  have "disk_torn w (take n (ledger_header w)) \<or> disk_holds H w [] (take n (ledger_header w))" for n
    using holds_empty [OF w, of H] by (cases "n < 38") (auto simp: disk_torn_def length_header w)
  from this [of "io_written io"] this [of 0] show ?thesis
    using False by (simp add: ledger_open_def write_and_sync_def)
qed

lemma open_torn:
  assumes "length w = 32" "disk_torn w d" "d \<noteq> []"
  shows "ledger_open H io d w = (Inl ChainReleaseAuthorityUnavailable, d)"
proof -
  have "length d \<le> 8650790" using assms by (auto simp: disk_torn_def length_header)
  then show ?thesis
    using assms parse_torn [OF assms(1,2), of H] by (simp add: ledger_open_def ledger_limit)
qed

section \<open>Restarts and crashes\<close>

lemma session_cases:
  assumes inv: "disk_inv H w d" and run: "grant_session H w io d a issue = (r, d')"
  obtains (Failed) "r = Inl ChainReleaseAuthorityUnavailable" "disk_inv H w d'" "disk_log H w d' = disk_log H w d"
  | (Ran) rs s' where "disk_holds H w rs (disk_of H w rs)" "disk_log H w d = records_log rs"
      "file_authorize H io (opened H w rs) a issue = (r, s')" "d' = fl_file s'"
proof -
  have H: "blake3_contract H" and w: "length w = 32" using inv by (simp_all add: disk_inv_def)
  obtain lo where lo: "ledger_open H io d w = lo" by simp
  have "fst lo = Inl ChainReleaseAuthorityUnavailable \<and> disk_inv H w (snd lo) \<and> disk_log H w (snd lo) = disk_log H w d \<or>
      (\<exists>rs. fst lo = Inr (opened H w rs) \<and> disk_holds H w rs (disk_of H w rs) \<and> disk_log H w d = records_log rs)"
  proof (cases "disk_torn w d")
    case True
    have log: "disk_log H w d = records_log []"
      using disk_log_torn [OF w True] by (simp add: records_log_def [abs_def])
    show ?thesis
    proof (cases "d = []")
      case True
      then show ?thesis
        using open_empty [OF H w, of io] lo log disk_log_torn [OF w] disk_log_holds [OF H w] holds_exact [OF holds_empty [OF w]]
        by (auto simp: disk_inv_def H w records_log_def [abs_def])
    next
      case False
      with open_torn [OF w True False] inv lo show ?thesis by auto
    qed
  next
    case False
    with inv obtain rs where rs: "disk_holds H w rs d" by (auto simp: disk_inv_def)
    moreover from this False have "d \<noteq> []" by auto
    ultimately show ?thesis
      using open_holds [OF H w, of rs d io] lo disk_log_holds [OF H w] holds_exact [OF rs]
      by (auto simp: disk_inv_def H w)
  qed
  then show ?thesis
  proof (elim disjE exE conjE)
    assume "fst lo = Inl ChainReleaseAuthorityUnavailable" "disk_inv H w (snd lo)" "disk_log H w (snd lo) = disk_log H w d"
    then show ?thesis using run Failed by (cases lo) (auto simp: grant_session_def lo)
  next
    fix rs
    assume *: "fst lo = Inr (opened H w rs)" "disk_holds H w rs (disk_of H w rs)" "disk_log H w d = records_log rs"
    obtain q s' where q: "file_authorize H io (opened H w rs) a issue = (q, s')" by fastforce
    from * run q have "r = q" "d' = fl_file s'" by (cases lo; simp add: grant_session_def lo)+
    with Ran * q show ?thesis by blast
  qed
qed

text \<open>One session, whatever the file system does: it keeps the log or appends the request, within the limit.\<close>

lemma session_effect:
  assumes inv: "disk_inv H w d" and a: "wf_authorization a" and run: "grant_session H w io d a issue = (r, d')"
  shows "disk_inv H w d' \<and>
    (disk_log H w d' = disk_log H w d \<and>
       (r = Inl ChainReleaseAuthorityUnavailable \<or> (\<exists>k. numbered (disk_log H w d) a k \<and> r = issue (of_nat k)) \<or>
        ra_request_id a \<notin> set (disk_log H w d (ra_scope a)) \<and> \<not> is_ok r) \<or>
     ra_request_id a \<notin> set (disk_log H w d (ra_scope a)) \<and> disk_log H w d' = logged (disk_log H w d) a \<and>
       room (disk_log H w d) a \<and>
       (r = Inl ChainReleaseAuthorityUnavailable \<or>
        is_ok r \<and> r = issue (of_nat (Suc (length (disk_log H w d (ra_scope a)))))))"
  using inv run
proof (cases rule: session_cases)
  case Failed
  then show ?thesis by simp
next
  case (Ran rs s')
  have H: "blake3_contract H" and w: "length w = 32" using inv by (simp_all add: disk_inv_def)
  have rs: "records_ok rs" "list_all wf_record rs" "length rs \<le> MAX_RECORDS" using Ran(1) by (auto simp: disk_holds_def)
  have op: "fl_records (opened H w rs) = rs" "fl_file (opened H w rs) = disk_of H w rs"
    "fl_witness_id (opened H w rs) = w" "fl_previous_digest (opened H w rs) = chain_digest H w zeros rs"
    by (simp_all add: opened_def)
  have fi: "file_inv (opened H w rs)" using rs by (simp add: file_inv_def op)
  have same: "disk_inv H w (disk_of H w rs)" "disk_log H w (disk_of H w rs) = disk_log H w d"
    using Ran(1,2) disk_log_holds [OF H w Ran(1)] H w by (auto simp: disk_inv_def)
  from fi Ran(3) show ?thesis
  proof (cases rule: file_authorize_cases)
    case (Replay k)
    then show ?thesis using same Ran(2,4) op by auto
  next
    case (Refused e)
    then show ?thesis using same Ran(2,4) op by auto
  next
    case (Append n t)
    let ?r = "authorized_record a n"
    let ?bs = "record_body ?r @ record_digest H w (chain_digest H w zeros rs) (record_body ?r)"
    have r: "wf_record ?r" using a by (simp add: wf_record_def authorized_record_def wf_authorization_def)
    have full: "disk_of H w rs @ ?bs = disk_of H w (rs @ [?r])" by (simp add: disk_of_def chain_snoc)
    have len: "length ?bs = 132" using length_record [OF r] length_digest [OF H] by simp
    have "disk_holds H w (rs @ [?r]) (disk_of H w (rs @ [?r]))"
      using rs r Append by (simp add: disk_holds_def records_ok_snoc op)
    then have more: "disk_inv H w (disk_of H w (rs @ [?r]))"
      "disk_log H w (disk_of H w (rs @ [?r])) = logged (disk_log H w d) a"
      using disk_log_holds [OF H w] Append(6) Ran(2) H w op by (auto simp: disk_inv_def)
    have torn: "disk_holds H w rs (disk_of H w rs @ take m ?bs)" if "m < 132" for m
      using rs Append(2) that len by (auto simp: disk_holds_def op)
    from Append(7) show ?thesis
    proof (cases rule: append_record_cases)
      case Appended
      then show ?thesis using more Append Ran(2,4) full op by simp
    next
      case (Failed m)
      show ?thesis
      proof (cases "m < 132")
        case True
        with Failed Ran(4) op have "d' = disk_of H w rs @ take m ?bs" by simp
        with torn [OF True] disk_log_holds [OF H w] H w Ran(2) Failed(1) show ?thesis by (auto simp: disk_inv_def)
      next
        case False
        with len have "take m ?bs = ?bs" by simp
        with Failed Ran(4) op full have "d' = disk_of H w (rs @ [?r])" by simp
        with more Append Failed(1) Ran(2) op show ?thesis by simp
      qed
    qed
  qed
qed

lemma disk_inv_at:
  assumes "disk_inv H w d"
  shows "distinct (disk_log H w d sc) \<and> length (disk_log H w d sc) < 2 ^ 32"
proof (cases "disk_torn w d")
  case True
  then show ?thesis using assms disk_log_torn by (simp add: disk_inv_def)
next
  case False
  with assms obtain rs where rs: "disk_holds H w rs d" and "blake3_contract H" "length w = 32" by (auto simp: disk_inv_def)
  then have "disk_log H w d = records_log rs" by (simp add: disk_log_holds)
  moreover have "file_inv (opened H w rs)" using rs by (auto simp: file_inv_def opened_def disk_holds_def)
  ultimately show ?thesis using file_inv_at [of "opened H w rs" sc] by (simp add: opened_def)
qed

interpretation disk: durable_ledger "grant_session H w" "disk_log H w" "disk_inv H w" for H w
proof unfold_locales
  fix d sc assume "disk_inv H w d"
  then show "distinct (disk_log H w d sc) \<and> length (disk_log H w d sc) < 2 ^ 32" by (rule disk_inv_at)
next
  fix d a io and issue :: "u32 \<Rightarrow> chain_error + 'b" and r d'
  assume "disk_inv H w d" "wf_authorization a" "grant_session H w io d a issue = (r, d')"
  then show "disk_inv H w d'" using session_effect by blast
next
  fix d a k io and issue :: "u32 \<Rightarrow> chain_error + 'b" and r d'
  assume inv: "disk_inv H w d" and "wf_authorization a" "grant_session H w io d a issue = (r, d')"
    and k: "numbered (disk_log H w d) a k"
  moreover have "j = k" if "numbered (disk_log H w d) a j" for j
    using numbered_unique [of "disk_log H w d" a] disk_inv_at [OF inv] that k by blast
  ultimately show "disk_log H w d' = disk_log H w d \<and> (r = issue (of_nat k) \<or> r = Inl ChainReleaseAuthorityUnavailable)"
    using session_effect numbered_mem [OF k] by (metis (no_types, lifting))
next
  fix d a io and issue :: "u32 \<Rightarrow> chain_error + 'b" and t d'
  assume "disk_inv H w d" "wf_authorization a" "ra_request_id a \<notin> set (disk_log H w d (ra_scope a))"
    "grant_session H w io d a issue = (Inr t, d')"
  then show "disk_log H w d' = logged (disk_log H w d) a \<and> room (disk_log H w d) a \<and>
      issue (of_nat (Suc (length (disk_log H w d (ra_scope a))))) = Inr t"
    using session_effect [of H w d a io issue "Inr t" d'] numbered_mem by fastforce
next
  fix d a io and issue :: "u32 \<Rightarrow> chain_error + 'b" and e d'
  assume "disk_inv H w d" "wf_authorization a" "ra_request_id a \<notin> set (disk_log H w d (ra_scope a))"
    "grant_session H w io d a issue = (Inl e, d')"
  then show "disk_log H w d' = disk_log H w d \<or> disk_log H w d' = logged (disk_log H w d) a \<and> room (disk_log H w d) a \<and>
      e = ChainReleaseAuthorityUnavailable"
    using session_effect [of H w d a io issue "Inl e" d'] by auto
qed

lemma session_replay:
  assumes "blake3_contract H" "length w = 32" "disk_holds H w rs d" "d \<noteq> []" "numbered (records_log rs) a k"
    and "list_all (io_ok io) [IoFileName, IoOpenDir, IoOpenFile, IoLock, IoPermissions, IoMetadata, IoIsFile,
      IoSeekStart, IoRead, IoTruncate]"
  shows "grant_session H w io d a issue = (issue (of_nat k), disk_of H w rs)"
proof -
  have "ledger_open H io d w = (Inr (opened H w rs), disk_of H w rs)"
    using assms(6) by (simp add: open_holds_eq [OF assms(1-4)])
  moreover have "file_inv (opened H w rs)" using assms(3) by (auto simp: file_inv_def opened_def disk_holds_def)
  ultimately show ?thesis
    using assms(5) file_authorize_replay [of "opened H w rs" a k H io issue]
    by (simp add: grant_session_def opened_def)
qed

lemma session_fresh:
  assumes "blake3_contract H" "length w = 32" "disk_holds H w rs d \<or> d = [] \<and> rs = []" "length rs < MAX_RECORDS"
    and "\<forall>c. io_ok io c" "ra_request_id a \<notin> set (records_log rs (ra_scope a))" "room (records_log rs) a"
    and "n = Suc (length (records_log rs (ra_scope a)))"
  shows "grant_session H w io d a issue =
    (issue (of_nat n), disk_of H w (if is_ok (issue (of_nat n)) then rs @ [authorized_record a (of_nat n)] else rs))"
proof -
  have rs: "records_ok rs \<and> length rs \<le> MAX_RECORDS" using assms(3,4) by (auto simp: disk_holds_def)
  then have inv: "file_inv (opened H w rs)" by (simp add: file_inv_def opened_def)
  have new: "ra_request_id a \<notin> set (records_log (fl_records (opened H w rs)) (ra_scope a))"
    using assms(6) by (simp add: opened_def)
  have "length (records_log rs (ra_scope a)) + 1 < 2 ^ 32"
    using records_log_length [of rs "ra_scope a"] assms(4) by (simp add: MAX_RECORDS_def)
  then have "fresh_decision (length (records_log rs (ra_scope a))) (ra_maximum_successful_releases a) issue =
      and_then (issue (of_nat n)) (\<lambda>t. Inr (of_nat n, t))"
    using assms(7,8) by (simp add: fresh_decision_def room_def)
  then show ?thesis
    using assms(4,5) file_authorize_fresh [OF inv new, of H io issue]
    by (cases "issue (of_nat n)")
      (simp_all add: grant_session_def open_fine [OF assms(1,2,3,5)] opened_def append_record_def write_and_sync_def
        disk_of_def chain_snoc Let_def)
qed

lemma session_exhausted:
  assumes "blake3_contract H" "length w = 32" "disk_holds H w rs d" "length rs < MAX_RECORDS"
    and "\<forall>c. io_ok io c" "ra_request_id a \<notin> set (records_log rs (ra_scope a))" "\<not> room (records_log rs) a"
  shows "grant_session H w io d a issue = (Inl ChainReleaseLimitReached, disk_of H w rs)"
proof -
  have "file_inv (opened H w rs)" using assms(3) by (auto simp: file_inv_def opened_def disk_holds_def)
  moreover have "fl_records (opened H w rs) = rs" "fl_file (opened H w rs) = disk_of H w rs" by (simp_all add: opened_def)
  ultimately show ?thesis
    using assms file_authorize_fresh [of "opened H w rs" a H io issue]
    by (simp add: grant_session_def open_fine [OF assms(1,2) disjI1 [OF assms(3)] assms(5)] fresh_decision_def room_def)
qed

section \<open>Properties of release ledgers\<close>

lemma run_success:
  assumes "blake3_contract H" "length w = 32" "\<forall>(io, a, issue) \<in> set es. wf_authorization a"
    and "ledger_run (grant_session H w) [] es = (rs, d)"
    and "i < length es" "es ! i = (io, a, issue)" "rs ! i = Inr t"
  shows "\<exists>k. numbered (disk_log H w d) a k \<and> issue (of_nat k) = Inr t"
proof -
  have "disk_inv H w []" using assms(1,2) by (simp add: disk_inv_def)
  from disk.run_numbered [OF this assms(3,4)] have
    "list_all2 (\<lambda>(io, a, issue) r. \<forall>t. r = Inr t \<longrightarrow> (\<exists>k. numbered (disk_log H w d) a k \<and> issue (of_nat k) = Inr t)) es rs"
    by blast
  from list_all2_nthD [OF this assms(5)] show ?thesis by (simp add: assms(6,7))
qed

definition sample_authorization :: "u8 \<Rightarrow> release_authorization" where
  "sample_authorization n = \<lparr> ra_contract_id = replicate 32 1, ra_proposal_id = replicate 32 2,
     ra_request_id = replicate 32 n, ra_maximum_successful_releases = Some 1 \<rparr>"

definition io_fine :: ledger_io where
  "io_fine = \<lparr> io_ok = (\<lambda>_. True), io_written = 0, io_truncated = False \<rparr>"

definition sample_sessions :: "(ledger_io \<times> release_authorization \<times> (u32 \<Rightarrow> chain_error + u32)) list" where
  "sample_sessions = [(io_fine, sample_authorization 3, Inr),
     (io_fine\<lparr> io_ok := (\<lambda>c. c \<noteq> IoAppend \<and> c \<noteq> IoRollback), io_written := 50 \<rparr>, sample_authorization 3, Inr),
     (io_fine, sample_authorization 4, Inr)]"

lemma sample_sessions_wf: "\<forall>(io, a, issue) \<in> set sample_sessions. wf_authorization a"
  by (simp add: sample_sessions_def wf_authorization_def sample_authorization_def)

lemma sample_run:
  "fst (ledger_run (grant_session sample_hash (replicate 32 4)) [] sample_sessions) =
     [Inr 1, Inr 1, Inl ChainReleaseLimitReached]"
proof -
  let ?w = "replicate 32 4 :: bytes" and ?a = "sample_authorization 3" and ?b = "sample_authorization 4"
  let ?r = "authorized_record ?a 1" and ?io = "io_fine\<lparr> io_ok := (\<lambda>c. c \<noteq> IoAppend \<and> c \<noteq> IoRollback), io_written := 50 \<rparr>"
  have nil: "records_log [] sc = []" for sc by (simp add: records_log_def)
  have log: "records_log [?r] (ra_scope ?a) = [replicate 32 3]" "ra_scope ?b = ra_scope ?a"
    by (simp_all add: records_log_def authorized_record_def sample_authorization_def record_scope_def ra_scope_def)
  have r: "disk_holds sample_hash ?w [?r] (disk_of sample_hash ?w [?r])"
  proof -
    have "records_ok ([] @ [?r])"
      unfolding records_ok_snoc by (simp add: next_record_def nil authorized_record_def)
    moreover have "wf_record ?r" by (simp add: wf_record_def authorized_record_def sample_authorization_def)
    ultimately show ?thesis by (simp add: disk_holds_def MAX_RECORDS_def)
  qed
  have ne: "disk_of sample_hash ?w [?r] \<noteq> []" by (simp add: disk_of_def header_nonempty)
  have 1: "grant_session sample_hash ?w io_fine [] ?a Inr = (Inr 1, disk_of sample_hash ?w [?r])"
    using session_fresh [of sample_hash ?w "[]" "[]" io_fine ?a 1 Inr]
    by (simp add: nil room_def sample_authorization_def MAX_RECORDS_def io_fine_def)
  have 2: "grant_session sample_hash ?w ?io (disk_of sample_hash ?w [?r]) ?a Inr = (Inr 1, disk_of sample_hash ?w [?r])"
    using session_replay [OF _ _ r ne, of ?a 1 ?io Inr] log by (simp add: numbered_def sample_authorization_def io_fine_def)
  have 3: "grant_session sample_hash ?w io_fine (disk_of sample_hash ?w [?r]) ?b Inr =
      (Inl ChainReleaseLimitReached, disk_of sample_hash ?w [?r])"
    using session_exhausted [OF _ _ r, of io_fine ?b Inr] log
    by (simp add: room_def sample_authorization_def MAX_RECORDS_def io_fine_def)
  show ?thesis using 1 2 3 by (simp add: sample_sessions_def)
qed

text \<open>
  C5. A witness never lets more distinct requests through than its contract allows, over any number
  of runs of the grant command, with every file operation free to fail or to be cut short by a crash: if all
  authorizations of a scope carry the limit \<open>m\<close>, at most \<open>m\<close> different request identifiers of the scope are
  ever granted.
\<close>

theorem witness_release_bounded:
  assumes "blake3_contract H" "length w = 32" "\<forall>(io, a, issue) \<in> set es. wf_authorization a"
    and "ledger_run (grant_session H w) [] es = (rs, d)"
    and "\<forall>(io, a, issue) \<in> set es. ra_scope a = sc \<longrightarrow> ra_maximum_successful_releases a = Some m"
  shows "card {ra_request_id a | i io a issue. i < length es \<and> es ! i = (io, a, issue) \<and> ra_scope a = sc \<and> is_ok (rs ! i)}
    \<le> unat m"
proof -
  have inv: "disk_inv H w []" using assms(1,2) by (simp add: disk_inv_def)
  have "length (disk_log H w [] sc) \<le> unat m" using disk_log_torn [OF assms(2)] by simp
  then have len: "length (disk_log H w d sc) \<le> unat m"
    by (rule disk.run_bounded [OF inv assms(3,4,5)])
  have "{ra_request_id a | i io a issue. i < length es \<and> es ! i = (io, a, issue) \<and> ra_scope a = sc \<and> is_ok (rs ! i)}
      \<subseteq> set (disk_log H w d sc)"
    using run_success [OF assms(1-4)] numbered_mem by (fastforce simp: is_ok_iff)
  then have "card {ra_request_id a | i io a issue. i < length es \<and> es ! i = (io, a, issue) \<and> ra_scope a = sc \<and> is_ok (rs ! i)}
      \<le> length (disk_log H w d sc)"
    by (meson List.finite_set card_length card_mono le_trans)
  with len show ?thesis by linarith
qed

theorem witness_release_bounded_witness:
  "card {ra_request_id a | i io a issue. i < length sample_sessions \<and> sample_sessions ! i = (io, a, issue) \<and>
      ra_scope a = (replicate 32 1, replicate 32 2) \<and>
      is_ok (fst (ledger_run (grant_session sample_hash (replicate 32 4)) [] sample_sessions) ! i)} \<le> 1"
  using witness_release_bounded [where H = sample_hash and w = "replicate 32 4" and es = sample_sessions and m = 1
      and sc = "(replicate 32 1, replicate 32 2)", OF _ _ sample_sessions_wf prod.collapse [symmetric]]
  by (simp add: sample_sessions_def sample_authorization_def)



text \<open>
  C13. The ledger keeps working: on a new file or one with an intact header, fewer than 65536 valid
  records and possibly a torn last record, when the file operations succeed, a fresh request within its limit is
  answered by \<open>issue\<close> at the next ordinal; a success is recorded, and a failure of \<open>issue\<close> leaves
  the recorded requests as they were.
\<close>

theorem fresh_release_progress:
  assumes "blake3_contract H" "length w = 32" "disk_holds H w rs d \<or> d = [] \<and> rs = []" "length rs < MAX_RECORDS"
    and "\<forall>c. io_ok io c" "wf_authorization a" "ra_request_id a \<notin> set (records_log rs (ra_scope a))"
    and "room (records_log rs) a" "n = Suc (length (records_log rs (ra_scope a)))"
    and "grant_session H w io d a issue = (r, d')"
  shows "r = issue (of_nat n) \<and>
    disk_log H w d' = (if is_ok r then logged (records_log rs) a else records_log rs)"
proof -
  note run = session_fresh [OF assms(1-5,7-9), of issue]
  then have r: "r = issue (of_nat n)" using assms(10) by simp
  have "disk_inv H w d" using assms(1-3) torn_Nil by (auto simp: disk_inv_def)
  have log: "disk_log H w d = records_log rs"
    using assms(1-3) disk_log_holds disk_log_torn [OF assms(2) torn_Nil] by (auto simp: records_log_def [abs_def])
  have "disk_log H w d' = (if is_ok r then logged (records_log rs) a else records_log rs)"
  proof (cases r)
    case (Inr t)
    then show ?thesis
      using disk.fresh_ok [OF \<open>disk_inv H w d\<close> assms(6) _ assms(10) [unfolded Inr]] assms(7) by (simp add: log)
  next
    case (Inl e)
    then have d': "d' = disk_of H w rs" using run assms(10) r by simp
    have "disk_holds H w rs (disk_of H w rs)" using assms(3) holds_exact holds_empty [OF assms(2)] by blast
    then show ?thesis using Inl d' disk_log_holds [OF assms(1,2)] by simp
  qed
  with r show ?thesis by simp
qed

theorem fresh_release_progress_witness:
  "disk_log sample_hash (replicate 32 4)
     (snd (grant_session sample_hash (replicate 32 4) io_fine [] (sample_authorization 3) (Inr :: u32 \<Rightarrow> chain_error + u32))) =
   logged (\<lambda>_. []) (sample_authorization 3)"
proof -
  have nil: "records_log [] = (\<lambda>_. [])" by (simp add: records_log_def [abs_def])
  show ?thesis
    using fresh_release_progress [where H = sample_hash and w = "replicate 32 4" and rs = "[]" and d = "[]" and io = io_fine
        and a = "sample_authorization 3" and n = 1 and issue = "Inr :: u32 \<Rightarrow> chain_error + u32", OF _ _ _ _ _ _ _ _ _ prod.collapse [symmetric]]
    by (simp add: nil MAX_RECORDS_def io_fine_def sample_authorization_def wf_authorization_def room_def)
qed



text \<open>
  C15. A crash while the 38-byte header of a new ledger is written is not repaired: once a proper
  non-empty prefix of the header is on disk, every later session fails and leaves the file as it is.
\<close>

theorem torn_header_blocks_ledger:
  assumes "length w = 32" "0 < n" "n < 38" "\<forall>c. c \<noteq> IoWriteHeader \<longrightarrow> io_ok io c" "\<not> io_ok io IoWriteHeader" "io_written io = n"
    and "grant_session H w io [] a issue = (r, d)"
  shows "d = take n (ledger_header w) \<and>
    grant_session H w io' d a' issue' = (Inl ChainReleaseAuthorityUnavailable, d)"
proof -
  have d: "d = take n (ledger_header w)"
    using assms by (simp add: grant_session_def ledger_open_def write_and_sync_def)
  then have "disk_torn w d" "d \<noteq> []" using assms(2,3) header_nonempty by (auto simp: disk_torn_def)
  with open_torn [OF assms(1)] d show ?thesis by (simp add: grant_session_def)
qed

theorem torn_header_blocks_ledger_witness:
  "grant_session sample_hash (replicate 32 4) io_fine (take 5 (ledger_header (replicate 32 4))) (sample_authorization 3)
     (Inr :: u32 \<Rightarrow> chain_error + u32) =
   (Inl ChainReleaseAuthorityUnavailable, take 5 (ledger_header (replicate 32 4)))"
proof -
  let ?io = "\<lparr> io_ok = (\<lambda>c. c \<noteq> IoWriteHeader), io_written = 5, io_truncated = False \<rparr>"
  have run: "grant_session sample_hash (replicate 32 4) ?io [] (sample_authorization 3) (Inr :: u32 \<Rightarrow> chain_error + u32) =
      (Inl ChainReleaseAuthorityUnavailable, take 5 (ledger_header (replicate 32 4)))"
    by (simp add: grant_session_def ledger_open_def write_and_sync_def)
  show ?thesis
    by (rule torn_header_blocks_ledger [OF _ _ _ _ _ _ run, THEN conjunct2]) simp_all
qed

end
