(* ===== verification/Artifact_Token.thy ===== *)
theory Artifact_Token
  imports Rap_Verify
begin

text \<open>
  The crate \<open>rebyte-artifact-token\<close> without its streaming module: the model of an unsigned artifact
  (\<open>model.rs\<close>), the errors (\<open>error.rs\<close>), and the canonical codec with its digests, payload selection and
  text token (\<open>codec.rs\<close>). BLAKE3, the Zstandard engine, its dictionary trainer and the Base64URL engine are
  arguments.
\<close>

section \<open>Errors and model (error.rs, model.rs)\<close>

datatype artifact_token_error =
    ArtPath path_error
  | ArtInvalidName path_error
  | ArtInvalidFileShape
  | ArtInvalidDirectoryShape
  | ArtDuplicatePath
  | ArtPathTypeConflict
  | ArtNonCanonicalOrder
  | ArtInvalidDirectoryEntry
  | ArtExecutableDirectory
  | ArtTooManyEntries u32 u32
  | ArtFileTooLarge u64 u64
  | ArtPayloadTooLarge u64 u64
  | ArtManifestTooLarge u64 u64
  | ArtBinaryTooLarge u64 u64
  | ArtTokenTooLarge u64 u64
  | ArtInvalidPrefix
  | ArtInvalidAlphabet
  | ArtInvalidBase64
  | ArtUnexpectedEof
  | ArtInvalidMagic
  | ArtUnsupportedVersion u8
  | ArtUnsupportedKind u8
  | ArtUnsupportedCompression u8
  | ArtUnsupportedProfile u8
  | ArtUnsupportedFlags u16
  | ArtNonZeroReserved
  | ArtMetadataFlagMismatch
  | ArtInvalidDictionary
  | ArtInvalidUtf8
  | ArtLengthOverflow
  | ArtEntryCountMismatch
  | ArtInvalidPayloadRange
  | ArtEnvelopeLengthMismatch
  | ArtEnvelopeDigestMismatch
  | ArtContentDigestMismatch
  | ArtFileDigestMismatch
  | ArtCompression compression_error

datatype artifact_kind = FileArtifact | DirectoryArtifact

definition artifact_kind_wire :: "artifact_kind \<Rightarrow> u8" where
  "artifact_kind_wire k = (case k of FileArtifact \<Rightarrow> 0 | DirectoryArtifact \<Rightarrow> 1)"

definition artifact_kind_from_wire :: "u8 \<Rightarrow> artifact_token_error + artifact_kind" where
  "artifact_kind_from_wire value =
     (if value = 0 then Inr FileArtifact else if value = 1 then Inr DirectoryArtifact
      else Inl (ArtUnsupportedKind value))"

datatype artifact_entry_kind = FileEntry | DirectoryEntry

definition entry_kind_wire :: "artifact_entry_kind \<Rightarrow> u8" where
  "entry_kind_wire k = (case k of FileEntry \<Rightarrow> 0 | DirectoryEntry \<Rightarrow> 1)"

definition entry_kind_from_wire :: "u8 \<Rightarrow> artifact_token_error + artifact_entry_kind" where
  "entry_kind_from_wire value =
     (if value = 0 then Inr FileEntry else if value = 1 then Inr DirectoryEntry
      else Inl ArtInvalidDirectoryEntry)"

record artifact_entry =
  ae_kind :: artifact_entry_kind
  ae_path :: "relative_artifact_path option"
  ae_bytes :: bytes
  ae_executable :: bool

definition entry_unnamed_file :: "bytes \<Rightarrow> bool \<Rightarrow> artifact_entry" where
  "entry_unnamed_file bs exec =
     \<lparr> ae_kind = FileEntry, ae_path = None, ae_bytes = bs, ae_executable = exec \<rparr>"

definition entry_file :: "relative_artifact_path \<Rightarrow> bytes \<Rightarrow> bool \<Rightarrow> artifact_entry" where
  "entry_file p bs exec = \<lparr> ae_kind = FileEntry, ae_path = Some p, ae_bytes = bs, ae_executable = exec \<rparr>"

definition entry_directory :: "relative_artifact_path \<Rightarrow> artifact_entry" where
  "entry_directory p =
     \<lparr> ae_kind = DirectoryEntry, ae_path = Some p, ae_bytes = [], ae_executable = False \<rparr>"

record artifact =
  af_kind :: artifact_kind
  af_suggested_name :: "bytes option"
  af_suggested_path :: "relative_artifact_path option"
  af_entries :: "artifact_entry list"

definition artifact_of_file :: "bytes \<Rightarrow> bool \<Rightarrow> artifact" where
  "artifact_of_file bs exec = \<lparr> af_kind = FileArtifact, af_suggested_name = None, af_suggested_path = None,
     af_entries = [entry_unnamed_file bs exec] \<rparr>"

definition artifact_of_directory :: "artifact_entry list \<Rightarrow> artifact" where
  "artifact_of_directory es = \<lparr> af_kind = DirectoryArtifact, af_suggested_name = None, af_suggested_path = None,
     af_entries = es \<rparr>"

definition artifact_validate_name :: "bytes \<Rightarrow> artifact_token_error + bytes" where
  "artifact_validate_name value =
     and_then (map_err ArtInvalidName (path_new value)) (\<lambda>p.
       if 47 \<in> set value then Inl (ArtInvalidName PathEmptyComponent) else Inr (as_str p))"

definition with_suggested_name :: "artifact \<Rightarrow> bytes \<Rightarrow> artifact_token_error + artifact" where
  "with_suggested_name a value =
     and_then (artifact_validate_name value) (\<lambda>n. Inr (a\<lparr> af_suggested_name := Some n \<rparr>))"

definition with_suggested_path :: "artifact \<Rightarrow> relative_artifact_path \<Rightarrow> artifact" where
  "with_suggested_path a value = a\<lparr> af_suggested_path := Some value \<rparr>"

datatype artifact_compression = AutoCompression | ZstdCompression | NoCompression
datatype artifact_dictionary = AutoDictionary | NoDictionary

record artifact_options =
  ao_compression :: artifact_compression
  ao_profile :: compression_profile
  ao_dictionary :: artifact_dictionary
  ao_limits :: security_limits

definition options_default :: artifact_options where
  "options_default = \<lparr> ao_compression = AutoCompression, ao_profile = Balanced,
     ao_dictionary = AutoDictionary, ao_limits = limits_SIMPLE_ARTIFACT \<rparr>"

definition with_compression :: "artifact_options \<Rightarrow> artifact_compression \<Rightarrow> artifact_options" where
  "with_compression self value = self\<lparr> ao_compression := value \<rparr>"

definition with_profile :: "artifact_options \<Rightarrow> compression_profile \<Rightarrow> artifact_options" where
  "with_profile self value = self\<lparr> ao_profile := value \<rparr>"

definition with_dictionary :: "artifact_options \<Rightarrow> artifact_dictionary \<Rightarrow> artifact_options" where
  "with_dictionary self value = self\<lparr> ao_dictionary := value \<rparr>"

definition with_limits :: "artifact_options \<Rightarrow> security_limits \<Rightarrow> artifact_options" where
  "with_limits self value = self\<lparr> ao_limits := value \<rparr>"

record encoded_artifact =
  ea_binary :: bytes
  ea_kind :: artifact_kind
  ea_compression :: compression_algorithm
  ea_profile :: compression_profile
  ea_content_digest :: digest32
  ea_envelope_digest :: digest32
  ea_original_size :: u64
  ea_stored_size :: u64
  ea_dictionary_size :: u32
  ea_entry_count :: u32

record decoded_artifact =
  da_artifact :: artifact
  da_compression :: compression_algorithm
  da_profile :: compression_profile
  da_content_digest :: digest32
  da_envelope_digest :: digest32
  da_original_size :: u64
  da_stored_size :: u64
  da_dictionary_size :: u32

section \<open>Constants and internal records (codec.rs)\<close>

definition ARTIFACT_TOKEN_PREFIX :: bytes where "ARTIFACT_TOKEN_PREFIX = ascii ''ra1_''"
definition ARTIFACT_HEADER_SIZE :: nat where "ARTIFACT_HEADER_SIZE = 104"
definition ARTIFACT_MAGIC :: bytes where "ARTIFACT_MAGIC = ascii ''RBAT''"
definition ARTIFACT_VERSION :: u8 where "ARTIFACT_VERSION = 1"
definition FLAG_NAME :: u16 where "FLAG_NAME = 1"
definition FLAG_PATH :: u16 where "FLAG_PATH = 2"
definition FLAG_DICTIONARY :: u16 where "FLAG_DICTIONARY = 4"
definition SUPPORTED_FLAGS :: u16 where "SUPPORTED_FLAGS = or FLAG_NAME (or FLAG_PATH FLAG_DICTIONARY)"
definition MAX_DICTIONARY_SIZE :: nat where "MAX_DICTIONARY_SIZE = 16 * 1024"
definition MAX_DICTIONARY_SAMPLE_SIZE :: nat where "MAX_DICTIONARY_SAMPLE_SIZE = 64 * 1024"
definition MAX_DICTIONARY_TRAINING_BYTES :: nat where "MAX_DICTIONARY_TRAINING_BYTES = 2 * 1024 * 1024"
definition MIN_DICTIONARY_SAMPLES :: nat where "MIN_DICTIONARY_SAMPLES = 8"

record canonical_entry =
  ce_kind :: artifact_entry_kind
  ce_path :: "relative_artifact_path option"
  ce_offset :: u64
  ce_size :: u64
  ce_digest :: digest32
  ce_executable :: bool

record artifact_header =
  ah_kind :: artifact_kind
  ah_compression :: compression_algorithm
  ah_profile :: compression_profile
  ah_flags :: u16
  ah_entry_count :: u32
  ah_manifest_size :: u64
  ah_original_size :: u64
  ah_stored_size :: u64
  ah_content_digest :: digest32
  ah_envelope_digest :: digest32

record decoded_manifest =
  dm_suggested_name :: "bytes option"
  dm_suggested_path :: "relative_artifact_path option"
  dm_dictionary :: bytes
  dm_entries :: "canonical_entry list"

record selected_payload =
  sp_compression :: compression_algorithm
  sp_dictionary :: bytes
  sp_stored :: bytes

definition zero_digest :: digest32 where
  "zero_digest = Digest32 (replicate 32 0)"

section \<open>Limits and conversions\<close>

definition enforce_entry_count :: "u32 \<Rightarrow> security_limits \<Rightarrow> artifact_token_error + unit" where
  "enforce_entry_count actual limits =
     (if max_file_count limits < actual then Inl (ArtTooManyEntries (max_file_count limits) actual) else Inr ())"

definition enforce_file_size :: "u64 \<Rightarrow> security_limits \<Rightarrow> artifact_token_error + unit" where
  "enforce_file_size actual limits =
     (if max_single_file_bytes limits < actual
      then Inl (ArtFileTooLarge (max_single_file_bytes limits) actual) else Inr ())"

definition enforce_payload_size :: "u64 \<Rightarrow> security_limits \<Rightarrow> artifact_token_error + unit" where
  "enforce_payload_size actual limits =
     (if max_uncompressed_payload_bytes limits < actual
      then Inl (ArtPayloadTooLarge (max_uncompressed_payload_bytes limits) actual) else Inr ())"

definition enforce_binary_size :: "u64 \<Rightarrow> security_limits \<Rightarrow> artifact_token_error + unit" where
  "enforce_binary_size actual limits =
     (if max_capsule_bytes limits < actual
      then Inl (ArtBinaryTooLarge (max_capsule_bytes limits) actual) else Inr ())"

definition enforce_token_size :: "u64 \<Rightarrow> security_limits \<Rightarrow> artifact_token_error + unit" where
  "enforce_token_size actual limits =
     (if max_token_bytes limits < actual
      then Inl (ArtTokenTooLarge (max_token_bytes limits) actual) else Inr ())"

definition art_usize_to_u16 :: "nat \<Rightarrow> artifact_token_error + u16" where
  "art_usize_to_u16 value = try_from_usize ArtLengthOverflow value"

definition art_usize_to_u32 :: "nat \<Rightarrow> artifact_token_error + u32" where
  "art_usize_to_u32 value = try_from_usize ArtLengthOverflow value"

definition art_usize_to_u64 :: "nat \<Rightarrow> artifact_token_error + u64" where
  "art_usize_to_u64 value = try_from_usize ArtLengthOverflow value"

definition profile_wire :: "compression_profile \<Rightarrow> u8" where
  "profile_wire value = (case value of Fast \<Rightarrow> 0 | Balanced \<Rightarrow> 1 | Maximum \<Rightarrow> 2)"

definition profile_from_wire :: "u8 \<Rightarrow> artifact_token_error + compression_profile" where
  "profile_from_wire value =
     (if value = 0 then Inr Fast else if value = 1 then Inr Balanced else if value = 2 then Inr Maximum
      else Inl (ArtUnsupportedProfile value))"

definition validate_suggested_name :: "bytes \<Rightarrow> security_limits \<Rightarrow> artifact_token_error + unit" where
  "validate_suggested_name value limits =
     (if 47 \<in> set value then Inl (ArtInvalidName PathEmptyComponent)
      else and_then (map_err ArtInvalidName (path_with_max_bytes value (max_path_bytes limits))) (\<lambda>_. Inr ()))"

definition validate_metadata :: "artifact \<Rightarrow> security_limits \<Rightarrow> artifact_token_error + unit" where
  "validate_metadata a limits =
     and_then (case af_suggested_name a of
         Some n \<Rightarrow> validate_suggested_name n limits | None \<Rightarrow> Inr ()) (\<lambda>_.
       case af_suggested_path a of
         Some p \<Rightarrow> and_then (map_err ArtPath (path_with_max_bytes (as_str p) (max_path_bytes limits))) (\<lambda>_. Inr ())
       | None \<Rightarrow> Inr ())"

definition enforce_header_limits :: "artifact_header \<Rightarrow> security_limits \<Rightarrow> artifact_token_error + unit" where
  "enforce_header_limits h limits =
     and_then (enforce_entry_count (ah_entry_count h) limits) (\<lambda>_.
       if max_manifest_bytes limits < ah_manifest_size h
       then Inl (ArtManifestTooLarge (max_manifest_bytes limits) (ah_manifest_size h))
       else if max_compressed_payload_bytes limits < ah_stored_size h
       then Inl (ArtBinaryTooLarge (max_compressed_payload_bytes limits) (ah_stored_size h))
       else enforce_payload_size (ah_original_size h) limits)"

section \<open>Canonical order and the tree of paths\<close>

primrec rfind :: "u8 \<Rightarrow> bytes \<Rightarrow> nat option" where
  "rfind c [] = None"
| "rfind c (x # xs) =
     (case rfind c xs of Some i \<Rightarrow> Some (Suc i) | None \<Rightarrow> if x = c then Some 0 else None)"

lemma rfind_less: "rfind c xs = Some i \<Longrightarrow> i < length xs"
  by (induction xs arbitrary: i) (auto split: option.splits if_splits)

function check_ancestors :: "bytes list \<Rightarrow> bytes \<Rightarrow> artifact_token_error + unit" where
  "check_ancestors fs ancestor =
     (case rfind 47 ancestor of
        None \<Rightarrow> Inr ()
      | Some index \<Rightarrow>
          let ancestor = take index ancestor in
          if ancestor \<in> set fs then Inl ArtPathTypeConflict else check_ancestors fs ancestor)"
  by pat_completeness auto
termination
  by (relation "measure (\<lambda>(fs, p). length p)") (auto dest: rfind_less)

declare check_ancestors.simps [simp del]

definition validate_tree_step :: "bytes list \<Rightarrow> canonical_entry \<Rightarrow> artifact_token_error + bytes list" where
  "validate_tree_step fs entry =
     (case ce_path entry of
        None \<Rightarrow> Inr fs
      | Some p \<Rightarrow>
          and_then (check_ancestors fs (as_str p)) (\<lambda>_.
            Inr (if ce_kind entry = FileEntry then as_str p # fs else fs)))"

definition validate_tree :: "canonical_entry list \<Rightarrow> artifact_token_error + unit" where
  "validate_tree entries = and_then (try_fold validate_tree_step [] entries) (\<lambda>_. Inr ())"

definition entry_sort_path :: "artifact_entry \<Rightarrow> relative_artifact_path" where
  "entry_sort_path e = (case ae_path e of Some p \<Rightarrow> p | None \<Rightarrow> RelativeArtifactPath [])"

definition reject_duplicate_path ::
    "bytes option \<Rightarrow> artifact_entry \<Rightarrow> artifact_token_error + bytes option" where
  "reject_duplicate_path previous entry =
     and_then (ok_or ArtInvalidDirectoryShape (ae_path entry)) (\<lambda>p.
       if previous = Some (as_str p) then Inl ArtDuplicatePath else Inr (Some (as_str p)))"

definition ordered_entries :: "artifact \<Rightarrow> artifact_token_error + artifact_entry list" where
  "ordered_entries a =
     (let source = af_entries a in
      case af_kind a of
        FileArtifact \<Rightarrow>
          if length source \<noteq> 1
             \<or> (case source of [] \<Rightarrow> True | e # _ \<Rightarrow> ae_kind e \<noteq> FileEntry \<or> ae_path e \<noteq> None)
          then Inl ArtInvalidFileShape else Inr source
      | DirectoryArtifact \<Rightarrow>
          if list_ex (\<lambda>e. ae_path e = None) source then Inl ArtInvalidDirectoryShape
          else let source = sort_key entry_sort_path source in
            and_then (try_fold reject_duplicate_path None source) (\<lambda>_. Inr source))"

definition canonicalize_entry ::
    "blake3 \<Rightarrow> security_limits \<Rightarrow> bytes \<times> canonical_entry list \<Rightarrow> artifact_entry \<Rightarrow>
     artifact_token_error + bytes \<times> canonical_entry list" where
  "canonicalize_entry H limits st entry =
     (case st of (payload, entries) \<Rightarrow>
      and_then (art_usize_to_u64 (length payload)) (\<lambda>offset.
      case ae_kind entry of
        FileEntry \<Rightarrow>
          and_then (art_usize_to_u64 (length (ae_bytes entry))) (\<lambda>size.
          and_then (enforce_file_size size limits) (\<lambda>_.
          and_then (ok_or ArtLengthOverflow (checked_add offset size)) (\<lambda>next.
          and_then (enforce_payload_size next limits) (\<lambda>_.
            Inr (payload @ ae_bytes entry,
                 entries @ [\<lparr> ce_kind = ae_kind entry, ce_path = ae_path entry, ce_offset = offset,
                   ce_size = size, ce_digest = file_digest H (ae_bytes entry),
                   ce_executable = ae_executable entry \<rparr>])))))
      | DirectoryEntry \<Rightarrow>
          if ae_bytes entry \<noteq> [] then Inl ArtInvalidDirectoryEntry
          else if ae_executable entry then Inl ArtExecutableDirectory
          else Inr (payload,
                 entries @ [\<lparr> ce_kind = ae_kind entry, ce_path = ae_path entry, ce_offset = 0, ce_size = 0,
                   ce_digest = zero_digest, ce_executable = False \<rparr>])))"

definition canonicalize ::
    "blake3 \<Rightarrow> artifact \<Rightarrow> security_limits \<Rightarrow> artifact_token_error + canonical_entry list \<times> bytes" where
  "canonicalize H a limits =
     and_then (art_usize_to_u32 (length (af_entries a))) (\<lambda>count.
     and_then (enforce_entry_count count limits) (\<lambda>_.
     and_then (validate_metadata a limits) (\<lambda>_.
     and_then (ordered_entries a) (\<lambda>source.
     and_then (try_fold (canonicalize_entry H limits) ([], []) source) (\<lambda>(payload, entries).
     and_then (validate_tree entries) (\<lambda>_. Inr (entries, payload)))))))"

definition reconstruct_entry ::
    "blake3 \<Rightarrow> bytes \<Rightarrow> canonical_entry \<Rightarrow> artifact_token_error + artifact_entry" where
  "reconstruct_entry H payload entry =
     (case ce_kind entry of
        FileEntry \<Rightarrow>
          and_then (usize_try_from ArtLengthOverflow (ce_offset entry)) (\<lambda>start.
          and_then (usize_try_from ArtLengthOverflow (ce_size entry)) (\<lambda>size.
          and_then (ok_or ArtLengthOverflow (usize_checked_add start size)) (\<lambda>end_pos.
          and_then (ok_or ArtInvalidPayloadRange (slice_get start end_pos payload)) (\<lambda>bs.
            if \<not> digest_matches (ce_digest entry) (file_digest H bs) then Inl ArtFileDigestMismatch
            else Inr (case ce_path entry of
                None \<Rightarrow> entry_unnamed_file bs (ce_executable entry)
              | Some p \<Rightarrow> entry_file p bs (ce_executable entry))))))
      | DirectoryEntry \<Rightarrow>
          and_then (ok_or ArtInvalidDirectoryShape (ce_path entry)) (\<lambda>p. Inr (entry_directory p)))"

definition reconstruct ::
    "blake3 \<Rightarrow> artifact_kind \<Rightarrow> bytes option \<Rightarrow> relative_artifact_path option \<Rightarrow> canonical_entry list \<Rightarrow>
     bytes \<Rightarrow> artifact_token_error + artifact" where
  "reconstruct H kind suggested_name suggested_path entries payload =
     and_then (try_map (reconstruct_entry H payload) entries) (\<lambda>reconstructed.
       Inr \<lparr> af_kind = kind, af_suggested_name = suggested_name, af_suggested_path = suggested_path,
             af_entries = reconstructed \<rparr>)"

definition canonical_artifact ::
    "blake3 \<Rightarrow> artifact \<Rightarrow> canonical_entry list \<Rightarrow> bytes \<Rightarrow> artifact_token_error + artifact" where
  "canonical_artifact H source entries payload =
     reconstruct H (af_kind source) (af_suggested_name source) (af_suggested_path source) entries payload"

section \<open>Writing\<close>

definition write_optional_string :: "bytes \<Rightarrow> bytes option \<Rightarrow> artifact_token_error + bytes" where
  "write_optional_string output value =
     (let value = (case value of Some v \<Rightarrow> v | None \<Rightarrow> []) in
      and_then (art_usize_to_u16 (length value)) (\<lambda>len. Inr (output @ u16_to_be_bytes len @ value)))"

definition entry_path_str :: "canonical_entry \<Rightarrow> bytes" where
  "entry_path_str e = (case ce_path e of Some p \<Rightarrow> as_str p | None \<Rightarrow> [])"

definition write_manifest_entry :: "bytes \<Rightarrow> canonical_entry \<Rightarrow> artifact_token_error + bytes" where
  "write_manifest_entry output entry =
     (let output = output @ [entry_kind_wire (ce_kind entry)];
          output = output @ [if ce_executable entry then 1 else 0];
          output = output @ [0, 0];
          p = entry_path_str entry
      in and_then (art_usize_to_u16 (length p)) (\<lambda>len.
         Inr (output @ u16_to_be_bytes len @ [0, 0] @ u64_to_be_bytes (ce_offset entry)
              @ u64_to_be_bytes (ce_size entry) @ digest_bytes (ce_digest entry) @ p)))"

definition artifact_encode_manifest ::
    "artifact \<Rightarrow> bytes \<Rightarrow> canonical_entry list \<Rightarrow> security_limits \<Rightarrow> artifact_token_error + bytes" where
  "artifact_encode_manifest a dictionary entries limits =
     and_then (write_optional_string [] (af_suggested_name a)) (\<lambda>output.
     and_then (write_optional_string output (map_option as_str (af_suggested_path a))) (\<lambda>output.
     and_then (if dictionary \<noteq> [] then
                 and_then (art_usize_to_u32 (length dictionary)) (\<lambda>len.
                   Inr (output @ u32_to_be_bytes len @ dictionary))
               else Inr output) (\<lambda>output.
     and_then (art_usize_to_u32 (length entries)) (\<lambda>count.
     and_then (try_fold write_manifest_entry (output @ u32_to_be_bytes count) entries) (\<lambda>output.
     and_then (art_usize_to_u64 (length output)) (\<lambda>actual.
       if max_manifest_bytes limits < actual
       then Inl (ArtManifestTooLarge (max_manifest_bytes limits) actual) else Inr output))))))"

definition artifact_encode_header :: "artifact_header \<Rightarrow> bytes" where
  "artifact_encode_header h =
     ARTIFACT_MAGIC @ [ARTIFACT_VERSION] @ [artifact_kind_wire (ah_kind h)] @
     [compression_as_u8 (ah_compression h)] @ [profile_wire (ah_profile h)] @
     u16_to_be_bytes (ah_flags h) @ [0, 0] @ u32_to_be_bytes (ah_entry_count h) @
     u64_to_be_bytes (ah_manifest_size h) @ u64_to_be_bytes (ah_original_size h) @
     u64_to_be_bytes (ah_stored_size h) @ digest_bytes (ah_content_digest h) @
     digest_bytes (ah_envelope_digest h)"

definition metadata_flags :: "artifact \<Rightarrow> bytes \<Rightarrow> u16" where
  "metadata_flags a dictionary =
     or (if af_suggested_name a \<noteq> None then FLAG_NAME else 0)
       (or (if af_suggested_path a \<noteq> None then FLAG_PATH else 0)
         (if dictionary \<noteq> [] then FLAG_DICTIONARY else 0))"

definition content_digest_entry :: "domain_hasher \<Rightarrow> canonical_entry \<Rightarrow> domain_hasher" where
  "content_digest_entry hasher entry =
     (let hasher = hasher_update hasher [entry_kind_wire (ce_kind entry), if ce_executable entry then 1 else 0];
          p = entry_path_str entry;
          len = (case art_usize_to_u64 (length p) of Inr n \<Rightarrow> n | Inl _ \<Rightarrow> - 1);
          hasher = hasher_update hasher (u64_to_be_bytes len);
          hasher = hasher_update hasher p;
          hasher = hasher_update hasher (u64_to_be_bytes (ce_size entry))
      in hasher_update hasher (digest_bytes (ce_digest entry)))"

definition content_digest :: "blake3 \<Rightarrow> artifact_kind \<Rightarrow> canonical_entry list \<Rightarrow> digest32" where
  "content_digest H kind entries =
     (let hasher = hasher_new ARTIFACT_CONTENT_CONTEXT;
          hasher = hasher_update hasher [ARTIFACT_VERSION, artifact_kind_wire kind];
          count = (case art_usize_to_u32 (length entries) of Inr n \<Rightarrow> n | Inl _ \<Rightarrow> - 1);
          hasher = hasher_update hasher (u32_to_be_bytes count)
      in hasher_finalize H (foldl content_digest_entry hasher entries))"

definition envelope_hasher :: "artifact_header \<Rightarrow> bytes \<Rightarrow> domain_hasher" where
  "envelope_hasher h mf =
     (let hasher = hasher_new ARTIFACT_ENVELOPE_CONTEXT;
          hasher = hasher_update hasher [ARTIFACT_VERSION, artifact_kind_wire (ah_kind h),
                     compression_as_u8 (ah_compression h), profile_wire (ah_profile h)];
          hasher = hasher_update hasher (u16_to_be_bytes (ah_flags h));
          hasher = hasher_update hasher (u32_to_be_bytes (ah_entry_count h));
          hasher = hasher_update hasher (u64_to_be_bytes (ah_manifest_size h));
          hasher = hasher_update hasher (u64_to_be_bytes (ah_original_size h));
          hasher = hasher_update hasher (u64_to_be_bytes (ah_stored_size h));
          hasher = hasher_update hasher (digest_bytes (ah_content_digest h))
      in hasher_update hasher mf)"

definition envelope_digest :: "blake3 \<Rightarrow> artifact_header \<Rightarrow> bytes \<Rightarrow> bytes \<Rightarrow> digest32" where
  "envelope_digest H h mf stored =
     hasher_finalize H (hasher_update (envelope_hasher h mf) stored)"

section \<open>Choosing the stored payload\<close>

text \<open>\<open>zstd::dict::from_samples\<close> is third-party code: an argument that may fail.\<close>

type_synonym dictionary_trainer = "bytes list \<Rightarrow> nat \<Rightarrow> bytes option"

definition train_dictionary :: "dictionary_trainer \<Rightarrow> bytes list \<Rightarrow> nat \<Rightarrow> compression_error + bytes" where
  "train_dictionary from_samples samples maximum_size =
     (if length samples < 2 \<or> maximum_size < 256 then Inl InvalidDictionary
      else ok_or InvalidDictionary (from_samples samples maximum_size))"

definition usize_saturating_add :: "nat \<Rightarrow> nat \<Rightarrow> nat" where
  "usize_saturating_add a b = min (a + b) usize_max"

definition sample_training_entry :: "bytes \<Rightarrow> bytes list \<times> nat \<Rightarrow> canonical_entry \<Rightarrow> (bytes list \<times> nat) option" where
  "sample_training_entry payload st entry =
     (case st of (samples, sampled) \<Rightarrow>
      if ce_kind entry \<noteq> FileEntry \<or> MAX_DICTIONARY_TRAINING_BYTES \<le> sampled then Some st
      else
      Option.bind (result_ok (usize_try_from () (ce_offset entry))) (\<lambda>start.
      Option.bind (result_ok (usize_try_from () (ce_size entry))) (\<lambda>size.
      let available = MAX_DICTIONARY_TRAINING_BYTES - sampled;
          len = min (min size MAX_DICTIONARY_SAMPLE_SIZE) available in
      if len < 8 then Some st
      else
      Option.bind (usize_checked_add start len) (\<lambda>end_pos.
      Option.bind (slice_get start end_pos payload) (\<lambda>sample.
      Option.bind (usize_checked_add sampled len) (\<lambda>sampled.
      Some (samples @ [sample], sampled)))))))"

definition train_artifact_dictionary ::
    "dictionary_trainer \<Rightarrow> bytes \<Rightarrow> canonical_entry list \<Rightarrow> artifact_options \<Rightarrow> bytes option" where
  "train_artifact_dictionary tr payload entries options =
     (if ao_dictionary options = NoDictionary then None
      else
      Option.bind (foldl (\<lambda>acc e. Option.bind acc (\<lambda>st. sample_training_entry payload st e)) (Some ([], 0)) entries)
        (\<lambda>(samples, sampled).
      if length samples < MIN_DICTIONARY_SAMPLES then None
      else let maximum = max 256 (min (sampled div 20) MAX_DICTIONARY_SIZE) in
        result_ok (train_dictionary tr samples maximum)))"

definition ordinary_candidate :: "bytes \<Rightarrow> selected_payload" where
  "ordinary_candidate ordinary = \<lparr> sp_compression = CompressionZstd, sp_dictionary = [], sp_stored = ordinary \<rparr>"

definition best_zstd_candidate ::
    "('e, 'd) zstd_engine \<Rightarrow> dictionary_trainer \<Rightarrow> bytes \<Rightarrow> canonical_entry list \<Rightarrow> bytes \<Rightarrow> artifact_options \<Rightarrow>
     selected_payload" where
  "best_zstd_candidate z tr payload entries ordinary options =
     (case train_artifact_dictionary tr payload entries options of
        None \<Rightarrow> ordinary_candidate ordinary
      | Some dictionary \<Rightarrow>
          (case compress_with_dictionary z payload CompressionZstd (ao_profile options) dictionary (ao_limits options) of
             Inl _ \<Rightarrow> ordinary_candidate ordinary
           | Inr compressed \<Rightarrow>
               let dictionary_cost = usize_saturating_add (length dictionary) 4 in
               if usize_saturating_add (length compressed) dictionary_cost < length ordinary
               then \<lparr> sp_compression = CompressionZstd, sp_dictionary = dictionary, sp_stored = compressed \<rparr>
               else ordinary_candidate ordinary))"

definition stored_verbatim ::
    "('e, 'd) zstd_engine \<Rightarrow> bytes \<Rightarrow> artifact_options \<Rightarrow> artifact_token_error + selected_payload" where
  "stored_verbatim z payload options =
     and_then (map_err ArtCompression (compress_with_profile z payload CompressionNone (ao_profile options)
         (ao_limits options))) (\<lambda>stored.
       Inr \<lparr> sp_compression = CompressionNone, sp_dictionary = [], sp_stored = stored \<rparr>)"

definition select_payload ::
    "('e, 'd) zstd_engine \<Rightarrow> dictionary_trainer \<Rightarrow> bytes \<Rightarrow> canonical_entry list \<Rightarrow> artifact_options \<Rightarrow>
     artifact_token_error + selected_payload" where
  "select_payload z tr payload entries options =
     (case ao_compression options of
        NoCompression \<Rightarrow> stored_verbatim z payload options
      | ZstdCompression \<Rightarrow>
          and_then (map_err ArtCompression (compress_with_profile z payload CompressionZstd (ao_profile options)
              (ao_limits options))) (\<lambda>ordinary.
            Inr (best_zstd_candidate z tr payload entries ordinary options))
      | AutoCompression \<Rightarrow>
          (case compress_with_profile z payload CompressionZstd (ao_profile options) (ao_limits options) of
             Inr compressed \<Rightarrow>
               let candidate = best_zstd_candidate z tr payload entries compressed options;
                   complete_size = usize_saturating_add
                     (usize_saturating_add (length (sp_dictionary candidate)) (length (sp_stored candidate)))
                     (if sp_dictionary candidate \<noteq> [] then 4 else 0)
               in if complete_size < length payload then Inr candidate else stored_verbatim z payload options
           | Inl e \<Rightarrow>
               if e = UnsupportedEncoder then stored_verbatim z payload options else Inl (ArtCompression e)))"

section \<open>Reading\<close>

definition read_array_at :: "nat \<Rightarrow> bytes \<Rightarrow> nat \<Rightarrow> artifact_token_error + bytes" where
  "read_array_at n bs pos =
     and_then (ok_or ArtLengthOverflow (usize_checked_add pos n)) (\<lambda>end_pos.
     and_then (ok_or ArtUnexpectedEof (slice_get pos end_pos bs)) (\<lambda>x.
       array_of_slice ArtUnexpectedEof n x))"

definition read_byte :: "bytes \<Rightarrow> nat \<Rightarrow> artifact_token_error + u8" where
  "read_byte bs pos = (if pos < length bs then Inr (bs ! pos) else Inl ArtUnexpectedEof)"

definition read_u16_at :: "bytes \<Rightarrow> nat \<Rightarrow> artifact_token_error + u16" where
  "read_u16_at bs pos = and_then (read_array_at 2 bs pos) (\<lambda>x. Inr (u16_from_be_bytes x))"

definition read_u32_at :: "bytes \<Rightarrow> nat \<Rightarrow> artifact_token_error + u32" where
  "read_u32_at bs pos = and_then (read_array_at 4 bs pos) (\<lambda>x. Inr (u32_from_be_bytes x))"

definition read_u64_at :: "bytes \<Rightarrow> nat \<Rightarrow> artifact_token_error + u64" where
  "read_u64_at bs pos = and_then (read_array_at 8 bs pos) (\<lambda>x. Inr (u64_from_be_bytes x))"

record artifact_cursor =
  ac_bytes :: bytes
  ac_offset :: nat

definition artifact_cursor_new :: "bytes \<Rightarrow> artifact_cursor" where
  "artifact_cursor_new bs = \<lparr> ac_bytes = bs, ac_offset = 0 \<rparr>"

definition artifact_cursor_is_empty :: "artifact_cursor \<Rightarrow> bool" where
  "artifact_cursor_is_empty c \<longleftrightarrow> ac_offset c = length (ac_bytes c)"

definition cursor_advance :: "nat \<Rightarrow> 'x \<Rightarrow> artifact_cursor \<Rightarrow> artifact_token_error + 'x \<times> artifact_cursor" where
  "cursor_advance n value c =
     and_then (ok_or ArtLengthOverflow (usize_checked_add (ac_offset c) n)) (\<lambda>offset.
       Inr (value, c\<lparr> ac_offset := offset \<rparr>))"

definition art_read_u8 :: "artifact_cursor \<Rightarrow> artifact_token_error + u8 \<times> artifact_cursor" where
  "art_read_u8 c = and_then (read_byte (ac_bytes c) (ac_offset c)) (\<lambda>v. cursor_advance 1 v c)"

definition art_read_u16 :: "artifact_cursor \<Rightarrow> artifact_token_error + u16 \<times> artifact_cursor" where
  "art_read_u16 c = and_then (read_u16_at (ac_bytes c) (ac_offset c)) (\<lambda>v. cursor_advance 2 v c)"

definition art_read_u32 :: "artifact_cursor \<Rightarrow> artifact_token_error + u32 \<times> artifact_cursor" where
  "art_read_u32 c = and_then (read_u32_at (ac_bytes c) (ac_offset c)) (\<lambda>v. cursor_advance 4 v c)"

definition art_read_u64 :: "artifact_cursor \<Rightarrow> artifact_token_error + u64 \<times> artifact_cursor" where
  "art_read_u64 c = and_then (read_u64_at (ac_bytes c) (ac_offset c)) (\<lambda>v. cursor_advance 8 v c)"

definition art_read_array :: "nat \<Rightarrow> artifact_cursor \<Rightarrow> artifact_token_error + bytes \<times> artifact_cursor" where
  "art_read_array n c = and_then (read_array_at n (ac_bytes c) (ac_offset c)) (\<lambda>v. cursor_advance n v c)"

definition art_read_bytes :: "nat \<Rightarrow> artifact_cursor \<Rightarrow> artifact_token_error + bytes \<times> artifact_cursor" where
  "art_read_bytes n c =
     and_then (ok_or ArtLengthOverflow (usize_checked_add (ac_offset c) n)) (\<lambda>end_pos.
     and_then (ok_or ArtUnexpectedEof (slice_get (ac_offset c) end_pos (ac_bytes c))) (\<lambda>bs.
       Inr (bs, c\<lparr> ac_offset := end_pos \<rparr>)))"

definition art_read_utf8 :: "nat \<Rightarrow> artifact_cursor \<Rightarrow> artifact_token_error + bytes \<times> artifact_cursor" where
  "art_read_utf8 n c =
     and_then (art_read_bytes n c) (\<lambda>(bs, c). if from_utf8 bs then Inr (bs, c) else Inl ArtInvalidUtf8)"

definition art_read_optional_string ::
    "artifact_cursor \<Rightarrow> artifact_token_error + bytes option \<times> artifact_cursor" where
  "art_read_optional_string c =
     and_then (art_read_u16 c) (\<lambda>(len, c).
       if unat len = 0 then Inr (None, c)
       else and_then (art_read_utf8 (unat len) c) (\<lambda>(v, c). Inr (Some v, c)))"

definition artifact_decode_header :: "bytes \<Rightarrow> artifact_token_error + artifact_header" where
  "artifact_decode_header bs =
     (if length bs < ARTIFACT_HEADER_SIZE then Inl ArtUnexpectedEof
      else if slice_get 0 4 bs \<noteq> Some ARTIFACT_MAGIC then Inl ArtInvalidMagic
      else
      and_then (read_byte bs 4) (\<lambda>version.
        if version \<noteq> ARTIFACT_VERSION then Inl (ArtUnsupportedVersion version) else
      and_then (read_byte bs 5) (\<lambda>kind.
      and_then (artifact_kind_from_wire kind) (\<lambda>kind.
      and_then (read_byte bs 6) (\<lambda>compression_value.
      and_then (if compression_value = 0 then Inr CompressionNone
                else if compression_value = 1 then Inr CompressionZstd
                else Inl (ArtUnsupportedCompression compression_value)) (\<lambda>compression.
      and_then (read_byte bs 7) (\<lambda>profile.
      and_then (profile_from_wire profile) (\<lambda>profile.
      and_then (read_u16_at bs 8) (\<lambda>flags.
        if and flags (not SUPPORTED_FLAGS) \<noteq> 0 then Inl (ArtUnsupportedFlags flags)
        else if slice_get 10 12 bs \<noteq> Some [0, 0] then Inl ArtNonZeroReserved else
      and_then (read_u32_at bs 12) (\<lambda>entry_count.
      and_then (read_u64_at bs 16) (\<lambda>manifest_size.
      and_then (read_u64_at bs 24) (\<lambda>original_size.
      and_then (read_u64_at bs 32) (\<lambda>stored_size.
      and_then (read_array_at 32 bs 40) (\<lambda>content.
      and_then (read_array_at 32 bs 72) (\<lambda>envelope.
        Inr \<lparr> ah_kind = kind, ah_compression = compression, ah_profile = profile, ah_flags = flags,
              ah_entry_count = entry_count, ah_manifest_size = manifest_size,
              ah_original_size = original_size, ah_stored_size = stored_size,
              ah_content_digest = Digest32 content, ah_envelope_digest = Digest32 envelope \<rparr>)))))))))))))))"

text \<open>\<open>decode_manifest_entry\<close> reads the fields of one entry, then checks them.\<close>

definition read_entry_kind :: "artifact_cursor \<Rightarrow> artifact_token_error + artifact_entry_kind \<times> artifact_cursor" where
  "read_entry_kind c = and_then (art_read_u8 c) (\<lambda>(w, c). and_then (entry_kind_from_wire w) (\<lambda>k. Inr (k, c)))"

definition read_entry_flag :: "artifact_cursor \<Rightarrow> artifact_token_error + bool \<times> artifact_cursor" where
  "read_entry_flag c = and_then (art_read_u8 c) (\<lambda>(w, c).
     and_then (if w = 0 then Inr False else if w = 1 then Inr True else Inl ArtInvalidDirectoryEntry) (\<lambda>b. Inr (b, c)))"

definition read_zero :: "artifact_cursor \<Rightarrow> artifact_token_error + unit \<times> artifact_cursor" where
  "read_zero c = and_then (art_read_u16 c) (\<lambda>(w, c). if w \<noteq> 0 then Inl ArtNonZeroReserved else Inr ((), c))"

definition read_entry_path ::
    "security_limits \<Rightarrow> nat \<Rightarrow> artifact_cursor \<Rightarrow> artifact_token_error + relative_artifact_path option \<times> artifact_cursor" where
  "read_entry_path limits n c =
     (if n = 0 then Inr (None, c)
      else and_then (art_read_utf8 n c) (\<lambda>(value, c).
           and_then (map_err ArtPath (path_with_max_bytes value (max_path_bytes limits))) (\<lambda>p. Inr (Some p, c))))"

definition check_entry ::
    "artifact_header \<Rightarrow> security_limits \<Rightarrow> u64 \<Rightarrow> canonical_entry \<Rightarrow> artifact_token_error + u64" where
  "check_entry h limits off e =
     (if ah_kind h = FileArtifact \<and> ce_path e \<noteq> None then Inl ArtInvalidFileShape
      else if ah_kind h = DirectoryArtifact \<and> ce_path e = None then Inl ArtInvalidDirectoryShape
      else case ce_kind e of
         FileEntry \<Rightarrow>
           and_then (enforce_file_size (ce_size e) limits) (\<lambda>_.
             if ce_offset e \<noteq> off then Inl ArtInvalidPayloadRange
             else ok_or ArtLengthOverflow (checked_add off (ce_size e)))
       | DirectoryEntry \<Rightarrow>
           if ce_offset e \<noteq> 0 \<or> ce_size e \<noteq> 0 \<or> ce_digest e \<noteq> zero_digest then Inl ArtInvalidDirectoryEntry
           else if ce_executable e then Inl ArtExecutableDirectory
           else Inr off)"

definition read_entry_fields ::
    "security_limits \<Rightarrow> artifact_cursor \<Rightarrow> artifact_token_error + canonical_entry \<times> artifact_cursor" where
  "read_entry_fields limits c =
     and_then (read_entry_kind c) (\<lambda>(kind, c).
     and_then (read_entry_flag c) (\<lambda>(exec, c).
     and_then (read_zero c) (\<lambda>(_, c).
     and_then (art_read_u16 c) (\<lambda>(len, c).
     and_then (read_zero c) (\<lambda>(_, c).
     and_then (art_read_u64 c) (\<lambda>(off, c).
     and_then (art_read_u64 c) (\<lambda>(sz, c).
     and_then (art_read_array 32 c) (\<lambda>(d, c).
     and_then (read_entry_path limits (unat len) c) (\<lambda>(p, c).
       Inr (\<lparr> ce_kind = kind, ce_path = p, ce_offset = off, ce_size = sz, ce_digest = Digest32 d,
              ce_executable = exec \<rparr>, c))))))))))"

definition decode_manifest_entry ::
    "artifact_cursor \<Rightarrow> artifact_header \<Rightarrow> security_limits \<Rightarrow> u64 \<Rightarrow>
     artifact_token_error + (canonical_entry \<times> u64) \<times> artifact_cursor" where
  "decode_manifest_entry c h limits expected_offset =
     and_then (read_entry_fields limits c) (\<lambda>(entry, c).
     and_then (check_entry h limits expected_offset entry) (\<lambda>expected_offset.
       Inr ((entry, expected_offset), c)))"

definition check_entry_order ::
    "bytes option \<Rightarrow> canonical_entry \<Rightarrow> artifact_token_error + bytes option" where
  "check_entry_order previous entry =
     (case ce_path entry of
        None \<Rightarrow> Inr previous
      | Some p \<Rightarrow>
          (case previous of
             None \<Rightarrow> Inr (Some (as_str p))
           | Some item \<Rightarrow>
               if item = as_str p then Inl ArtDuplicatePath
               else if as_str p < item then Inl ArtNonCanonicalOrder
               else Inr (Some (as_str p))))"

fun decode_manifest_entries ::
    "nat \<Rightarrow> artifact_header \<Rightarrow> security_limits \<Rightarrow> canonical_entry list \<Rightarrow> u64 \<Rightarrow> bytes option \<Rightarrow> artifact_cursor \<Rightarrow>
     artifact_token_error + (canonical_entry list \<times> u64) \<times> artifact_cursor" where
  "decode_manifest_entries 0 h limits entries expected_offset previous c = Inr ((entries, expected_offset), c)"
| "decode_manifest_entries (Suc n) h limits entries expected_offset previous c =
     and_then (decode_manifest_entry c h limits expected_offset) (\<lambda>((entry, expected_offset), c).
     and_then (check_entry_order previous entry) (\<lambda>previous.
       decode_manifest_entries n h limits (entries @ [entry]) expected_offset previous c))"

text \<open>\<open>decode_manifest\<close>: metadata, dictionary, flags and count, then the entries, then the checks of the whole.\<close>

definition read_manifest_name ::
    "security_limits \<Rightarrow> artifact_cursor \<Rightarrow> artifact_token_error + bytes option \<times> artifact_cursor" where
  "read_manifest_name limits c =
     and_then (art_read_optional_string c) (\<lambda>(name, c).
     and_then (case name of Some n \<Rightarrow> validate_suggested_name n limits | None \<Rightarrow> Inr ()) (\<lambda>_. Inr (name, c)))"

definition read_manifest_path ::
    "security_limits \<Rightarrow> artifact_cursor \<Rightarrow> artifact_token_error + relative_artifact_path option \<times> artifact_cursor" where
  "read_manifest_path limits c =
     and_then (art_read_optional_string c) (\<lambda>(value, c).
       case value of
         None \<Rightarrow> Inr (None, c)
       | Some value \<Rightarrow>
           and_then (map_err ArtPath (path_with_max_bytes value (max_path_bytes limits))) (\<lambda>p. Inr (Some p, c)))"

definition read_dictionary ::
    "artifact_header \<Rightarrow> artifact_cursor \<Rightarrow> artifact_token_error + bytes \<times> artifact_cursor" where
  "read_dictionary h c =
     (if and (ah_flags h) FLAG_DICTIONARY = 0 then Inr ([], c)
      else
      and_then (art_read_u32 c) (\<lambda>(len, c).
      and_then (usize_try_from ArtLengthOverflow len) (\<lambda>len.
        if len = 0 \<or> MAX_DICTIONARY_SIZE < len then Inl ArtInvalidDictionary
        else art_read_bytes len c)))"

definition check_metadata_flags ::
    "artifact_header \<Rightarrow> bytes option \<Rightarrow> relative_artifact_path option \<Rightarrow> bytes \<Rightarrow> artifact_token_error + unit" where
  "check_metadata_flags h suggested_name suggested_path dictionary =
     (if dictionary \<noteq> [] \<and> ah_compression h \<noteq> CompressionZstd then Inl ArtInvalidDictionary
      else if or (if suggested_name \<noteq> None then FLAG_NAME else 0)
                (or (if suggested_path \<noteq> None then FLAG_PATH else 0)
                  (if dictionary \<noteq> [] then FLAG_DICTIONARY else 0)) \<noteq> ah_flags h
      then Inl ArtMetadataFlagMismatch else Inr ())"

definition read_entry_count ::
    "artifact_header \<Rightarrow> security_limits \<Rightarrow> artifact_cursor \<Rightarrow> artifact_token_error + nat \<times> artifact_cursor" where
  "read_entry_count h limits c =
     and_then (art_read_u32 c) (\<lambda>(count, c).
       if count \<noteq> ah_entry_count h then Inl ArtEntryCountMismatch else
     and_then (enforce_entry_count count limits) (\<lambda>_.
     and_then (usize_try_from ArtLengthOverflow count) (\<lambda>count. Inr (count, c))))"

definition read_manifest_fields ::
    "artifact_header \<Rightarrow> security_limits \<Rightarrow> artifact_cursor \<Rightarrow>
     artifact_token_error + (decoded_manifest \<times> u64) \<times> artifact_cursor" where
  "read_manifest_fields h limits c =
     and_then (read_manifest_name limits c) (\<lambda>(suggested_name, c).
     and_then (read_manifest_path limits c) (\<lambda>(suggested_path, c).
     and_then (read_dictionary h c) (\<lambda>(dictionary, c).
     and_then (check_metadata_flags h suggested_name suggested_path dictionary) (\<lambda>_.
     and_then (read_entry_count h limits c) (\<lambda>(count, c).
     and_then (decode_manifest_entries count h limits [] 0 None c) (\<lambda>((entries, expected_offset), c).
       Inr ((\<lparr> dm_suggested_name = suggested_name, dm_suggested_path = suggested_path,
              dm_dictionary = dictionary, dm_entries = entries \<rparr>, expected_offset), c)))))))"

definition artifact_decode_manifest ::
    "bytes \<Rightarrow> artifact_header \<Rightarrow> security_limits \<Rightarrow> artifact_token_error + decoded_manifest" where
  "artifact_decode_manifest bs h limits =
     and_then (read_manifest_fields h limits (artifact_cursor_new bs)) (\<lambda>((m, expected_offset), c).
       if \<not> artifact_cursor_is_empty c then Inl ArtEnvelopeLengthMismatch
       else if expected_offset \<noteq> ah_original_size h then Inl ArtInvalidPayloadRange else
     and_then (validate_tree (dm_entries m)) (\<lambda>_.
       if ah_kind h = FileArtifact
          \<and> (length (dm_entries m) \<noteq> 1
             \<or> (case dm_entries m of [] \<Rightarrow> True | e # _ \<Rightarrow> ce_kind e \<noteq> FileEntry))
       then Inl ArtInvalidFileShape
       else Inr m))"

section \<open>The public operations\<close>

definition decode_artifact ::
    "blake3 \<Rightarrow> ('e, 'd) zstd_engine \<Rightarrow> bytes \<Rightarrow> security_limits \<Rightarrow> artifact_token_error + decoded_artifact" where
  "decode_artifact H z binary limits =
     and_then (art_usize_to_u64 (length binary)) (\<lambda>binary_len.
     and_then (enforce_binary_size binary_len limits) (\<lambda>_.
     and_then (artifact_decode_header binary) (\<lambda>h.
     and_then (enforce_header_limits h limits) (\<lambda>_.
     and_then (usize_try_from ArtLengthOverflow (ah_manifest_size h)) (\<lambda>manifest_size.
     and_then (usize_try_from ArtLengthOverflow (ah_stored_size h)) (\<lambda>stored_size.
     and_then (ok_or ArtLengthOverflow (usize_checked_add ARTIFACT_HEADER_SIZE manifest_size)) (\<lambda>manifest_end.
     and_then (ok_or ArtLengthOverflow (usize_checked_add manifest_end stored_size)) (\<lambda>expected_end.
       if length binary \<noteq> expected_end then Inl ArtEnvelopeLengthMismatch else
     and_then (ok_or ArtUnexpectedEof (slice_get ARTIFACT_HEADER_SIZE manifest_end binary)) (\<lambda>manifest.
     and_then (ok_or ArtUnexpectedEof (slice_get manifest_end expected_end binary)) (\<lambda>stored.
     let actual_envelope_digest = envelope_digest H h manifest stored in
       if \<not> digest_matches (ah_envelope_digest h) actual_envelope_digest then Inl ArtEnvelopeDigestMismatch else
     and_then (artifact_decode_manifest manifest h limits) (\<lambda>m.
     let actual_content_digest = content_digest H (ah_kind h) (dm_entries m) in
       if \<not> digest_matches (ah_content_digest h) actual_content_digest then Inl ArtContentDigestMismatch else
     and_then (map_err ArtCompression (decompress_with_dictionary z stored (ah_compression h) (dm_dictionary m)
         (ah_original_size h) limits)) (\<lambda>payload.
     and_then (reconstruct H (ah_kind h) (dm_suggested_name m) (dm_suggested_path m) (dm_entries m) payload) (\<lambda>a.
     and_then (art_usize_to_u32 (length (dm_dictionary m))) (\<lambda>dictionary_size.
       Inr \<lparr> da_artifact = a, da_compression = ah_compression h, da_profile = ah_profile h,
             da_content_digest = actual_content_digest, da_envelope_digest = actual_envelope_digest,
             da_original_size = ah_original_size h, da_stored_size = ah_stored_size h,
             da_dictionary_size = dictionary_size \<rparr>))))))))))))))"

definition encode_artifact ::
    "blake3 \<Rightarrow> ('e, 'd) zstd_engine \<Rightarrow> dictionary_trainer \<Rightarrow> artifact \<Rightarrow> artifact_options \<Rightarrow>
     artifact_token_error + encoded_artifact" where
  "encode_artifact H z tr a options =
     and_then (canonicalize H a (ao_limits options)) (\<lambda>(entries, payload).
     let content = content_digest H (af_kind a) entries in
     and_then (select_payload z tr payload entries options) (\<lambda>sp.
     and_then (artifact_encode_manifest a (sp_dictionary sp) entries (ao_limits options)) (\<lambda>manifest.
     and_then (art_usize_to_u32 (length entries)) (\<lambda>entry_count.
     and_then (art_usize_to_u64 (length payload)) (\<lambda>original_size.
     and_then (art_usize_to_u64 (length (sp_stored sp))) (\<lambda>stored_size.
     and_then (art_usize_to_u64 (length manifest)) (\<lambda>manifest_size.
     let h = \<lparr> ah_kind = af_kind a, ah_compression = sp_compression sp, ah_profile = ao_profile options,
               ah_flags = metadata_flags a (sp_dictionary sp), ah_entry_count = entry_count,
               ah_manifest_size = manifest_size, ah_original_size = original_size, ah_stored_size = stored_size,
               ah_content_digest = content, ah_envelope_digest = zero_digest \<rparr>;
         h = h\<lparr> ah_envelope_digest := envelope_digest H h manifest (sp_stored sp) \<rparr>;
         header_bytes = artifact_encode_header h in
     and_then (ok_or ArtLengthOverflow (Option.bind (usize_checked_add ARTIFACT_HEADER_SIZE (length manifest))
         (\<lambda>value. usize_checked_add value (length (sp_stored sp))))) (\<lambda>binary_size.
     and_then (art_usize_to_u64 binary_size) (\<lambda>binary_len.
     and_then (enforce_binary_size binary_len (ao_limits options)) (\<lambda>_.
     let binary = header_bytes @ manifest @ sp_stored sp in
     and_then (decode_artifact H z binary (ao_limits options)) (\<lambda>decoded.
     and_then (canonical_artifact H a entries payload) (\<lambda>canonical.
       if da_artifact decoded \<noteq> canonical then Inl ArtContentDigestMismatch else
     and_then (art_usize_to_u32 (length (sp_dictionary sp))) (\<lambda>dictionary_size.
       Inr \<lparr> ea_binary = binary, ea_kind = af_kind a, ea_compression = sp_compression sp,
             ea_profile = ao_profile options, ea_content_digest = content,
             ea_envelope_digest = ah_envelope_digest h, ea_original_size = original_size,
             ea_stored_size = stored_size, ea_dictionary_size = dictionary_size,
             ea_entry_count = entry_count \<rparr>)))))))))))))"

definition encode_artifact_binary_token ::
    "base64_engine \<Rightarrow> bytes \<Rightarrow> security_limits \<Rightarrow> artifact_token_error + bytes" where
  "encode_artifact_binary_token b64 binary limits =
     (let token = ARTIFACT_TOKEN_PREFIX @ b64_encode b64 binary in
      and_then (art_usize_to_u64 (length token)) (\<lambda>len.
      and_then (enforce_token_size len limits) (\<lambda>_. Inr token)))"

definition artifact_to_token :: "base64_engine \<Rightarrow> encoded_artifact \<Rightarrow> security_limits \<Rightarrow> artifact_token_error + bytes" where
  "artifact_to_token b64 self limits = encode_artifact_binary_token b64 (ea_binary self) limits"

definition encode_artifact_token ::
    "blake3 \<Rightarrow> ('e, 'd) zstd_engine \<Rightarrow> dictionary_trainer \<Rightarrow> base64_engine \<Rightarrow> artifact \<Rightarrow> artifact_options \<Rightarrow>
     artifact_token_error + bytes" where
  "encode_artifact_token H z tr b64 a options =
     and_then (encode_artifact H z tr a options) (\<lambda>encoded.
       encode_artifact_binary_token b64 (ea_binary encoded) (ao_limits options))"

definition decode_artifact_token ::
    "blake3 \<Rightarrow> ('e, 'd) zstd_engine \<Rightarrow> base64_engine \<Rightarrow> bytes \<Rightarrow> security_limits \<Rightarrow>
     artifact_token_error + decoded_artifact" where
  "decode_artifact_token H z b64 token limits =
     and_then (art_usize_to_u64 (length token)) (\<lambda>len.
     and_then (enforce_token_size len limits) (\<lambda>_.
     and_then (ok_or ArtInvalidPrefix (strip_prefix ARTIFACT_TOKEN_PREFIX token)) (\<lambda>payload.
       if payload = [] \<or> list_ex (\<lambda>b. \<not> is_ascii_alphanumeric b \<and> b \<noteq> 45 \<and> b \<noteq> 95) payload
       then Inl ArtInvalidAlphabet
       else
     and_then (ok_or ArtInvalidBase64 (b64_decode b64 payload)) (\<lambda>binary.
       if b64_encode b64 binary \<noteq> payload then Inl ArtInvalidBase64
       else decode_artifact H z binary limits))))"

end
