(* ===== verification/Artifact_Token_Correct.thy ===== *)
theory Artifact_Token_Correct
  imports Artifact_Token "HOL-Library.Sublist"
begin

text \<open>
  Correctness of the artifact codec: its cursor implements \<open>byte_reader\<close>, header and manifest readers
  invert their writers, the bytes of an envelope are determined by the decoded report, its dictionary and
  its stored payload, and the self-verification of \<open>encode_artifact\<close> never rejects what was built.
\<close>

context byte_reader
begin

lemma parses_option:
  assumes "v = None \<Longrightarrow> parses rd1 R1" and "\<And>x. v = Some x \<Longrightarrow> parses (rd2 x) (R2 x)"
  shows "parses (\<lambda>c. case v of None \<Rightarrow> rd1 c | Some x \<Rightarrow> rd2 x c)
    (\<lambda>y bs. v = None \<and> R1 y bs \<or> (\<exists>x. v = Some x \<and> R2 x y bs))"
  using assms by (cases v) simp_all

lemma parses_pair:
  "(\<And>a b. x = (a, b) \<Longrightarrow> parses (f a b) (R a b)) \<Longrightarrow> parses (case_prod f x) (case_prod R x)"
  by (cases x) simp

lemma parses_iff: "parses rd R \<Longrightarrow> (\<And>x bs. R x bs \<longleftrightarrow> R' x bs) \<Longrightarrow> parses rd R'"
  by (simp add: parses_def)

end

section \<open>The cursor implements the interface\<close>

definition ac_at :: "bytes \<Rightarrow> bytes \<Rightarrow> artifact_cursor" where
  "ac_at pre post = \<lparr> ac_bytes = pre @ post, ac_offset = length pre \<rparr>"

lemma artifact_cursor_new_at: "artifact_cursor_new bs = ac_at [] bs"
  by (simp add: artifact_cursor_new_def ac_at_def)

lemma artifact_cursor_empty_at [simp]: "artifact_cursor_is_empty (ac_at pre post) \<longleftrightarrow> post = []"
  by (simp add: artifact_cursor_is_empty_def ac_at_def)

interpretation at: byte_reader art_read_bytes ac_at
proof unfold_locales
  fix pre bs r :: bytes
  assume "length pre + length bs \<le> usize_max"
  then show "art_read_bytes (length bs) (ac_at pre (bs @ r)) = Inr (bs, ac_at (pre @ bs) r)"
    by (simp add: art_read_bytes_def ac_at_def usize_checked_add_ok)
next
  fix n and pre post bs :: bytes and c
  assume "art_read_bytes n (ac_at pre post) = Inr (bs, c)"
  then have "slice_get (length pre) (length pre + n) (pre @ post) = Some bs"
    and c: "c = \<lparr> ac_bytes = pre @ post, ac_offset = length pre + n \<rparr>"
    by (auto simp: art_read_bytes_def ac_at_def and_then_eq_Inr)
  then show "length bs = n \<and> (\<exists>r. post = bs @ r \<and> c = ac_at (pre @ bs) r)"
    unfolding slice_get_at by (auto simp: ac_at_def)
qed

lemma art_read_array_eq: "art_read_array n = art_read_bytes n"
proof
  fix c
  show "art_read_array n c = art_read_bytes n c"
    by (cases "slice_get (ac_offset c) (ac_offset c + n) (ac_bytes c)")
      (auto simp: art_read_array_def art_read_bytes_def read_array_at_def cursor_advance_def and_then_def
        array_of_slice_def ok_or_def usize_checked_add_def dest: slice_get_length split: option.splits)
qed

lemma at_reads_u8: "at.reads art_read_u8 (\<lambda>b. [b]) (\<lambda>_. True)"
  by (rule at.readsI)
    (auto simp: art_read_u8_def ac_at_def read_byte_def cursor_advance_def usize_checked_add_ok nth_append
      and_then_eq_Inr neq_Nil_conv split: if_splits intro: exI [of _ "tl post" for post])

lemma at_reads_ints:
  "at.reads art_read_u16 u16_to_be_bytes (\<lambda>_. True)"
  "at.reads art_read_u32 u32_to_be_bytes (\<lambda>_. True)" "at.reads art_read_u64 u64_to_be_bytes (\<lambda>_. True)"
proof -
  have "art_read_u16 = (\<lambda>c. and_then (art_read_array 2 c) (\<lambda>(bs, c). Inr (u16_from_be_bytes bs, c)))"
    "art_read_u32 = (\<lambda>c. and_then (art_read_array 4 c) (\<lambda>(bs, c). Inr (u32_from_be_bytes bs, c)))"
    "art_read_u64 = (\<lambda>c. and_then (art_read_array 8 c) (\<lambda>(bs, c). Inr (u64_from_be_bytes bs, c)))"
    by (simp_all add: fun_eq_iff art_read_u16_def art_read_u32_def art_read_u64_def art_read_array_def
        read_u16_at_def read_u32_at_def read_u64_at_def cursor_advance_def and_then_assoc)
  then show "at.reads art_read_u16 u16_to_be_bytes (\<lambda>_. True)"
    "at.reads art_read_u32 u32_to_be_bytes (\<lambda>_. True)" "at.reads art_read_u64 u64_to_be_bytes (\<lambda>_. True)"
    using at.reads_be16 at.reads_be32 at.reads_be64 by (simp_all add: art_read_array_eq)
qed

lemma at_reads_array: "at.reads (art_read_array n) (\<lambda>bs. bs) (\<lambda>bs. length bs = n)"
  using at.reads_take_n by (simp add: art_read_array_eq)

lemmas at_rules =
  at.parses_reads [OF at_reads_u8] at.parses_reads [OF at_reads_ints(1)] at.parses_reads [OF at_reads_ints(2)]
  at.parses_reads [OF at_reads_ints(3)] at.parses_reads [OF at_reads_array] at.parses_reads [OF at.reads_take_n]
  at.parses_rules at.parses_option at.parses_pair

section \<open>Field readers\<close>

lemma u16_length:
  "unat (w :: u16) = n \<longleftrightarrow> n < 65536 \<and> w = of_nat n" "n = unat (w :: u16) \<longleftrightarrow> n < 65536 \<and> w = of_nat n"
  "n < 65536 \<Longrightarrow> unat (of_nat n :: u16) = n" "n < 65536 \<Longrightarrow> (of_nat n :: u16) = 0 \<longleftrightarrow> n = 0"
  using unsigned_less [of w, where ?'a = nat] by (auto simp: unat_of_nat word_unat_eq_iff)

definition wire_opt_str :: "bytes option \<Rightarrow> bytes" where
  "wire_opt_str v = (case v of None \<Rightarrow> [0, 0] | Some s \<Rightarrow> u16_to_be_bytes (of_nat (length s)) @ s)"

definition opt_str_ok :: "bytes option \<Rightarrow> bool" where
  "opt_str_ok v \<longleftrightarrow> pred_option (\<lambda>s. s \<noteq> [] \<and> length s < 65536 \<and> from_utf8 s) v"

lemma reads_utf8: "at.reads (art_read_utf8 n) (\<lambda>bs. bs) (\<lambda>bs. length bs = n \<and> from_utf8 bs)"
  unfolding art_read_utf8_def [abs_def]
  by (rule at.reads_by, (rule at_rules)+) auto

lemma u16_zero_bytes [simp]: "u16_to_be_bytes 0 = [0, 0]"
  by (simp add: u16_to_be_bytes_def numeral_2_eq_2)

lemma reads_optional_string: "at.reads art_read_optional_string wire_opt_str opt_str_ok"
  unfolding art_read_optional_string_def [abs_def]
  apply (rule at.reads_by, (rule at_rules at.parses_reads [OF reads_utf8])+)
  subgoal for x bs
    by (cases x) (auto simp: wire_opt_str_def opt_str_ok_def u16_length)
  done

definition entry_path_ok :: "security_limits \<Rightarrow> relative_artifact_path \<Rightarrow> bool" where
  "entry_path_ok limits p \<longleftrightarrow> as_str p \<noteq> [] \<and> length (as_str p) < 65536 \<and> from_utf8 (as_str p) \<and>
     path_with_max_bytes (as_str p) (max_path_bytes limits) = Inr p"

lemma reads_manifest_path:
  "at.reads (read_manifest_path limits) (\<lambda>p. wire_opt_str (map_option as_str p)) (pred_option (entry_path_ok limits))"
  unfolding read_manifest_path_def [abs_def]
  apply (rule at.reads_by, (rule at_rules at.parses_reads [OF reads_optional_string])+)
  subgoal for x bs
    by (cases x) (auto simp: wire_opt_str_def path_with_max_bytes_inv entry_path_ok_def opt_str_ok_def)
  done

definition wire_dictionary :: "bytes \<Rightarrow> bytes" where
  "wire_dictionary d = (if d = [] then [] else u32_to_be_bytes (of_nat (length d)) @ d)"

lemma reads_dictionary:
  "at.reads (read_dictionary h) wire_dictionary
     (\<lambda>d. if and (ah_flags h) FLAG_DICTIONARY = 0 then d = [] else d \<noteq> [] \<and> length d \<le> MAX_DICTIONARY_SIZE)"
proof -
  have u32: "n \<le> MAX_DICTIONARY_SIZE \<Longrightarrow> unat (of_nat n :: u32) = n"
    "unat (w :: u32) = n \<longleftrightarrow> n < 2 ^ 32 \<and> w = of_nat n" for n w
    using unsigned_less [of w, where ?'a = nat] by (auto simp: unat_of_nat MAX_DICTIONARY_SIZE_def)
  show ?thesis
    unfolding read_dictionary_def [abs_def]
    apply (rule at.reads_by, (rule at_rules)+)
    apply (auto simp: wire_dictionary_def u32 MAX_DICTIONARY_SIZE_def)
    done
qed

section \<open>Entries\<close>

definition wire_ce :: "canonical_entry \<Rightarrow> bytes" where
  "wire_ce e = [entry_kind_wire (ce_kind e), if ce_executable e then 1 else 0, 0, 0] @
     u16_to_be_bytes (of_nat (length (entry_path_str e))) @ [0, 0] @ u64_to_be_bytes (ce_offset e) @
     u64_to_be_bytes (ce_size e) @ digest_bytes (ce_digest e) @ entry_path_str e"

definition entry_layout ::
    "artifact_header \<Rightarrow> security_limits \<Rightarrow> u64 \<Rightarrow> canonical_entry \<Rightarrow> u64 \<Rightarrow> bool" where
  "entry_layout h limits off e next \<longleftrightarrow>
     (ah_kind h = FileArtifact \<longleftrightarrow> ce_path e = None) \<and> pred_option (entry_path_ok limits) (ce_path e) \<and>
     wf_digest (ce_digest e) \<and>
     (case ce_kind e of
        FileEntry \<Rightarrow> ce_size e \<le> max_single_file_bytes limits \<and> ce_offset e = off \<and>
          checked_add off (ce_size e) = Some next
      | DirectoryEntry \<Rightarrow> ce_offset e = 0 \<and> ce_size e = 0 \<and> ce_digest e = zero_digest \<and> \<not> ce_executable e \<and> next = off)"

lemma kind_wires:
  "artifact_kind_from_wire w = Inr k \<longleftrightarrow> w = artifact_kind_wire k"
  "entry_kind_from_wire w = Inr ek \<longleftrightarrow> w = entry_kind_wire ek"
  "profile_from_wire w = Inr p \<longleftrightarrow> w = profile_wire p"
  subgoal by (cases k) (auto simp: artifact_kind_from_wire_def artifact_kind_wire_def)
  subgoal by (cases ek) (auto simp: entry_kind_from_wire_def entry_kind_wire_def)
  subgoal by (cases p) (auto simp: profile_from_wire_def profile_wire_def)
  done

lemma enforce_eq_Inr [simp]:
  "enforce_entry_count c limits = Inr u \<longleftrightarrow> c \<le> max_file_count limits"
  "enforce_file_size n limits = Inr u \<longleftrightarrow> n \<le> max_single_file_bytes limits"
  "enforce_payload_size n limits = Inr u \<longleftrightarrow> n \<le> max_uncompressed_payload_bytes limits"
  "enforce_binary_size n limits = Inr u \<longleftrightarrow> n \<le> max_capsule_bytes limits"
  "enforce_token_size n limits = Inr u \<longleftrightarrow> n \<le> max_token_bytes limits"
  by (auto simp: enforce_entry_count_def enforce_file_size_def enforce_payload_size_def enforce_binary_size_def
      enforce_token_size_def)

lemma reads_entry_parts:
  "at.reads read_entry_kind (\<lambda>k. [entry_kind_wire k]) (\<lambda>_. True)"
  "at.reads read_entry_flag (\<lambda>b. [if b then 1 else 0]) (\<lambda>_. True)"
  "at.reads read_zero (\<lambda>_. [0, 0]) (\<lambda>_. True)"
  "at.reads (read_entry_path limits n) (\<lambda>p. case p of Some p \<Rightarrow> as_str p | None \<Rightarrow> [])
     (\<lambda>p. n = (case p of Some p \<Rightarrow> length (as_str p) | None \<Rightarrow> 0) \<and>
        pred_option (\<lambda>p. as_str p \<noteq> [] \<and> from_utf8 (as_str p) \<and>
          path_with_max_bytes (as_str p) (max_path_bytes limits) = Inr p) p)"
  subgoal unfolding read_entry_kind_def [abs_def]
    by (rule at.reads_by, (rule at_rules)+) (auto simp: kind_wires)
  subgoal unfolding read_entry_flag_def [abs_def]
    by (rule at.reads_by, (rule at_rules)+) (auto intro: exI [of _ 0] exI [of _ 1])
  subgoal unfolding read_zero_def [abs_def]
    by (rule at.reads_by, (rule at_rules)+) auto
  subgoal unfolding read_entry_path_def [abs_def]
    apply (rule at.reads_by, (rule at_rules at.parses_reads [OF reads_utf8])+)
    subgoal for x bs by (cases x) (auto simp: path_with_max_bytes_inv)
    done
  done

lemma reads_entry_fields:
  "at.reads (read_entry_fields limits) wire_ce (\<lambda>e. pred_option (entry_path_ok limits) (ce_path e) \<and> wf_digest (ce_digest e))"
  unfolding read_entry_fields_def [abs_def]
  apply (rule at.reads_by, (rule at_rules at.parses_reads [OF reads_entry_parts(1)]
      at.parses_reads [OF reads_entry_parts(2)] at.parses_reads [OF reads_entry_parts(3)]
      at.parses_reads [OF reads_entry_parts(4)])+)
  subgoal for x bs
    apply (cases x)
    subgoal for k p off' sz d exec
      by (cases d; cases p) (auto simp: wire_ce_def u16_length entry_path_str_def wf_digest_def entry_path_ok_def)
    done
  done

lemma check_entry_eq_Inr:
  "pred_option (entry_path_ok limits) (ce_path e) \<and> wf_digest (ce_digest e) \<and> check_entry h limits off e = Inr nx
     \<longleftrightarrow> entry_layout h limits off e nx"
  by (cases "ah_kind h"; cases "ce_kind e")
    (auto simp: check_entry_def entry_layout_def and_then_eq_Inr split: if_splits)

lemma reads_entry:
  "at.reads (\<lambda>c. decode_manifest_entry c h limits off) (\<lambda>(e, nx). wire_ce e)
     (\<lambda>(e, nx). entry_layout h limits off e nx)"
  unfolding decode_manifest_entry_def
  apply (rule at.reads_by, (rule at_rules at.parses_reads [OF reads_entry_fields])+)
  subgoal for x bs
    by (cases x) (auto simp: check_entry_eq_Inr [symmetric])
  done


section \<open>Manifests\<close>

primrec chain :: "artifact_header \<Rightarrow> security_limits \<Rightarrow> canonical_entry list \<Rightarrow> u64 \<Rightarrow> bytes option \<Rightarrow> u64 \<Rightarrow> bool" where
  "chain h limits [] off prev nx \<longleftrightarrow> nx = off"
| "chain h limits (e # es) off prev nx \<longleftrightarrow>
     (\<exists>mid prev'. entry_layout h limits off e mid \<and> check_entry_order prev e = Inr prev' \<and>
        chain h limits es mid prev' nx)"

lemma parses_entries:
  "at.parses (decode_manifest_entries n h limits es off prev)
     (\<lambda>(es', nx) bs. \<exists>ns. es' = es @ ns \<and> length ns = n \<and> chain h limits ns off prev nx \<and> bs = concat (map wire_ce ns))"
proof (induction n arbitrary: es off prev)
  case 0
  show ?case
    unfolding decode_manifest_entries.simps by (rule at.parses_iff [OF at.parses_return]) auto
next
  case (Suc n)
  have "at.parses (\<lambda>c. and_then (decode_manifest_entry c h limits off) (\<lambda>((entry, off'), c).
     and_then (check_entry_order prev entry) (\<lambda>prev. decode_manifest_entries n h limits (es @ [entry]) off' prev c)))
     (\<lambda>(es', nx) bs. \<exists>ns. es' = es @ ns \<and> length ns = Suc n \<and> chain h limits ns off prev nx \<and> bs = concat (map wire_ce ns))"
    apply (rule at.parses_iff)
     apply (rule at.parses_bind [OF at.parses_reads [OF reads_entry]] at.parses_pair at.parses_result Suc.IH)+
    subgoal for x bs
      apply (cases x)
      apply (auto simp: length_Suc_conv)
      apply blast+
      done
    done
  then show ?case unfolding decode_manifest_entries.simps [abs_def] .
qed

definition wire_artifact_manifest :: "decoded_manifest \<Rightarrow> bytes" where
  "wire_artifact_manifest m =
     wire_opt_str (dm_suggested_name m) @ wire_opt_str (map_option as_str (dm_suggested_path m)) @
     wire_dictionary (dm_dictionary m) @ u32_to_be_bytes (of_nat (length (dm_entries m))) @
     concat (map wire_ce (dm_entries m))"

definition manifest_metadata_ok :: "artifact_header \<Rightarrow> security_limits \<Rightarrow> decoded_manifest \<Rightarrow> bool" where
  "manifest_metadata_ok h limits m \<longleftrightarrow>
     opt_str_ok (dm_suggested_name m) \<and>
     pred_option (\<lambda>n. validate_suggested_name n limits = Inr ()) (dm_suggested_name m) \<and>
     pred_option (entry_path_ok limits) (dm_suggested_path m) \<and>
     length (dm_dictionary m) \<le> MAX_DICTIONARY_SIZE \<and>
     check_metadata_flags h (dm_suggested_name m) (dm_suggested_path m) (dm_dictionary m) = Inr () \<and>
     length (dm_entries m) = unat (ah_entry_count h) \<and> ah_entry_count h \<le> max_file_count limits"

definition manifest_fields_ok :: "artifact_header \<Rightarrow> security_limits \<Rightarrow> decoded_manifest \<times> u64 \<Rightarrow> bool" where
  "manifest_fields_ok h limits x \<longleftrightarrow> manifest_metadata_ok h limits (fst x) \<and>
     chain h limits (dm_entries (fst x)) 0 None (snd x)"

lemma reads_manifest_name:
  "at.reads (read_manifest_name limits) wire_opt_str
     (\<lambda>n. opt_str_ok n \<and> pred_option (\<lambda>n. validate_suggested_name n limits = Inr ()) n)"
  unfolding read_manifest_name_def [abs_def]
  apply (rule at.reads_by, (rule at_rules at.parses_reads [OF reads_optional_string])+)
  subgoal for x bs by (cases x) auto
  done

lemma reads_entry_count:
  "at.reads (read_entry_count h limits) (\<lambda>n. u32_to_be_bytes (of_nat n))
     (\<lambda>n. n = unat (ah_entry_count h) \<and> ah_entry_count h \<le> max_file_count limits)"
  unfolding read_entry_count_def [abs_def]
  by (rule at.reads_by, (rule at_rules)+) auto

lemma flags_dictionary:
  "check_metadata_flags h n p d = Inr u \<Longrightarrow> and (ah_flags h) FLAG_DICTIONARY = 0 \<longleftrightarrow> d = []"
  by (cases n; cases p; cases d)
    (auto simp: check_metadata_flags_def FLAG_NAME_def FLAG_PATH_def FLAG_DICTIONARY_def split: if_splits)

lemma reads_manifest_fields:
  "at.reads (read_manifest_fields h limits) (\<lambda>x. wire_artifact_manifest (fst x)) (manifest_fields_ok h limits)"
  unfolding read_manifest_fields_def [abs_def]
  apply (rule at.reads_by, (rule at.parses_reads [OF reads_manifest_name] at.parses_reads [OF reads_manifest_path]
      at.parses_reads [OF reads_dictionary] at.parses_reads [OF reads_entry_count] parses_entries at_rules)+)
  subgoal for x bs
    apply (cases x)
    subgoal for m off
      apply (cases m)
      apply (auto simp: manifest_fields_ok_def manifest_metadata_ok_def wire_artifact_manifest_def
          flags_dictionary split: if_splits)
      done
    done
  done

definition manifest_ok :: "artifact_header \<Rightarrow> security_limits \<Rightarrow> decoded_manifest \<Rightarrow> bool" where
  "manifest_ok h limits m \<longleftrightarrow> manifest_metadata_ok h limits m \<and>
     chain h limits (dm_entries m) 0 None (ah_original_size h) \<and> validate_tree (dm_entries m) = Inr () \<and>
     (ah_kind h = FileArtifact \<longrightarrow> length (dm_entries m) = 1 \<and> list_all (\<lambda>e. ce_kind e = FileEntry) (dm_entries m))"

lemma artifact_decode_manifest_iff:
  assumes "length bs \<le> usize_max"
  shows "artifact_decode_manifest bs h limits = Inr m \<longleftrightarrow> manifest_ok h limits m \<and> bs = wire_artifact_manifest m"
proof
  assume "artifact_decode_manifest bs h limits = Inr m"
  then obtain off c where rd: "read_manifest_fields h limits (ac_at [] bs) = Inr ((m, off), c)"
    and fin: "artifact_cursor_is_empty c" "off = ah_original_size h" "validate_tree (dm_entries m) = Inr ()"
      "ah_kind h = FileArtifact \<longrightarrow> length (dm_entries m) = 1 \<and> list_all (\<lambda>e. ce_kind e = FileEntry) (dm_entries m)"
    by (auto simp: artifact_decode_manifest_def artifact_cursor_new_at and_then_eq_Inr length_Suc_conv split: if_splits list.splits)
  from at.reads_bwd [OF reads_manifest_fields rd] obtain r where "manifest_fields_ok h limits (m, off)"
    and bs: "bs = wire_artifact_manifest m @ r" and c: "c = ac_at (wire_artifact_manifest m) r"
    by (metis append_Nil fst_conv)
  moreover have "r = []" using fin(1) unfolding c by simp
  ultimately show "manifest_ok h limits m \<and> bs = wire_artifact_manifest m"
    using fin by (simp add: manifest_ok_def manifest_fields_ok_def)
next
  assume m: "manifest_ok h limits m \<and> bs = wire_artifact_manifest m"
  then have "read_manifest_fields h limits (ac_at [] bs) = Inr ((m, ah_original_size h), ac_at bs [])"
    using at.reads_fwd [OF reads_manifest_fields, of h limits "(m, ah_original_size h)" "[]" "[]"] assms
    by (simp add: manifest_ok_def manifest_fields_ok_def)
  with m show "artifact_decode_manifest bs h limits = Inr m"
    by (auto simp: artifact_decode_manifest_def artifact_cursor_new_at manifest_ok_def split: list.splits)
qed

section \<open>Headers\<close>

lemma slice_get_skip:
  "length xs \<le> s \<Longrightarrow> s \<le> e \<Longrightarrow> slice_get s e (xs @ ys) = slice_get (s - length xs) (e - length xs) ys"
  by (auto simp: slice_get_def)

lemma slice_get_first: "length xs = e \<Longrightarrow> slice_get 0 e (xs @ ys) = Some xs"
  by (auto simp: slice_get_def)

lemma read_at_skip:
  "length xs \<le> i \<Longrightarrow> i + n \<le> usize_max \<Longrightarrow> read_array_at n (xs @ ys) i = read_array_at n ys (i - length xs)"
  "length xs \<le> i \<Longrightarrow> read_byte (xs @ ys) i = read_byte ys (i - length xs)"
  "length x = n \<Longrightarrow> n \<le> usize_max \<Longrightarrow> read_array_at n (x @ ys) 0 = Inr x" "read_byte (b # ys) 0 = Inr b"
  by (simp_all add: read_array_at_def read_byte_def slice_get_skip slice_get_first usize_checked_add_ok array_of_slice_def nth_append
      less_diff_conv2)

lemma read_at_Cons:
  "0 < i \<Longrightarrow> i + n \<le> usize_max \<Longrightarrow> read_array_at n (x # ys) i = read_array_at n ys (i - 1)"
  "0 < i \<Longrightarrow> read_byte (x # ys) i = read_byte ys (i - 1)"
  "0 < s \<Longrightarrow> s \<le> e \<Longrightarrow> slice_get s e (b # bs) = slice_get (s - 1) (e - 1) bs"
  "slice_get 0 2 (b # c # bs) = Some [b, c]"
  using read_at_skip(1) [of "[x]" i n ys] read_at_skip(2) [of "[x]" i ys] slice_get_skip [of "[b]" s e bs]
    slice_get_first [of "[b, c]" 2 bs] by (simp_all add: Suc_le_eq)

lemma read_at_drop:
  "read_array_at n bs i = Inr x \<Longrightarrow> length x = n \<and> drop i bs = x @ drop (i + n) bs"
  "read_byte bs i = Inr b \<Longrightarrow> drop i bs = [b] @ drop (Suc i) bs"
  by (auto simp: read_array_at_def and_then_eq_Inr read_byte_def Cons_nth_drop_Suc dest!: slice_get_drop split: if_splits)

definition header_ok :: "artifact_header \<Rightarrow> bool" where
  "header_ok h \<longleftrightarrow> and (ah_flags h) (not SUPPORTED_FLAGS) = 0 \<and> wf_digest (ah_content_digest h) \<and>
     wf_digest (ah_envelope_digest h)"

lemma length_artifact_encode_header [simp]: "header_ok h \<Longrightarrow> length (artifact_encode_header h) = 104"
  by (simp add: artifact_encode_header_def header_ok_def wf_digest_def ARTIFACT_MAGIC_def)

lemma compression_wire:
  "(if w = 0 then Inr CompressionNone else if w = 1 then Inr CompressionZstd else Inl (e w)) = Inr c \<longleftrightarrow>
     w = compression_as_u8 c"
  by (cases c) (auto simp: compression_as_u8_def)

lemma usize_header: "n \<le> 104 \<Longrightarrow> n \<le> usize_max"
  by (simp add: usize_max_def)

lemma artifact_decode_header_wire:
  assumes "header_ok h"
  shows "artifact_decode_header (artifact_encode_header h @ rest) = Inr h"
proof -
  have "length ARTIFACT_MAGIC = 4" by (simp add: ARTIFACT_MAGIC_def)
  moreover have "length (artifact_encode_header h @ rest) \<ge> 104" using assms by simp
  ultimately show ?thesis
    using assms
    unfolding artifact_decode_header_def read_u16_at_def read_u32_at_def read_u64_at_def ARTIFACT_HEADER_SIZE_def
    by (simp add: artifact_encode_header_def slice_get_skip slice_get_first read_at_skip read_at_Cons usize_header header_ok_def wf_digest_def
        kind_wires [THEN iffD2] compression_wire [THEN iffD2])
qed

lemma artifact_decode_header_inv:
  assumes "artifact_decode_header bs = Inr h"
  shows "header_ok h \<and> bs = artifact_encode_header h @ drop 104 bs"
proof -
  from assms obtain f ec ms os ss cd ed where
    len: "104 \<le> length bs" and magic: "slice_get 0 4 bs = Some ARTIFACT_MAGIC"
    and b: "read_byte bs 4 = Inr ARTIFACT_VERSION" "read_byte bs 5 = Inr (artifact_kind_wire (ah_kind h))"
      "read_byte bs 6 = Inr (compression_as_u8 (ah_compression h))" "read_byte bs 7 = Inr (profile_wire (ah_profile h))"
    and z: "slice_get 10 12 bs = Some [0, 0]"
    and r: "read_array_at 2 bs 8 = Inr f" "read_array_at 4 bs 12 = Inr ec" "read_array_at 8 bs 16 = Inr ms"
      "read_array_at 8 bs 24 = Inr os" "read_array_at 8 bs 32 = Inr ss" "read_array_at 32 bs 40 = Inr cd"
      "read_array_at 32 bs 72 = Inr ed"
    and fl: "and (ah_flags h) (not SUPPORTED_FLAGS) = 0"
    and h: "ah_flags h = u16_from_be_bytes f" "ah_entry_count h = u32_from_be_bytes ec"
      "ah_manifest_size h = u64_from_be_bytes ms" "ah_original_size h = u64_from_be_bytes os"
      "ah_stored_size h = u64_from_be_bytes ss" "ah_content_digest h = Digest32 cd" "ah_envelope_digest h = Digest32 ed"
    unfolding artifact_decode_header_def read_u16_at_def read_u32_at_def read_u64_at_def ARTIFACT_HEADER_SIZE_def
    by (auto simp: and_then_eq_Inr kind_wires compression_wire split: if_splits)
  note steps = slice_get_drop [OF magic] b [THEN read_at_drop(2)] slice_get_drop [OF z]
    r [THEN read_at_drop(1), THEN conjunct2]
  have "bs = ARTIFACT_MAGIC @ drop 4 bs" using steps(1) by simp
  also have "\<dots> = artifact_encode_header h @ drop 104 bs"
    using steps(2-) r [THEN read_at_drop(1), THEN conjunct1] by (simp add: artifact_encode_header_def h)
  finally show ?thesis
    using fl r(6,7) [THEN read_at_drop(1), THEN conjunct1] by (simp add: header_ok_def wf_digest_def h)
qed

section \<open>Envelopes\<close>

definition wire_envelope :: "artifact_header \<Rightarrow> decoded_manifest \<Rightarrow> bytes \<Rightarrow> bytes" where
  "wire_envelope h m stored = artifact_encode_header h @ wire_artifact_manifest m @ stored"

definition envelope_sizes :: "security_limits \<Rightarrow> artifact_header \<Rightarrow> decoded_manifest \<Rightarrow> bytes \<Rightarrow> bool" where
  "envelope_sizes limits h m stored \<longleftrightarrow>
     length (wire_artifact_manifest m) = unat (ah_manifest_size h) \<and> length stored = unat (ah_stored_size h) \<and>
     length (wire_envelope h m stored) \<le> unat (max_capsule_bytes limits) \<and> enforce_header_limits h limits = Inr ()"

definition envelope_content ::
    "blake3 \<Rightarrow> ('e, 'd) zstd_engine \<Rightarrow> security_limits \<Rightarrow> artifact_header \<Rightarrow> decoded_manifest \<Rightarrow> bytes \<Rightarrow> artifact \<Rightarrow> bool" where
  "envelope_content H z limits h m stored a \<longleftrightarrow>
     ah_envelope_digest h = envelope_digest H h (wire_artifact_manifest m) stored \<and>
     ah_content_digest h = content_digest H (ah_kind h) (dm_entries m) \<and>
     (\<exists>payload. decompress_with_dictionary z stored (ah_compression h) (dm_dictionary m) (ah_original_size h) limits = Inr payload \<and>
        reconstruct H (ah_kind h) (dm_suggested_name m) (dm_suggested_path m) (dm_entries m) payload = Inr a)"

definition report_on :: "artifact_header \<Rightarrow> decoded_manifest \<Rightarrow> artifact \<Rightarrow> decoded_artifact" where
  "report_on h m a = \<lparr> da_artifact = a, da_compression = ah_compression h, da_profile = ah_profile h,
     da_content_digest = ah_content_digest h, da_envelope_digest = ah_envelope_digest h,
     da_original_size = ah_original_size h, da_stored_size = ah_stored_size h,
     da_dictionary_size = of_nat (length (dm_dictionary m)) \<rparr>"

lemma dictionary_u32:
  "length d \<le> MAX_DICTIONARY_SIZE \<Longrightarrow> art_usize_to_u32 (length d) = Inr (of_nat (length d))"
  by (simp add: art_usize_to_u32_def MAX_DICTIONARY_SIZE_def try_from_usize_ok)

lemma unat_u64_bound: "n \<le> unat (w :: u64) \<Longrightarrow> n < 2 ^ 64"
  using unsigned_less [of w, where ?'a = nat] by simp

lemma decode_artifact_wire:
  assumes "header_ok h" "manifest_ok h limits m" "envelope_sizes limits h m stored" "envelope_content H z limits h m stored a"
  shows "decode_artifact H z (wire_envelope h m stored) limits = Inr (report_on h m a)"
proof -
  let ?mf = "wire_artifact_manifest m"
  have len: "length (wire_envelope h m stored) = 104 + length ?mf + length stored"
    using assms(1) by (simp add: wire_envelope_def)
  have cap: "104 + length ?mf + length stored \<le> unat (max_capsule_bytes limits)"
    using assms(3) by (simp add: envelope_sizes_def len)
  then have fits: "104 + length ?mf + length stored \<le> usize_max" using le_trans unat_u64_le_usize by blast
  have "(of_nat (104 + length ?mf + length stored) :: u64) \<le> max_capsule_bytes limits"
    using cap unat_u64_bound [OF cap] by (simp add: word_le_nat_alt unat_of_nat del: of_nat_add)
  then have lim: "enforce_binary_size (of_nat (104 + length ?mf + length stored)) limits = Inr ()"
    by (simp del: of_nat_add)
  have mf: "artifact_decode_manifest ?mf h limits = Inr m"
    using fits assms(2) by (intro artifact_decode_manifest_iff [THEN iffD2]) simp_all
  have hd: "artifact_decode_header (wire_envelope h m stored) = Inr h"
    unfolding wire_envelope_def by (rule artifact_decode_header_wire [OF assms(1)])
  have sl: "slice_get 104 (104 + length ?mf) (wire_envelope h m stored) = Some ?mf"
    "slice_get (104 + length ?mf) (104 + length ?mf + length stored) (wire_envelope h m stored) = Some stored"
    using assms(1) slice_get_append [of "artifact_encode_header h @ ?mf" "104 + length ?mf" _ stored "[]"]
    by (simp_all add: wire_envelope_def)
  from assms(3) have sz: "unat (ah_manifest_size h) = length ?mf" "unat (ah_stored_size h) = length stored"
    "enforce_header_limits h limits = Inr ()" by (simp_all add: envelope_sizes_def)
  from assms(2) have dict: "length (dm_dictionary m) \<le> MAX_DICTIONARY_SIZE"
    by (simp add: manifest_ok_def manifest_metadata_ok_def)
  have u64: "art_usize_to_u64 (104 + length ?mf + length stored) = Inr (of_nat (104 + length ?mf + length stored))"
    using unat_u64_bound [OF cap] by (simp add: art_usize_to_u64_def try_from_usize_ok)
  from assms(4) obtain payload where
    "decompress_with_dictionary z stored (ah_compression h) (dm_dictionary m) (ah_original_size h) limits = Inr payload"
    "reconstruct H (ah_kind h) (dm_suggested_name m) (dm_suggested_path m) (dm_entries m) payload = Inr a"
    by (auto simp: envelope_content_def)
  with assms(4) show ?thesis
    using lim hd sz sl mf fits
    by (simp add: decode_artifact_def u64 ARTIFACT_HEADER_SIZE_def usize_checked_add_ok len Let_def
        envelope_content_def dictionary_u32 [OF dict] report_on_def del: of_nat_add enforce_eq_Inr)
qed

lemma decode_artifact_inv:
  assumes "decode_artifact H z bs limits = Inr d"
  obtains h m stored a where "bs = wire_envelope h m stored" "header_ok h" "manifest_ok h limits m"
    "envelope_sizes limits h m stored" "envelope_content H z limits h m stored a" "d = report_on h m a"
proof -
  from assms obtain h mf stored m payload a where
    hd: "artifact_decode_header bs = Inr h" and lim: "of_nat (length bs) \<le> max_capsule_bytes limits" "length bs < 2 ^ 64"
    and hl: "enforce_header_limits h limits = Inr ()"
    and len: "length bs = 104 + unat (ah_manifest_size h) + unat (ah_stored_size h)"
    and sl: "slice_get 104 (104 + unat (ah_manifest_size h)) bs = Some mf"
      "slice_get (104 + unat (ah_manifest_size h)) (length bs) bs = Some stored"
    and env: "ah_envelope_digest h = envelope_digest H h mf stored"
    and mf: "artifact_decode_manifest mf h limits = Inr m"
    and con: "ah_content_digest h = content_digest H (ah_kind h) (dm_entries m)"
    and pay: "decompress_with_dictionary z stored (ah_compression h) (dm_dictionary m) (ah_original_size h) limits = Inr payload"
      "reconstruct H (ah_kind h) (dm_suggested_name m) (dm_suggested_path m) (dm_entries m) payload = Inr a"
    and d: "d = \<lparr> da_artifact = a, da_compression = ah_compression h, da_profile = ah_profile h,
        da_content_digest = ah_content_digest h, da_envelope_digest = ah_envelope_digest h,
        da_original_size = ah_original_size h, da_stored_size = ah_stored_size h,
        da_dictionary_size = of_nat (length (dm_dictionary m)) \<rparr>"
    by (auto simp: decode_artifact_def and_then_eq_Inr Let_def ARTIFACT_HEADER_SIZE_def art_usize_to_u64_def art_usize_to_u32_def
        try_from_usize_def split: if_splits)
  note h = artifact_decode_header_inv [OF hd]
  have mfl: "length mf = unat (ah_manifest_size h)" "length stored = unat (ah_stored_size h)"
    using slice_get_length [OF sl(1)] slice_get_length [OF sl(2)] len by simp_all
  then have m: "manifest_ok h limits m" "mf = wire_artifact_manifest m"
    using mf artifact_decode_manifest_iff [of mf h limits m] by simp_all
  have "drop 104 bs = mf @ stored"
    using slice_get_drop [OF sl(1)] slice_get_drop [OF sl(2)] by simp
  with h have bs: "bs = wire_envelope h m stored" by (simp add: wire_envelope_def m(2))
  have "length bs \<le> unat (max_capsule_bytes limits)"
    using lim by (simp add: word_le_nat_alt unat_of_nat)
  then have "envelope_sizes limits h m stored" using mfl hl by (simp add: envelope_sizes_def m(2) bs)
  moreover have "envelope_content H z limits h m stored a" using env con pay by (auto simp: envelope_content_def m(2))
  ultimately show thesis using that [of h m stored a] bs h m(1) d by (simp add: report_on_def)
qed

section \<open>Canonical entries\<close>

primrec place :: "blake3 \<Rightarrow> nat \<Rightarrow> artifact_entry list \<Rightarrow> canonical_entry list" where
  "place H off [] = []"
| "place H off (e # es) =
     (case ae_kind e of
        FileEntry \<Rightarrow> \<lparr> ce_kind = FileEntry, ce_path = ae_path e, ce_offset = of_nat off,
          ce_size = of_nat (length (ae_bytes e)), ce_digest = file_digest H (ae_bytes e), ce_executable = ae_executable e \<rparr>
      | DirectoryEntry \<Rightarrow> \<lparr> ce_kind = DirectoryEntry, ce_path = ae_path e, ce_offset = 0, ce_size = 0,
          ce_digest = zero_digest, ce_executable = False \<rparr>) # place H (off + length (ae_bytes e)) es"

definition source_entry_ok :: "security_limits \<Rightarrow> artifact_entry \<Rightarrow> bool" where
  "source_entry_ok limits e \<longleftrightarrow> (case ae_kind e of
     FileEntry \<Rightarrow> length (ae_bytes e) \<le> unat (max_single_file_bytes limits)
   | DirectoryEntry \<Rightarrow> ae_bytes e = [] \<and> \<not> ae_executable e)"

lemma u64_le: "(of_nat n :: u64) \<le> w \<and> n < 2 ^ 64 \<longleftrightarrow> n \<le> unat w"
  using unsigned_less [of w, where ?'a = nat] by (auto simp: word_le_nat_alt unat_of_nat)

lemma canonicalize_entry_eq_Inr:
  "canonicalize_entry H limits (p, cs) e = Inr st \<longleftrightarrow>
     source_entry_ok limits e \<and> length p < 2 ^ 64 \<and>
     (ae_kind e = FileEntry \<longrightarrow> length p + length (ae_bytes e) \<le> unat (max_uncompressed_payload_bytes limits)) \<and>
     st = (p @ ae_bytes e, cs @ place H (length p) [e])"
proof (cases "ae_kind e")
  case FileEntry
  have "checked_add (of_nat a) (of_nat b) = Some (c :: u64) \<and> c \<le> w \<longleftrightarrow> a + b \<le> unat w \<and> c = of_nat (a + b)"
    if "a < 2 ^ 64" "b < 2 ^ 64" for a b c w
    using that u64_le [of "a + b" w] unat_u64_bound [of "a + b" w]
    by (auto simp: checked_add_def unat_of_nat)
  with FileEntry u64_le [of "length (ae_bytes e)" "max_single_file_bytes limits"] show ?thesis
    by (auto simp: canonicalize_entry_def source_entry_ok_def art_usize_to_u64_def try_from_usize_def and_then_eq_Inr
        split: if_splits)
qed (auto simp: canonicalize_entry_def source_entry_ok_def art_usize_to_u64_def try_from_usize_def and_then_eq_Inr
    split: if_splits)

lemma place_append: "place H off (es @ fs) = place H off es @ place H (off + length (concat (map ae_bytes es))) fs"
  by (induction es arbitrary: off) (simp_all add: ac_simps)

lemma length_place [simp]: "length (place H off es) = length es"
  by (induction es arbitrary: off) simp_all

definition entries_payload :: "artifact_entry list \<Rightarrow> bytes" where
  "entries_payload es = concat (map ae_bytes es)"

lemma entries_payload_simps [simp]:
  "entries_payload [] = []" "entries_payload (e # es) = ae_bytes e @ entries_payload es"
  by (simp_all add: entries_payload_def)

lemma canonicalize_fold:
  assumes "try_fold (canonicalize_entry H limits) (p, cs) es = Inr (p', cs')"
    and "length p \<le> unat (max_uncompressed_payload_bytes limits)"
  shows "list_all (source_entry_ok limits) es \<and> p' = p @ entries_payload es \<and> cs' = cs @ place H (length p) es \<and>
    length p' \<le> unat (max_uncompressed_payload_bytes limits)"
  using assms
proof (induction es arbitrary: p cs)
  case Nil
  then show ?case by simp
next
  case (Cons e es)
  from Cons.prems(1) have
    e: "source_entry_ok limits e"
      "ae_kind e = FileEntry \<longrightarrow> length p + length (ae_bytes e) \<le> unat (max_uncompressed_payload_bytes limits)"
    and es: "try_fold (canonicalize_entry H limits) (p @ ae_bytes e, cs @ place H (length p) [e]) es = Inr (p', cs')"
    by (auto simp: and_then_eq_Inr canonicalize_entry_eq_Inr simp del: place.simps)
  have "length (p @ ae_bytes e) \<le> unat (max_uncompressed_payload_bytes limits)"
    using e Cons.prems(2) by (cases "ae_kind e") (auto simp: source_entry_ok_def)
  from Cons.IH [OF es this] e show ?case by auto
qed

primrec orders :: "bytes option \<Rightarrow> artifact_entry list \<Rightarrow> bool" where
  "orders prev [] = True"
| "orders prev (e # es) = (case ae_path e of
     None \<Rightarrow> orders prev es
   | Some p \<Rightarrow> pred_option (\<lambda>s. s < as_str p) prev \<and> orders (Some (as_str p)) es)"

lemma check_entry_order_ok:
  "pred_option (\<lambda>s. s < as_str p) prev \<Longrightarrow> ce_path c = Some p \<Longrightarrow> check_entry_order prev c = Inr (Some (as_str p))"
  "ce_path c = None \<Longrightarrow> check_entry_order prev c = Inr prev"
  by (cases prev; auto simp: check_entry_order_def less_not_sym)+

definition entry_shape :: "artifact_kind \<Rightarrow> security_limits \<Rightarrow> artifact_entry \<Rightarrow> bool" where
  "entry_shape kind limits e \<longleftrightarrow>
     (kind = FileArtifact \<longleftrightarrow> ae_path e = None) \<and> pred_option (entry_path_ok limits) (ae_path e)"

lemma chain_place:
  assumes "blake3_contract H" "list_all (source_entry_ok limits) es" "orders prev es"
    and "list_all (entry_shape (ah_kind h) limits) es"
    and "off + length (entries_payload es) < 2 ^ 64"
  shows "chain h limits (place H off es) (of_nat off) prev (of_nat (off + length (entries_payload es)))"
  using assms(2-5)
proof (induction es arbitrary: off prev)
  case Nil
  then show ?case by simp
next
  case (Cons e es)
  let ?n = "off + length (ae_bytes e)"
  let ?c = "hd (place H off [e])"
  have size: "(of_nat (length (ae_bytes e)) :: u64) \<le> max_single_file_bytes limits" if "ae_kind e = FileEntry"
    using Cons.prems(1,4) that u64_le by (auto simp: source_entry_ok_def)
  have add: "checked_add (of_nat off) (of_nat (length (ae_bytes e))) = Some (of_nat ?n :: u64)"
    using Cons.prems(4) by (auto simp: checked_add_def unat_of_nat)
  have "wf_digest (file_digest H (ae_bytes e))" "wf_digest zero_digest"
    using assms(1) by (simp_all add: wf_digest_def file_digest_eq blake3_contract_def zero_digest_def)
  with Cons.prems(1,3) size add have lay: "entry_layout h limits (of_nat off) ?c (of_nat ?n)"
    by (cases "ae_kind e") (auto simp: entry_layout_def source_entry_ok_def entry_shape_def)
  obtain prev' where ord: "check_entry_order prev ?c = Inr prev'" "orders prev' es"
    using Cons.prems(2) check_entry_order_ok(1) [of _ prev ?c] check_entry_order_ok(2) [of ?c prev]
    by (cases "ae_path e"; cases "ae_kind e") auto
  have "chain h limits (place H ?n es) (of_nat ?n) prev' (of_nat (?n + length (entries_payload es)))"
    by (rule Cons.IH) (use Cons.prems ord in simp_all)
  moreover have "place H off (e # es) = ?c # place H ?n es" by simp
  ultimately show ?case using lay ord(1) by (auto simp del: place.simps simp: add.assoc)
qed

lemma reconstruct_place:
  assumes "list_all (source_entry_ok limits) es" "list_all (\<lambda>e. ae_kind e = DirectoryEntry \<longrightarrow> ae_path e \<noteq> None) es"
    and "length p + length (entries_payload es) < 2 ^ 64"
  shows "try_map (reconstruct_entry H (p @ entries_payload es)) (place H (length p) es) = Inr es"
  using assms
proof (induction es arbitrary: p)
  case Nil
  then show ?case by simp
next
  case (Cons e es)
  have "try_map (reconstruct_entry H ((p @ ae_bytes e) @ entries_payload es)) (place H (length (p @ ae_bytes e)) es) = Inr es"
    by (rule Cons.IH) (use Cons.prems in simp_all)
  moreover have "reconstruct_entry H (p @ ae_bytes e @ entries_payload es) (hd (place H (length p) [e])) = Inr e"
  proof (cases "ae_kind e")
    case FileEntry
    have "unat (of_nat (length p) :: u64) = length p" "unat (of_nat (length (ae_bytes e)) :: u64) = length (ae_bytes e)"
      "length p + length (ae_bytes e) \<le> usize_max"
      using Cons.prems(3) by (simp_all add: unat_of_nat usize_max_def)
    with FileEntry show ?thesis
      by (cases e; cases "ae_path e")
        (simp_all add: reconstruct_entry_def usize_checked_add_ok entry_unnamed_file_def entry_file_def)
  next
    case DirectoryEntry
    with Cons.prems(1,2) show ?thesis
      by (cases e) (auto simp: reconstruct_entry_def source_entry_ok_def entry_directory_def)
  qed
  ultimately show ?case by simp
qed

section \<open>Building an envelope\<close>

definition canonical_order :: "artifact \<Rightarrow> artifact_entry list" where
  "canonical_order a = (case af_kind a of
     FileArtifact \<Rightarrow> af_entries a | DirectoryArtifact \<Rightarrow> sort_key entry_sort_path (af_entries a))"

text \<open>The type invariants of an artifact in Rust, with its paths within the length limit of the policy.\<close>

definition wf_artifact :: "security_limits \<Rightarrow> artifact \<Rightarrow> bool" where
  "wf_artifact limits a \<longleftrightarrow> max_path_bytes limits < 65536 \<and> pred_option from_utf8 (af_suggested_name a) \<and>
     pred_option (wf_path (max_path_bytes limits)) (af_suggested_path a) \<and>
     list_all (\<lambda>e. pred_option (wf_path (max_path_bytes limits)) (ae_path e)) (af_entries a)"

lemma wf_path_entry: "wf_path (max_path_bytes limits) p \<Longrightarrow> max_path_bytes limits < 65536 \<Longrightarrow> entry_path_ok limits p"
  using path_validate_bytes [of "as_str p" "max_path_bytes limits"]
  by (auto simp: wf_path_def entry_path_ok_def path_with_max_bytes_ok)

lemma orders_sorted:
  assumes "try_fold reject_duplicate_path prev es = Inr x" "sorted (map entry_sort_path es)"
    and "\<forall>e\<in>set es. pred_option (\<lambda>s. s \<le> as_str (entry_sort_path e)) prev"
  shows "orders prev es"
  using assms
proof (induction es arbitrary: prev)
  case (Cons e es)
  from Cons.prems(1) obtain y where y: "reject_duplicate_path prev e = Inr y" "try_fold reject_duplicate_path y es = Inr x"
    by (auto simp: and_then_eq_Inr)
  then obtain p where p: "ae_path e = Some p" "prev \<noteq> Some (as_str p)"
    "try_fold reject_duplicate_path (Some (as_str p)) es = Inr x"
    by (auto simp: and_then_eq_Inr reject_duplicate_path_def [of prev e] split: if_splits)
  then have "entry_sort_path e = p" by (simp add: entry_sort_path_def)
  with Cons.IH [OF p(3)] Cons.prems p show ?case
    by (cases prev) (auto simp: less_eq_relative_artifact_path_def order.strict_iff_order)
qed simp

lemma ordered_entries_eq:
  assumes "ordered_entries a = Inr es"
  shows "es = canonical_order a" "orders None es" "list_all (\<lambda>e. af_kind a = FileArtifact \<longleftrightarrow> ae_path e = None) es"
    "af_kind a = FileArtifact \<Longrightarrow> length es = 1 \<and> list_all (\<lambda>e. ae_kind e = FileEntry) es"
proof -
  have "es = canonical_order a \<and> orders None es \<and> list_all (\<lambda>e. af_kind a = FileArtifact \<longleftrightarrow> ae_path e = None) es \<and>
    (af_kind a = FileArtifact \<longrightarrow> length es = 1 \<and> list_all (\<lambda>e. ae_kind e = FileEntry) es)"
  proof (cases "af_kind a")
    case FileArtifact
    with assms obtain e where "es = [e]" "af_entries a = [e]" "ae_kind e = FileEntry" "ae_path e = None"
      by (cases "af_entries a") (auto simp: ordered_entries_def Let_def split: if_splits)
    with FileArtifact show ?thesis by (simp add: canonical_order_def)
  next
    case DirectoryArtifact
    with assms obtain x where es: "es = sort_key entry_sort_path (af_entries a)"
      and dup: "try_fold reject_duplicate_path None es = Inr x" and p: "\<forall>e\<in>set (af_entries a). ae_path e \<noteq> None"
      by (auto simp: ordered_entries_def Let_def and_then_eq_Inr list_ex_iff split: if_splits)
    have "orders None es" by (rule orders_sorted [OF dup]) (simp_all add: es)
    with DirectoryArtifact es p show ?thesis by (simp add: canonical_order_def list_all_iff)
  qed
  then show "es = canonical_order a" "orders None es" "list_all (\<lambda>e. af_kind a = FileArtifact \<longleftrightarrow> ae_path e = None) es"
    "af_kind a = FileArtifact \<Longrightarrow> length es = 1 \<and> list_all (\<lambda>e. ae_kind e = FileEntry) es" by blast+
qed

lemma canonicalize_eq_Inr:
  assumes "canonicalize H a limits = Inr (cs, payload)" and "wf_artifact limits a"
  shows "cs = place H 0 (canonical_order a)" "payload = entries_payload (canonical_order a)"
    "list_all (source_entry_ok limits) (canonical_order a)" "orders None (canonical_order a)"
    "list_all (entry_shape (af_kind a) limits) (canonical_order a)"
    "af_kind a = FileArtifact \<Longrightarrow> length (canonical_order a) = 1 \<and> list_all (\<lambda>e. ae_kind e = FileEntry) (canonical_order a)"
    "length payload \<le> unat (max_uncompressed_payload_bytes limits)" "validate_tree cs = Inr ()"
    "validate_metadata a limits = Inr ()" "of_nat (length (af_entries a)) \<le> max_file_count limits"
    "length (af_entries a) < 2 ^ 32"
proof -
  from assms(1) obtain es where es: "ordered_entries a = Inr es"
    and fold: "try_fold (canonicalize_entry H limits) ([], []) es = Inr (payload, cs)"
    and rest: "validate_tree cs = Inr ()" "validate_metadata a limits = Inr ()"
      "of_nat (length (af_entries a)) \<le> max_file_count limits" "length (af_entries a) < 2 ^ 32"
    by (auto simp: canonicalize_def and_then_eq_Inr art_usize_to_u32_def try_from_usize_def split: if_splits)
  note o = ordered_entries_eq [OF es]
  note f = canonicalize_fold [OF fold]
  have "set es \<subseteq> set (af_entries a)" by (auto simp: o(1) canonical_order_def split: artifact_kind.splits)
  then have "list_all (\<lambda>e. pred_option (entry_path_ok limits) (ae_path e)) es"
    using assms(2) by (auto simp: wf_artifact_def list_all_iff pred_option_def intro!: wf_path_entry)
  with o(3) have "list_all (entry_shape (af_kind a) limits) es" by (simp add: entry_shape_def list_all_iff)
  with o f rest show "cs = place H 0 (canonical_order a)" "payload = entries_payload (canonical_order a)"
    "list_all (source_entry_ok limits) (canonical_order a)" "orders None (canonical_order a)"
    "list_all (entry_shape (af_kind a) limits) (canonical_order a)"
    "af_kind a = FileArtifact \<Longrightarrow> length (canonical_order a) = 1 \<and> list_all (\<lambda>e. ae_kind e = FileEntry) (canonical_order a)"
    "length payload \<le> unat (max_uncompressed_payload_bytes limits)" "validate_tree cs = Inr ()"
    "validate_metadata a limits = Inr ()" "of_nat (length (af_entries a)) \<le> max_file_count limits"
    "length (af_entries a) < 2 ^ 32" by auto
qed

definition manifest_of :: "blake3 \<Rightarrow> artifact \<Rightarrow> bytes \<Rightarrow> decoded_manifest" where
  "manifest_of H a dictionary = \<lparr> dm_suggested_name = af_suggested_name a, dm_suggested_path = af_suggested_path a,
     dm_dictionary = dictionary, dm_entries = place H 0 (canonical_order a) \<rparr>"

lemma metadata_ok:
  assumes "validate_metadata a limits = Inr ()" "wf_artifact limits a"
  shows "opt_str_ok (af_suggested_name a)" "opt_str_ok (map_option as_str (af_suggested_path a))"
    "pred_option (\<lambda>n. validate_suggested_name n limits = Inr ()) (af_suggested_name a)"
    "pred_option (entry_path_ok limits) (af_suggested_path a)"
proof -
  show path: "pred_option (entry_path_ok limits) (af_suggested_path a)"
    using assms(2) by (auto simp: wf_artifact_def pred_option_def intro!: wf_path_entry)
  then show "opt_str_ok (map_option as_str (af_suggested_path a))"
    by (cases "af_suggested_path a") (simp_all add: opt_str_ok_def entry_path_ok_def)
  show name: "pred_option (\<lambda>n. validate_suggested_name n limits = Inr ()) (af_suggested_name a)"
    using assms(1) by (cases "af_suggested_name a") (simp_all add: validate_metadata_def and_then_eq_Inr)
  then show "opt_str_ok (af_suggested_name a)"
    using assms(2) path_validate_bytes(1,2) [of "the (af_suggested_name a)" "max_path_bytes limits"]
    by (cases "af_suggested_name a")
      (auto simp: opt_str_ok_def validate_suggested_name_def wf_artifact_def path_with_max_bytes_inv and_then_eq_Inr split: if_splits)
qed

lemma write_optional_string_eq: "opt_str_ok v \<Longrightarrow> write_optional_string out v = Inr (out @ wire_opt_str v)"
  by (cases v) (simp_all add: write_optional_string_def wire_opt_str_def opt_str_ok_def art_usize_to_u16_def try_from_usize_ok)

lemma write_entries_eq:
  "list_all (\<lambda>e. length (entry_path_str e) < 65536) es \<Longrightarrow>
   try_fold write_manifest_entry out es = Inr (out @ concat (map wire_ce es))"
  by (induction es arbitrary: out)
    (simp_all add: write_manifest_entry_def wire_ce_def art_usize_to_u16_def try_from_usize_ok Let_def)

lemma place_paths: "list_all P (map ce_path (place H off es)) \<longleftrightarrow> list_all (\<lambda>e. P (ae_path e)) es"
  by (induction es arbitrary: off) (auto split: artifact_entry_kind.splits)

lemma encode_manifest_eq:
  assumes "artifact_encode_manifest a d (place H 0 (canonical_order a)) limits = Inr mf"
    and "validate_metadata a limits = Inr ()" "wf_artifact limits a"
    and "list_all (entry_shape (af_kind a) limits) (canonical_order a)"
  shows "mf = wire_artifact_manifest (manifest_of H a d)" "length mf \<le> unat (max_manifest_bytes limits)"
proof -
  have "list_all (\<lambda>p. length (case p of Some p \<Rightarrow> as_str p | None \<Rightarrow> []) < 65536) (map ce_path (place H 0 (canonical_order a)))"
    unfolding place_paths using assms(4)
    by (auto simp: list_all_iff entry_shape_def entry_path_ok_def split: option.splits)
  then have paths: "list_all (\<lambda>e. length (entry_path_str e) < 65536) (place H 0 (canonical_order a))"
    by (simp add: list_all_iff entry_path_str_def)
  note ok = metadata_ok [OF assms(2,3)]
  from assms(1) show "mf = wire_artifact_manifest (manifest_of H a d)"
    by (auto simp: artifact_encode_manifest_def write_optional_string_eq [OF ok(1)] write_optional_string_eq [OF ok(2)]
        and_then_eq_Inr write_entries_eq [OF paths] art_usize_to_u32_def try_from_usize_def
        wire_artifact_manifest_def manifest_of_def wire_dictionary_def split: if_splits)
  show "length mf \<le> unat (max_manifest_bytes limits)"
    using assms(1) by (auto simp: artifact_encode_manifest_def and_then_eq_Inr art_usize_to_u64_def word_le_nat_alt not_less
      simp del: length_0_conv split: if_splits)
qed

text \<open>The documented bound of the dictionary trainer.\<close>

definition trainer_contract :: "dictionary_trainer \<Rightarrow> bool" where
  "trainer_contract tr \<longleftrightarrow> (\<forall>samples n d. tr samples n = Some d \<longrightarrow> length d \<le> n)"

lemma train_artifact_dictionary_bound:
  assumes "trainer_contract tr" "train_artifact_dictionary tr payload cs options = Some d"
  shows "length d \<le> MAX_DICTIONARY_SIZE"
proof -
  from assms(2) obtain samples n where "tr samples (max 256 (min (n div 20) MAX_DICTIONARY_SIZE)) = Some d"
    by (auto simp: train_artifact_dictionary_def train_dictionary_def result_ok_def Option.bind_eq_Some_conv Let_def ok_or_def
        split: if_splits sum.splits option.splits)
  with assms(1) have "length d \<le> max 256 (min (n div 20) MAX_DICTIONARY_SIZE)" by (auto simp: trainer_contract_def)
  then show ?thesis by (simp add: MAX_DICTIONARY_SIZE_def)
qed

lemma select_payload_eq:
  assumes "trainer_contract tr" "select_payload z tr payload cs options = Inr sp"
  shows "compress_with_dictionary z payload (sp_compression sp) (ao_profile options) (sp_dictionary sp) (ao_limits options)
      = Inr (sp_stored sp)"
    "sp_dictionary sp \<noteq> [] \<Longrightarrow> sp_compression sp = CompressionZstd" "length (sp_dictionary sp) \<le> MAX_DICTIONARY_SIZE"
proof -
  let ?good = "\<lambda>sp. compress_with_dictionary z payload (sp_compression sp) (ao_profile options) (sp_dictionary sp) (ao_limits options)
      = Inr (sp_stored sp) \<and> (sp_dictionary sp \<noteq> [] \<longrightarrow> sp_compression sp = CompressionZstd) \<and>
      length (sp_dictionary sp) \<le> MAX_DICTIONARY_SIZE"
  have ordinary: "?good (ordinary_candidate bs)"
    if "compress_with_profile z payload CompressionZstd (ao_profile options) (ao_limits options) = Inr bs" for bs
    using that by (simp add: ordinary_candidate_def compress_with_profile_def)
  have best: "?good (best_zstd_candidate z tr payload cs bs options)"
    if "compress_with_profile z payload CompressionZstd (ao_profile options) (ao_limits options) = Inr bs" for bs
    using ordinary [OF that] train_artifact_dictionary_bound [OF assms(1)]
    by (auto simp: best_zstd_candidate_def Let_def split: option.splits sum.splits)
  have verbatim: "stored_verbatim z payload options = Inr sp \<Longrightarrow> ?good sp" for sp
    by (auto simp: stored_verbatim_def compress_with_profile_def and_then_eq_Inr)
  have "?good sp"
    using assms(2) best verbatim
    by (auto simp: select_payload_def and_then_eq_Inr Let_def split: artifact_compression.splits sum.splits if_splits)
  then show "compress_with_dictionary z payload (sp_compression sp) (ao_profile options) (sp_dictionary sp) (ao_limits options)
      = Inr (sp_stored sp)"
    "sp_dictionary sp \<noteq> [] \<Longrightarrow> sp_compression sp = CompressionZstd" "length (sp_dictionary sp) \<le> MAX_DICTIONARY_SIZE"
    by blast+
qed

lemma compress_sizes:
  assumes "compress_with_dictionary z inp algorithm profile d limits = Inr out"
  shows "length inp \<le> unat (max_uncompressed_payload_bytes limits)" "length out \<le> unat (max_compressed_payload_bytes limits)"
  using assms u64_le
  by (auto simp: compress_with_dictionary_def and_then_eq_Inr usize_to_u64_def try_from_usize_def simp del: try_from_usize_eq_Inr
      split: if_splits)

lemma metadata_flags_ok:
  "and (metadata_flags a d) (not SUPPORTED_FLAGS) = 0"
  "(d \<noteq> [] \<longrightarrow> ah_compression h = CompressionZstd) \<Longrightarrow> ah_flags h = metadata_flags a d \<Longrightarrow>
   check_metadata_flags h (af_suggested_name a) (af_suggested_path a) d = Inr ()"
  by (auto simp: metadata_flags_def SUPPORTED_FLAGS_def FLAG_NAME_def FLAG_PATH_def FLAG_DICTIONARY_def check_metadata_flags_def)

definition header_for :: "blake3 \<Rightarrow> artifact \<Rightarrow> compression_profile \<Rightarrow> selected_payload \<Rightarrow> artifact_header" where
  "header_for H a profile sp =
     (let mf = wire_artifact_manifest (manifest_of H a (sp_dictionary sp));
          h = \<lparr> ah_kind = af_kind a, ah_compression = sp_compression sp, ah_profile = profile,
            ah_flags = metadata_flags a (sp_dictionary sp), ah_entry_count = of_nat (length (af_entries a)),
            ah_manifest_size = of_nat (length mf), ah_original_size = of_nat (length (entries_payload (canonical_order a))),
            ah_stored_size = of_nat (length (sp_stored sp)),
            ah_content_digest = content_digest H (af_kind a) (place H 0 (canonical_order a)), ah_envelope_digest = zero_digest \<rparr>
      in h\<lparr> ah_envelope_digest := envelope_digest H h mf (sp_stored sp) \<rparr>)"

lemma wf_artifact_digests:
  "blake3_contract H \<Longrightarrow> wf_digest (content_digest H k cs)" "blake3_contract H \<Longrightarrow> wf_digest (envelope_digest H h mf stored)"
  by (simp_all add: wf_digest_def content_digest_def envelope_digest_def hasher_finalize_def blake3_contract_def Let_def)

lemma length_canonical_order [simp]: "length (canonical_order a) = length (af_entries a)"
  by (simp add: canonical_order_def split: artifact_kind.splits)

lemma place_file_kind:
  "list_all (\<lambda>e. ae_kind e = FileEntry) es \<Longrightarrow> list_all (\<lambda>c. ce_kind c = FileEntry) (place H off es)"
  by (induction es arbitrary: off) simp_all

lemma built_envelope:
  fixes options :: artifact_options
  defines "limits \<equiv> ao_limits options"
  assumes H: "blake3_contract H" and z: "zstd_contract z" and tr: "trainer_contract tr" and wf: "wf_artifact limits a"
    and can: "canonicalize H a limits = Inr (cs, payload)"
    and sel: "select_payload z tr payload cs options = Inr sp"
    and mf: "artifact_encode_manifest a (sp_dictionary sp) cs limits = Inr mf"
    and ratio: "length payload \<le> length (sp_stored sp) * unat (max_compression_ratio limits)"
    and fits: "104 + length mf + length (sp_stored sp) \<le> unat (max_capsule_bytes limits)"
  defines "h \<equiv> header_for H a (ao_profile options) sp" and "m \<equiv> manifest_of H a (sp_dictionary sp)"
  shows "header_ok h" "manifest_ok h limits m" "envelope_sizes limits h m (sp_stored sp)"
    "envelope_content H z limits h m (sp_stored sp) (a\<lparr> af_entries := canonical_order a \<rparr>)"
proof -
  note c = canonicalize_eq_Inr [OF can wf]
  note s = select_payload_eq [OF tr sel, folded limits_def]
  note k = compress_sizes [OF s(1)]
  have len64: "length payload < 2 ^ 64" "length (sp_stored sp) < 2 ^ 64" using k unat_u64_bound by blast+
  note mfe = encode_manifest_eq [OF mf [unfolded c(1)] c(9) wf c(5)]
  have mf64: "length mf < 2 ^ 64" using mfe(2) unat_u64_bound by blast
  have hf: "ah_kind h = af_kind a" "ah_compression h = sp_compression sp" "ah_flags h = metadata_flags a (sp_dictionary sp)"
    "ah_entry_count h = of_nat (length (af_entries a))" "ah_manifest_size h = of_nat (length mf)"
    "ah_original_size h = of_nat (length payload)" "ah_stored_size h = of_nat (length (sp_stored sp))"
    "ah_content_digest h = content_digest H (af_kind a) cs"
    by (simp_all add: h_def header_for_def Let_def c(1,2) mfe(1))
  have env: "ah_envelope_digest h = envelope_digest H h mf (sp_stored sp)"
    by (simp add: h_def header_for_def Let_def mfe(1) envelope_digest_def envelope_hasher_def)
  show hok: "header_ok h"
    using H by (simp add: header_ok_def hf(3,8) metadata_flags_ok(1) wf_artifact_digests) (simp add: env wf_artifact_digests)
  have flags: "check_metadata_flags h (af_suggested_name a) (af_suggested_path a) (sp_dictionary sp) = Inr ()"
    using s(2) by (intro metadata_flags_ok(2)) (auto simp: hf)
  have "chain h limits (place H 0 (canonical_order a)) (of_nat 0) None (of_nat (0 + length (entries_payload (canonical_order a))))"
    using c len64 by (intro chain_place [OF H]) (simp_all add: hf(1))
  then have "chain h limits cs 0 None (ah_original_size h)" by (simp add: c(1,2) hf(6))
  moreover have "length cs = unat (ah_entry_count h)" "ah_entry_count h \<le> max_file_count limits"
    using c(10,11) by (simp_all add: c(1) hf(4) unat_of_nat)
  ultimately show "manifest_ok h limits m"
    using metadata_ok [OF c(9) wf] s(3) c(6,8) flags
    by (auto simp: manifest_ok_def manifest_metadata_ok_def m_def manifest_of_def c(1) hf(1) intro: place_file_kind)
  have "enforce_header_limits h limits = Inr ()"
    using c(10) mfe(2) k mf64 len64
    by (simp add: enforce_header_limits_def hf word_less_nat_alt word_le_nat_alt unat_of_nat and_then_eq_Inr)
  then show "envelope_sizes limits h m (sp_stored sp)"
    using fits hok mfe(1) mf64 len64
    by (simp add: envelope_sizes_def wire_envelope_def m_def hf unat_of_nat)
  have "decompress_with_dictionary z (sp_stored sp) (sp_compression sp) (sp_dictionary sp) (of_nat (length payload)) limits = Inr payload"
    by (rule decompress_compress [OF z s(1) ratio])
  moreover have "reconstruct H (af_kind a) (af_suggested_name a) (af_suggested_path a) cs payload
      = Inr (a\<lparr> af_entries := canonical_order a \<rparr>)"
    using reconstruct_place [OF c(3), of "[]" H] c(5,6) len64(1)
    by (cases a; cases "af_kind a") (auto simp: reconstruct_def c(1,2) list_all_iff entry_shape_def)
  ultimately show "envelope_content H z limits h m (sp_stored sp) (a\<lparr> af_entries := canonical_order a \<rparr>)"
    using hf(8) env by (auto simp: envelope_content_def hf(1,2,6) m_def manifest_of_def c(1) mfe(1))
qed

lemma encode_artifact_eq:
  fixes options :: artifact_options
  defines "limits \<equiv> ao_limits options"
  assumes H: "blake3_contract H" and z: "zstd_contract z" and tr: "trainer_contract tr" and wf: "wf_artifact limits a"
    and can: "canonicalize H a limits = Inr (cs, payload)"
    and sel: "select_payload z tr payload cs options = Inr sp"
    and mf: "artifact_encode_manifest a (sp_dictionary sp) cs limits = Inr mf"
    and ratio: "length payload \<le> length (sp_stored sp) * unat (max_compression_ratio limits)"
    and fits: "104 + length mf + length (sp_stored sp) \<le> unat (max_capsule_bytes limits)"
  defines "h \<equiv> header_for H a (ao_profile options) sp" and "m \<equiv> manifest_of H a (sp_dictionary sp)"
  shows "\<exists>e. encode_artifact H z tr a options = Inr e \<and> ea_binary e = wire_envelope h m (sp_stored sp) \<and>
    decode_artifact H z (ea_binary e) limits = Inr (report_on h m (a\<lparr> af_entries := canonical_order a \<rparr>)) \<and>
    length (ea_binary e) = 104 + length mf + length (sp_stored sp)"
proof -
  note c = canonicalize_eq_Inr [OF can wf]
  note s = select_payload_eq [OF tr sel, folded limits_def]
  note k = compress_sizes [OF s(1)]
  note mfe = encode_manifest_eq [OF mf [unfolded c(1)] c(9) wf c(5)]
  note b = built_envelope [OF H z tr wf [unfolded limits_def] can [unfolded limits_def] sel mf [unfolded limits_def]
      ratio [unfolded limits_def] fits [unfolded limits_def], folded limits_def h_def m_def]
  have hh: "h = \<lparr> ah_kind = af_kind a, ah_compression = sp_compression sp, ah_profile = ao_profile options,
      ah_flags = metadata_flags a (sp_dictionary sp), ah_entry_count = of_nat (length (af_entries a)),
      ah_manifest_size = of_nat (length mf), ah_original_size = of_nat (length payload),
      ah_stored_size = of_nat (length (sp_stored sp)), ah_content_digest = content_digest H (af_kind a) cs,
      ah_envelope_digest = envelope_digest H \<lparr> ah_kind = af_kind a, ah_compression = sp_compression sp,
        ah_profile = ao_profile options, ah_flags = metadata_flags a (sp_dictionary sp),
        ah_entry_count = of_nat (length (af_entries a)), ah_manifest_size = of_nat (length mf),
        ah_original_size = of_nat (length payload), ah_stored_size = of_nat (length (sp_stored sp)),
        ah_content_digest = content_digest H (af_kind a) cs, ah_envelope_digest = zero_digest \<rparr> mf (sp_stored sp) \<rparr>"
    by (simp add: h_def header_for_def Let_def c(1,2) mfe(1))
  have wire: "wire_envelope h m (sp_stored sp) = artifact_encode_header h @ mf @ sp_stored sp"
    by (simp add: wire_envelope_def m_def mfe(1))
  have dec: "decode_artifact H z (wire_envelope h m (sp_stored sp)) limits = Inr (report_on h m (a\<lparr> af_entries := canonical_order a \<rparr>))"
    by (rule decode_artifact_wire [OF b])
  have can': "canonical_artifact H a cs payload = Inr (a\<lparr> af_entries := canonical_order a \<rparr>)"
    using reconstruct_place [OF c(3), of "[]" H] c(5,6) unat_u64_bound [OF c(7)]
    by (cases a; cases "af_kind a") (auto simp: canonical_artifact_def reconstruct_def c(1,2) list_all_iff entry_shape_def)
  have u: "art_usize_to_u32 (length cs) = Inr (of_nat (length (af_entries a)))"
    "art_usize_to_u64 (length payload) = Inr (of_nat (length payload))"
    "art_usize_to_u64 (length (sp_stored sp)) = Inr (of_nat (length (sp_stored sp)))"
    "art_usize_to_u64 (length mf) = Inr (of_nat (length mf))"
    "art_usize_to_u64 (104 + length mf + length (sp_stored sp)) = Inr (of_nat (104 + length mf + length (sp_stored sp)))"
    "art_usize_to_u32 (length (sp_dictionary sp)) = Inr (of_nat (length (sp_dictionary sp)))"
    using c(11) unat_u64_bound [OF c(7)] unat_u64_bound [OF k(2)] unat_u64_bound [OF mfe(2)] unat_u64_bound [OF fits]
      dictionary_u32 [OF s(3)]
    by (simp_all add: art_usize_to_u32_def art_usize_to_u64_def try_from_usize_ok c(1))
  have "(of_nat (104 + length mf + length (sp_stored sp)) :: u64) \<le> max_capsule_bytes limits"
    using fits u64_le unat_u64_bound [OF fits] by blast
  then have lim: "enforce_binary_size (of_nat (104 + length mf + length (sp_stored sp))) limits = Inr ()" by (simp del: of_nat_add)
  have "104 + length mf + length (sp_stored sp) \<le> usize_max" using fits le_trans unat_u64_le_usize by blast
  then have add: "Option.bind (usize_checked_add ARTIFACT_HEADER_SIZE (length mf)) (\<lambda>v. usize_checked_add v (length (sp_stored sp)))
      = Some (104 + length mf + length (sp_stored sp))"
    by (simp add: ARTIFACT_HEADER_SIZE_def usize_checked_add_ok)
  show ?thesis
    using dec can sel mf b(1)
    by (simp add: encode_artifact_def u add Let_def limits_def [symmetric] lim can' hh [symmetric] wire report_on_def
        del: of_nat_add enforce_eq_Inr)
qed

section \<open>The tree of paths\<close>

lemma rfind_None: "rfind c p = None \<longleftrightarrow> c \<notin> set p"
  by (induction p) (auto split: option.splits)

lemma rfind_split:
  assumes "rfind c p = Some i"
  shows "split_on c p = split_on c (take i p) @ [drop (Suc i) p]"
  using assms
proof (induction p arbitrary: i)
  case (Cons x xs)
  show ?case
  proof (cases "rfind c xs")
    case None
    then have "c \<notin> set xs" by (simp add: rfind_None)
    then have "split_on c xs = [xs]" by (induction xs) auto
    with Cons.prems None show ?thesis by (auto split: if_splits)
  next
    case (Some j)
    with Cons.prems have i: "i = Suc j" by simp
    have ne: "split_on c (take j xs) \<noteq> []" by simp
    from Cons.IH [OF Some] ne show ?thesis by (cases "split_on c (take j xs)") (auto simp: i)
  qed
qed simp

lemma split_on_eq: "split_on c p = split_on c q \<longleftrightarrow> p = q"
  by (metis join_split)

lemma check_ancestors_iff:
  "check_ancestors fs p = Inr u \<longleftrightarrow> (\<forall>f\<in>set fs. \<not> strict_prefix (split_on 47 f) (split_on 47 p))"
proof (induction fs p rule: check_ancestors.induct)
  case (1 fs p)
  show ?case
  proof (cases "rfind 47 p")
    case None
    then have "split_on 47 p = [p]" unfolding rfind_None by (induction p) auto
    moreover have "\<not> strict_prefix (split_on 47 f) [p]" for f
      by (metis prefix_Cons prefix_Nil split_on_not_Nil strict_prefix_def strict_prefix_simps(2) strict_prefix_simps(3))
    ultimately show ?thesis using None by (subst check_ancestors.simps) simp
  next
    case (Some i)
    let ?a = "take i p"
    have step: "strict_prefix (split_on 47 f) (split_on 47 p) \<longleftrightarrow> f = ?a \<or> strict_prefix (split_on 47 f) (split_on 47 ?a)" for f
      unfolding rfind_split [OF Some] split_on_eq [symmetric, where c = 47]
      by (auto simp: strict_prefix_def)
    with 1 [OF Some refl] Some show ?thesis by (subst check_ancestors.simps) (auto simp: Let_def)
  qed
qed

section \<open>What is decoded\<close>

lemma reconstruct_layout:
  assumes "entry_layout h limits off c nx" "reconstruct_entry H payload c = Inr e"
  shows "place H (unat off) [e] = [c] \<and> unat nx = unat off + length (ae_bytes e) \<and> source_entry_ok limits e \<and>
    entry_shape (ah_kind h) limits e \<and> ae_path e = ce_path c \<and>
    unat nx \<le> max (unat off) (length payload) \<and> take (length (ae_bytes e)) (drop (unat off) payload) = ae_bytes e"
proof (cases "ce_kind c")
  case FileEntry
  with assms obtain bs where bs: "slice_get (unat off) (unat off + unat (ce_size c)) payload = Some bs"
    "ce_digest c = file_digest H bs" "ce_offset c = off"
    and e: "e = (case ce_path c of None \<Rightarrow> entry_unnamed_file bs (ce_executable c) | Some p \<Rightarrow> entry_file p bs (ce_executable c))"
    and nx: "unat nx = unat off + unat (ce_size c)" "ce_size c \<le> max_single_file_bytes limits"
    by (auto simp: entry_layout_def reconstruct_entry_def and_then_eq_Inr checked_add_eq_Some split: if_splits)
  have "length bs = unat (ce_size c)" using slice_get_length [OF bs(1)] by simp
  moreover have "unat off + unat (ce_size c) \<le> length payload" "bs = take (unat (ce_size c)) (drop (unat off) payload)"
    using bs(1) by (auto simp: slice_get_def split: if_splits)
  ultimately show ?thesis
    using FileEntry assms(1) bs nx
    by (cases c; cases "ce_path c")
      (auto simp: e entry_unnamed_file_def entry_file_def source_entry_ok_def entry_shape_def entry_layout_def word_le_nat_alt)
next
  case DirectoryEntry
  with assms obtain p where "ce_path c = Some p" "e = entry_directory p" by (auto simp: reconstruct_entry_def and_then_eq_Inr)
  with DirectoryEntry assms(1) show ?thesis
    by (cases c) (auto simp: entry_directory_def source_entry_ok_def entry_shape_def entry_layout_def)
qed

lemma check_entry_order_inv:
  "check_entry_order prev c = Inr prev' \<Longrightarrow>
   case ce_path c of None \<Rightarrow> prev' = prev | Some p \<Rightarrow> pred_option (\<lambda>s. s < as_str p) prev \<and> prev' = Some (as_str p)"
  by (cases prev) (auto simp: check_entry_order_def not_less order.strict_iff_order split: option.splits if_splits)

lemma reconstruct_chain:
  assumes "chain h limits cs off prev nx" "try_map (reconstruct_entry H payload) cs = Inr es" "unat off \<le> length payload"
  shows "cs = place H (unat off) es \<and> unat nx = unat off + length (entries_payload es) \<and>
    list_all (source_entry_ok limits) es \<and> list_all (entry_shape (ah_kind h) limits) es \<and> orders prev es \<and>
    unat nx \<le> length payload \<and> take (length (entries_payload es)) (drop (unat off) payload) = entries_payload es"
  using assms
proof (induction cs arbitrary: off prev es)
  case Nil
  then show ?case by simp
next
  case (Cons c cs)
  from Cons.prems(2) obtain e es' where es: "es = e # es'" and e: "reconstruct_entry H payload c = Inr e"
    and rest: "try_map (reconstruct_entry H payload) cs = Inr es'"
    by (auto simp: and_then_eq_Inr)
  from Cons.prems(1) obtain mid prev' where lay: "entry_layout h limits off c mid"
    and ord: "check_entry_order prev c = Inr prev'" and ch: "chain h limits cs mid prev' nx" by auto
  note step = reconstruct_layout [OF lay e]
  have "unat mid \<le> length payload" using step Cons.prems(3) by auto
  note ih = Cons.IH [OF ch rest this]
  have "take (length (entries_payload es)) (drop (unat off) payload) = entries_payload es"
    using ih step by (auto simp: es take_add add.commute drop_drop)
  moreover have "place H (unat off) es = c # cs"
    using ih step by (simp add: es)
  moreover have "orders prev es" using ih step check_entry_order_inv [OF ord] by (auto simp: es split: option.splits)
  ultimately show ?case using ih step by (simp add: es)
qed

lemma decompress_length:
  "decompress_with_dictionary z inp algorithm d declared limits = Inr out \<Longrightarrow> length out = unat declared"
  by (auto simp: decompress_with_dictionary_def and_then_eq_Inr usize_to_u64_def split: if_splits)

lemma orders_strict:
  assumes "orders prev es" "\<forall>e\<in>set es. ae_path e \<noteq> None"
  shows "sorted_wrt (\<lambda>d e. entry_sort_path d < entry_sort_path e) es \<and>
    (\<forall>e\<in>set es. pred_option (\<lambda>s. s < as_str (entry_sort_path e)) prev)"
  using assms
proof (induction es arbitrary: prev)
  case (Cons e es)
  then obtain p where p: "ae_path e = Some p" "pred_option (\<lambda>s. s < as_str p) prev" "orders (Some (as_str p)) es"
    by (auto split: option.splits)
  then have sp: "entry_sort_path e = p" by (simp add: entry_sort_path_def)
  with Cons.IH [OF p(3)] Cons.prems(2) p(2) show ?case
    by (cases prev) (auto simp: less_relative_artifact_path_def dest: less_trans)
qed simp

lemma decoded_envelope:
  assumes "manifest_ok h limits m" "envelope_content H z limits h m stored a"
  shows "m = manifest_of H a (dm_dictionary m)" "af_kind a = ah_kind h"
    "list_all (source_entry_ok limits) (af_entries a)" "list_all (entry_shape (af_kind a) limits) (af_entries a)"
    "orders None (af_entries a)" "canonical_order a = af_entries a"
    "decompress_with_dictionary z stored (ah_compression h) (dm_dictionary m) (ah_original_size h) limits
       = Inr (entries_payload (af_entries a))"
proof -
  from assms(2) obtain payload where
    dec: "decompress_with_dictionary z stored (ah_compression h) (dm_dictionary m) (ah_original_size h) limits = Inr payload"
    and rec: "try_map (reconstruct_entry H payload) (dm_entries m) = Inr (af_entries a)"
    and a: "af_kind a = ah_kind h" "af_suggested_name a = dm_suggested_name m" "af_suggested_path a = dm_suggested_path m"
    by (auto simp: envelope_content_def reconstruct_def and_then_eq_Inr)
  from assms(1) have ch: "chain h limits (dm_entries m) 0 None (ah_original_size h)" by (simp add: manifest_ok_def)
  note r = reconstruct_chain [OF ch rec, simplified]
  show "af_kind a = ah_kind h" by (rule a)
  show "list_all (source_entry_ok limits) (af_entries a)" "list_all (entry_shape (af_kind a) limits) (af_entries a)"
    "orders None (af_entries a)" using r by (simp_all add: a)
  show ord: "canonical_order a = af_entries a"
  proof (cases "af_kind a")
    case DirectoryArtifact
    with r have "\<forall>e\<in>set (af_entries a). ae_path e \<noteq> None" by (auto simp: list_all_iff entry_shape_def a)
    with orders_strict [of None "af_entries a"] r have "sorted_wrt (\<lambda>d e. entry_sort_path d < entry_sort_path e) (af_entries a)"
      by simp
    then have "sorted (map entry_sort_path (af_entries a))"
      unfolding sorted_wrt_map by (rule sorted_wrt_mono_rel [rotated]) simp
    with DirectoryArtifact show ?thesis by (simp add: canonical_order_def sort_key_id_if_sorted)
  qed (simp add: canonical_order_def)
  show "m = manifest_of H a (dm_dictionary m)"
    using r ord by (cases m) (simp add: manifest_of_def a)
  have "length payload = length (entries_payload (af_entries a))" using decompress_length [OF dec] r by simp
  with r have "payload = entries_payload (af_entries a)" by simp
  with dec show "decompress_with_dictionary z stored (ah_compression h) (dm_dictionary m) (ah_original_size h) limits
       = Inr (entries_payload (af_entries a))" by simp
qed

section \<open>Properties of artifact envelopes\<close>

text \<open>The one envelope of an artifact under a profile and a stored payload.\<close>

definition envelope_of :: "blake3 \<Rightarrow> artifact \<Rightarrow> compression_profile \<Rightarrow> selected_payload \<Rightarrow> bytes" where
  "envelope_of H a profile sp =
     wire_envelope (header_for H a profile sp) (manifest_of H a (sp_dictionary sp)) (sp_stored sp)"

definition no_trainer :: dictionary_trainer where
  "no_trainer samples n = None"

definition sample_artifact :: artifact where
  "sample_artifact = \<lparr> af_kind = DirectoryArtifact, af_suggested_name = Some (ascii ''demo''), af_suggested_path = None,
     af_entries = [entry_file (RelativeArtifactPath (ascii ''src/b'')) [7, 8, 9] True,
       entry_directory (RelativeArtifactPath (ascii ''a''))] \<rparr>"

definition sample_payload :: selected_payload where
  "sample_payload = \<lparr> sp_compression = CompressionNone, sp_dictionary = [], sp_stored = [7, 8, 9] \<rparr>"

lemma header_of_envelope:
  assumes "manifest_ok h limits m" "envelope_sizes limits h m stored" "envelope_content H z limits h m stored a"
  defines "sp \<equiv> \<lparr> sp_compression = ah_compression h, sp_dictionary = dm_dictionary m, sp_stored = stored \<rparr>"
  shows "h = header_for H a (ah_profile h) sp"
proof -
  note d = decoded_envelope [OF assms(1,3)]
  have len: "length (dm_entries m) = length (af_entries a)" using d(1,6) by (metis decoded_manifest.select_convs(4) length_place manifest_of_def)
  have "length (entries_payload (af_entries a)) = unat (ah_original_size h)" using decompress_length [OF d(7)] .
  then have sizes: "of_nat (length (entries_payload (af_entries a))) = ah_original_size h" "of_nat (length stored) = ah_stored_size h"
    "of_nat (length (wire_artifact_manifest m)) = ah_manifest_size h" "of_nat (length (af_entries a)) = ah_entry_count h"
    using assms(1,2) by (simp_all add: envelope_sizes_def manifest_ok_def manifest_metadata_ok_def flip: len)
  have flags: "ah_flags h = metadata_flags a (dm_dictionary m)"
    using assms(1,3) by (auto simp: manifest_ok_def manifest_metadata_ok_def check_metadata_flags_def metadata_flags_def
        envelope_content_def reconstruct_def and_then_eq_Inr split: if_splits)
  have ent: "dm_entries m = place H 0 (af_entries a)" using d(1,6) by (metis decoded_manifest.select_convs(4) manifest_of_def)
  have "ah_content_digest h = content_digest H (ah_kind h) (place H 0 (af_entries a))"
    using assms(3) by (simp add: envelope_content_def ent)
  moreover have "ah_envelope_digest h = envelope_digest H h (wire_artifact_manifest m) stored"
    using assms(3) by (simp add: envelope_content_def)
  ultimately show ?thesis
    using flags by (cases h) (simp add: header_for_def sp_def Let_def d(2,6) sizes [simplified] d(1) [symmetric]
        envelope_digest_def envelope_hasher_def)
qed

text \<open>
  C31. The bytes of an accepted envelope are determined by what is decoded: they are the one envelope of the decoded
  artifact under its profile, for some stored payload that decompresses to the files' bytes. Without
  compression nothing is free, so that an uncompressed artifact has one envelope per profile.
\<close>

theorem artifact_envelope_canonical:
  assumes "decode_artifact H z binary limits = Inr d"
  shows "\<exists>sp. binary = envelope_of H (da_artifact d) (da_profile d) sp \<and> sp_compression sp = da_compression d \<and>
    decompress_with_dictionary z (sp_stored sp) (da_compression d) (sp_dictionary sp) (da_original_size d) limits
      = Inr (entries_payload (af_entries (da_artifact d))) \<and>
    (da_compression d = CompressionNone \<longrightarrow>
      sp_dictionary sp = [] \<and> sp_stored sp = entries_payload (af_entries (da_artifact d)))"
  using assms
proof (rule decode_artifact_inv)
  fix h m stored a
  assume b: "binary = wire_envelope h m stored" and m: "manifest_ok h limits m" and sz: "envelope_sizes limits h m stored"
    and c: "envelope_content H z limits h m stored a" and d: "d = report_on h m a"
  let ?sp = "\<lparr> sp_compression = ah_compression h, sp_dictionary = dm_dictionary m, sp_stored = stored \<rparr>"
  note e = decoded_envelope [OF m c]
  have "binary = envelope_of H a (ah_profile h) ?sp"
    using header_of_envelope [OF m sz c] e(1) by (simp add: b envelope_of_def)
  moreover have "dm_dictionary m = [] \<and> stored = entries_payload (af_entries a)" if "ah_compression h = CompressionNone"
    using e(7) that by (auto simp: decompress_with_dictionary_def and_then_eq_Inr split: if_splits)
  ultimately show ?thesis
    using e(7) by (intro exI [of _ ?sp]) (auto simp: d report_on_def)
qed

lemma artifact_token_ok:
  assumes "base64_contract b64" "bs \<noteq> []" "4 + (4 * length bs + 2) div 3 \<le> unat (max_token_bytes limits)"
  shows "encode_artifact_binary_token b64 bs limits = Inr (ARTIFACT_TOKEN_PREFIX @ b64_encode b64 bs)"
    "decode_artifact_token H z b64 (ARTIFACT_TOKEN_PREFIX @ b64_encode b64 bs) limits = decode_artifact H z bs limits"
proof -
  let ?t = "ARTIFACT_TOKEN_PREFIX @ b64_encode b64 bs"
  have len: "length ?t = 4 + (4 * length bs + 2) div 3"
    using assms(1) by (simp add: base64_contract_def ARTIFACT_TOKEN_PREFIX_def)
  have "length ?t < 2 ^ 64" "(of_nat (length ?t) :: u64) \<le> max_token_bytes limits"
    unfolding len using assms(3) u64_le unat_u64_bound by blast+
  then have size: "and_then (art_usize_to_u64 (length ?t)) (\<lambda>len. enforce_token_size len limits) = Inr ()"
    by (simp add: art_usize_to_u64_def try_from_usize_ok)
  have enc: "b64_encode b64 bs \<noteq> []" "\<not> list_ex (\<lambda>b. \<not> is_ascii_alphanumeric b \<and> b \<noteq> 45 \<and> b \<noteq> 95) (b64_encode b64 bs)"
    "b64_decode b64 (b64_encode b64 bs) = Some bs"
  proof -
    have "0 < length (b64_encode b64 bs)" using assms(1,2) by (cases bs) (simp_all add: base64_contract_def)
    then show "b64_encode b64 bs \<noteq> []" by simp
    show "\<not> list_ex (\<lambda>b. \<not> is_ascii_alphanumeric b \<and> b \<noteq> 45 \<and> b \<noteq> 95) (b64_encode b64 bs)"
      "b64_decode b64 (b64_encode b64 bs) = Some bs"
      using assms(1) by (auto simp: base64_contract_def list_all_iff list_ex_iff base64url_byte_def)
  qed
  show "encode_artifact_binary_token b64 bs limits = Inr ?t"
    using size by (auto simp: encode_artifact_binary_token_def and_then_eq_Inr simp del: length_append)
  from size obtain len where "art_usize_to_u64 (length ?t) = Inr len" "enforce_token_size len limits = Inr ()"
    by (auto simp: and_then_eq_Inr simp del: enforce_eq_Inr length_append)
  then show "decode_artifact_token H z b64 ?t limits = decode_artifact H z bs limits"
    using enc by (simp add: decode_artifact_token_def del: enforce_eq_Inr length_append)
qed

text \<open>
  C30. Building an envelope and its token succeeds and is undone by decoding, under every engine, trainer and Base64URL codec
  that keeps its contract: when the entries are canonical, the payload is stored and the sizes are within policy, the
  self-verification of \<open>encode_artifact\<close> accepts, and both the bytes and the \<open>ra1_\<close> token decode to the
  artifact with its entries in path order.
\<close>

theorem artifact_round_trip:
  assumes "blake3_contract H" and "zstd_contract z" and "trainer_contract tr" and "base64_contract b64"
    and "wf_artifact (ao_limits options) a" and "canonicalize H a (ao_limits options) = Inr (cs, payload)"
    and "select_payload z tr payload cs options = Inr sp"
    and "artifact_encode_manifest a (sp_dictionary sp) cs (ao_limits options) = Inr mf"
    and "length payload \<le> length (sp_stored sp) * unat (max_compression_ratio (ao_limits options))"
    and "104 + length mf + length (sp_stored sp) \<le> unat (max_capsule_bytes (ao_limits options))"
    and "4 + (4 * (104 + length mf + length (sp_stored sp)) + 2) div 3 \<le> unat (max_token_bytes (ao_limits options))"
  shows "\<exists>e t d. encode_artifact H z tr a options = Inr e \<and> ea_binary e = envelope_of H a (ao_profile options) sp \<and>
    decode_artifact H z (ea_binary e) (ao_limits options) = Inr d \<and>
    encode_artifact_token H z tr b64 a options = Inr t \<and> decode_artifact_token H z b64 t (ao_limits options) = Inr d \<and>
    da_artifact d = a\<lparr> af_entries := canonical_order a \<rparr>"
proof -
  obtain e where e: "encode_artifact H z tr a options = Inr e" "ea_binary e = envelope_of H a (ao_profile options) sp"
    "length (ea_binary e) = 104 + length mf + length (sp_stored sp)"
    and d: "decode_artifact H z (ea_binary e) (ao_limits options)
      = Inr (report_on (header_for H a (ao_profile options) sp) (manifest_of H a (sp_dictionary sp))
          (a\<lparr> af_entries := canonical_order a \<rparr>))"
    using encode_artifact_eq [OF assms(1,2,3,5,6,7,8,9,10)] unfolding envelope_of_def by blast
  have "ea_binary e \<noteq> []" using e(3) by auto
  note token = artifact_token_ok [OF assms(4) this, of "ao_limits options", unfolded e(3), OF assms(11)]
  show ?thesis
    using e(1,2) d token(1) token(2) [of H z] by (simp add: encode_artifact_token_def report_on_def)
qed


text \<open>A directory whose entries are given out of order, built with a hash, an engine and an alphabet that compute.\<close>

lemma no_trainer_dictionary: "train_artifact_dictionary no_trainer payload cs options = None"
  by (simp add: train_artifact_dictionary_def train_dictionary_def no_trainer_def result_ok_def Let_def
      split: option.splits sum.splits bind_splits)

lemma sample_artifact_canonical:
  "canonicalize sample_hash sample_artifact limits_SIMPLE_ARTIFACT
     = Inr (place sample_hash 0 (canonical_order sample_artifact), [7, 8, 9])"
  by code_simp

lemma sample_artifact_selected: "select_payload stored_zstd no_trainer [7, 8, 9] cs options_default = Inr sample_payload"
  by (simp add: select_payload_def options_default_def best_zstd_candidate_def no_trainer_dictionary ordinary_candidate_def
      stored_verbatim_def compress_with_profile_def sample_payload_def usize_saturating_add_def usize_max_def
      compress_with_dictionary_def compress_zstd_def compress_zstd_stream_def usize_to_u64_def
      try_from_usize_def enforce_output_limit_def enforce_compressed_limit_def limits_V1_def limits_SIMPLE_ARTIFACT_def
      copy_declared.simps slice_read_def BUFFER_SIZE_def write_all_encoder stored_zstd_def checked_add_def)

lemma sample_artifact_manifest:
  "\<exists>mf. artifact_encode_manifest sample_artifact [] (place sample_hash 0 (canonical_order sample_artifact))
      limits_SIMPLE_ARTIFACT = Inr mf \<and> length mf \<le> 200"
proof -
  have "case artifact_encode_manifest sample_artifact [] (place sample_hash 0 (canonical_order sample_artifact))
      limits_SIMPLE_ARTIFACT of Inl _ \<Rightarrow> False | Inr mf \<Rightarrow> length mf \<le> 200"
    by code_simp
  then show ?thesis by (simp split: sum.splits)
qed

lemma sample_artifact_wf: "wf_artifact limits_SIMPLE_ARTIFACT sample_artifact"
proof -
  have "list_all (\<lambda>e. pred_option (wf_path (max_path_bytes limits_SIMPLE_ARTIFACT)) (ae_path e)) (af_entries sample_artifact)"
    by code_simp
  moreover have "max_path_bytes limits_SIMPLE_ARTIFACT < 65536" by (simp add: limits_SIMPLE_ARTIFACT_def limits_V1_def)
  moreover have "pred_option from_utf8 (af_suggested_name sample_artifact)" by code_simp
  ultimately show ?thesis by (simp add: wf_artifact_def sample_artifact_def)
qed

lemma unat_max_u64: "unat (- 1 :: u64) = 18446744073709551615"
  by (simp add: unat_eq_nat_uint unsigned_minus_1_eq_mask mask_eq_exp_minus_1)

lemma no_trainer_contract: "trainer_contract no_trainer"
  by (simp add: trainer_contract_def no_trainer_def)

lemma sample_envelope:
  "\<exists>d. decode_artifact sample_hash stored_zstd (envelope_of sample_hash sample_artifact Balanced sample_payload)
     limits_SIMPLE_ARTIFACT = Inr d \<and> da_artifact d = sample_artifact\<lparr> af_entries := canonical_order sample_artifact \<rparr>"
proof -
  obtain mf where "artifact_encode_manifest sample_artifact [] (place sample_hash 0 (canonical_order sample_artifact))
      limits_SIMPLE_ARTIFACT = Inr mf" "length mf \<le> 200" using sample_artifact_manifest by blast
  then show ?thesis
    using encode_artifact_eq [of sample_hash stored_zstd no_trainer options_default sample_artifact,
        OF sample_contracts(1) stored_zstd_contract no_trainer_contract, of _ _ sample_payload mf]
      sample_artifact_wf sample_artifact_canonical sample_artifact_selected
    by (auto simp: options_default_def sample_payload_def limits_SIMPLE_ARTIFACT_def limits_V1_def envelope_of_def report_on_def
        unat_max_u64)
qed

theorem artifact_round_trip_witness:
  "\<exists>e t d. encode_artifact sample_hash stored_zstd no_trainer sample_artifact options_default = Inr e \<and>
    ea_binary e = envelope_of sample_hash sample_artifact Balanced sample_payload \<and>
    decode_artifact sample_hash stored_zstd (ea_binary e) limits_SIMPLE_ARTIFACT = Inr d \<and>
    encode_artifact_token sample_hash stored_zstd no_trainer url_safe_no_pad sample_artifact options_default = Inr t \<and>
    decode_artifact_token sample_hash stored_zstd url_safe_no_pad t limits_SIMPLE_ARTIFACT = Inr d \<and>
    da_artifact d = sample_artifact\<lparr> af_entries := canonical_order sample_artifact \<rparr>"
proof -
  obtain mf where "artifact_encode_manifest sample_artifact [] (place sample_hash 0 (canonical_order sample_artifact))
      limits_SIMPLE_ARTIFACT = Inr mf" "length mf \<le> 200" using sample_artifact_manifest by blast
  then show ?thesis
    using artifact_round_trip [of sample_hash stored_zstd no_trainer url_safe_no_pad options_default sample_artifact,
        OF sample_contracts(1) stored_zstd_contract no_trainer_contract url_safe_no_pad_contract, of _ _ sample_payload mf]
      sample_artifact_wf sample_artifact_canonical sample_artifact_selected
    by (simp add: options_default_def sample_payload_def limits_SIMPLE_ARTIFACT_def limits_V1_def
        unat_max_u64)
qed

theorem artifact_envelope_canonical_witness:
  "\<exists>d sp. decode_artifact sample_hash stored_zstd (envelope_of sample_hash sample_artifact Balanced sample_payload)
      limits_SIMPLE_ARTIFACT = Inr d \<and>
    envelope_of sample_hash sample_artifact Balanced sample_payload
      = envelope_of sample_hash (da_artifact d) (da_profile d) sp \<and>
    sp_compression sp = da_compression d"
proof -
  obtain d where "decode_artifact sample_hash stored_zstd (envelope_of sample_hash sample_artifact Balanced sample_payload)
      limits_SIMPLE_ARTIFACT = Inr d" using sample_envelope by blast
  with artifact_envelope_canonical [OF this] show ?thesis by blast
qed

end
