(* ===== verification/Stateful_Io.thy ===== *)
theory Stateful_Io
  imports Rust_Prelude
begin

text \<open>
  Fallible code that changes a state it shares with its caller: a value of \<open>io\<close> takes the state and returns
  a result together with the state it leaves behind, on an error as well as on success. \<open>io_bind\<close> is a
  statement followed by \<open>?\<close>, \<open>io_attempt\<close> is a call whose \<open>Result\<close> the code inspects, \<open>zoom\<close> is a call that
  borrows one part of the state. \<open>wp\<close> is the calculus the proofs use: what must hold before so that
  every normal and every failing exit satisfies its postcondition.
\<close>

named_theorems wp_simps \<open>Weakest preconditions of statements\<close>

type_synonym ('s, 'e, 'a) io = "'s \<Rightarrow> ('e + 'a) \<times> 's"

section \<open>Statements\<close>

definition io_return :: "'a \<Rightarrow> ('s, 'e, 'a) io" where
  "io_return x s = (Inr x, s)"

definition io_fail :: "'e \<Rightarrow> ('s, 'e, 'a) io" where
  "io_fail e s = (Inl e, s)"

definition io_lift :: "'e + 'a \<Rightarrow> ('s, 'e, 'a) io" where
  "io_lift r s = (r, s)"

definition io_bind :: "('s, 'e, 'a) io \<Rightarrow> ('a \<Rightarrow> ('s, 'e, 'b) io) \<Rightarrow> ('s, 'e, 'b) io" where
  "io_bind m f s = (case m s of (Inl e, s') \<Rightarrow> (Inl e, s') | (Inr x, s') \<Rightarrow> f x s')"

definition io_attempt :: "('s, 'd, 'a) io \<Rightarrow> ('s, 'e, 'd + 'a) io" where
  "io_attempt m s = (case m s of (r, s') \<Rightarrow> (Inr r, s'))"

definition io_map_err :: "('d \<Rightarrow> 'e) \<Rightarrow> ('s, 'd, 'a) io \<Rightarrow> ('s, 'e, 'a) io" where
  "io_map_err h m s = (case m s of (r, s') \<Rightarrow> (map_err h r, s'))"

definition io_gets :: "('s \<Rightarrow> 'a) \<Rightarrow> ('s, 'e, 'a) io" where
  "io_gets f s = (Inr (f s), s)"

definition io_modify :: "('s \<Rightarrow> 's) \<Rightarrow> ('s, 'e, unit) io" where
  "io_modify f s = (Inr (), f s)"

definition zoom :: "('s \<Rightarrow> 't) \<Rightarrow> ('t \<Rightarrow> 's \<Rightarrow> 's) \<Rightarrow> ('t, 'e, 'a) io \<Rightarrow> ('s, 'e, 'a) io" where
  "zoom get put m s = (case m (get s) of (r, t) \<Rightarrow> (r, put t s))"

primrec io_for_each :: "('a \<Rightarrow> ('s, 'e, unit) io) \<Rightarrow> 'a list \<Rightarrow> ('s, 'e, unit) io" where
  "io_for_each f [] = io_return ()"
| "io_for_each f (x # xs) = io_bind (f x) (\<lambda>_. io_for_each f xs)"

primrec io_fold :: "('b \<Rightarrow> 'a \<Rightarrow> ('s, 'e, 'b) io) \<Rightarrow> 'b \<Rightarrow> 'a list \<Rightarrow> ('s, 'e, 'b) io" where
  "io_fold f acc [] = io_return acc"
| "io_fold f acc (x # xs) = io_bind (f acc x) (\<lambda>acc'. io_fold f acc' xs)"

section \<open>Weakest preconditions\<close>

definition wp :: "('s, 'e, 'a) io \<Rightarrow> ('a \<Rightarrow> 's \<Rightarrow> bool) \<Rightarrow> ('e \<Rightarrow> 's \<Rightarrow> bool) \<Rightarrow> 's \<Rightarrow> bool" where
  "wp m Q E s = (case m s of (Inr x, s') \<Rightarrow> Q x s' | (Inl e, s') \<Rightarrow> E e s')"

lemma wp_alt: "wp m Q E s \<longleftrightarrow> (\<forall>r s'. m s = (r, s') \<longrightarrow> (case r of Inr x \<Rightarrow> Q x s' | Inl e \<Rightarrow> E e s'))"
  by (cases "m s") (auto simp: wp_def split: sum.splits)

lemma wpI:
  "(\<And>x s'. m s = (Inr x, s') \<Longrightarrow> Q x s') \<Longrightarrow> (\<And>e s'. m s = (Inl e, s') \<Longrightarrow> E e s') \<Longrightarrow> wp m Q E s"
  by (auto simp: wp_alt split: sum.splits)

lemma wp_Inr: "wp m Q E s \<Longrightarrow> m s = (Inr x, s') \<Longrightarrow> Q x s'"
  by (simp add: wp_def)

lemma wp_Inl: "wp m Q E s \<Longrightarrow> m s = (Inl e, s') \<Longrightarrow> E e s'"
  by (simp add: wp_def)

lemma wp_mono:
  "wp m Q E s \<Longrightarrow> (\<And>x s'. Q x s' \<Longrightarrow> Q' x s') \<Longrightarrow> (\<And>e s'. E e s' \<Longrightarrow> E' e s') \<Longrightarrow> wp m Q' E' s"
  by (auto simp: wp_def split: sum.splits prod.splits)

lemma wp_conj:
  "wp m Q E s \<Longrightarrow> wp m Q' E' s \<Longrightarrow> wp m (\<lambda>x s'. Q x s' \<and> Q' x s') (\<lambda>e s'. E e s' \<and> E' e s') s"
  by (auto simp: wp_def split: sum.splits prod.splits)

lemma wp_statements [wp_simps]:
  "wp (io_return x) Q E = Q x"
  "wp (io_fail e) Q E = E e"
  "wp (io_bind m f) Q E = wp m (\<lambda>x. wp (f x) Q E) E"
  by (auto simp: fun_eq_iff wp_def io_return_def io_fail_def io_bind_def split: prod.splits sum.splits)

lemma wp_attempt [wp_simps]:
  "wp (io_attempt m) Q E = wp m (\<lambda>x. Q (Inr x)) (\<lambda>e. Q (Inl e))"
  by (auto simp: fun_eq_iff wp_def io_attempt_def split: prod.splits sum.splits)

lemma wp_map_err [wp_simps]: "wp (io_map_err h m) Q E = wp m Q (\<lambda>e. E (h e))"
  by (auto simp: fun_eq_iff wp_def io_map_err_def split: prod.splits sum.splits)

lemma wp_state [wp_simps]:
  "wp (io_gets g) Q' E s \<longleftrightarrow> Q' (g s) s"
  "wp (io_modify u) Q E s \<longleftrightarrow> Q () (u s)"
  by (simp_all add: wp_def io_gets_def io_modify_def)

lemma wp_zoom [wp_simps]:
  "wp (zoom get put n) Q E s \<longleftrightarrow> wp n (\<lambda>x t. Q x (put t s)) (\<lambda>e t. E e (put t s)) (get s)"
  by (simp add: wp_def zoom_def split: prod.splits sum.splits)

lemma wp_lift [wp_simps]:
  "wp (io_lift r) Q E s \<longleftrightarrow> (case r of Inr x \<Rightarrow> Q x s | Inl e \<Rightarrow> E e s)"
  by (simp add: wp_def io_lift_def)

lemma wp_if [wp_simps]: "wp (if b then m else n) Q E s \<longleftrightarrow> (if b then wp m Q E s else wp n Q E s)"
  by simp

lemma wp_for_each:
  assumes "\<And>ys x zs s. xs = ys @ x # zs \<Longrightarrow> I ys s \<Longrightarrow> wp (f x) (\<lambda>_. I (ys @ [x])) E s"
    and "I [] s" and "\<And>s'. I xs s' \<Longrightarrow> Q () s'"
  shows "wp (io_for_each f xs) Q E s"
proof -
  have "wp (io_for_each f zs) Q E s" if "xs = ys @ zs" "I ys s" for ys zs s
    using that
  proof (induction zs arbitrary: ys s)
    case Nil
    then show ?case using assms(3) by (simp add: wp_simps)
  next
    case (Cons x zs)
    have "wp (f x) (\<lambda>_. I (ys @ [x])) E s" using assms(1) Cons.prems by blast
    then show ?case
      unfolding io_for_each.simps wp_simps
      by (rule wp_mono) (use Cons in simp_all)
  qed
  from this [of "[]" xs] assms(2) show ?thesis by simp
qed

lemma wp_fold:
  assumes "\<And>ys x zs acc s. xs = ys @ x # zs \<Longrightarrow> I ys acc s \<Longrightarrow> wp (f acc x) (\<lambda>acc'. I (ys @ [x]) acc') E s"
    and "I [] acc s" and "\<And>acc' s'. I xs acc' s' \<Longrightarrow> Q acc' s'"
  shows "wp (io_fold f acc xs) Q E s"
proof -
  have "wp (io_fold f acc zs) Q E s" if "xs = ys @ zs" "I ys acc s" for ys zs acc s
    using that
  proof (induction zs arbitrary: ys acc s)
    case Nil
    then show ?case using assms(3) by (simp add: wp_simps)
  next
    case (Cons x zs)
    have "wp (f acc x) (\<lambda>acc'. I (ys @ [x]) acc') E s" using assms(1) Cons.prems by blast
    then show ?case
      unfolding io_fold.simps wp_simps
      by (rule wp_mono) (use Cons in simp_all)
  qed
  from this [of "[]" xs] assms(2) show ?thesis by simp
qed

end
