(* ===== verification/Apply_Model.thy ===== *)
theory Apply_Model
  imports Rap_Verify Stateful_Io
begin

text \<open>
  The transaction engine of \<open>rebyte-apply/src/lib.rs\<close>: planning, staging, committing, rolling back and
  recovering a multi-file change below a directory. The directory capability of cap-std, serde_json,
  uuid and BLAKE3 are one argument, \<open>host\<close>, whose calls may fail at any time; a crash is a host whose calls
  all fail from some moment on. A directory handle is the list of components below the root at
  which it was opened. A call takes and returns the outside world \<open>'w\<close>, about which nothing is known
  here but through the host.
\<close>

type_synonym fpath = "bytes list"

datatype error_kind = NotFound | PermissionDenied | AlreadyExists | OtherKind nat

datatype file_type = TypeFile | TypeDir | TypeSymlink | TypeOther

record metadata =
  md_file_type :: file_type
  md_len :: u64
  md_mode :: u32

section \<open>Errors, journal and reports\<close>

datatype apply_error =
    ApplyRoot error_kind | ApplyIo error_kind | IncompleteTransaction | TransactionNotFound
  | TransactionFinished | InvalidTransactionId | InvalidJournal | ApplySymlink | NotRegularFile
  | Conflict | ApplyIntegrity | RollbackFailed | ApplyLengthOverflow

datatype transaction_state = Prepared | Staged | Committing | Committed | RollingBack | RolledBack

record journal_directory =
  jd_path :: bytes
  jd_existed :: bool

record journal_operation =
  jo_target :: bytes
  jo_staged :: bytes
  jo_backup :: "bytes option"
  jo_original_digest :: "bytes option"
  jo_original_executable :: bool
  jo_new_digest :: bytes
  jo_new_size :: u64
  jo_executable :: bool

record journal =
  jn_schema_version :: u16
  jn_id :: bytes
  jn_capsule_digest :: bytes
  jn_state :: transaction_state
  jn_committed :: nat
  jn_retain_backup :: bool
  jn_created_directories :: "bytes list"
  jn_required_directories :: "journal_directory list"
  jn_operations :: "journal_operation list"

record target_snapshot =
  ts_bytes :: bytes
  ts_executable :: bool

record apply_report =
  rp_transaction_id :: bytes
  rp_files_written :: nat
  rp_directories_ensured :: nat
  rp_bytes_written :: u64
  rp_retained_backup :: "bytes option"

record transaction_summary =
  tx_id :: bytes
  tx_state :: transaction_state
  tx_operations :: nat
  tx_committed :: nat
  tx_capsule_digest :: digest32
  tx_retained :: bool

definition CONTROL_DIR :: bytes where "CONTROL_DIR = ascii ''.rebyte''"
definition TRANSACTIONS_DIR :: bytes where "TRANSACTIONS_DIR = ascii ''transactions''"
definition JOURNAL_FILE :: bytes where "JOURNAL_FILE = ascii ''journal.json''"
definition JOURNAL_TEMP_FILE :: bytes where "JOURNAL_TEMP_FILE = ascii ''journal.tmp''"
definition MAX_JOURNAL_BYTES :: u64 where "MAX_JOURNAL_BYTES = 2 * 1024 * 1024"

section \<open>The host\<close>

text \<open>
  The calls of cap-std that the engine makes. Names and relative paths are strings as the code
  passes them. \<open>h_create_new\<close> is \<open>open_with\<close> under \<open>write(true).create_new(true)\<close> and returns the new file's
  handle, its path; \<open>h_open_self\<close> and \<open>h_sync_self\<close> are the two calls of \<open>sync_directory\<close>; an entry of
  \<open>h_entries\<close> is a read error, or the name when it is valid UTF-8.
\<close>

record 'w host =
  h_blake3 :: blake3
  h_to_vec :: "journal \<Rightarrow> bytes option"
  h_from_slice :: "bytes \<Rightarrow> journal option"
  h_uuid_parse :: "bytes \<Rightarrow> bool"
  h_uuid_new :: "'w \<Rightarrow> bytes \<times> 'w"
  h_open_ambient :: "('w, error_kind, fpath) io"
  h_try_clone :: "fpath \<Rightarrow> ('w, error_kind, fpath) io"
  h_symlink_metadata :: "fpath \<Rightarrow> bytes \<Rightarrow> ('w, error_kind, metadata) io"
  h_open_dir_nofollow :: "fpath \<Rightarrow> bytes \<Rightarrow> ('w, error_kind, fpath) io"
  h_create_dir :: "fpath \<Rightarrow> bytes \<Rightarrow> ('w, error_kind, unit) io"
  h_entries :: "fpath \<Rightarrow> ('w, error_kind, (error_kind + bytes option) list) io"
  h_read :: "fpath \<Rightarrow> bytes \<Rightarrow> ('w, error_kind, bytes) io"
  h_create_new :: "fpath \<Rightarrow> bytes \<Rightarrow> ('w, error_kind, fpath) io"
  h_write_all :: "fpath \<Rightarrow> bytes \<Rightarrow> ('w, error_kind, unit) io"
  h_set_mode :: "fpath \<Rightarrow> u32 \<Rightarrow> ('w, error_kind, unit) io"
  h_sync_all :: "fpath \<Rightarrow> ('w, error_kind, unit) io"
  h_rename :: "fpath \<Rightarrow> bytes \<Rightarrow> bytes \<Rightarrow> ('w, error_kind, unit) io"
  h_remove_file :: "fpath \<Rightarrow> bytes \<Rightarrow> ('w, error_kind, unit) io"
  h_remove_dir :: "fpath \<Rightarrow> bytes \<Rightarrow> ('w, error_kind, unit) io"
  h_remove_dir_all :: "fpath \<Rightarrow> bytes \<Rightarrow> ('w, error_kind, unit) io"
  h_open_self :: "fpath \<Rightarrow> ('w, error_kind, fpath) io"
  h_sync_self :: "fpath \<Rightarrow> ('w, error_kind, unit) io"

text \<open>\<open>.map_err(|error| ApplyError::Io(error.kind()))?\<close>, and the parts of a state a call borrows.\<close>

definition io_call :: "('s, error_kind, 'a) io \<Rightarrow> ('s, apply_error, 'a) io" where
  "io_call m = io_map_err ApplyIo m"

definition on_world :: "('w, 'e, 'a) io \<Rightarrow> ('w \<times> 'j, 'e, 'a) io" where
  "on_world m = zoom fst (\<lambda>w s. (w, snd s)) m"

definition on_created :: "('w \<times> bytes list, 'e, 'a) io \<Rightarrow> ('w \<times> journal, 'e, 'a) io" where
  "on_created m = zoom (\<lambda>s. (fst s, jn_created_directories (snd s)))
     (\<lambda>t s. (fst t, (snd s)\<lparr> jn_created_directories := snd t \<rparr>)) m"

definition fresh_vec :: "('w \<times> bytes list, 'e, 'a) io \<Rightarrow> ('w, 'e, 'a) io" where
  "fresh_vec m = zoom (\<lambda>w. (w, [])) (\<lambda>t _. fst t) m"

definition owning :: "journal \<Rightarrow> ('w \<times> journal, 'e, 'a) io \<Rightarrow> ('w, 'd, ('e + 'a) \<times> journal) io" where
  "owning j m w = (case m (w, j) of (r, (w', j')) \<Rightarrow> (Inr (r, j'), w'))"

definition modify_journal :: "(journal \<Rightarrow> journal) \<Rightarrow> ('w \<times> journal, 'e, unit) io" where
  "modify_journal f = io_modify (\<lambda>s. (fst s, f (snd s)))"

definition get_journal :: "('w \<times> journal, 'e, journal) io" where
  "get_journal = io_gets snd"

section \<open>Names\<close>

fun decimal :: "nat \<Rightarrow> bytes" where
  "decimal n = (if n < 10 then [of_nat (48 + n)] else decimal (n div 10) @ [of_nat (48 + n mod 10)])"

declare decimal.simps [simp del]

definition index08 :: "nat \<Rightarrow> bytes" where
  "index08 n = replicate (8 - length (decimal n)) 48 @ decimal n"

definition staged_name :: "nat \<Rightarrow> bytes" where
  "staged_name index = ascii ''staged/'' @ index08 index @ ascii ''.bin''"

definition backup_name :: "nat \<Rightarrow> bytes" where
  "backup_name index = ascii ''backups/'' @ index08 index @ ascii ''.bin''"

definition commit_temporary :: "bytes \<Rightarrow> nat \<Rightarrow> bytes" where
  "commit_temporary tid index = ascii ''.rebyte-'' @ tid @ ascii ''-'' @ index08 index @ ascii ''.tmp''"

definition rollback_temporary :: "bytes \<Rightarrow> nat \<Rightarrow> bytes" where
  "rollback_temporary tid committed =
     ascii ''.rebyte-'' @ tid @ ascii ''-rollback-'' @ index08 committed @ ascii ''.tmp''"

definition push_component :: "bytes \<Rightarrow> bytes \<Rightarrow> bytes" where
  "push_component accumulated component =
     (if accumulated = [] then component else accumulated @ 47 # component)"

definition transaction_path :: "bytes \<Rightarrow> bytes" where
  "transaction_path tid = CONTROL_DIR @ 47 # TRANSACTIONS_DIR @ 47 # tid"

definition is_executable :: "metadata \<Rightarrow> bool" where
  "is_executable md \<longleftrightarrow> and (md_mode md) 73 \<noteq> 0"

definition parse_path :: "bytes \<Rightarrow> apply_error + relative_artifact_path" where
  "parse_path p = map_err (\<lambda>_. InvalidJournal) (path_new p)"

section \<open>Directory walks and single files\<close>

definition open_root :: "'w host \<Rightarrow> ('w, apply_error, fpath) io" where
  "open_root F = io_map_err ApplyRoot (h_open_ambient F)"

definition sync_directory :: "'w host \<Rightarrow> fpath \<Rightarrow> ('w, apply_error, unit) io" where
  "sync_directory F dir = io_bind (io_call (h_open_self F dir)) (\<lambda>h. io_call (h_sync_self F h))"

definition set_executable :: "'w host \<Rightarrow> fpath \<Rightarrow> bool \<Rightarrow> ('w, apply_error, unit) io" where
  "set_executable F file exec = io_call (h_set_mode F file (if exec then 493 else 420))"

definition write_new_file :: "'w host \<Rightarrow> fpath \<Rightarrow> bytes \<Rightarrow> bytes \<Rightarrow> bool \<Rightarrow> ('w, apply_error, unit) io" where
  "write_new_file F dir rpath bs exec =
     io_bind (io_call (h_create_new F dir rpath)) (\<lambda>file.
     io_bind (io_call (h_write_all F file bs)) (\<lambda>_.
     io_bind (set_executable F file exec) (\<lambda>_.
     io_call (h_sync_all F file))))"

definition verify_file :: "'w host \<Rightarrow> fpath \<Rightarrow> bytes \<Rightarrow> digest32 \<Rightarrow> ('w, apply_error, unit) io" where
  "verify_file F dir rpath expected =
     io_bind (io_call (h_read F dir rpath)) (\<lambda>bs.
     if digest_matches expected (file_digest (h_blake3 F) bs) then io_return () else io_fail ApplyIntegrity)"

primrec open_parent_walk ::
    "'w host \<Rightarrow> bool \<Rightarrow> bytes list \<Rightarrow> fpath \<Rightarrow> bytes \<Rightarrow> ('w \<times> bytes list, apply_error, fpath option) io" where
  "open_parent_walk F create [] current accumulated = io_return (Some current)"
| "open_parent_walk F create (component # components) current accumulated =
     (let accumulated = push_component accumulated component;
          proceed = io_bind (on_world (io_call (h_open_dir_nofollow F current component))) (\<lambda>current.
                    open_parent_walk F create components current accumulated)
      in io_bind (io_attempt (on_world (h_symlink_metadata F current component))) (\<lambda>r. case r of
           Inr md \<Rightarrow>
             if md_file_type md = TypeSymlink then io_fail ApplySymlink
             else if md_file_type md \<noteq> TypeDir then io_fail NotRegularFile
             else proceed
         | Inl kind \<Rightarrow>
             if kind = NotFound \<and> create then
               io_bind (on_world (io_call (h_create_dir F current component))) (\<lambda>_.
               io_bind (on_world (sync_directory F current)) (\<lambda>_.
               io_bind (io_modify (\<lambda>s. (fst s, snd s @ [accumulated]))) (\<lambda>_.
               proceed)))
             else if kind = NotFound then io_return None
             else io_fail (ApplyIo kind)))"

definition open_parent ::
    "'w host \<Rightarrow> fpath \<Rightarrow> relative_artifact_path \<Rightarrow> bool \<Rightarrow>
     ('w \<times> bytes list, apply_error, (fpath \<times> bytes) option) io" where
  "open_parent F root rpath create =
     (let components = split_on 47 (as_str rpath); filename = last components in
      io_bind (on_world (io_call (h_try_clone F root))) (\<lambda>current.
      io_bind (open_parent_walk F create (butlast components) current []) (\<lambda>r.
      io_return (map_option (\<lambda>current. (current, filename)) r))))"

definition read_target ::
    "'w host \<Rightarrow> fpath \<Rightarrow> relative_artifact_path \<Rightarrow> ('w, apply_error, target_snapshot option) io" where
  "read_target F root rpath =
     io_bind (fresh_vec (open_parent F root rpath False)) (\<lambda>r. case r of
       None \<Rightarrow> io_return None
     | Some (parent, filename) \<Rightarrow>
         io_bind (io_attempt (h_symlink_metadata F parent filename)) (\<lambda>r. case r of
           Inl kind \<Rightarrow> if kind = NotFound then io_return None else io_fail (ApplyIo kind)
         | Inr md \<Rightarrow>
             if md_file_type md = TypeSymlink then io_fail ApplySymlink
             else if md_file_type md \<noteq> TypeFile then io_fail NotRegularFile
             else io_bind (io_call (h_read F parent filename)) (\<lambda>bs.
               io_return (Some \<lparr> ts_bytes = bs, ts_executable = is_executable md \<rparr>))))"

primrec directory_exists_walk :: "'w host \<Rightarrow> bytes list \<Rightarrow> fpath \<Rightarrow> ('w, apply_error, bool) io" where
  "directory_exists_walk F [] current = io_return True"
| "directory_exists_walk F (component # components) current =
     io_bind (io_attempt (h_symlink_metadata F current component)) (\<lambda>r. case r of
       Inr md \<Rightarrow>
         if md_file_type md = TypeSymlink then io_fail ApplySymlink
         else if md_file_type md \<noteq> TypeDir then io_fail NotRegularFile
         else io_bind (io_call (h_open_dir_nofollow F current component)) (\<lambda>current.
           directory_exists_walk F components current)
     | Inl kind \<Rightarrow> if kind = NotFound then io_return False else io_fail (ApplyIo kind))"

definition directory_exists :: "'w host \<Rightarrow> fpath \<Rightarrow> relative_artifact_path \<Rightarrow> ('w, apply_error, bool) io" where
  "directory_exists F root rpath =
     io_bind (io_call (h_try_clone F root)) (\<lambda>current.
     directory_exists_walk F (split_on 47 (as_str rpath)) current)"

primrec ensure_directory_walk ::
    "'w host \<Rightarrow> bytes list \<Rightarrow> fpath \<Rightarrow> bytes \<Rightarrow> ('w \<times> bytes list, apply_error, unit) io" where
  "ensure_directory_walk F [] current accumulated = io_return ()"
| "ensure_directory_walk F (component # components) current accumulated =
     (let accumulated = push_component accumulated component;
          proceed = io_bind (on_world (io_call (h_open_dir_nofollow F current component))) (\<lambda>current.
                    ensure_directory_walk F components current accumulated)
      in io_bind (io_attempt (on_world (h_symlink_metadata F current component))) (\<lambda>r. case r of
           Inr md \<Rightarrow>
             if md_file_type md = TypeSymlink then io_fail ApplySymlink
             else if md_file_type md \<noteq> TypeDir then io_fail NotRegularFile
             else proceed
         | Inl kind \<Rightarrow>
             if kind = NotFound then
               io_bind (on_world (io_call (h_create_dir F current component))) (\<lambda>_.
               io_bind (on_world (sync_directory F current)) (\<lambda>_.
               io_bind (io_modify (\<lambda>s. if accumulated \<in> set (snd s) then s
                                       else (fst s, snd s @ [accumulated]))) (\<lambda>_.
               proceed)))
             else io_fail (ApplyIo kind)))"

definition ensure_directory ::
    "'w host \<Rightarrow> fpath \<Rightarrow> relative_artifact_path \<Rightarrow> ('w \<times> bytes list, apply_error, unit) io" where
  "ensure_directory F root rpath =
     io_bind (on_world (io_call (h_try_clone F root))) (\<lambda>current.
     ensure_directory_walk F (split_on 47 (as_str rpath)) current [])"

definition atomic_replace ::
    "'w host \<Rightarrow> fpath \<Rightarrow> relative_artifact_path \<Rightarrow> bytes \<Rightarrow> bool \<Rightarrow> bytes \<Rightarrow>
     ('w \<times> bytes list, apply_error, unit) io" where
  "atomic_replace F root rpath bs exec temporary =
     io_bind (open_parent F root rpath True) (\<lambda>r.
     io_bind (io_lift (ok_or InvalidJournal r)) (\<lambda>(parent, filename).
     on_world (
     io_bind (io_attempt (h_symlink_metadata F parent filename)) (\<lambda>r.
     io_bind (case r of
         Inr md \<Rightarrow>
           if md_file_type md = TypeSymlink then io_fail ApplySymlink
           else if md_file_type md \<noteq> TypeFile then io_fail NotRegularFile
           else io_return ()
       | Inl kind \<Rightarrow> if kind = NotFound then io_return () else io_fail (ApplyIo kind)) (\<lambda>_.
     io_bind (io_attempt (h_symlink_metadata F parent temporary)) (\<lambda>r.
     if is_ok r then io_fail Conflict
     else
     io_bind (write_new_file F parent temporary bs exec) (\<lambda>_.
     io_bind (io_call (h_rename F parent temporary filename)) (\<lambda>_.
     sync_directory F parent))))))))"

definition remove_target :: "'w host \<Rightarrow> fpath \<Rightarrow> relative_artifact_path \<Rightarrow> ('w, apply_error, unit) io" where
  "remove_target F root rpath =
     io_bind (fresh_vec (open_parent F root rpath False)) (\<lambda>r. case r of
       None \<Rightarrow> io_return ()
     | Some (parent, filename) \<Rightarrow>
         io_bind (io_attempt (h_symlink_metadata F parent filename)) (\<lambda>r. case r of
           Inr md \<Rightarrow>
             if md_file_type md = TypeSymlink then io_fail ApplySymlink
             else if md_file_type md \<noteq> TypeFile then io_fail NotRegularFile
             else io_bind (io_call (h_remove_file F parent filename)) (\<lambda>_. sync_directory F parent)
         | Inl kind \<Rightarrow> if kind = NotFound then io_return () else io_fail (ApplyIo kind)))"

definition remove_created_directories :: "'w host \<Rightarrow> fpath \<Rightarrow> bytes list \<Rightarrow> ('w, apply_error, unit) io" where
  "remove_created_directories F root directories =
     io_for_each (\<lambda>directory. io_bind (io_attempt (h_remove_dir F root directory)) (\<lambda>_. io_return ()))
       (rev directories)"

definition remove_required_directories ::
    "'w host \<Rightarrow> fpath \<Rightarrow> journal_directory list \<Rightarrow> ('w, apply_error, unit) io" where
  "remove_required_directories F root directories =
     io_for_each (\<lambda>directory. io_bind (io_attempt (h_remove_dir F root (jd_path directory))) (\<lambda>_. io_return ()))
       (filter (\<lambda>directory. \<not> jd_existed directory) (rev directories))"

section \<open>The journal\<close>

definition persist_journal :: "'w host \<Rightarrow> fpath \<Rightarrow> journal \<Rightarrow> ('w, apply_error, unit) io" where
  "persist_journal F transaction j =
     io_bind (io_lift (ok_or InvalidJournal (h_to_vec F j))) (\<lambda>bs.
     io_bind (io_lift (try_from_usize ApplyLengthOverflow (length bs))) (\<lambda>len.
     if MAX_JOURNAL_BYTES < len then io_fail InvalidJournal
     else
     io_bind (io_attempt (h_symlink_metadata F transaction JOURNAL_TEMP_FILE)) (\<lambda>r.
     io_bind (if is_ok r then io_call (h_remove_file F transaction JOURNAL_TEMP_FILE) else io_return ()) (\<lambda>_.
     io_bind (write_new_file F transaction JOURNAL_TEMP_FILE bs False) (\<lambda>_.
     io_bind (io_call (h_rename F transaction JOURNAL_TEMP_FILE JOURNAL_FILE)) (\<lambda>_.
     sync_directory F transaction))))))"

definition persist_current :: "'w host \<Rightarrow> fpath \<Rightarrow> ('w \<times> journal, apply_error, unit) io" where
  "persist_current F transaction =
     io_bind get_journal (\<lambda>j. on_world (persist_journal F transaction j))"

definition validate_operation :: "nat \<times> journal_operation \<Rightarrow> apply_error + unit" where
  "validate_operation = (\<lambda>(index, oper).
     and_then (parse_path (jo_target oper)) (\<lambda>_.
     if jo_staged oper \<noteq> staged_name index
        \<or> \<not> pred_option (\<lambda>rpath. rpath = backup_name index) (jo_backup oper)
        \<or> (jo_backup oper \<noteq> None) \<noteq> (jo_original_digest oper \<noteq> None)
     then Inl InvalidJournal else Inr ()))"

definition validate_directory ::
    "journal_operation list \<Rightarrow> bytes option \<Rightarrow> journal_directory \<Rightarrow> apply_error + bytes option" where
  "validate_directory operations previous directory =
     and_then (parse_path (jd_path directory)) (\<lambda>_.
     if \<not> pred_option (\<lambda>value. value < jd_path directory) previous
        \<or> list_ex (\<lambda>oper. jo_target oper = jd_path directory) operations
     then Inl InvalidJournal else Inr (Some (jd_path directory)))"

definition validate_journal :: "'w host \<Rightarrow> journal \<Rightarrow> apply_error + unit" where
  "validate_journal F j =
     (if jn_schema_version j \<noteq> 1 \<or> \<not> h_uuid_parse F (jn_id j) \<or> length (jn_operations j) < jn_committed j
      then Inl InvalidJournal
      else
      and_then (try_for_each validate_operation (enumerate 0 (jn_operations j))) (\<lambda>_.
      and_then (try_for_each (\<lambda>directory. and_then (parse_path directory) (\<lambda>_. Inr ()))
                 (jn_created_directories j)) (\<lambda>_.
      and_then (try_fold (validate_directory (jn_operations j)) None (jn_required_directories j)) (\<lambda>_.
      Inr ()))))"

definition load_journal :: "'w host \<Rightarrow> fpath \<Rightarrow> ('w, apply_error, journal) io" where
  "load_journal F transaction =
     io_bind (io_call (h_symlink_metadata F transaction JOURNAL_FILE)) (\<lambda>md.
     if md_file_type md = TypeSymlink \<or> md_file_type md \<noteq> TypeFile \<or> MAX_JOURNAL_BYTES < md_len md
     then io_fail InvalidJournal
     else
     io_bind (io_call (h_read F transaction JOURNAL_FILE)) (\<lambda>bs.
     io_bind (io_lift (ok_or InvalidJournal (h_from_slice F bs))) (\<lambda>j.
     io_bind (io_lift (validate_journal F j)) (\<lambda>_.
     io_return j))))"

definition validate_transaction_id :: "'w host \<Rightarrow> bytes \<Rightarrow> apply_error + unit" where
  "validate_transaction_id F tid = (if h_uuid_parse F tid then Inr () else Inl InvalidTransactionId)"

definition map_not_found :: "apply_error \<Rightarrow> error_kind \<Rightarrow> apply_error" where
  "map_not_found not_found kind = (if kind = NotFound then not_found else ApplyIo kind)"

section \<open>Planning and the control directory\<close>

definition prepare_directory ::
    "'w host \<Rightarrow> fpath \<Rightarrow> verified_file list \<Rightarrow> bytes option \<times> journal_directory list \<Rightarrow> relative_artifact_path \<Rightarrow>
     ('w, apply_error, bytes option \<times> journal_directory list) io" where
  "prepare_directory F root fs st directory =
     (case st of (previous, prepared) \<Rightarrow>
      let rpath = as_str directory in
      if \<not> pred_option (\<lambda>value. value < rpath) previous \<or> list_ex (\<lambda>file. as_str (vf_path file) = rpath) fs
      then io_fail InvalidJournal
      else
      io_bind (directory_exists F root directory) (\<lambda>existed.
      io_return (Some rpath, prepared @ [\<lparr> jd_path = rpath, jd_existed = existed \<rparr>])))"

definition prepare_directories ::
    "'w host \<Rightarrow> fpath \<Rightarrow> verified_file list \<Rightarrow> relative_artifact_path list \<Rightarrow>
     ('w, apply_error, journal_directory list) io" where
  "prepare_directories F root fs directories =
     io_bind (io_fold (prepare_directory F root fs) (None, []) directories) (\<lambda>(_, prepared).
     io_return prepared)"

definition prepare_operation ::
    "'w host \<Rightarrow> fpath \<Rightarrow> journal_operation list \<Rightarrow> nat \<times> verified_file \<Rightarrow>
     ('w, apply_error, journal_operation list) io" where
  "prepare_operation F root operations indexed =
     (case indexed of (index, file) \<Rightarrow>
      io_bind (read_target F root (vf_path file)) (\<lambda>snapshot.
      io_bind (io_lift (try_from_usize ApplyLengthOverflow (length (vf_bytes file)))) (\<lambda>new_size.
      io_return (operations @ [\<lparr>
        jo_target = as_str (vf_path file),
        jo_staged = staged_name index,
        jo_backup = map_option (\<lambda>_. backup_name index) snapshot,
        jo_original_digest = map_option (\<lambda>value. digest_bytes (file_digest (h_blake3 F) (ts_bytes value))) snapshot,
        jo_original_executable = (case snapshot of None \<Rightarrow> False | Some value \<Rightarrow> ts_executable value),
        jo_new_digest = digest_bytes (file_digest (h_blake3 F) (vf_bytes file)),
        jo_new_size = new_size,
        jo_executable = vf_executable file \<rparr>]))))"

definition prepare ::
    "'w host \<Rightarrow> digest32 \<Rightarrow> verified_file list \<Rightarrow> relative_artifact_path list \<Rightarrow> fpath \<Rightarrow> bytes \<Rightarrow> bool \<Rightarrow>
     ('w, apply_error, journal) io" where
  "prepare F source_digest fs directories root transaction_id retain_backup =
     io_bind (prepare_directories F root fs directories) (\<lambda>required_directories.
     io_bind (io_fold (prepare_operation F root) [] (enumerate 0 fs)) (\<lambda>operations.
     io_return \<lparr>
       jn_schema_version = 1,
       jn_id = transaction_id,
       jn_capsule_digest = digest_bytes source_digest,
       jn_state = Prepared,
       jn_committed = 0,
       jn_retain_backup = retain_backup,
       jn_created_directories = [],
       jn_required_directories = required_directories,
       jn_operations = operations \<rparr>))"

definition open_or_create_directory ::
    "'w host \<Rightarrow> fpath \<Rightarrow> bytes \<Rightarrow> bool \<Rightarrow> ('w, apply_error, fpath option) io" where
  "open_or_create_directory F parent name create =
     io_bind (io_attempt (h_symlink_metadata F parent name)) (\<lambda>r.
     io_bind (case r of
         Inr md \<Rightarrow>
           if md_file_type md = TypeSymlink then io_fail ApplySymlink
           else if md_file_type md \<noteq> TypeDir then io_fail NotRegularFile
           else io_return True
       | Inl kind \<Rightarrow>
           if kind = NotFound \<and> create
           then io_bind (io_call (h_create_dir F parent name)) (\<lambda>_. io_return True)
           else if kind = NotFound then io_return False
           else io_fail (ApplyIo kind)) (\<lambda>present.
     if present then io_bind (io_call (h_open_dir_nofollow F parent name)) (\<lambda>d. io_return (Some d))
     else io_return None))"

definition open_transactions :: "'w host \<Rightarrow> fpath \<Rightarrow> bool \<Rightarrow> ('w, apply_error, fpath option) io" where
  "open_transactions F root create =
     io_bind (open_or_create_directory F root CONTROL_DIR create) (\<lambda>control. case control of
       None \<Rightarrow> io_return None
     | Some control \<Rightarrow> open_or_create_directory F control TRANSACTIONS_DIR create)"

definition create_transaction :: "'w host \<Rightarrow> fpath \<Rightarrow> ('w, apply_error, fpath \<times> bytes \<times> fpath) io" where
  "create_transaction F root =
     io_bind (open_transactions F root True) (\<lambda>r.
     io_bind (io_lift (ok_or InvalidJournal r)) (\<lambda>transactions.
     io_bind (\<lambda>w. case h_uuid_new F w of (tid, w') \<Rightarrow> (Inr tid, w')) (\<lambda>tid.
     io_bind (io_call (h_create_dir F transactions tid)) (\<lambda>_.
     io_bind (io_call (h_open_dir_nofollow F transactions tid)) (\<lambda>transaction.
     io_bind (io_call (h_create_dir F transaction (ascii ''staged''))) (\<lambda>_.
     io_bind (io_call (h_create_dir F transaction (ascii ''backups''))) (\<lambda>_.
     io_bind (sync_directory F transaction) (\<lambda>_.
     io_bind (sync_directory F transactions) (\<lambda>_.
     io_return (transactions, tid, transaction))))))))))"

definition finished_state :: "transaction_state \<Rightarrow> bool" where
  "finished_state state \<longleftrightarrow> state = Committed \<or> state = RolledBack"

definition reject_entry :: "'w host \<Rightarrow> fpath \<Rightarrow> error_kind + bytes option \<Rightarrow> ('w, apply_error, unit) io" where
  "reject_entry F transactions entry =
     (case entry of
        Inl kind \<Rightarrow> io_fail (ApplyIo kind)
      | Inr None \<Rightarrow> io_return ()
      | Inr (Some tid) \<Rightarrow>
          io_bind (io_attempt (h_open_dir_nofollow F transactions tid)) (\<lambda>r. case r of
            Inl _ \<Rightarrow> io_return ()
          | Inr transaction \<Rightarrow>
              io_bind (io_attempt (load_journal F transaction)) (\<lambda>r. case r of
                Inl _ \<Rightarrow> io_fail IncompleteTransaction
              | Inr j \<Rightarrow> if finished_state (jn_state j) then io_return () else io_fail IncompleteTransaction)))"

definition reject_incomplete_transactions :: "'w host \<Rightarrow> fpath \<Rightarrow> ('w, apply_error, unit) io" where
  "reject_incomplete_transactions F root =
     io_bind (open_transactions F root False) (\<lambda>r. case r of
       None \<Rightarrow> io_return ()
     | Some transactions \<Rightarrow>
         io_bind (io_call (h_entries F transactions)) (\<lambda>entries.
         io_for_each (reject_entry F transactions) entries))"

definition cleanup_transaction :: "'w host \<Rightarrow> fpath \<Rightarrow> bytes \<Rightarrow> ('w, apply_error, unit) io" where
  "cleanup_transaction F transactions tid =
     io_bind (io_attempt (h_remove_dir_all F transactions tid)) (\<lambda>r.
     io_bind (case r of
         Inr _ \<Rightarrow> io_return ()
       | Inl kind \<Rightarrow> if kind = NotFound then io_return () else io_fail (ApplyIo kind)) (\<lambda>_.
     sync_directory F transactions))"

section \<open>Staging and committing\<close>

definition stage_operation ::
    "'w host \<Rightarrow> fpath \<Rightarrow> fpath \<Rightarrow> verified_file \<times> journal_operation \<Rightarrow> ('w, apply_error, unit) io" where
  "stage_operation F root transaction pair =
     (case pair of (file, oper) \<Rightarrow>
      io_bind (write_new_file F transaction (jo_staged oper) (vf_bytes file) (vf_executable file)) (\<lambda>_.
      io_bind (verify_file F transaction (jo_staged oper) (Digest32 (jo_new_digest oper))) (\<lambda>_.
      case jo_backup oper of
        None \<Rightarrow> io_return ()
      | Some backup \<Rightarrow>
          io_bind (read_target F root (vf_path file)) (\<lambda>r.
          io_bind (io_lift (ok_or Conflict r)) (\<lambda>snapshot.
          io_bind (io_lift (ok_or InvalidJournal (map_option Digest32 (jo_original_digest oper)))) (\<lambda>original.
          if \<not> digest_matches original (file_digest (h_blake3 F) (ts_bytes snapshot)) then io_fail Conflict
          else
          io_bind (write_new_file F transaction backup (ts_bytes snapshot) (ts_executable snapshot)) (\<lambda>_.
          verify_file F transaction backup original)))))))"

definition stage ::
    "'w host \<Rightarrow> verified_file list \<Rightarrow> fpath \<Rightarrow> fpath \<Rightarrow> ('w \<times> journal, apply_error, unit) io" where
  "stage F fs root transaction =
     io_bind get_journal (\<lambda>j.
     if length fs \<noteq> length (jn_operations j) then io_fail InvalidJournal
     else
     io_bind (on_world (io_for_each (stage_operation F root transaction) (zip fs (jn_operations j)))) (\<lambda>_.
     modify_journal (\<lambda>j. j\<lparr> jn_state := Staged \<rparr>)))"

definition verify_staged_operation :: "'w host \<Rightarrow> fpath \<Rightarrow> journal_operation \<Rightarrow> ('w, apply_error, unit) io" where
  "verify_staged_operation F transaction oper =
     io_bind (verify_file F transaction (jo_staged oper) (Digest32 (jo_new_digest oper))) (\<lambda>_.
     case (jo_backup oper, jo_original_digest oper) of
       (Some backup, Some original) \<Rightarrow> verify_file F transaction backup (Digest32 original)
     | _ \<Rightarrow> io_return ())"

definition verify_staged :: "'w host \<Rightarrow> fpath \<Rightarrow> journal \<Rightarrow> ('w, apply_error, unit) io" where
  "verify_staged F transaction j =
     io_for_each (verify_staged_operation F transaction) (jn_operations j)"

definition is_new :: "blake3 \<Rightarrow> journal_operation \<Rightarrow> target_snapshot option \<Rightarrow> bool" where
  "is_new H oper current =
     (case current of None \<Rightarrow> False | Some snapshot \<Rightarrow>
        ts_executable snapshot = jo_executable oper
        \<and> digest_matches (Digest32 (jo_new_digest oper)) (file_digest H (ts_bytes snapshot)))"

definition is_original :: "blake3 \<Rightarrow> journal_operation \<Rightarrow> target_snapshot option \<Rightarrow> bool" where
  "is_original H oper current =
     (case (jo_original_digest oper, current) of
        (None, None) \<Rightarrow> True
      | (Some expected, Some snapshot) \<Rightarrow>
          ts_executable snapshot = jo_original_executable oper
          \<and> digest_matches (Digest32 expected) (file_digest H (ts_bytes snapshot))
      | _ \<Rightarrow> False)"

definition verify_precondition ::
    "'w host \<Rightarrow> fpath \<Rightarrow> relative_artifact_path \<Rightarrow> journal_operation \<Rightarrow> ('w, apply_error, unit) io" where
  "verify_precondition F root rpath oper =
     io_bind (read_target F root rpath) (\<lambda>current.
     if is_original (h_blake3 F) oper current then io_return () else io_fail Conflict)"

definition commit_directory ::
    "'w host \<Rightarrow> fpath \<Rightarrow> fpath \<Rightarrow> journal_directory \<Rightarrow> ('w \<times> journal, apply_error, unit) io" where
  "commit_directory F root transaction directory =
     io_bind (io_lift (parse_path (jd_path directory))) (\<lambda>rpath.
     io_bind (on_created (ensure_directory F root rpath)) (\<lambda>_.
     persist_current F transaction))"

text \<open>The loop body of \<open>commit\<close>: check and replace one target, then read it back and record it.\<close>

definition record_committed ::
    "'w host \<Rightarrow> fpath \<Rightarrow> fpath \<Rightarrow> journal_operation \<Rightarrow> relative_artifact_path \<Rightarrow> nat \<Rightarrow>
     ('w \<times> journal, apply_error, unit) io" where
  "record_committed F root transaction oper rpath index =
     io_bind (on_world (read_target F root rpath)) (\<lambda>r.
     io_bind (io_lift (ok_or ApplyIntegrity r)) (\<lambda>committed.
     if ts_executable committed \<noteq> jo_executable oper
        \<or> \<not> digest_matches (Digest32 (jo_new_digest oper)) (file_digest (h_blake3 F) (ts_bytes committed))
     then io_fail ApplyIntegrity
     else
     io_bind (io_lift (ok_or ApplyLengthOverflow (usize_checked_add index 1))) (\<lambda>next.
     io_bind (modify_journal (\<lambda>j. j\<lparr> jn_committed := next \<rparr>)) (\<lambda>_.
     persist_current F transaction))))"

definition commit_operation ::
    "'w host \<Rightarrow> fpath \<Rightarrow> fpath \<Rightarrow> nat \<Rightarrow> ('w \<times> journal, apply_error, unit) io" where
  "commit_operation F root transaction index =
     io_bind get_journal (\<lambda>j.
     io_bind (io_lift (if index < length (jn_operations j) then Inr (jn_operations j ! index)
                       else Inl InvalidJournal)) (\<lambda>oper.
     io_bind (io_lift (parse_path (jo_target oper))) (\<lambda>rpath.
     io_bind (on_world (verify_precondition F root rpath oper)) (\<lambda>_.
     io_bind (on_world (io_call (h_read F transaction (jo_staged oper)))) (\<lambda>staged.
     if \<not> digest_matches (Digest32 (jo_new_digest oper)) (file_digest (h_blake3 F) staged)
     then io_fail ApplyIntegrity
     else
     io_bind (on_created (atomic_replace F root rpath staged (jo_executable oper)
                (commit_temporary (jn_id j) index))) (\<lambda>_.
     record_committed F root transaction oper rpath index))))))"

definition commit :: "'w host \<Rightarrow> fpath \<Rightarrow> fpath \<Rightarrow> ('w \<times> journal, apply_error, unit) io" where
  "commit F root transaction =
     io_bind get_journal (\<lambda>j.
     io_bind (on_world (verify_staged F transaction j)) (\<lambda>_.
     io_bind (modify_journal (\<lambda>j. j\<lparr> jn_state := Committing \<rparr>)) (\<lambda>_.
     io_bind (persist_current F transaction) (\<lambda>_.
     io_bind (io_for_each (commit_directory F root transaction) (jn_required_directories j)) (\<lambda>_.
     io_for_each (commit_operation F root transaction) [jn_committed j..<length (jn_operations j)])))))"

section \<open>Rolling back and reconciling\<close>

definition remove_directories :: "'w host \<Rightarrow> fpath \<Rightarrow> ('w \<times> journal, apply_error, unit) io" where
  "remove_directories F root =
     io_bind get_journal (\<lambda>j.
     io_bind (on_world (remove_created_directories F root (jn_created_directories j))) (\<lambda>_.
     on_world (remove_required_directories F root (jn_required_directories j))))"

text \<open>The loop body of \<open>rollback\<close>: look at one target, then leave it, restore it or remove it.\<close>

definition rollback_target ::
    "'w host \<Rightarrow> fpath \<Rightarrow> fpath \<Rightarrow> journal \<Rightarrow> nat \<Rightarrow> journal_operation \<Rightarrow> relative_artifact_path \<Rightarrow>
     target_snapshot option \<Rightarrow> ('w \<times> journal, apply_error, unit) io" where
  "rollback_target F root transaction j index oper rpath current =
     (if \<not> is_new (h_blake3 F) oper current then
        if index = jn_committed j then io_return ()
        else if jo_original_digest oper = None \<and> current = None then io_return ()
        else if jo_original_digest oper \<noteq> None \<and> current \<noteq> None
                \<and> is_original (h_blake3 F) oper current then io_return ()
        else io_bind (remove_directories F root) (\<lambda>_. io_fail Conflict)
      else
      case (jo_backup oper, jo_original_digest oper) of
        (Some backup, Some original_digest) \<Rightarrow>
          io_bind (on_world (io_call (h_read F transaction backup))) (\<lambda>bs.
          if \<not> digest_matches (Digest32 original_digest) (file_digest (h_blake3 F) bs)
          then io_fail ApplyIntegrity
          else on_created (atomic_replace F root rpath bs (jo_original_executable oper)
                 (rollback_temporary (jn_id j) (jn_committed j))))
      | _ \<Rightarrow> on_world (remove_target F root rpath))"

definition rollback_operation ::
    "'w host \<Rightarrow> fpath \<Rightarrow> fpath \<Rightarrow> nat \<times> journal_operation \<Rightarrow> ('w \<times> journal, apply_error, unit) io" where
  "rollback_operation F root transaction indexed =
     (case indexed of (index, oper) \<Rightarrow>
      io_bind get_journal (\<lambda>j.
      io_bind (io_lift (parse_path (jo_target oper))) (\<lambda>rpath.
      io_bind (on_world (read_target F root rpath)) (\<lambda>current.
      rollback_target F root transaction j index oper rpath current))))"

definition rollback :: "'w host \<Rightarrow> fpath \<Rightarrow> fpath \<Rightarrow> ('w \<times> journal, apply_error, unit) io" where
  "rollback F root transaction =
     io_bind (modify_journal (\<lambda>j. j\<lparr> jn_state := RollingBack \<rparr>)) (\<lambda>_.
     io_bind (persist_current F transaction) (\<lambda>_.
     io_bind get_journal (\<lambda>j.
     io_bind (io_lift (ok_or ApplyLengthOverflow (usize_checked_add (jn_committed j) 1))) (\<lambda>n.
     let possible_count = min n (length (jn_operations j)) in
     io_bind (io_for_each (rollback_operation F root transaction)
                (rev (enumerate 0 (take possible_count (jn_operations j))))) (\<lambda>_.
     io_bind (remove_directories F root) (\<lambda>_.
     io_bind (modify_journal (\<lambda>j. j\<lparr> jn_committed := 0, jn_state := RolledBack \<rparr>)) (\<lambda>_.
     persist_current F transaction)))))))"

definition reconcile_operation ::
    "'w host \<Rightarrow> fpath \<Rightarrow> nat \<times> bool \<Rightarrow> journal_operation \<Rightarrow> ('w, apply_error, nat \<times> bool) io" where
  "reconcile_operation F root st oper =
     (case st of (committed, saw_original) \<Rightarrow>
      io_bind (io_lift (parse_path (jo_target oper))) (\<lambda>rpath.
      io_bind (read_target F root rpath) (\<lambda>current.
      if is_new (h_blake3 F) oper current \<and> \<not> saw_original then
        io_bind (io_lift (ok_or ApplyLengthOverflow (usize_checked_add committed 1))) (\<lambda>committed.
        io_return (committed, saw_original))
      else if is_original (h_blake3 F) oper current then io_return (committed, True)
      else io_fail Conflict)))"

definition reconcile :: "'w host \<Rightarrow> fpath \<Rightarrow> fpath \<Rightarrow> ('w \<times> journal, apply_error, unit) io" where
  "reconcile F root transaction =
     io_bind get_journal (\<lambda>j.
     io_bind (on_world (io_fold (reconcile_operation F root) (0, False) (jn_operations j))) (\<lambda>(committed, _).
     io_bind (modify_journal (\<lambda>j. j\<lparr> jn_committed := committed \<rparr>)) (\<lambda>_.
     persist_current F transaction)))"

section \<open>The entry points\<close>

definition journal_total_size :: "journal \<Rightarrow> apply_error + u64" where
  "journal_total_size j =
     try_fold (\<lambda>total oper. ok_or ApplyLengthOverflow (checked_add total (jo_new_size oper))) 0
       (jn_operations j)"

definition report_of :: "bytes \<Rightarrow> journal \<Rightarrow> u64 \<Rightarrow> bytes option \<Rightarrow> apply_report" where
  "report_of tid j bytes_written retained_backup = \<lparr>
     rp_transaction_id = tid,
     rp_files_written = length (jn_operations j),
     rp_directories_ensured = length (jn_required_directories j),
     rp_bytes_written = bytes_written,
     rp_retained_backup = retained_backup \<rparr>"

definition finish_apply ::
    "'w host \<Rightarrow> fpath \<Rightarrow> bytes \<Rightarrow> fpath \<Rightarrow> bool \<Rightarrow> journal \<Rightarrow> ('w, apply_error, apply_report) io" where
  "finish_apply F transactions tid transaction retain_backup j =
     (let j = j\<lparr> jn_state := Committed \<rparr> in
      io_bind (persist_journal F transaction j) (\<lambda>_.
      io_bind (io_lift (journal_total_size j)) (\<lambda>bytes_written.
      if retain_backup then io_return (report_of tid j bytes_written (Some (transaction_path tid)))
      else
      io_bind (cleanup_transaction F transactions tid) (\<lambda>_.
      io_return (report_of tid j bytes_written None)))))"

definition commit_apply ::
    "'w host \<Rightarrow> fpath \<Rightarrow> fpath \<Rightarrow> bytes \<Rightarrow> fpath \<Rightarrow> bool \<Rightarrow> journal \<Rightarrow> ('w, apply_error, apply_report) io" where
  "commit_apply F root transactions tid transaction retain_backup j =
     io_bind (persist_journal F transaction j) (\<lambda>_.
     io_bind (owning j (commit F root transaction)) (\<lambda>(r, j). case r of
       Inl e \<Rightarrow>
         io_bind (owning j (rollback F root transaction)) (\<lambda>(r, _).
         if \<not> is_ok r then io_fail RollbackFailed
         else io_bind (io_attempt (cleanup_transaction F transactions tid)) (\<lambda>_. io_fail e))
     | Inr _ \<Rightarrow> finish_apply F transactions tid transaction retain_backup j))"

definition apply_verified_tree ::
    "'w host \<Rightarrow> digest32 \<Rightarrow> verified_file list \<Rightarrow> relative_artifact_path list \<Rightarrow> bool \<Rightarrow>
     ('w, apply_error, apply_report) io" where
  "apply_verified_tree F source_digest fs directories retain_backup =
     io_bind (open_root F) (\<lambda>root.
     io_bind (reject_incomplete_transactions F root) (\<lambda>_.
     io_bind (create_transaction F root) (\<lambda>(transactions, tid, transaction).
     io_bind (prepare F source_digest fs directories root tid retain_backup) (\<lambda>j.
     io_bind (persist_journal F transaction j) (\<lambda>_.
     io_bind (owning j (stage F fs root transaction)) (\<lambda>(r, j). case r of
       Inl e \<Rightarrow> io_bind (io_attempt (cleanup_transaction F transactions tid)) (\<lambda>_. io_fail e)
     | Inr _ \<Rightarrow> commit_apply F root transactions tid transaction retain_backup j))))))"

definition apply_verified_files ::
    "'w host \<Rightarrow> digest32 \<Rightarrow> verified_file list \<Rightarrow> bool \<Rightarrow> ('w, apply_error, apply_report) io" where
  "apply_verified_files F source_digest fs retain_backup =
     apply_verified_tree F source_digest fs [] retain_backup"

definition apply_transaction ::
    "'w host \<Rightarrow> fully_verified_capsule \<Rightarrow> bool \<Rightarrow> ('w, apply_error, apply_report) io" where
  "apply_transaction F capsule retain_backup =
     apply_verified_files F (fv_capsule_digest capsule) (fv_files capsule) retain_backup"

definition open_transaction :: "'w host \<Rightarrow> bytes \<Rightarrow> ('w, apply_error, fpath \<times> fpath \<times> fpath) io" where
  "open_transaction F transaction_id =
     io_bind (io_lift (validate_transaction_id F transaction_id)) (\<lambda>_.
     io_bind (open_root F) (\<lambda>root.
     io_bind (open_transactions F root False) (\<lambda>r.
     io_bind (io_lift (ok_or TransactionNotFound r)) (\<lambda>transactions.
     io_bind (io_map_err (map_not_found TransactionNotFound)
                (h_open_dir_nofollow F transactions transaction_id)) (\<lambda>transaction.
     io_return (root, transactions, transaction))))))"

definition borrowing :: "journal \<Rightarrow> ('w \<times> journal, 'e, 'a) io \<Rightarrow> ('w, 'e, 'a \<times> journal) io" where
  "borrowing j m = io_bind (owning j m) (\<lambda>(r, j). io_lift (and_then r (\<lambda>x. Inr (x, j))))"

definition resume_transaction :: "'w host \<Rightarrow> bytes \<Rightarrow> ('w, apply_error, apply_report) io" where
  "resume_transaction F transaction_id =
     io_bind (open_transaction F transaction_id) (\<lambda>(root, transactions, transaction).
     io_bind (load_journal F transaction) (\<lambda>j.
     if finished_state (jn_state j) then io_fail TransactionFinished
     else
     io_bind (borrowing j (reconcile F root transaction)) (\<lambda>(_, j).
     io_bind (verify_staged F transaction j) (\<lambda>_.
     io_bind (borrowing j (commit F root transaction)) (\<lambda>(_, j).
     let j = j\<lparr> jn_state := Committed \<rparr> in
     io_bind (persist_journal F transaction j) (\<lambda>_.
     io_bind (io_lift (journal_total_size j)) (\<lambda>bytes_written.
     io_return (report_of transaction_id j bytes_written (Some (transaction_path transaction_id))))))))))"

definition rollback_transaction :: "'w host \<Rightarrow> bytes \<Rightarrow> ('w, apply_error, unit) io" where
  "rollback_transaction F transaction_id =
     io_bind (open_transaction F transaction_id) (\<lambda>(root, transactions, transaction).
     io_bind (load_journal F transaction) (\<lambda>j.
     io_bind (borrowing j (reconcile F root transaction)) (\<lambda>(_, j).
     io_bind (borrowing j (rollback F root transaction)) (\<lambda>_.
     cleanup_transaction F transactions transaction_id))))"

definition summarize_entry ::
    "'w host \<Rightarrow> fpath \<Rightarrow> transaction_summary list \<Rightarrow> error_kind + bytes option \<Rightarrow>
     ('w, apply_error, transaction_summary list) io" where
  "summarize_entry F transactions summaries entry =
     (case entry of
        Inl kind \<Rightarrow> io_fail (ApplyIo kind)
      | Inr None \<Rightarrow> io_return summaries
      | Inr (Some tid) \<Rightarrow>
          if \<not> h_uuid_parse F tid then io_return summaries
          else
          io_bind (io_call (h_open_dir_nofollow F transactions tid)) (\<lambda>transaction.
          io_bind (load_journal F transaction) (\<lambda>j.
          io_return (summaries @ [\<lparr> tx_id = jn_id j, tx_state = jn_state j,
            tx_operations = length (jn_operations j), tx_committed = jn_committed j,
            tx_capsule_digest = Digest32 (jn_capsule_digest j), tx_retained = jn_retain_backup j \<rparr>]))))"

definition list_transactions :: "'w host \<Rightarrow> ('w, apply_error, transaction_summary list) io" where
  "list_transactions F =
     io_bind (open_root F) (\<lambda>root.
     io_bind (open_transactions F root False) (\<lambda>r. case r of
       None \<Rightarrow> io_return []
     | Some transactions \<Rightarrow>
         io_bind (io_call (h_entries F transactions)) (\<lambda>entries.
         io_bind (io_fold (summarize_entry F transactions) [] entries) (\<lambda>summaries.
         io_return (sort_key tx_id summaries)))))"

end
