(* ===== verification/Apply_Files.thy ===== *)
theory Apply_Files
  imports Apply_Model "HOL-Library.Sublist"
begin

text \<open>
  What the transaction engine relies on from the file system, as the interface \<open>cap_fs\<close>, and what each of
  its single-file routines then does to the tree of files, on success and on every failure. The interface
  lets any call fail at any time, with or without its effect; a write that fails may leave any prefix of
  its data. \<open>tree\<close> is the part of the world below the root directory that a later process would
  find.
\<close>

datatype fs_node = FileNode bytes u32 | DirNode | SymlinkNode | OtherNode

type_synonym fs_tree = "fpath \<Rightarrow> fs_node option"

definition describes :: "metadata \<Rightarrow> fs_node \<Rightarrow> bool" where
  "describes md node \<longleftrightarrow> (case node of
     FileNode bs mode \<Rightarrow> md_file_type md = TypeFile \<and> md_len md = of_nat (length bs)
       \<and> and (md_mode md) 511 = and mode 511
   | DirNode \<Rightarrow> md_file_type md = TypeDir
   | SymlinkNode \<Rightarrow> md_file_type md = TypeSymlink
   | OtherNode \<Rightarrow> md_file_type md = TypeOther)"

definition plain_name :: "bytes \<Rightarrow> bool" where
  "plain_name n \<longleftrightarrow> ordinary_component n \<and> 47 \<notin> set n"

definition plain_path :: "bytes \<Rightarrow> bool" where
  "plain_path p \<longleftrightarrow> list_all ordinary_component (split_on 47 p)"

definition mode_executable :: "u32 \<Rightarrow> bool" where
  "mode_executable mode \<longleftrightarrow> and mode 73 \<noteq> 0"

definition mode_of :: "bool \<Rightarrow> u32" where
  "mode_of exec = (if exec then 493 else 420)"

text \<open>What \<open>read_target\<close> sees at a path, and what counts as a possible target.\<close>

definition snapshot :: "fs_node option \<Rightarrow> target_snapshot option" where
  "snapshot node = (case node of
     Some (FileNode bs mode) \<Rightarrow> Some \<lparr> ts_bytes = bs, ts_executable = mode_executable mode \<rparr>
   | _ \<Rightarrow> None)"

definition file_or_absent :: "fs_node option \<Rightarrow> bool" where
  "file_or_absent node \<longleftrightarrow> (case node of None \<Rightarrow> True | Some (FileNode _ _) \<Rightarrow> True | _ \<Rightarrow> False)"

definition made_dirs :: "fpath set \<Rightarrow> fs_tree \<Rightarrow> fs_tree \<Rightarrow> bool" where
  "made_dirs S t t' \<longleftrightarrow> (\<forall>q. t' q = t q \<or> (q \<in> S \<and> t q = None \<and> t' q = Some DirNode))"

definition same_outside :: "fpath \<Rightarrow> fs_tree \<Rightarrow> fs_tree \<Rightarrow> bool" where
  "same_outside p t t' \<longleftrightarrow> (\<forall>q. \<not> prefix p q \<longrightarrow> t' q = t q)"

text \<open>
  The effect of \<open>atomic_replace\<close>: the target keeps its node or has the new one complete; missing parents may
  have been made; a temporary beside the target may be left; nothing else differs.
\<close>

definition replaced :: "fpath \<Rightarrow> bytes \<Rightarrow> bytes \<Rightarrow> bool \<Rightarrow> fs_tree \<Rightarrow> fs_tree \<Rightarrow> bool" where
  "replaced p temporary bs exec t t' \<longleftrightarrow>
     (t' p = t p \<or> t' p = Some (FileNode bs (mode_of exec))) \<and>
     (\<forall>q. q \<noteq> p \<and> q \<noteq> butlast p @ [temporary] \<longrightarrow>
        t' q = t q \<or> (strict_prefix q p \<and> t q = None \<and> t' q = Some DirNode))"

text \<open>
  The effect of \<open>persist_journal\<close>: the journal file keeps its content or has the complete new one, and only
  it and its temporary differ. Removing directories touches empty directories only.
\<close>

definition journaled :: "fpath \<Rightarrow> bytes option \<Rightarrow> fs_tree \<Rightarrow> fs_tree \<Rightarrow> bool" where
  "journaled d vec t t' \<longleftrightarrow>
     (\<forall>q. q \<noteq> d @ [JOURNAL_FILE] \<and> q \<noteq> d @ [JOURNAL_TEMP_FILE] \<longrightarrow> t' q = t q) \<and>
     (t' (d @ [JOURNAL_FILE]) = t (d @ [JOURNAL_FILE]) \<or>
      (\<exists>bs. vec = Some bs \<and> t' (d @ [JOURNAL_FILE]) = Some (FileNode bs (mode_of False))))"

definition dirs_removed :: "fs_tree \<Rightarrow> fs_tree \<Rightarrow> bool" where
  "dirs_removed t t' \<longleftrightarrow> (\<forall>q. t' q = t q \<or> (t q = Some DirNode \<and> t' q = None))"

section \<open>Names and trees\<close>

lemma split_on_single: "47 \<notin> set n \<Longrightarrow> split_on 47 n = [n]"
  by (induction n) auto

lemma plain_name_path: "plain_name n \<Longrightarrow> plain_path n \<and> split_on 47 n = [n]"
  by (simp add: plain_name_def plain_path_def split_on_single)

lemma plain_path_names: "plain_path p \<Longrightarrow> list_all plain_name (split_on 47 p)"
  by (auto simp: plain_path_def plain_name_def list_all_iff dest: split_on_no_sep)

lemma mode_executable_mode_of [simp]: "mode_executable (mode_of exec) = exec"
  by (simp add: mode_executable_def mode_of_def)

lemma describes_file:
  assumes "describes md node" and "md_file_type md = TypeFile"
  obtains bs mode where "node = FileNode bs mode" "is_executable md = mode_executable mode"
proof (cases node)
  case (FileNode bs mode)
  with assms have m: "and (md_mode md) 511 = and mode 511" by (simp add: describes_def)
  have "and x (73 :: u32) = and (and x 511) 73" for x by (simp add: and.assoc)
  with m have "and (md_mode md) 73 = and mode 73" by metis
  with FileNode that show ?thesis by (simp add: is_executable_def mode_executable_def)
qed (use assms in \<open>simp_all add: describes_def\<close>)

lemma describes_type:
  "describes md node \<Longrightarrow> md_file_type md = TypeDir \<longleftrightarrow> node = DirNode"
  "describes md node \<Longrightarrow> md_file_type md = TypeSymlink \<longleftrightarrow> node = SymlinkNode"
  "describes md node \<Longrightarrow> md_file_type md = TypeFile \<longleftrightarrow> (\<exists>bs mode. node = FileNode bs mode)"
  by (auto simp: describes_def split: fs_node.splits)

lemma made_dirs_refl [simp]: "made_dirs S t t"
  by (simp add: made_dirs_def)

lemma made_dirs_trans: "made_dirs S t t' \<Longrightarrow> made_dirs S t' t'' \<Longrightarrow> made_dirs S t t''"
  unfolding made_dirs_def by metis

lemma made_dirs_mono: "made_dirs S t t' \<Longrightarrow> S \<subseteq> S' \<Longrightarrow> made_dirs S' t t'"
  unfolding made_dirs_def by blast

lemma made_dirs_upd: "t p = None \<Longrightarrow> p \<in> S \<Longrightarrow> made_dirs S t (t(p \<mapsto> DirNode))"
  by (simp add: made_dirs_def)

lemma same_outside_refl [simp]: "same_outside p t t"
  by (simp add: same_outside_def)

lemma same_outside_trans: "same_outside p t t' \<Longrightarrow> same_outside p t' t'' \<Longrightarrow> same_outside p t t''"
  by (simp add: same_outside_def)

lemma same_outside_upd: "prefix p q \<Longrightarrow> same_outside p t t' \<Longrightarrow> same_outside p t (t'(q := v))"
  by (auto simp: same_outside_def)

lemma prefix_butlast_strict: "prefix q (butlast cs) \<Longrightarrow> cs \<noteq> [] \<Longrightarrow> strict_prefix q cs"
  by (cases cs rule: rev_cases) (auto simp: prefix_def strict_prefix_def)

lemma replaced_steps:
  assumes "made_dirs {q. strict_prefix q p} t t1" and "tmp \<noteq> last p" "p \<noteq> []"
  shows "replaced p tmp bs exec t t1" "replaced p tmp bs exec t (t1(butlast p @ [tmp] := v))"
    "replaced p tmp bs exec t (t1(butlast p @ [tmp] := v, p \<mapsto> FileNode bs (mode_of exec)))"
    "t1 (butlast p @ [tmp]) = t (butlast p @ [tmp])"
proof -
  have ne: "butlast p @ [tmp] \<noteq> p" using assms(2) by (metis last_snoc)
  have "\<not> strict_prefix (butlast p @ [tmp]) p"
    using assms(3) prefix_length_less [of "butlast p @ [tmp]" p] by (cases p) auto
  with assms(1) show "t1 (butlast p @ [tmp]) = t (butlast p @ [tmp])"
    by (auto simp: made_dirs_def)
  have "t1 p = t p" using assms(1) by (auto simp: made_dirs_def)
  with assms(1) ne show "replaced p tmp bs exec t t1" "replaced p tmp bs exec t (t1(butlast p @ [tmp] := v))"
    "replaced p tmp bs exec t (t1(butlast p @ [tmp] := v, p \<mapsto> FileNode bs (mode_of exec)))"
    by (auto simp: made_dirs_def replaced_def)
qed

lemma journal_names [simp]:
  "plain_name JOURNAL_FILE" "plain_name JOURNAL_TEMP_FILE" "plain_name CONTROL_DIR" "plain_name TRANSACTIONS_DIR"
  "plain_name (ascii ''staged'')" "plain_name (ascii ''backups'')" "JOURNAL_TEMP_FILE \<noteq> JOURNAL_FILE"
  "JOURNAL_FILE \<noteq> JOURNAL_TEMP_FILE"
  by code_simp+

lemma journaled_refl [simp]: "journaled d vec t t"
  by (simp add: journaled_def)

lemma journaled_same_outside: "journaled d vec t t' \<Longrightarrow> same_outside d t t'"
  unfolding journaled_def same_outside_def by (metis prefixI)

lemma journaled_temp: "journaled d vec t (t(d @ [JOURNAL_TEMP_FILE] := v))"
  by (simp add: journaled_def)

lemma journaled_steps:
  assumes "t1 = t \<or> t1 = t(d @ [JOURNAL_TEMP_FILE] := v)"
  shows "journaled d vec t t1" "journaled d vec t (t1(d @ [JOURNAL_TEMP_FILE] := v'))"
    "journaled d (Some bs) t
       (t1(d @ [JOURNAL_TEMP_FILE] := v', d @ [JOURNAL_FILE] \<mapsto> FileNode bs (mode_of False)))"
  using assms by (auto simp: journaled_def)

lemma dirs_removed_refl [simp]: "dirs_removed t t"
  by (simp add: dirs_removed_def)

lemma dirs_removed_trans: "dirs_removed t t' \<Longrightarrow> dirs_removed t' t'' \<Longrightarrow> dirs_removed t t''"
  unfolding dirs_removed_def by metis

section \<open>The statements of the engine in the calculus\<close>

lemma wp_io_call [wp_simps]: "wp (io_call m) Q E = wp m Q (\<lambda>e. E (ApplyIo e))"
  by (simp add: io_call_def wp_simps)

lemma wp_on_world [wp_simps]:
  "wp (on_world m) Q E s \<longleftrightarrow> wp m (\<lambda>x w. Q x (w, snd s)) (\<lambda>e w. E e (w, snd s)) (fst s)"
  by (simp add: on_world_def wp_simps)

lemma wp_on_created [wp_simps]:
  "wp (on_created m) Q E s \<longleftrightarrow>
     wp m (\<lambda>x t. Q x (fst t, (snd s)\<lparr> jn_created_directories := snd t \<rparr>))
       (\<lambda>e t. E e (fst t, (snd s)\<lparr> jn_created_directories := snd t \<rparr>)) (fst s, jn_created_directories (snd s))"
  by (simp add: on_created_def wp_simps)

lemma wp_fresh_vec [wp_simps]:
  "wp (fresh_vec m) Q E w \<longleftrightarrow> wp m (\<lambda>x t. Q x (fst t)) (\<lambda>e t. E e (fst t)) (w, [])"
  by (simp add: fresh_vec_def wp_simps)

lemma wp_journal [wp_simps]:
  "wp get_journal Q E s \<longleftrightarrow> Q (snd s) s"
  "wp (modify_journal f) Q' E s \<longleftrightarrow> Q' () (fst s, f (snd s))"
  by (simp_all add: get_journal_def modify_journal_def wp_simps)

lemma wp_owning [wp_simps]:
  "wp (owning j m) Q E w \<longleftrightarrow>
     wp m (\<lambda>x s'. Q (Inr x, snd s') (fst s')) (\<lambda>e s'. Q (Inl e, snd s') (fst s')) (w, j)"
  by (simp add: wp_def owning_def split: prod.splits sum.splits)

lemma wp_borrowing [wp_simps]:
  "wp (borrowing j m) Q E w \<longleftrightarrow> wp m (\<lambda>x s'. Q (x, snd s') (fst s')) (\<lambda>e s'. E e (fst s')) (w, j)"
  by (simp add: borrowing_def wp_simps)

lemma wp_prod_case [wp_simps]:
  "wp (case p of (a, b) \<Rightarrow> f a b) Q E s \<longleftrightarrow> (case p of (a, b) \<Rightarrow> wp (f a b) Q E s)"
  by (cases p) simp

section \<open>The interface of the file system\<close>

locale cap_fs =
  fixes F :: "'w host" and tree :: "'w \<Rightarrow> fs_tree"
  assumes uuid_new: "h_uuid_new F w = (i, w') \<Longrightarrow> tree w' = tree w \<and> plain_name i \<and> h_uuid_parse F i"
    and uuid_parse: "h_uuid_parse F i \<Longrightarrow> plain_name i"
    and open_ambient: "\<And>r. h_open_ambient F w = (r, w') \<Longrightarrow> tree w' = tree w \<and> (\<forall>d. r = Inr d \<longrightarrow> d = [])"
    and try_clone: "\<And>r. h_try_clone F d w = (r, w') \<Longrightarrow> tree w' = tree w \<and> (\<forall>d'. r = Inr d' \<longrightarrow> d' = d)"
    and symlink_metadata: "\<And>r. h_symlink_metadata F d n w = (r, w') \<Longrightarrow> plain_name n \<Longrightarrow>
      tree w' = tree w \<and>
      (\<forall>md. r = Inr md \<longrightarrow> (\<exists>node. tree w (d @ [n]) = Some node \<and> describes md node)) \<and>
      (r = Inl NotFound \<longrightarrow> (\<forall>q. tree w (d @ n # q) = None))"
    and open_dir_nofollow: "\<And>r. h_open_dir_nofollow F d n w = (r, w') \<Longrightarrow> plain_name n \<Longrightarrow>
      tree w' = tree w \<and> (\<forall>d'. r = Inr d' \<longrightarrow> d' = d @ [n] \<and> tree w (d @ [n]) = Some DirNode)"
    and create_dir: "\<And>r. h_create_dir F d n w = (r, w') \<Longrightarrow> plain_name n \<Longrightarrow>
      (tree w' = tree w \<and> r \<noteq> Inr ()) \<or>
      (tree w (d @ [n]) = None \<and> tree w' = (tree w)(d @ [n] \<mapsto> DirNode))"
    and entries: "\<And>r. h_entries F d w = (r, w') \<Longrightarrow>
      tree w' = tree w \<and>
      (\<forall>es n. r = Inr es \<and> Inr (Some n) \<in> set es \<longrightarrow> plain_name n) \<and>
      (\<forall>es n. r = Inr es \<and> tree w (d @ [n]) \<noteq> None \<and> plain_name n \<and> utf8_decode n \<noteq> None \<longrightarrow>
         Inr (Some n) \<in> set es \<or> (\<exists>k. Inl k \<in> set es))"
    and read: "\<And>r. h_read F d rp w = (r, w') \<Longrightarrow> plain_path rp \<Longrightarrow>
      tree w' = tree w \<and>
      (\<forall>bs b m. r = Inr bs \<and> tree w (d @ split_on 47 rp) = Some (FileNode b m) \<longrightarrow> bs = b)"
    and create_new: "\<And>r. h_create_new F d rp w = (r, w') \<Longrightarrow> plain_path rp \<Longrightarrow>
      (tree w' = tree w \<and> (\<forall>h. r \<noteq> Inr h)) \<or>
      (tree w (d @ split_on 47 rp) = None \<and>
       (\<exists>m. tree w' = (tree w)(d @ split_on 47 rp \<mapsto> FileNode [] m)) \<and>
       (\<forall>h. r = Inr h \<longrightarrow> h = d @ split_on 47 rp))"
    and write_all: "\<And>r. h_write_all F p bs w = (r, w') \<Longrightarrow> tree w p = Some (FileNode [] m) \<Longrightarrow>
      \<exists>k. tree w' = (tree w)(p \<mapsto> FileNode (take k bs) m) \<and> (r = Inr () \<longrightarrow> length bs \<le> k)"
    and set_mode: "\<And>r. h_set_mode F p mode w = (r, w') \<Longrightarrow> tree w p = Some (FileNode bs m) \<Longrightarrow>
      \<exists>m'. tree w' = (tree w)(p \<mapsto> FileNode bs m') \<and> (r = Inr () \<longrightarrow> m' = mode)"
    and sync_all: "\<And>r. h_sync_all F p w = (r, w') \<Longrightarrow> tree w' = tree w"
    and rename: "\<And>r. h_rename F d a b w = (r, w') \<Longrightarrow> plain_name a \<Longrightarrow> plain_name b \<Longrightarrow> a \<noteq> b \<Longrightarrow>
      tree w (d @ [a]) = Some (FileNode bs m) \<Longrightarrow>
      (tree w' = tree w \<and> r \<noteq> Inr ()) \<or>
      tree w' = (tree w)(d @ [a] := None, d @ [b] \<mapsto> FileNode bs m)"
    and remove_file: "\<And>r. h_remove_file F d n w = (r, w') \<Longrightarrow> plain_name n \<Longrightarrow>
      (tree w' = tree w \<and> r \<noteq> Inr ()) \<or>
      (tree w (d @ [n]) \<noteq> Some DirNode \<and> tree w' = (tree w)(d @ [n] := None))"
    and remove_dir: "\<And>r. h_remove_dir F d rp w = (r, w') \<Longrightarrow>
      tree w' q = tree w q \<or> (tree w q = Some DirNode \<and> tree w' q = None)"
    and remove_dir_all: "\<And>r. h_remove_dir_all F d n w = (r, w') \<Longrightarrow> plain_name n \<Longrightarrow>
      (\<forall>q. \<not> prefix (d @ [n]) q \<longrightarrow> tree w' q = tree w q) \<and>
      (r = Inr () \<longrightarrow> (\<forall>q. prefix (d @ [n]) q \<longrightarrow> tree w' q = None))"
    and open_self: "\<And>r. h_open_self F d w = (r, w') \<Longrightarrow> tree w' = tree w"
    and sync_self: "\<And>r. h_sync_self F d w = (r, w') \<Longrightarrow> tree w' = tree w"
begin

text \<open>The calls as rules of the calculus.\<close>

lemma wp_open_ambient:
  "(\<And>w'. tree w' = tree w \<Longrightarrow> Q [] w') \<Longrightarrow> (\<And>k w'. tree w' = tree w \<Longrightarrow> E k w') \<Longrightarrow>
   wp (h_open_ambient F) Q E w"
  by (auto simp: wp_alt dest: open_ambient split: sum.splits)

lemma wp_try_clone:
  "(\<And>w'. tree w' = tree w \<Longrightarrow> Q d w') \<Longrightarrow> (\<And>k w'. tree w' = tree w \<Longrightarrow> E k w') \<Longrightarrow>
   wp (h_try_clone F d) Q E w"
  by (auto simp: wp_alt dest: try_clone split: sum.splits)

lemma wp_symlink_metadata:
  assumes "plain_name n"
    and "\<And>md node w'. tree w' = tree w \<Longrightarrow> tree w (d @ [n]) = Some node \<Longrightarrow> describes md node \<Longrightarrow> Q md w'"
    and "\<And>k w'. tree w' = tree w \<Longrightarrow> (k = NotFound \<Longrightarrow> \<forall>q. tree w (d @ n # q) = None) \<Longrightarrow> E k w'"
  shows "wp (h_symlink_metadata F d n) Q E w"
  by (rule wpI; drule symlink_metadata [OF _ assms(1)]; auto intro: assms(2-))

lemma wp_open_dir_nofollow:
  assumes "plain_name n"
    and "\<And>w'. tree w' = tree w \<Longrightarrow> tree w (d @ [n]) = Some DirNode \<Longrightarrow> Q (d @ [n]) w'"
    and "\<And>k w'. tree w' = tree w \<Longrightarrow> E k w'"
  shows "wp (h_open_dir_nofollow F d n) Q E w"
  by (rule wpI; drule open_dir_nofollow [OF _ assms(1)]; auto intro: assms(2-))

lemma wp_create_dir:
  assumes "plain_name n"
    and "\<And>w'. tree w (d @ [n]) = None \<Longrightarrow> tree w' = (tree w)(d @ [n] \<mapsto> DirNode) \<Longrightarrow> Q () w'"
    and "\<And>k w'. tree w' = tree w \<Longrightarrow> E k w'"
    and "\<And>k w'. tree w (d @ [n]) = None \<Longrightarrow> tree w' = (tree w)(d @ [n] \<mapsto> DirNode) \<Longrightarrow> E k w'"
  shows "wp (h_create_dir F d n) Q E w"
  by (rule wpI; drule create_dir [OF _ assms(1)]; auto intro: assms(2-))

lemma wp_read:
  assumes "plain_path p"
    and "\<And>bs w'. tree w' = tree w \<Longrightarrow>
      (\<And>b m. tree w (d @ split_on 47 p) = Some (FileNode b m) \<Longrightarrow> bs = b) \<Longrightarrow> Q bs w'"
    and "\<And>k w'. tree w' = tree w \<Longrightarrow> E k w'"
  shows "wp (h_read F d p) Q E w"
  by (rule wpI; drule read [OF _ assms(1)]; auto intro: assms(2-))

lemma wp_remove_file:
  assumes "plain_name n"
    and "\<And>w'. tree w (d @ [n]) \<noteq> Some DirNode \<Longrightarrow> tree w' = (tree w)(d @ [n] := None) \<Longrightarrow> Q () w'"
    and "\<And>k w'. tree w' = tree w \<Longrightarrow> E k w'"
    and "\<And>k w'. tree w (d @ [n]) \<noteq> Some DirNode \<Longrightarrow> tree w' = (tree w)(d @ [n] := None) \<Longrightarrow> E k w'"
  shows "wp (h_remove_file F d n) Q E w"
  by (rule wpI; drule remove_file [OF _ assms(1)]; auto intro: assms(2-))

lemma wp_rename:
  assumes "plain_name a" "plain_name b" "a \<noteq> b" and "tree w (d @ [a]) = Some (FileNode bs m)"
    and "\<And>w'. tree w' = (tree w)(d @ [a] := None, d @ [b] \<mapsto> FileNode bs m) \<Longrightarrow> Q () w'"
    and "\<And>k w'. tree w' = tree w \<Longrightarrow> E k w'"
    and "\<And>k w'. tree w' = (tree w)(d @ [a] := None, d @ [b] \<mapsto> FileNode bs m) \<Longrightarrow> E k w'"
  shows "wp (h_rename F d a b) Q E w"
  by (rule wpI; drule rename [OF _ assms(1-4)]; auto intro: assms(5-))

lemma wp_quiet:
  "(\<And>x w'. tree w' = tree w \<Longrightarrow> Q x w') \<Longrightarrow> (\<And>k w'. tree w' = tree w \<Longrightarrow> E k w') \<Longrightarrow>
   wp (h_open_self F d) Q E w"
  "(\<And>x w'. tree w' = tree w \<Longrightarrow> Q' x w') \<Longrightarrow> (\<And>k w'. tree w' = tree w \<Longrightarrow> E k w') \<Longrightarrow>
   wp (h_sync_self F d) Q' E w"
  "(\<And>x w'. tree w' = tree w \<Longrightarrow> Q' x w') \<Longrightarrow> (\<And>k w'. tree w' = tree w \<Longrightarrow> E k w') \<Longrightarrow>
   wp (h_sync_all F d) Q' E w"
  by (auto simp: wp_alt dest: open_self sync_self sync_all split: sum.splits)

lemma wp_sync_directory:
  assumes "\<And>w'. tree w' = tree w \<Longrightarrow> Q () w'" and "\<And>e w'. tree w' = tree w \<Longrightarrow> E e w'"
  shows "wp (sync_directory F d) Q E w"
  unfolding sync_directory_def wp_simps
  by (intro wp_quiet) (simp_all add: assms)

text \<open>Reading never changes the tree; writing a file starts from nothing.\<close>

lemma wp_write_new_file:
  assumes "plain_path rp"
    and "\<And>w'. tree w (d @ split_on 47 rp) = None \<Longrightarrow>
      tree w' = (tree w)(d @ split_on 47 rp \<mapsto> FileNode bs (mode_of exec)) \<Longrightarrow> Q () w'"
    and "\<And>e w'. tree w' = tree w \<Longrightarrow> E e w'"
    and "\<And>e w' v. tree w (d @ split_on 47 rp) = None \<Longrightarrow>
      tree w' = (tree w)(d @ split_on 47 rp := v) \<Longrightarrow> E e w'"
  shows "wp (write_new_file F d rp bs exec) Q E w"
proof -
  let ?p = "d @ split_on 47 rp"
  have mode: "wp (set_executable F ?p exec)
      (\<lambda>_. wp (h_sync_all F ?p) Q (\<lambda>e. E (ApplyIo e))) E w2"
    if "tree w ?p = None" "tree w2 = (tree w)(?p \<mapsto> FileNode bs m)" for w2 m
    unfolding set_executable_def wp_simps
  proof (rule wpI)
    fix u w3 assume h: "h_set_mode F ?p (if exec then 493 else 420) w2 = (Inr u, w3)"
    from set_mode [OF h, of bs m] that have "tree w3 = (tree w)(?p \<mapsto> FileNode bs (mode_of exec))"
      by (auto simp: mode_of_def)
    with that show "wp (h_sync_all F ?p) Q (\<lambda>e. E (ApplyIo e)) w3"
      by (intro wp_quiet(3)) (auto intro: assms(2,4))
  next
    fix e w3 assume h: "h_set_mode F ?p (if exec then 493 else 420) w2 = (Inl e, w3)"
    from set_mode [OF h, of bs m] that show "E (ApplyIo e) w3" by (auto intro: assms(4))
  qed
  have body: "wp (h_write_all F ?p bs) (\<lambda>_. wp (set_executable F ?p exec)
      (\<lambda>_. wp (h_sync_all F ?p) Q (\<lambda>e. E (ApplyIo e))) E) (\<lambda>e. E (ApplyIo e)) w1"
    if "tree w ?p = None" "tree w1 = (tree w)(?p \<mapsto> FileNode [] m)" for w1 m
  proof (rule wpI)
    fix u w2 assume h: "h_write_all F ?p bs w1 = (Inr u, w2)"
    from write_all [OF h, of m] that have "tree w2 = (tree w)(?p \<mapsto> FileNode bs m)" by auto
    with that show "wp (set_executable F ?p exec) (\<lambda>_. wp (h_sync_all F ?p) Q (\<lambda>e. E (ApplyIo e))) E w2"
      by (intro mode)
  next
    fix e w2 assume h: "h_write_all F ?p bs w1 = (Inl e, w2)"
    from write_all [OF h, of m] that show "E (ApplyIo e) w2" by (auto intro: assms(4))
  qed
  show ?thesis
    unfolding write_new_file_def wp_simps
    by (rule wpI; drule create_new [OF _ assms(1)])
      (use body in \<open>auto simp: wp_simps intro: assms(3,4)\<close>)
qed

lemma wp_verify_file:
  assumes "plain_path rp" and "\<And>w'. tree w' = tree w \<Longrightarrow> Q () w'" and "\<And>e w'. tree w' = tree w \<Longrightarrow> E e w'"
  shows "wp (verify_file F d rp expected) Q E w"
  unfolding verify_file_def wp_simps
  by (rule wp_read) (simp_all add: assms wp_simps)

lemma wp_open_parent_walk:
  assumes "list_all plain_name cs"
  shows "wp (open_parent_walk F False cs current acc)
    (\<lambda>r s'. tree (fst s') = tree (fst s) \<and>
      (case r of Some d \<Rightarrow> d = current @ cs | None \<Rightarrow> \<forall>q. tree (fst s) (current @ cs @ q) = None))
    (\<lambda>_ s'. tree (fst s') = tree (fst s)) s"
  using assms
proof (induction cs arbitrary: current acc s)
  case (Cons c cs)
  then have c: "plain_name c" and cs: "list_all plain_name cs" by simp_all
  show ?case
    unfolding open_parent_walk.simps Let_def wp_simps
    apply (rule wp_symlink_metadata [OF c])
     apply (auto simp: wp_simps)
    apply (rule wp_open_dir_nofollow [OF c])
     apply (rule wp_mono [OF Cons.IH [OF cs]])
      apply (auto simp: wp_simps split: option.splits)
    done
qed (simp add: wp_simps)

lemma wp_open_parent_walk_create:
  assumes "list_all plain_name cs"
  shows "wp (open_parent_walk F True cs current acc)
    (\<lambda>r s'. made_dirs {p. prefix p (current @ cs)} (tree (fst s)) (tree (fst s')) \<and> r = Some (current @ cs))
    (\<lambda>_ s'. made_dirs {p. prefix p (current @ cs)} (tree (fst s)) (tree (fst s'))) s"
  using assms
proof (induction cs arbitrary: current acc s)
  case (Cons c cs)
  then have c: "plain_name c" and cs: "list_all plain_name cs" by simp_all
  let ?S = "{p. prefix p (current @ c # cs)}"
  have made: "made_dirs ?S t (t(current @ [c] \<mapsto> DirNode))" if "t (current @ [c]) = None" for t
    by (rule made_dirs_upd) (use that in \<open>simp_all add: prefix_def\<close>)
  have proceed: "wp (h_open_dir_nofollow F current c)
      (\<lambda>d w'. wp (open_parent_walk F True cs d (push_component acc c))
        (\<lambda>r s'. made_dirs ?S t (tree (fst s')) \<and> r = Some (current @ c # cs))
        (\<lambda>_ s'. made_dirs ?S t (tree (fst s'))) (w', v))
      (\<lambda>_ w'. made_dirs ?S t (tree w')) w1"
    if "made_dirs ?S t (tree w1)" for t w1 v
    apply (rule wp_open_dir_nofollow [OF c])
     apply (rule wp_mono [OF Cons.IH [OF cs]])
      apply (use that in \<open>auto intro: made_dirs_trans\<close>)
    done
  show ?case
    unfolding open_parent_walk.simps Let_def wp_simps
    by (rule wp_symlink_metadata [OF c])
      (auto simp: wp_simps made intro!: wp_create_dir [OF c] wp_sync_directory proceed)
qed (simp add: wp_simps)

lemma plain_components:
  assumes "plain_path p"
  shows "list_all plain_name (butlast (split_on 47 p))" "plain_name (last (split_on 47 p))"
  using plain_path_names [OF assms] by (auto simp: list_all_iff dest: in_set_butlastD)

lemma wp_open_parent:
  assumes "plain_path (as_str p)"
    and "\<And>s'. tree (fst s') = tree (fst s) \<Longrightarrow>
      Q (Some (butlast (split_on 47 (as_str p)), last (split_on 47 (as_str p)))) s'"
    and "\<And>s'. tree (fst s') = tree (fst s) \<Longrightarrow> tree (fst s) (split_on 47 (as_str p)) = None \<Longrightarrow> Q None s'"
    and "\<And>e s'. tree (fst s') = tree (fst s) \<Longrightarrow> E e s'"
  shows "wp (open_parent F [] p False) Q E s"
proof -
  let ?cs = "split_on 47 (as_str p)"
  have none: "tree w ?cs = None" if "\<forall>q. tree w (butlast ?cs @ q) = None" for w
    using that [rule_format, of "[last ?cs]"] by simp
  show ?thesis
    unfolding open_parent_def Let_def wp_simps
    apply (rule wp_try_clone)
     apply (rule wp_mono [OF wp_open_parent_walk [OF plain_components(1) [OF assms(1)]]])
      apply (auto simp: none intro: assms split: option.splits)
    done
qed

lemma wp_open_parent_create:
  assumes "plain_path (as_str p)"
  shows "wp (open_parent F [] p True)
    (\<lambda>r s'. made_dirs {q. strict_prefix q (split_on 47 (as_str p))} (tree (fst s)) (tree (fst s')) \<and>
      r = Some (butlast (split_on 47 (as_str p)), last (split_on 47 (as_str p))))
    (\<lambda>_ s'. made_dirs {q. strict_prefix q (split_on 47 (as_str p))} (tree (fst s)) (tree (fst s'))) s"
proof -
  let ?cs = "split_on 47 (as_str p)"
  have "{q. prefix q (butlast ?cs)} \<subseteq> {q. strict_prefix q ?cs}"
    by (auto intro: prefix_butlast_strict)
  note mono = made_dirs_mono [OF _ this]
  show ?thesis
    unfolding open_parent_def Let_def wp_simps
    apply (rule wp_try_clone)
     apply (rule wp_mono [OF wp_open_parent_walk_create [OF plain_components(1) [OF assms(1)]]])
      apply (auto intro: mono)
    done
qed

lemma wp_read_target:
  assumes "plain_path (as_str p)"
    and "\<And>w'. tree w' = tree w \<Longrightarrow> file_or_absent (tree w (split_on 47 (as_str p))) \<Longrightarrow>
      Q (snapshot (tree w (split_on 47 (as_str p)))) w'"
    and "\<And>e w'. tree w' = tree w \<Longrightarrow> E e w'"
  shows "wp (read_target F [] p) Q E w"
proof -
  let ?cs = "split_on 47 (as_str p)"
  have cs: "butlast ?cs @ [last ?cs] = ?cs" by simp
  note n = plain_components(2) [OF assms(1)]
  show ?thesis
    unfolding read_target_def wp_simps
  proof (rule wp_open_parent [OF assms(1)], goal_cases)
    case (1 s1)
    have present: "wp (h_read F (butlast ?cs) (last ?cs))
        (\<lambda>bs. Q (Some \<lparr>ts_bytes = bs, ts_executable = is_executable md\<rparr>)) (\<lambda>e. E (ApplyIo e)) w2"
      if "describes md node" "tree w ?cs = Some node" "md_file_type md = TypeFile" "tree w2 = tree w" for md node w2
    proof (rule describes_file [OF that(1,3)])
      fix bs mode assume node: "node = FileNode bs mode" "is_executable md = mode_executable mode"
      have res: "Q (Some \<lparr>ts_bytes = bs, ts_executable = mode_executable mode\<rparr>) w'" if "tree w' = tree w" for w'
        using assms(2) [OF that] \<open>tree w ?cs = Some node\<close> node by (simp add: file_or_absent_def snapshot_def)
      show ?thesis
        by (rule wp_read) (use that node res plain_name_path [OF n] in \<open>auto simp: cs intro: assms(3)\<close>)
    qed
    have absent: "Q None w'" if "tree w' = tree w" "tree w ?cs = None" for w'
      using assms(2) [OF that(1)] that by (simp add: file_or_absent_def snapshot_def)
    from 1 show ?case
      apply (simp add: wp_simps)
      apply (rule wp_symlink_metadata [OF n])
       apply (auto simp: cs wp_simps intro!: assms(3) present)
      using absent cs apply (auto dest: spec [of _ "[]"])
      done
  next
    case (2 s')
    with assms(2) [of "fst s'"] show ?case by (simp add: wp_simps file_or_absent_def snapshot_def)
  qed (auto intro: assms(3))
qed

lemma wp_directory_exists_walk:
  assumes "list_all plain_name cs"
  shows "wp (directory_exists_walk F cs current) (\<lambda>_ w'. tree w' = tree w) (\<lambda>_ w'. tree w' = tree w) w"
  using assms
proof (induction cs arbitrary: current w)
  case (Cons c cs)
  then have c: "plain_name c" and cs: "list_all plain_name cs" by simp_all
  have ih: "wp (directory_exists_walk F cs d) (\<lambda>_ w'. tree w' = t) (\<lambda>_ w'. tree w' = t) w1"
    if "tree w1 = t" for d w1 t
    using Cons.IH [OF cs, of d w1] that by simp
  show ?case
    unfolding directory_exists_walk.simps wp_simps
    by (rule wp_symlink_metadata [OF c]) (auto simp: wp_simps intro!: wp_open_dir_nofollow [OF c] ih)
qed (simp add: wp_simps)

lemma wp_directory_exists:
  assumes "plain_path (as_str p)"
    and "\<And>r w'. tree w' = tree w \<Longrightarrow> Q r w'" and "\<And>e w'. tree w' = tree w \<Longrightarrow> E e w'"
  shows "wp (directory_exists F [] p) Q E w"
  unfolding directory_exists_def wp_simps
  apply (rule wp_try_clone)
   apply (rule wp_mono [OF wp_directory_exists_walk [OF plain_path_names [OF assms(1)]]])
    apply (simp_all add: assms)
  done

lemma wp_ensure_directory_walk:
  assumes "list_all plain_name cs"
  shows "wp (ensure_directory_walk F cs current acc)
    (\<lambda>_ s'. made_dirs {p. prefix p (current @ cs)} (tree (fst s)) (tree (fst s')) \<and>
      (cs \<noteq> [] \<longrightarrow> tree (fst s') (current @ cs) = Some DirNode))
    (\<lambda>_ s'. made_dirs {p. prefix p (current @ cs)} (tree (fst s)) (tree (fst s'))) s"
  using assms
proof (induction cs arbitrary: current acc s)
  case (Cons c cs)
  then have c: "plain_name c" and cs: "list_all plain_name cs" by simp_all
  let ?S = "{p. prefix p (current @ c # cs)}"
  have made: "made_dirs ?S t (t(current @ [c] \<mapsto> DirNode))" if "t (current @ [c]) = None" for t
    by (rule made_dirs_upd) (use that in \<open>simp_all add: prefix_def\<close>)
  have stays: "t' p = Some DirNode" if "made_dirs S t t'" "t p = Some DirNode" for S t t' p
    using that unfolding made_dirs_def by metis
  have proceed: "wp (h_open_dir_nofollow F current c)
      (\<lambda>d w'. wp (ensure_directory_walk F cs d (push_component acc c))
        (\<lambda>_ s'. made_dirs ?S t (tree (fst s')) \<and> tree (fst s') (current @ c # cs) = Some DirNode)
        (\<lambda>_ s'. made_dirs ?S t (tree (fst s'))) (w', v))
      (\<lambda>_ w'. made_dirs ?S t (tree w')) w1"
    if "made_dirs ?S t (tree w1)" for t w1 v
    apply (rule wp_open_dir_nofollow [OF c])
     apply (rule wp_mono [OF Cons.IH [OF cs]])
    subgoal for w2 x s' using that stays by (cases cs) (auto intro: made_dirs_trans)
     apply (use that in \<open>auto intro: made_dirs_trans\<close>)
    done
  show ?case
    unfolding ensure_directory_walk.simps Let_def wp_simps
    by (rule wp_symlink_metadata [OF c])
      (auto simp: wp_simps made intro!: wp_create_dir [OF c] wp_sync_directory proceed)
qed (simp add: wp_simps)

lemma wp_ensure_directory:
  assumes "plain_path (as_str p)"
  shows "wp (ensure_directory F [] p)
    (\<lambda>_ s'. made_dirs {q. prefix q (split_on 47 (as_str p))} (tree (fst s)) (tree (fst s')) \<and>
      tree (fst s') (split_on 47 (as_str p)) = Some DirNode)
    (\<lambda>_ s'. made_dirs {q. prefix q (split_on 47 (as_str p))} (tree (fst s)) (tree (fst s'))) s"
  unfolding ensure_directory_def wp_simps
  apply (rule wp_try_clone)
   apply (rule wp_mono [OF wp_ensure_directory_walk [OF plain_path_names [OF assms]]])
    apply auto
  done

lemma wp_remove_target:
  assumes "plain_path (as_str p)" and "file_or_absent (tree w (split_on 47 (as_str p)))"
    and "\<And>w'. tree w' = (tree w)(split_on 47 (as_str p) := None) \<Longrightarrow> Q () w'"
    and "\<And>e w'. tree w' = tree w \<Longrightarrow> E e w'"
    and "\<And>e w'. tree w' = (tree w)(split_on 47 (as_str p) := None) \<Longrightarrow> E e w'"
  shows "wp (remove_target F [] p) Q E w"
proof -
  let ?cs = "split_on 47 (as_str p)"
  have cs: "butlast ?cs @ [last ?cs] = ?cs" by simp
  note n = plain_components(2) [OF assms(1)]
  have absent: "Q () w'" if "tree w' = tree w" "tree w ?cs = None" for w'
    using that by (auto intro!: assms(3))
  have failed: "E e w'" if "tree w' = tree w \<or> tree w' = (tree w)(?cs := None)" for e w'
    using that by (auto intro: assms(4,5))
  show ?thesis
    unfolding remove_target_def wp_simps
  proof (rule wp_open_parent [OF assms(1)], goal_cases)
    case (1 s1)
    then show ?case
      apply (simp add: wp_simps)
      apply (rule wp_symlink_metadata [OF n])
       apply (auto simp: cs wp_simps intro!: failed assms(3) wp_remove_file [OF n] wp_sync_directory)
      apply (drule spec [of _ "[]"], simp add: cs fun_eq_iff)
      done
  qed (auto simp: wp_simps intro: absent assms(4))
qed

lemma wp_atomic_replace:
  assumes p: "plain_path (as_str p)" and tmp: "plain_name tmp" "tmp \<noteq> last (split_on 47 (as_str p))"
  defines "cs \<equiv> split_on 47 (as_str p)"
  shows "wp (atomic_replace F [] p bs exec tmp)
    (\<lambda>_ s'. replaced cs tmp bs exec (tree (fst s)) (tree (fst s')) \<and>
       tree (fst s') cs = Some (FileNode bs (mode_of exec)) \<and>
       tree (fst s) (butlast cs @ [tmp]) = None \<and> tree (fst s') (butlast cs @ [tmp]) = None)
    (\<lambda>_ s'. replaced cs tmp bs exec (tree (fst s)) (tree (fst s'))) s"
proof -
  have cs: "butlast cs @ [last cs] = cs" and ne: "tmp \<noteq> last cs" "cs \<noteq> []"
    using tmp(2) by (simp_all add: cs_def)
  have n: "plain_name (last cs)" using plain_components(2) [OF p] by (simp add: cs_def)
  note tp = plain_name_path [OF tmp(1)]
  have body: "wp (write_new_file F (butlast cs) tmp bs exec)
      (\<lambda>_. wp (h_rename F (butlast cs) tmp (last cs))
        (\<lambda>_. wp (sync_directory F (butlast cs))
          (\<lambda>_ w'. replaced cs tmp bs exec t (tree w') \<and> tree w' cs = Some (FileNode bs (mode_of exec)) \<and>
             t (butlast cs @ [tmp]) = None \<and> tree w' (butlast cs @ [tmp]) = None)
          (\<lambda>_ w'. replaced cs tmp bs exec t (tree w')))
        (\<lambda>_ w'. replaced cs tmp bs exec t (tree w')))
      (\<lambda>_ w'. replaced cs tmp bs exec t (tree w')) w1"
    if made: "made_dirs {q. strict_prefix q cs} t (tree w1)" for t w1
  proof (rule wp_write_new_file, goal_cases)
    case (2 w2)
    note steps = replaced_steps [OF made ne]
    from 2 tp steps(4) have at: "tree w2 (butlast cs @ [tmp]) = Some (FileNode bs (mode_of exec))"
      and none: "t (butlast cs @ [tmp]) = None" by simp_all
    from ne cs have diff: "butlast cs @ [tmp] \<noteq> cs" by (metis last_snoc)
    show ?case
      by (rule wp_rename [OF tmp(1) n ne(1) at])
        (use 2 tp diff none in \<open>auto simp: cs intro!: wp_sync_directory steps\<close>)
  qed (use tp replaced_steps [OF made ne] in auto)
  show ?thesis
    unfolding atomic_replace_def wp_simps
    apply (rule wp_mono [OF wp_open_parent_create [OF p]])
    subgoal for r s1
      unfolding cs_def [symmetric]
      apply (clarsimp simp: wp_simps)
      apply (rule wp_symlink_metadata [OF n])
       apply (auto simp: wp_simps replaced_steps(1) [OF _ ne] intro!: wp_symlink_metadata [OF tmp(1)] body)
      done
    subgoal for e s1 using replaced_steps(1) [OF _ ne] by (simp add: cs_def)
    done
qed

lemma wp_persist_journal:
  "wp (persist_journal F d j)
    (\<lambda>_ w'. journaled d (h_to_vec F j) (tree w) (tree w'))
    (\<lambda>_ w'. journaled d (h_to_vec F j) (tree w) (tree w')) w"
proof -
  let ?tmp = "d @ [JOURNAL_TEMP_FILE]"
  note tp = plain_name_path [OF journal_names(2)]
  have body: "wp (write_new_file F d JOURNAL_TEMP_FILE bs False)
      (\<lambda>_. wp (h_rename F d JOURNAL_TEMP_FILE JOURNAL_FILE)
        (\<lambda>_. wp (sync_directory F d) (\<lambda>_ w'. journaled d (Some bs) t (tree w'))
          (\<lambda>_ w'. journaled d (Some bs) t (tree w')))
        (\<lambda>_ w'. journaled d (Some bs) t (tree w')))
      (\<lambda>_ w'. journaled d (Some bs) t (tree w')) w1"
    if t1: "tree w1 = t \<or> tree w1 = t(?tmp := v)" for t v w1 bs
  proof (rule wp_write_new_file, goal_cases)
    case (2 w2)
    then have at: "tree w2 ?tmp = Some (FileNode bs (mode_of False))" by (simp add: tp)
    show ?case
      by (rule wp_rename [OF journal_names(2,1,7) at])
        (use 2 tp journaled_steps [OF t1] in \<open>auto intro!: wp_sync_directory\<close>)
  qed (use tp journaled_steps [OF t1] in auto)
  show ?thesis
    unfolding persist_journal_def wp_simps
    by (auto simp: wp_simps journaled_temp split: option.splits sum.splits
        intro!: wp_symlink_metadata [OF journal_names(2)] wp_remove_file [OF journal_names(2)] body)
qed

lemma wp_load_journal:
  assumes "\<And>w' j bs m. tree w' = tree w \<Longrightarrow> validate_journal F j = Inr () \<Longrightarrow>
      tree w (d @ [JOURNAL_FILE]) = Some (FileNode bs m) \<Longrightarrow> h_from_slice F bs = Some j \<Longrightarrow> Q j w'"
    and "\<And>e w'. tree w' = tree w \<Longrightarrow> E e w'"
  shows "wp (load_journal F d) Q E w"
  unfolding load_journal_def wp_simps
  apply (rule wp_symlink_metadata [OF journal_names(1)])
   apply (auto simp: wp_simps intro!: assms(2))
  apply (erule describes_file, assumption)
  apply (rule wp_read)
    apply (auto simp: plain_name_path [OF journal_names(1)] intro: assms split: sum.splits option.splits)
  done

lemma wp_remove_dirs:
  "wp (io_for_each (\<lambda>x. io_bind (io_attempt (h_remove_dir F root (f x))) (\<lambda>_. io_return ())) xs)
    (\<lambda>_ w'. dirs_removed (tree w) (tree w')) (\<lambda>_ _. False) w"
proof (rule wp_for_each [where I = "\<lambda>_ w'. dirs_removed (tree w) (tree w')"], goal_cases)
  case (1 ys x zs w1)
  have "dirs_removed (tree w1) (tree w2)" if "h_remove_dir F root (f x) w1 = (r, w2)" for r w2
    using remove_dir [OF that] by (simp add: dirs_removed_def)
  with 1 show ?case
    unfolding wp_simps by (intro wpI) (auto intro: dirs_removed_trans)
qed simp_all

lemma wp_remove_directories:
  "wp (remove_directories F root)
    (\<lambda>_ s'. dirs_removed (tree (fst s)) (tree (fst s')) \<and> snd s' = snd s) (\<lambda>_ _. False) s"
  unfolding remove_directories_def remove_created_directories_def remove_required_directories_def wp_simps
  apply (rule wp_mono [OF wp_remove_dirs])
   apply (rule wp_mono [OF wp_remove_dirs])
    apply (auto intro: dirs_removed_trans)
  done

text \<open>The control directory.\<close>

lemma wp_open_or_create:
  assumes n: "plain_name n"
  shows "wp (open_or_create_directory F d n create)
    (\<lambda>r w'. made_dirs (if create then {d @ [n]} else {}) (tree w) (tree w') \<and>
       (case r of Some d' \<Rightarrow> d' = d @ [n] | None \<Rightarrow> \<not> create \<and> tree w (d @ [n]) = None))
    (\<lambda>_ w'. made_dirs (if create then {d @ [n]} else {}) (tree w) (tree w')) w"
  unfolding open_or_create_directory_def wp_simps
  by (rule wp_symlink_metadata [OF n])
    (auto simp: wp_simps made_dirs_upd intro!: wp_create_dir [OF n] wp_open_dir_nofollow [OF n]
      dest: spec [of _ "[]"])

end

end
