(* ===== verification/Apply_Correct.thy ===== *)
theory Apply_Correct
  imports Apply_Files
begin

text \<open>
  What a transaction does to its targets, whichever calls of the host fail: at every exit of \<open>apply\<close>,
  \<open>resume\<close> and \<open>rollback\<close> a prefix of the targets is new and the rest is original, where new and original
  are what the journal's digests and executable bits say.
\<close>

section \<open>Targets, plans and exposure\<close>

definition target_path :: "journal_operation \<Rightarrow> fpath" where
  "target_path oper = split_on 47 (jo_target oper)"

definition holds_new :: "blake3 \<Rightarrow> fs_tree \<Rightarrow> journal_operation \<Rightarrow> bool" where
  "holds_new H t oper \<longleftrightarrow> is_new H oper (snapshot (t (target_path oper)))"

definition holds_original :: "blake3 \<Rightarrow> fs_tree \<Rightarrow> journal_operation \<Rightarrow> bool" where
  "holds_original H t oper \<longleftrightarrow>
     file_or_absent (t (target_path oper)) \<and> is_original H oper (snapshot (t (target_path oper)))"

text \<open>The first \<open>k\<close> targets are new, the others original.\<close>

definition exposed :: "blake3 \<Rightarrow> journal_operation list \<Rightarrow> fs_tree \<Rightarrow> nat \<Rightarrow> bool" where
  "exposed H ops t k \<longleftrightarrow> k \<le> length ops \<and>
     (\<forall>i<length ops. if i < k then holds_new H t (ops ! i) else holds_original H t (ops ! i))"

text \<open>The engine's own files: the control directory and the temporaries beside targets.\<close>

definition engine_path :: "fpath \<Rightarrow> bool" where
  "engine_path q \<longleftrightarrow> prefix [CONTROL_DIR] q \<or> q \<noteq> [] \<and> prefix (ascii ''.rebyte-'') (last q)"

text \<open>Everything else keeps its node; only directories may come and go.\<close>

definition kept :: "journal_operation list \<Rightarrow> fs_tree \<Rightarrow> fs_tree \<Rightarrow> bool" where
  "kept ops t0 t \<longleftrightarrow> (\<forall>q. q \<notin> target_path ` set ops \<and> \<not> engine_path q \<longrightarrow>
     t q = t0 q \<or> (t0 q \<in> {None, Some DirNode} \<and> t q \<in> {None, Some DirNode}))"

text \<open>
  No target is another target or lies above another target or a required directory, and none has
  the name of a temporary.
\<close>

definition apart :: "fpath list \<Rightarrow> fpath list \<Rightarrow> bool" where
  "apart targets dirs \<longleftrightarrow>
     sorted_wrt (\<lambda>p q. \<not> prefix p q \<and> \<not> prefix q p) targets \<and>
     list_all (\<lambda>p. list_all (\<lambda>d. \<not> prefix p d) dirs \<and> \<not> prefix (ascii ''.rebyte-'') (last p)) targets"

definition planned :: "journal \<Rightarrow> bool" where
  "planned j \<longleftrightarrow>
     list_all (\<lambda>x. is_ok (validate_operation x)) (enumerate 0 (jn_operations j)) \<and>
     list_all (\<lambda>d. is_ok (parse_path (jd_path d))) (jn_required_directories j) \<and>
     apart (map target_path (jn_operations j)) (map (\<lambda>d. split_on 47 (jd_path d)) (jn_required_directories j)) \<and>
     plain_name (jn_id j)"

definition same_plan :: "journal \<Rightarrow> journal \<Rightarrow> bool" where
  "same_plan j j' \<longleftrightarrow> jn_operations j' = jn_operations j \<and>
     jn_required_directories j' = jn_required_directories j \<and> jn_id j' = jn_id j"

section \<open>Names\<close>

lemma decimal_digits: "47 \<notin> set (decimal n)"
proof (induction n rule: decimal.induct)
  case (1 n)
  have digit: "of_nat (48 + k) \<noteq> (47 :: u8)" if "k < 10" for k
  proof -
    have "unat (of_nat (48 + k) :: u8) = 48 + k"
      using that by (simp add: unat_of_nat del: of_nat_add of_nat_numeral)
    moreover have "unat (47 :: u8) = 47" "(48 :: nat) + k \<noteq> 47" by simp_all
    ultimately show ?thesis by (intro notI) (simp del: of_nat_add of_nat_numeral)
  qed
  show ?case
    using 1 digit [of n] digit [of "n mod 10"] by (subst decimal.simps) auto
qed

lemma index08_digits: "47 \<notin> set (index08 n)" "8 \<le> length (index08 n)"
  by (simp_all add: index08_def decimal_digits)

lemma split_on_append: "d \<notin> set a \<Longrightarrow> split_on d (a @ d # b) = a # split_on d b"
  by (induction a) auto

lemma ordinary_long: "2 < length n \<Longrightarrow> ordinary_component n"
  by (auto simp: ordinary_component_def ascii_def)

lemma bin_name_plain:
  assumes "47 \<notin> set a" "2 < length a"
  shows "plain_path (a @ 47 # index08 i @ ascii ''.bin'')"
proof -
  have "47 \<notin> set (ascii ''.bin'')" by code_simp
  then have "split_on 47 (index08 i @ ascii ''.bin'') = [index08 i @ ascii ''.bin'']"
    by (simp add: split_on_single index08_digits)
  moreover have "2 < length (index08 i @ ascii ''.bin'')" using index08_digits(2) [of i] by simp
  ultimately show ?thesis
    using assms by (simp add: plain_path_def split_on_append ordinary_long)
qed

lemma staged_backup_plain: "plain_path (staged_name i)" "plain_path (backup_name i)"
proof -
  have "ascii ''staged/'' = ascii ''staged'' @ [47]" "ascii ''backups/'' = ascii ''backups'' @ [47]"
    "47 \<notin> set (ascii ''staged'')" "47 \<notin> set (ascii ''backups'')"
    "length (ascii ''staged'') = 6" "length (ascii ''backups'') = 7" by code_simp+
  then show "plain_path (staged_name i)" "plain_path (backup_name i)"
    unfolding staged_name_def backup_name_def
    using bin_name_plain [of "ascii ''staged''" i] bin_name_plain [of "ascii ''backups''" i] by simp_all
qed

lemma temporaries:
  assumes "plain_name i"
  shows "plain_name (commit_temporary i k)" "plain_name (rollback_temporary i k)"
    "prefix (ascii ''.rebyte-'') (commit_temporary i k)" "prefix (ascii ''.rebyte-'') (rollback_temporary i k)"
proof -
  have "47 \<notin> set (ascii ''.rebyte-'')" "47 \<notin> set (ascii ''-'')" "47 \<notin> set (ascii ''-rollback-'')"
    "47 \<notin> set (ascii ''.tmp'')" by code_simp+
  moreover have "2 < length (ascii ''.rebyte-'' @ r)" for r by (simp add: ascii_def)
  ultimately show "plain_name (commit_temporary i k)" "plain_name (rollback_temporary i k)"
    using assms by (auto simp: plain_name_def commit_temporary_def rollback_temporary_def index08_digits ordinary_long)
qed (simp_all add: commit_temporary_def rollback_temporary_def)

lemma parse_path_plain:
  assumes "parse_path s = Inr p"
  shows "as_str p = s" "plain_path s" "hd (split_on 47 s) \<noteq> CONTROL_DIR" "plain_path (as_str p)"
proof -
  from assms have v: "path_validate s (max_path_bytes limits_V1) = Inr ()" and p: "p = RelativeArtifactPath s"
    by (auto simp: parse_path_def path_new_def path_with_max_bytes_def and_then_eq_Inr)
  have "eq_ignore_ascii_case CONTROL_DIR (ascii ''.rebyte'')" by code_simp
  with path_validate_first [OF v] show "hd (split_on 47 s) \<noteq> CONTROL_DIR"
    by (auto simp: validate_component_def split: if_splits)
  from p show "as_str p = s" by simp
  from path_validate_components [OF v] p show "plain_path s" "plain_path (as_str p)"
    by (simp_all add: plain_path_def)
qed

section \<open>Facts of a plan\<close>

lemma apart_nth:
  assumes "apart ts ds" "i < length ts" "k < length ts" "i \<noteq> k"
  shows "\<not> prefix (ts ! i) (ts ! k)"
  using assms sorted_wrt_nth_less [of "\<lambda>p q. \<not> prefix p q \<and> \<not> prefix q p" ts]
  unfolding apart_def by (cases i k rule: linorder_cases) auto

lemma planned_operation:
  assumes "planned j" "i < length (jn_operations j)"
  defines "oper \<equiv> jn_operations j ! i"
  shows "\<exists>p. parse_path (jo_target oper) = Inr p" "jo_staged oper = staged_name i"
    "jo_backup oper = None \<longleftrightarrow> jo_original_digest oper = None"
    "jo_backup oper = Some b \<Longrightarrow> b = backup_name i"
    "\<not> prefix (ascii ''.rebyte-'') (last (target_path oper))"
    "\<not> prefix [CONTROL_DIR] (target_path oper)"
    "k < length (jn_operations j) \<Longrightarrow> k \<noteq> i \<Longrightarrow> \<not> prefix (target_path (jn_operations j ! k)) (target_path oper)"
    "d \<in> set (jn_required_directories j) \<Longrightarrow> \<not> prefix (target_path oper) (split_on 47 (jd_path d))"
proof -
  have "(i, oper) \<in> set (enumerate 0 (jn_operations j))"
    using assms(2) by (auto simp: oper_def in_set_enumerate_eq)
  with assms(1) have ok: "is_ok (validate_operation (i, oper))"
    unfolding planned_def list_all_iff by blast
  then show path: "\<exists>p. parse_path (jo_target oper) = Inr p" and "jo_staged oper = staged_name i"
    and "jo_backup oper = None \<longleftrightarrow> jo_original_digest oper = None"
    and "jo_backup oper = Some b \<Longrightarrow> b = backup_name i"
    by (auto simp: validate_operation_def is_ok_iff and_then_eq_Inr split: if_splits)
  from path obtain p where "parse_path (jo_target oper) = Inr p" by blast
  from parse_path_plain(3) [OF this] show "\<not> prefix [CONTROL_DIR] (target_path oper)"
    by (cases "target_path oper") (auto simp: target_path_def)
  have "target_path oper \<in> set (map target_path (jn_operations j))" using assms(2) by (simp add: oper_def)
  with assms(1) show "\<not> prefix (ascii ''.rebyte-'') (last (target_path oper))"
    and "d \<in> set (jn_required_directories j) \<Longrightarrow> \<not> prefix (target_path oper) (split_on 47 (jd_path d))"
    unfolding planned_def apart_def list_all_iff by auto
  show "k < length (jn_operations j) \<Longrightarrow> k \<noteq> i \<Longrightarrow> \<not> prefix (target_path (jn_operations j ! k)) (target_path oper)"
    using apart_nth [of "map target_path (jn_operations j)" _ k i] assms(1,2)
    unfolding planned_def oper_def by auto
qed

lemma same_plan_refl [simp]: "same_plan j j"
  by (simp add: same_plan_def)

lemma same_plan_updates [simp]:
  "same_plan j (j'\<lparr>jn_committed := c\<rparr>) \<longleftrightarrow> same_plan j j'"
  "same_plan j (j'\<lparr>jn_state := st\<rparr>) \<longleftrightarrow> same_plan j j'"
  "same_plan j (j'\<lparr>jn_created_directories := ds\<rparr>) \<longleftrightarrow> same_plan j j'"
  by (simp_all add: same_plan_def)

section \<open>Exposure under the changes of the tree\<close>

lemma similar_trans:
  "kept ops t0 t \<Longrightarrow> kept ops t t' \<Longrightarrow> kept ops t0 t'"
  unfolding kept_def by (metis (no_types, opaque_lifting))

lemma kept_refl [simp]: "kept ops t t"
  by (simp add: kept_def)

text \<open>Nothing of the plan sees a change elsewhere.\<close>

definition unseen :: "journal \<Rightarrow> fs_tree \<Rightarrow> fs_tree \<Rightarrow> bool" where
  "unseen j t t' \<longleftrightarrow> kept (jn_operations j) t t' \<and>
     (\<forall>oper\<in>set (jn_operations j). file_or_absent (t (target_path oper)) \<longrightarrow>
        t' (target_path oper) = t (target_path oper))"

lemma holds_file_or_absent: "holds_new H t oper \<or> holds_original H t oper \<Longrightarrow> file_or_absent (t (target_path oper))"
  by (auto simp: holds_new_def holds_original_def is_new_def file_or_absent_def snapshot_def
      split: option.splits fs_node.splits)

lemma exposed_file_or_absent:
  assumes "exposed H ops t k" "oper \<in> set ops" shows "file_or_absent (t (target_path oper))"
proof -
  from assms(2) obtain i where i: "i < length ops" "oper = ops ! i" by (auto simp: in_set_conv_nth)
  with assms(1) have "holds_new H t oper \<or> holds_original H t oper"
    unfolding exposed_def by metis
  then show ?thesis by (rule holds_file_or_absent)
qed

lemma holds_cong:
  assumes "t' (target_path oper) = t (target_path oper)"
  shows "holds_new H t' oper = holds_new H t oper" "holds_original H t' oper = holds_original H t oper"
  using assms by (simp_all add: holds_new_def holds_original_def)

lemma exposed_cong:
  assumes "\<And>k. k < length ops \<Longrightarrow> t' (target_path (ops ! k)) = t (target_path (ops ! k))"
  shows "exposed H ops t' i = exposed H ops t i"
proof -
  have "holds_new H t' (ops ! k) = holds_new H t (ops ! k)"
    "holds_original H t' (ops ! k) = holds_original H t (ops ! k)" if "k < length ops" for k
    by (rule holds_cong, rule assms [OF that])+
  then show ?thesis unfolding exposed_def by auto
qed

lemma exposed_unseen:
  assumes "unseen j t t'" "exposed H (jn_operations j) t k"
  shows "exposed H (jn_operations j) t' k"
proof -
  have "t' (target_path oper) = t (target_path oper)" if "oper \<in> set (jn_operations j)" for oper
    using assms exposed_file_or_absent [OF assms(2) that] that by (simp add: unseen_def)
  with assms(2) show ?thesis by (subst exposed_cong) simp_all
qed

lemma planned_target_set:
  assumes "planned j" "oper \<in> set (jn_operations j)"
  shows "\<not> prefix [CONTROL_DIR] (target_path oper)"
    "\<not> prefix (ascii ''.rebyte-'') (last (target_path oper))"
    "d \<in> set (jn_required_directories j) \<Longrightarrow> \<not> prefix (target_path oper) (split_on 47 (jd_path d))"
    "target_path oper \<noteq> []"
proof -
  from assms(2) obtain i where i: "i < length (jn_operations j)" "oper = jn_operations j ! i"
    by (auto simp: in_set_conv_nth)
  from planned_operation(5,6,8) [OF assms(1) i(1)] i(2)
  show "\<not> prefix [CONTROL_DIR] (target_path oper)" "\<not> prefix (ascii ''.rebyte-'') (last (target_path oper))"
    "d \<in> set (jn_required_directories j) \<Longrightarrow> \<not> prefix (target_path oper) (split_on 47 (jd_path d))"
    "target_path oper \<noteq> []" by (simp_all add: target_path_def)
qed

lemma unseen_control:
  assumes "planned j" "same_outside [CONTROL_DIR] t t'" shows "unseen j t t'"
  using assms planned_target_set [OF assms(1)]
  by (auto simp: unseen_def kept_def same_outside_def engine_path_def)

lemma unseen_made_dirs:
  assumes "planned j" "made_dirs {q. prefix q (split_on 47 (jd_path d))} t t'" "d \<in> set (jn_required_directories j)"
  shows "unseen j t t'"
  unfolding unseen_def
proof (intro conjI ballI impI)
  show "kept (jn_operations j) t t'"
    using assms(2) unfolding kept_def made_dirs_def by (metis insertCI)
  fix oper assume "oper \<in> set (jn_operations j)"
  from planned_target_set(3) [OF assms(1) this assms(3)] assms(2)
  show "t' (target_path oper) = t (target_path oper)" unfolding made_dirs_def by blast
qed

lemma unseen_dirs_removed:
  assumes "dirs_removed t t'" shows "unseen j t t'"
  unfolding unseen_def
proof (intro conjI ballI impI)
  show "kept (jn_operations j) t t'"
    using assms unfolding kept_def dirs_removed_def by (metis insertCI)
  fix oper assume "file_or_absent (t (target_path oper))"
  with assms show "t' (target_path oper) = t (target_path oper)"
    unfolding dirs_removed_def by (auto simp: file_or_absent_def dest: spec [of _ "target_path oper"])
qed

lemma same_outside_below: "same_outside (p @ q) t t' \<Longrightarrow> same_outside p t t'"
  unfolding same_outside_def by (meson append_prefixD)

lemma unseen_transaction:
  "planned j \<Longrightarrow> same_outside [CONTROL_DIR, TRANSACTIONS_DIR, i] t t' \<Longrightarrow> unseen j t t'"
  using unseen_control same_outside_below [of "[CONTROL_DIR]" "[TRANSACTIONS_DIR, i]"] by simp

text \<open>Replacing or removing one target.\<close>

lemma replaced_others:
  assumes "planned j" "i < length (jn_operations j)" "prefix (ascii ''.rebyte-'') tmp"
    and "replaced (target_path (jn_operations j ! i)) tmp bs exec t t'"
  shows "kept (jn_operations j) t t'"
    "k < length (jn_operations j) \<Longrightarrow> k \<noteq> i \<Longrightarrow>
       t' (target_path (jn_operations j ! k)) = t (target_path (jn_operations j ! k))"
proof -
  have tmp: "engine_path (butlast p @ [tmp])" for p using assms(3) by (simp add: engine_path_def)
  show "kept (jn_operations j) t t'"
    unfolding kept_def
  proof (intro allI impI)
    fix q assume "q \<notin> target_path ` set (jn_operations j) \<and> \<not> engine_path q"
    with assms(2) tmp have "q \<noteq> target_path (jn_operations j ! i)"
      "q \<noteq> butlast (target_path (jn_operations j ! i)) @ [tmp]" by auto
    with assms(4) show "t' q = t q \<or> t q \<in> {None, Some DirNode} \<and> t' q \<in> {None, Some DirNode}"
      unfolding replaced_def by auto
  qed
  assume k: "k < length (jn_operations j)" "k \<noteq> i"
  let ?p = "target_path (jn_operations j ! k)"
  have "\<not> prefix ?p (target_path (jn_operations j ! i))"
    using planned_operation(7) [OF assms(1,2) k] .
  then have "?p \<noteq> target_path (jn_operations j ! i)" "\<not> strict_prefix ?p (target_path (jn_operations j ! i))"
    by auto
  moreover have "?p \<noteq> butlast (target_path (jn_operations j ! i)) @ [tmp]"
    using planned_operation(5) [OF assms(1) k(1)] assms(3) by (metis last_snoc)
  ultimately show "t' ?p = t ?p" using assms(4) unfolding replaced_def by blast
qed

lemma exposed_forward:
  assumes "exposed H ops t i" "i < length ops"
    and "\<And>k. k < length ops \<Longrightarrow> k \<noteq> i \<Longrightarrow> t' (target_path (ops ! k)) = t (target_path (ops ! k))"
  shows "t' (target_path (ops ! i)) = t (target_path (ops ! i)) \<Longrightarrow> exposed H ops t' i"
    "holds_new H t' (ops ! i) \<Longrightarrow> exposed H ops t' (Suc i)"
proof -
  show "exposed H ops t' i" if "t' (target_path (ops ! i)) = t (target_path (ops ! i))"
    using assms that by (subst exposed_cong [where t = t]) metis+
  show "exposed H ops t' (Suc i)" if "holds_new H t' (ops ! i)"
  proof -
    have "if n < Suc i then holds_new H t' (ops ! n) else holds_original H t' (ops ! n)" if "n < length ops" for n
    proof (cases "n = i")
      case False
      with assms(1) that holds_cong [of t' "ops ! n" t, OF assms(3) [OF that False]]
      show ?thesis unfolding exposed_def by (auto simp: less_Suc_eq split: if_splits)
    qed (use \<open>holds_new H t' (ops ! i)\<close> in simp)
    with assms(2) show ?thesis by (simp add: exposed_def)
  qed
qed

lemma exposed_backward:
  assumes "exposed H ops t k" "k \<le> Suc i" "i < length ops"
    and "\<And>k. k < length ops \<Longrightarrow> k \<noteq> i \<Longrightarrow> t' (target_path (ops ! k)) = t (target_path (ops ! k))"
  shows "t' (target_path (ops ! i)) = t (target_path (ops ! i)) \<Longrightarrow> exposed H ops t' k"
    "holds_original H t' (ops ! i) \<Longrightarrow> exposed H ops t' (min k i)"
proof -
  show "exposed H ops t' k" if "t' (target_path (ops ! i)) = t (target_path (ops ! i))"
    using assms that by (subst exposed_cong [where t = t]) metis+
  assume orig: "holds_original H t' (ops ! i)"
  have "if n < min k i then holds_new H t' (ops ! n) else holds_original H t' (ops ! n)" if "n < length ops" for n
  proof (cases "n = i")
    case False
    with assms(1,2) that holds_cong [of t' "ops ! n" t, OF assms(4) [OF that False]]
    show ?thesis unfolding exposed_def by (auto simp: min_def split: if_splits)
  qed (use orig in simp)
  with assms(3) show "exposed H ops t' (min k i)" by (simp add: exposed_def)
qed

section \<open>The invariant of a transaction\<close>

definition tx_dir :: "bytes \<Rightarrow> fpath" where
  "tx_dir i = [CONTROL_DIR, TRANSACTIONS_DIR, i]"

definition tx_inv ::
    "blake3 \<Rightarrow> ('w \<Rightarrow> fs_tree) \<Rightarrow> journal \<Rightarrow> fs_tree \<Rightarrow> nat \<Rightarrow> 'w \<times> journal \<Rightarrow> bool" where
  "tx_inv H tree j t0 k s \<longleftrightarrow> same_plan j (snd s) \<and>
     exposed H (jn_operations j) (tree (fst s)) k \<and> kept (jn_operations j) t0 (tree (fst s))"

text \<open>Directories, and temporaries that were already there, stay as they are.\<close>

definition dirs_stay :: "fs_tree \<Rightarrow> fs_tree \<Rightarrow> bool" where
  "dirs_stay t t' \<longleftrightarrow> (\<forall>q. (t q = Some DirNode \<or> t q \<noteq> None \<and> engine_path q) \<and> \<not> prefix [CONTROL_DIR] q \<longrightarrow>
     t' q = t q)"

lemma dirs_stay_refl [simp]: "dirs_stay t t"
  by (simp add: dirs_stay_def)

lemma dirs_stay_trans: "dirs_stay t t' \<Longrightarrow> dirs_stay t' t'' \<Longrightarrow> dirs_stay t t''"
  by (simp add: dirs_stay_def)

lemma dirs_stay_control: "same_outside [CONTROL_DIR] t t' \<Longrightarrow> dirs_stay t t'"
  by (simp add: dirs_stay_def same_outside_def)

lemma dirs_stay_made: "made_dirs S t t' \<Longrightarrow> dirs_stay t t'"
  unfolding dirs_stay_def made_dirs_def by (metis option.distinct(1))

lemma dirs_stay_replaced:
  assumes "replaced p tmp bs exec t t'" "file_or_absent (t p)" "\<not> engine_path p" "t (butlast p @ [tmp]) = None"
  shows "dirs_stay t t'"
  unfolding dirs_stay_def
proof (intro allI impI)
  fix d assume d: "(t d = Some DirNode \<or> t d \<noteq> None \<and> engine_path d) \<and> \<not> prefix [CONTROL_DIR] d"
  with assms(2-4) have "d \<noteq> p" "d \<noteq> butlast p @ [tmp]" by (auto simp: file_or_absent_def)
  with assms(1) d show "t' d = t d" unfolding replaced_def by auto
qed

lemma tx_inv_unseen:
  assumes "unseen j (tree (fst s)) (tree w')" "tx_inv H tree j t0 k s" "same_plan j j'"
  shows "tx_inv H tree j t0 k (w', j')"
  using assms exposed_unseen [OF assms(1)] similar_trans [of "jn_operations j" t0 "tree (fst s)" "tree w'"]
  by (auto simp: tx_inv_def unseen_def)

lemma tx_inv_plan:
  "tx_inv H tree j t0 k s \<Longrightarrow> same_plan j (snd s)"
  "tx_inv H tree j t0 k s \<Longrightarrow> k \<le> length (jn_operations j)"
  "tx_inv H tree j t0 k s \<Longrightarrow> jn_operations (snd s) = jn_operations j \<and> jn_id (snd s) = jn_id j \<and>
     jn_required_directories (snd s) = jn_required_directories j"
  by (auto simp: tx_inv_def exposed_def same_plan_def)

text \<open>Where a failed commit may stop: at the operation the journal counts, or one beyond.\<close>

definition tx_stopped ::
    "blake3 \<Rightarrow> ('w \<Rightarrow> fs_tree) \<Rightarrow> journal \<Rightarrow> fs_tree \<Rightarrow> 'w \<times> journal \<Rightarrow> bool" where
  "tx_stopped H tree j t0 s \<longleftrightarrow>
     (\<exists>k. tx_inv H tree j t0 k s \<and> (k = jn_committed (snd s) \<or> k = Suc (jn_committed (snd s))))"

lemma tx_stopped_intro:
  "tx_inv H tree j t0 k s \<Longrightarrow> k = jn_committed (snd s) \<or> k = Suc (jn_committed (snd s)) \<Longrightarrow> tx_stopped H tree j t0 s"
  by (auto simp: tx_stopped_def)

lemma snapshot_file [simp]:
  "snapshot (Some (FileNode bs mode)) = Some \<lparr> ts_bytes = bs, ts_executable = mode_executable mode \<rparr>"
  "snapshot None = None" "file_or_absent None" "file_or_absent (Some (FileNode bs mode))"
  by (simp_all add: snapshot_def file_or_absent_def)

lemma tx_inv_forward:
  assumes plan: "planned j" "i < length (jn_operations j)" and inv: "tx_inv H tree j t0 i s"
    and tmp: "prefix (ascii ''.rebyte-'') tmp"
    and rep: "replaced (target_path (jn_operations j ! i)) tmp bs (jo_executable (jn_operations j ! i))
      (tree (fst s)) (tree w')"
    and new: "Digest32 (jo_new_digest (jn_operations j ! i)) = file_digest H bs" and "same_plan j j'"
  shows "tx_inv H tree j t0 i (w', j') \<or> tx_inv H tree j t0 (Suc i) (w', j')"
    "tree w' (target_path (jn_operations j ! i)) = Some (FileNode bs (mode_of (jo_executable (jn_operations j ! i))))
     \<Longrightarrow> tx_inv H tree j t0 (Suc i) (w', j')"
proof -
  let ?p = "target_path (jn_operations j ! i)" and ?x = "jo_executable (jn_operations j ! i)"
  note others = replaced_others [OF plan tmp rep]
  have ex: "exposed H (jn_operations j) (tree (fst s)) i" and "kept (jn_operations j) t0 (tree (fst s))"
    using inv by (simp_all add: tx_inv_def)
  then have kept: "kept (jn_operations j) t0 (tree w')" using others(1) using similar_trans by blast
  have fwd: "exposed H (jn_operations j) (tree w') (Suc i)" if "tree w' ?p = Some (FileNode bs (mode_of ?x))"
    using exposed_forward(2) [OF ex plan(2) others(2)] that new by (simp add: holds_new_def is_new_def)
  then show "tree w' ?p = Some (FileNode bs (mode_of ?x)) \<Longrightarrow> tx_inv H tree j t0 (Suc i) (w', j')"
    using kept assms(7) by (simp add: tx_inv_def)
  have "tree w' ?p = tree (fst s) ?p \<or> tree w' ?p = Some (FileNode bs (mode_of ?x))"
    using rep by (simp add: replaced_def)
  then show "tx_inv H tree j t0 i (w', j') \<or> tx_inv H tree j t0 (Suc i) (w', j')"
    using fwd exposed_forward(1) [OF ex plan(2) others(2)] kept assms(7) by (auto simp: tx_inv_def)
qed

lemma tx_inv_backward:
  assumes plan: "planned j" "i < length (jn_operations j)" and inv: "tx_inv H tree j t0 k s" "k \<le> Suc i"
    and others: "kept (jn_operations j) (tree (fst s)) t'"
      "\<And>n. n < length (jn_operations j) \<Longrightarrow> n \<noteq> i \<Longrightarrow>
         t' (target_path (jn_operations j ! n)) = tree (fst s) (target_path (jn_operations j ! n))"
    and "same_plan j j'" "tree w' = t'"
  shows "t' (target_path (jn_operations j ! i)) = tree (fst s) (target_path (jn_operations j ! i)) \<Longrightarrow>
      tx_inv H tree j t0 k (w', j')"
    "holds_original H t' (jn_operations j ! i) \<Longrightarrow> tx_inv H tree j t0 (min k i) (w', j')"
proof -
  have ex: "exposed H (jn_operations j) (tree (fst s)) k" and "kept (jn_operations j) t0 (tree (fst s))"
    using inv by (simp_all add: tx_inv_def)
  then have kept: "kept (jn_operations j) t0 t'" using others(1) using similar_trans by blast
  show "t' (target_path (jn_operations j ! i)) = tree (fst s) (target_path (jn_operations j ! i)) \<Longrightarrow>
      tx_inv H tree j t0 k (w', j')"
    "holds_original H t' (jn_operations j ! i) \<Longrightarrow> tx_inv H tree j t0 (min k i) (w', j')"
    using exposed_backward [OF ex inv(2) plan(2) others(2)] kept assms(7,8) by (simp_all add: tx_inv_def)
qed

lemma planned_directory:
  assumes "planned j" "d \<in> set (jn_required_directories j)"
  shows "\<not> prefix [CONTROL_DIR] (split_on 47 (jd_path d))"
proof -
  from assms obtain p where "parse_path (jd_path d) = Inr p"
    unfolding planned_def list_all_iff by (auto simp: is_ok_iff)
  from parse_path_plain(3) [OF this] show ?thesis by (cases "split_on 47 (jd_path d)") auto
qed

lemma upt_split: "[c..<n] = ys @ x # zs \<Longrightarrow> x = c + length ys \<and> x < n"
  by (metis add_diff_cancel_left' append_eq_conv_conj drop_upt le_add1 linorder_not_le nth_append_length
      upt_conv_Cons_Cons list.distinct(1) list.inject upt_rec)

definition dirs_at :: "fs_tree \<Rightarrow> journal_directory list \<Rightarrow> bool" where
  "dirs_at t ds \<longleftrightarrow> (\<forall>d\<in>set ds. t (split_on 47 (jd_path d)) = Some DirNode)"

lemma dirs_at_stay:
  assumes "planned j" "set ds \<subseteq> set (jn_required_directories j)" "dirs_at t ds" "dirs_stay t t'"
  shows "dirs_at t' ds"
  unfolding dirs_at_def
proof
  fix d assume d: "d \<in> set ds"
  with assms(3) have "t (split_on 47 (jd_path d)) = Some DirNode" by (simp add: dirs_at_def)
  with assms(2,4) d planned_directory [OF assms(1)] show "t' (split_on 47 (jd_path d)) = Some DirNode"
    by (auto simp: dirs_stay_def)
qed

context cap_fs
begin

lemma journaled_unseen:
  assumes "planned j" "journaled (tx_dir i) vec t t'"
  shows "unseen j t t'" "same_outside [CONTROL_DIR] t t'"
  using assms journaled_same_outside [OF assms(2)] unseen_transaction [of j i]
    same_outside_below [of "[CONTROL_DIR]" "[TRANSACTIONS_DIR, i]"]
  by (auto simp: tx_dir_def)

lemma wp_persist_current:
  assumes "planned j" "tx_inv (h_blake3 F) tree j t0 k s"
    and "\<And>w'. tx_inv (h_blake3 F) tree j t0 k (w', snd s) \<Longrightarrow> dirs_stay (tree (fst s)) (tree w') \<Longrightarrow> Q () (w', snd s)"
    and "\<And>e w'. tx_inv (h_blake3 F) tree j t0 k (w', snd s) \<Longrightarrow> E e (w', snd s)"
  shows "wp (persist_current F (tx_dir i)) Q E s"
proof -
  have inv: "tx_inv (h_blake3 F) tree j t0 k (w', snd s)" "dirs_stay (tree (fst s)) (tree w')"
    if "journaled (tx_dir i) vec (tree (fst s)) (tree w')" for vec w'
    using journaled_unseen [OF assms(1) that] tx_inv_unseen [OF _ assms(2) tx_inv_plan(1) [OF assms(2)]]
    by (simp_all add: dirs_stay_control)
  show ?thesis
    unfolding persist_current_def wp_simps
    by (rule wp_mono [OF wp_persist_journal]) (auto intro: assms(3,4) inv)
qed

lemma wp_verify_staged:
  assumes "planned j" "jn_operations j' = jn_operations j"
    and "\<And>w'. tree w' = tree w \<Longrightarrow> Q () w'" and "\<And>e w'. tree w' = tree w \<Longrightarrow> E e w'"
  shows "wp (verify_staged F d j') Q E w"
  unfolding verify_staged_def assms(2)
proof (rule wp_for_each [where I = "\<lambda>_ w'. tree w' = tree w"], goal_cases)
  case (1 ys x zs w1)
  then have "length ys < length (jn_operations j)" and x: "x = jn_operations j ! length ys" by simp_all
  from planned_operation(2,4) [OF assms(1) this(1)]
  have "jo_staged x = staged_name (length ys)" "\<And>b. jo_backup x = Some b \<Longrightarrow> b = backup_name (length ys)"
    by (simp_all add: x)
  then have "plain_path (jo_staged x)" "\<And>b. jo_backup x = Some b \<Longrightarrow> plain_path b"
    by (auto simp: staged_backup_plain)
  with 1 show ?case
    unfolding verify_staged_operation_def wp_simps
    by (auto simp: wp_simps assms(4) intro!: wp_verify_file split: option.splits)
qed (auto intro: assms(3))

lemma wp_verify_precondition:
  assumes "parse_path (jo_target oper) = Inr p"
    and "\<And>w'. tree w' = tree w \<Longrightarrow> holds_original (h_blake3 F) (tree w) oper \<Longrightarrow> Q () w'"
    and "\<And>e w'. tree w' = tree w \<Longrightarrow> E e w'"
  shows "wp (verify_precondition F [] p oper) Q E w"
  unfolding verify_precondition_def wp_simps
  by (rule wp_read_target [OF parse_path_plain(4) [OF assms(1)]])
    (use parse_path_plain(1) [OF assms(1)] assms(2,3) in
      \<open>auto simp: wp_simps holds_original_def target_path_def\<close>)

lemma wp_commit_directory:
  assumes plan: "planned j" "d \<in> set (jn_required_directories j)" and inv: "tx_inv (h_blake3 F) tree j t0 k s"
  shows "wp (commit_directory F [] (tx_dir i) d)
    (\<lambda>_ s'. tx_inv (h_blake3 F) tree j t0 k s' \<and> jn_committed (snd s') = jn_committed (snd s) \<and>
       dirs_stay (tree (fst s)) (tree (fst s')) \<and> tree (fst s') (split_on 47 (jd_path d)) = Some DirNode)
    (\<lambda>_ s'. tx_inv (h_blake3 F) tree j t0 k s' \<and> jn_committed (snd s') = jn_committed (snd s)) s"
proof -
  from plan obtain p where p: "parse_path (jd_path d) = Inr p"
    unfolding planned_def list_all_iff by (auto simp: is_ok_iff)
  note path = parse_path_plain [OF p]
  have nc: "\<not> prefix [CONTROL_DIR] (split_on 47 (jd_path d))"
    using path(3) by (cases "split_on 47 (jd_path d)") auto
  let ?S = "{q. prefix q (split_on 47 (jd_path d))}"
  have step: "tx_inv (h_blake3 F) tree j t0 k (w', (snd s)\<lparr>jn_created_directories := c\<rparr>)"
    if "made_dirs ?S (tree (fst s)) (tree w')" for w' c
    using tx_inv_unseen [OF unseen_made_dirs [OF plan(1) that plan(2)] inv] tx_inv_plan(1) [OF inv] by simp
  show ?thesis
    unfolding commit_directory_def wp_simps p
    apply simp
    apply (rule wp_mono [OF wp_ensure_directory [OF path(4)]])
    subgoal for u s'
      apply (rule wp_persist_current [OF plan(1) step])
        apply (use nc path(1) in \<open>auto simp: dirs_stay_def dest: dirs_stay_made\<close>)
      done
    subgoal for e s' using step path(1) by simp
    done
qed

lemma wp_record_committed:
  assumes plan: "planned j" and p: "plain_path (as_str p)"
    and inv: "tx_inv (h_blake3 F) tree j t0 (Suc n) s" and com: "jn_committed (snd s) = n"
    and "\<And>s'. tx_inv (h_blake3 F) tree j t0 (Suc n) s' \<Longrightarrow> jn_committed (snd s') = Suc n \<Longrightarrow>
      dirs_stay (tree (fst s)) (tree (fst s')) \<Longrightarrow> Q () s'"
    and "\<And>e s'. tx_stopped (h_blake3 F) tree j t0 s' \<Longrightarrow> E e s'"
  shows "wp (record_committed F [] (tx_dir i) oper p n) Q E s"
proof -
  have inv': "tx_inv (h_blake3 F) tree j t0 (Suc n) (w', snd s)"
    "tx_inv (h_blake3 F) tree j t0 (Suc n) (w', (snd s)\<lparr>jn_committed := c\<rparr>)" if "tree w' = tree (fst s)" for w' c
    using inv that by (simp_all add: tx_inv_def)
  have stop: "E e (w', snd s)" if "tree w' = tree (fst s)" for e w'
    using tx_stopped_intro [OF inv'(1) [OF that]] com by (simp add: assms(6))
  have persist: "wp (persist_current F (tx_dir i)) Q E (w', (snd s)\<lparr>jn_committed := Suc n\<rparr>)"
    if "tree w' = tree (fst s)" for w'
    by (rule wp_persist_current [OF plan inv'(2) [OF that]])
      (use that in \<open>auto intro!: assms(5,6) intro: tx_stopped_intro\<close>)
  show ?thesis
    unfolding record_committed_def wp_simps
    by (rule wp_read_target [OF p])
      (auto simp: wp_simps stop persist ok_or_def split: option.splits)
qed

lemma wp_commit_operation:
  assumes plan: "planned j" "n < length (jn_operations j)" and inv: "tx_inv (h_blake3 F) tree j t0 n s"
    and com: "jn_committed (snd s) = n"
  shows "wp (commit_operation F [] (tx_dir i) n)
    (\<lambda>_ s'. tx_inv (h_blake3 F) tree j t0 (Suc n) s' \<and> jn_committed (snd s') = Suc n \<and>
       dirs_stay (tree (fst s)) (tree (fst s')))
    (\<lambda>_ s'. tx_stopped (h_blake3 F) tree j t0 s') s" (is "wp _ ?Q ?E s")
proof -
  let ?op = "jn_operations j ! n"
  from planned_operation(1) [OF plan] obtain p where p: "parse_path (jo_target ?op) = Inr p" by blast
  note path = parse_path_plain [OF p]
  have tgt: "split_on 47 (as_str p) = target_path ?op" using path(1) by (simp add: target_path_def)
  have "plain_name (jn_id j)" using plan(1) by (simp add: planned_def)
  note tmp = temporaries(1,3) [OF this, of n]
  have ne: "commit_temporary (jn_id j) n \<noteq> last (split_on 47 (as_str p))"
    using planned_operation(5) [OF plan] tmp(2) tgt by metis
  have st: "plain_path (jo_staged ?op)" using planned_operation(2) [OF plan] by (simp add: staged_backup_plain)
  have stop: "tx_stopped (h_blake3 F) tree j t0 (w', snd s)" if "tree w' = tree (fst s)" for w'
    using inv that com by (auto simp: tx_inv_def intro!: tx_stopped_intro [of _ _ _ _ n])
  have absent: "file_or_absent (tree (fst s) (target_path ?op))"
    using exposed_file_or_absent [of "h_blake3 F" "jn_operations j"] inv plan(2) by (auto simp: tx_inv_def)
  have noengine: "\<not> engine_path (target_path ?op)"
    using planned_operation(5,6) [OF plan] by (simp add: engine_path_def)
  have replace: "wp (atomic_replace F [] p bs (jo_executable ?op) (commit_temporary (jn_id j) n))
      (\<lambda>_ t. wp (record_committed F [] (tx_dir i) ?op p n) ?Q ?E (fst t, (snd s)\<lparr>jn_created_directories := snd t\<rparr>))
      (\<lambda>_ t. ?E e (fst t, (snd s)\<lparr>jn_created_directories := snd t\<rparr>)) (w1, c)"
    if "tree w1 = tree (fst s)" "Digest32 (jo_new_digest ?op) = file_digest (h_blake3 F) bs" for w1 bs c e
    apply (rule wp_mono [OF wp_atomic_replace [OF path(4) tmp(1) ne]])
    subgoal for u t
      using that tx_inv_forward(2) [OF plan inv tmp(2), of bs "fst t"] tx_inv_plan(1) [OF inv]
      by (intro wp_record_committed [OF plan(1) path(4)])
        (auto simp: tgt com
          intro: dirs_stay_trans [OF dirs_stay_replaced [where t = "tree (fst s)", OF _ absent noengine]])
    subgoal for e t
      using that tx_inv_forward(1) [OF plan inv tmp(2), of bs "fst t" "(snd s)\<lparr>jn_created_directories := snd t\<rparr>"]
        tx_inv_plan(1) [OF inv] com
      by (auto simp: tgt tx_stopped_def)
    done
  show ?thesis
    using plan(2) tx_inv_plan(3) [OF inv] p
    unfolding commit_operation_def wp_simps
    by (auto simp: wp_simps stop intro!: wp_verify_precondition [OF p] wp_read [OF st] replace)
qed

lemma wp_commit:
  assumes plan: "planned j" and inv: "tx_inv (h_blake3 F) tree j t0 c s" and com: "jn_committed (snd s) = c"
  shows "wp (commit F [] (tx_dir i))
    (\<lambda>_ s'. tx_inv (h_blake3 F) tree j t0 (length (jn_operations j)) s' \<and>
       dirs_at (tree (fst s')) (jn_required_directories j))
    (\<lambda>_. tx_stopped (h_blake3 F) tree j t0) s"
proof -
  note pl = tx_inv_plan [OF inv]
  have start: "tx_inv (h_blake3 F) tree j t0 c (w', (snd s)\<lparr>jn_state := Committing\<rparr>)"
    if "tree w' = tree (fst s)" for w'
    using inv that by (simp add: tx_inv_def)
  have ops: "wp (io_for_each (commit_operation F [] (tx_dir i)) [c..<length (jn_operations j)])
      (\<lambda>_ s'. tx_inv (h_blake3 F) tree j t0 (length (jn_operations j)) s' \<and>
         dirs_at (tree (fst s')) (jn_required_directories j))
      (\<lambda>_. tx_stopped (h_blake3 F) tree j t0) s1"
    if "tx_inv (h_blake3 F) tree j t0 c s1" "jn_committed (snd s1) = c"
      "dirs_at (tree (fst s1)) (jn_required_directories j)" for s1
  proof (rule wp_for_each [where I = "\<lambda>ys s'. tx_inv (h_blake3 F) tree j t0 (c + length ys) s' \<and>
        jn_committed (snd s') = c + length ys \<and> dirs_at (tree (fst s')) (jn_required_directories j)"], goal_cases)
    case (1 ys x zs s2)
    from upt_split [OF 1(1)] have x: "x = c + length ys" "x < length (jn_operations j)" by simp_all
    show ?case
      using 1(2) unfolding x(1)
      by (intro wp_mono [OF wp_commit_operation [OF plan x(2) [unfolded x(1)]]])
        (auto intro: dirs_at_stay [OF plan])
  qed (use that pl(2) in auto)
  have dirs: "wp (io_for_each (commit_directory F [] (tx_dir i)) (jn_required_directories j))
      (\<lambda>_. wp (io_for_each (commit_operation F [] (tx_dir i)) [c..<length (jn_operations j)])
        (\<lambda>_ s'. tx_inv (h_blake3 F) tree j t0 (length (jn_operations j)) s' \<and>
           dirs_at (tree (fst s')) (jn_required_directories j))
        (\<lambda>_. tx_stopped (h_blake3 F) tree j t0))
      (\<lambda>_. tx_stopped (h_blake3 F) tree j t0) s1"
    if "tx_inv (h_blake3 F) tree j t0 c s1" "jn_committed (snd s1) = c" for s1
  proof (rule wp_for_each [where I = "\<lambda>ys s'. tx_inv (h_blake3 F) tree j t0 c s' \<and>
        jn_committed (snd s') = c \<and> dirs_at (tree (fst s')) ys"], goal_cases)
    case (1 ys d zs s2)
    then have d: "d \<in> set (jn_required_directories j)" and "set ys \<subseteq> set (jn_required_directories j)" by auto
    note stay = dirs_at_stay [OF plan this(2)]
    show ?case
      using 1(2)
      by (intro wp_mono [OF wp_commit_directory [OF plan d]])
        (auto simp: dirs_at_def intro: tx_stopped_intro stay [unfolded dirs_at_def, rule_format])
  qed (use that ops in \<open>auto simp: dirs_at_def\<close>)
  show ?thesis
    unfolding commit_def wp_simps using pl(3) com
    apply simp
    apply (rule wp_verify_staged [OF plan])
      apply simp
     apply (rule wp_persist_current [OF plan start])
       apply (auto simp: com intro: dirs tx_stopped_intro)
    using inv by (auto simp: tx_inv_def com intro!: tx_stopped_intro [of _ _ _ _ c])
qed

lemma wp_restore_target:
  assumes plan: "planned j" "n < length (jn_operations j)"
    and inv: "tx_inv (h_blake3 F) tree j t0 k s" "k \<le> Suc n"
    and p: "parse_path (jo_target (jn_operations j ! n)) = Inr p"
    and tmp: "plain_name tmp" "prefix (ascii ''.rebyte-'') tmp"
    and orig: "jo_original_digest (jn_operations j ! n) = Some d" "Digest32 d = file_digest (h_blake3 F) bs"
  shows "wp (on_created (atomic_replace F [] p bs (jo_original_executable (jn_operations j ! n)) tmp))
    (\<lambda>_ s'. (\<exists>k\<le>n. tx_inv (h_blake3 F) tree j t0 k s') \<and> jn_committed (snd s') = jn_committed (snd s))
    (\<lambda>_ s'. \<exists>k. tx_inv (h_blake3 F) tree j t0 k s') s"
proof -
  let ?op = "jn_operations j ! n" and ?x = "jo_original_executable (jn_operations j ! n)"
  note path = parse_path_plain [OF p]
  have tgt: "split_on 47 (as_str p) = target_path ?op" using path(1) by (simp add: target_path_def)
  have ne: "tmp \<noteq> last (split_on 47 (as_str p))"
    using planned_operation(5) [OF plan] tmp(2) tgt by metis
  have plan': "same_plan j ((snd s)\<lparr>jn_created_directories := c\<rparr>)" for c
    using tx_inv_plan(1) [OF inv(1)] by simp
  have bwd: "tx_inv (h_blake3 F) tree j t0 (min k n) (w', (snd s)\<lparr>jn_created_directories := c\<rparr>)"
    if "replaced (target_path ?op) tmp bs ?x (tree (fst s)) (tree w')"
      "tree w' (target_path ?op) = Some (FileNode bs (mode_of ?x))" for w' c
    using tx_inv_backward(2) [OF plan inv replaced_others [OF plan tmp(2) that(1)] plan'] that(2) orig
    by (simp add: holds_original_def is_original_def)
  have stop: "\<exists>k. tx_inv (h_blake3 F) tree j t0 k (w', (snd s)\<lparr>jn_created_directories := c\<rparr>)"
    if rep: "replaced (target_path ?op) tmp bs ?x (tree (fst s)) (tree w')" for w' c
  proof -
    from rep consider "tree w' (target_path ?op) = tree (fst s) (target_path ?op)"
      | "tree w' (target_path ?op) = Some (FileNode bs (mode_of ?x))" by (auto simp: replaced_def)
    then show ?thesis
      using tx_inv_backward(1) [OF plan inv replaced_others [OF plan tmp(2) rep] plan' refl] bwd [OF rep]
      by cases blast+
  qed
  show ?thesis
    unfolding wp_simps
    by (rule wp_mono [OF wp_atomic_replace [OF path(4) tmp(1) ne]])
      (use bwd stop in \<open>auto simp: tgt intro!: exI [of _ "min k n"]\<close>)
qed

lemma wp_drop_target:
  assumes plan: "planned j" "n < length (jn_operations j)"
    and inv: "tx_inv (h_blake3 F) tree j t0 k s" "k \<le> Suc n"
    and p: "parse_path (jo_target (jn_operations j ! n)) = Inr p"
    and orig: "jo_original_digest (jn_operations j ! n) = None"
  shows "wp (on_world (remove_target F [] p))
    (\<lambda>_ s'. (\<exists>k\<le>n. tx_inv (h_blake3 F) tree j t0 k s') \<and> jn_committed (snd s') = jn_committed (snd s))
    (\<lambda>_ s'. \<exists>k. tx_inv (h_blake3 F) tree j t0 k s') s"
proof -
  let ?op = "jn_operations j ! n"
  note path = parse_path_plain [OF p]
  have tgt: "split_on 47 (as_str p) = target_path ?op" using path(1) by (simp add: target_path_def)
  have absent: "file_or_absent (tree (fst s) (split_on 47 (as_str p)))"
    using exposed_file_or_absent [of "h_blake3 F" "jn_operations j"] inv plan(2) by (auto simp: tx_inv_def tgt)
  have others: "kept (jn_operations j) t (t(target_path ?op := None))"
    "m < length (jn_operations j) \<Longrightarrow> m \<noteq> n \<Longrightarrow>
      (t(target_path ?op := None)) (target_path (jn_operations j ! m)) = t (target_path (jn_operations j ! m))" for t m
    using plan(2) planned_operation(7) [OF plan, of m] by (auto simp: kept_def)
  have bwd: "tx_inv (h_blake3 F) tree j t0 (min k n) (w', snd s)"
    if "tree w' = (tree (fst s))(target_path ?op := None)" for w'
    using tx_inv_backward(2) [OF plan inv others tx_inv_plan(1) [OF inv(1)] that] orig
    by (simp add: holds_original_def is_original_def)
  have same: "tx_inv (h_blake3 F) tree j t0 k (w', snd s)" if "tree w' = tree (fst s)" for w'
    using inv(1) that by (simp add: tx_inv_def)
  have ok: "\<exists>k\<le>n. tx_inv (h_blake3 F) tree j t0 k (w', snd s)"
    if "tree w' = (tree (fst s))(target_path ?op := None)" for w'
    using bwd [OF that] min.cobounded2 by blast
  show ?thesis
    unfolding wp_simps
    by (rule wp_remove_target [OF path(4) absent]) (use ok same in \<open>auto simp: tgt\<close>)
qed

lemma wp_rollback_operation:
  assumes plan: "planned j" "n < length (jn_operations j)"
    and inv: "tx_inv (h_blake3 F) tree j t0 k s" "k \<le> Suc n"
  shows "wp (rollback_operation F [] (tx_dir i) (n, jn_operations j ! n))
    (\<lambda>_ s'. (\<exists>k\<le>n. tx_inv (h_blake3 F) tree j t0 k s') \<and> jn_committed (snd s') = jn_committed (snd s))
    (\<lambda>_ s'. \<exists>k. tx_inv (h_blake3 F) tree j t0 k s') s" (is "wp _ ?Q ?E s")
proof -
  let ?op = "jn_operations j ! n"
  let ?current = "snapshot (tree (fst s) (target_path ?op))"
  from planned_operation(1) [OF plan] obtain p where p: "parse_path (jo_target ?op) = Inr p" by blast
  note path = parse_path_plain [OF p]
  have tgt: "split_on 47 (as_str p) = target_path ?op" using path(1) by (simp add: target_path_def)
  have "plain_name (jn_id j)" using plan(1) by (simp add: planned_def)
  note tmp = temporaries(2,4) [OF this]
  note pl = tx_inv_plan(3) [OF inv(1)]
  have bwd: "plain_path b" if "jo_backup ?op = Some b" for b
    using planned_operation(4) [OF plan that] by (simp add: staged_backup_plain)
  have same: "tx_inv (h_blake3 F) tree j t0 k (w', snd s)" if "tree w' = tree (fst s)" for w'
    using inv(1) that by (simp add: tx_inv_def)
  then have stop: "?E e (w', snd s)" if "tree w' = tree (fst s)" for e w' using that by blast
  have old: "k \<le> n" if "\<not> is_new (h_blake3 F) ?op (snapshot (tree (fst s) (target_path ?op)))"
  proof (rule ccontr)
    assume "\<not> k \<le> n"
    with inv(1) plan(2) have "holds_new (h_blake3 F) (tree (fst s)) ?op"
      unfolding tx_inv_def exposed_def by auto
    with that show False by (simp add: holds_new_def)
  qed
  have clean: "wp (remove_directories F []) (\<lambda>_. ?E e) E' s1" if "tree (fst s1) = tree (fst s)" "snd s1 = snd s"
    for s1 e E'
    by (rule wp_mono [OF wp_remove_directories])
      (use tx_inv_unseen [OF unseen_dirs_removed inv(1)] tx_inv_plan(1) [OF inv(1)] that in
        \<open>fastforce simp: prod_eq_iff\<close>)+
  have undo: "wp (h_read F (tx_dir i) b)
      (\<lambda>bs w. wp (if \<not> digest_matches (Digest32 d) (file_digest (h_blake3 F) bs) then io_fail ApplyIntegrity
         else on_created (atomic_replace F [] p bs (jo_original_executable ?op)
           (rollback_temporary (jn_id j) c))) ?Q ?E (w, snd s)) (\<lambda>e w. ?E (ApplyIo e) (w, snd s)) w1"
    if "jo_backup ?op = Some b" "jo_original_digest ?op = Some d" "tree w1 = tree (fst s)" for b d c w1
    apply (rule wp_read [OF bwd [OF that(1)]])
    subgoal for bs w'
      using wp_restore_target [OF plan same inv(2) p tmp that(2)] stop that(3)
      by (auto simp: wp_simps)
    subgoal using that(3) stop by simp
    done
  have dropped: "wp (on_world (remove_target F [] p)) ?Q ?E (w', snd s)"
    if "jo_backup ?op = None \<or> jo_original_digest ?op = None" "tree w' = tree (fst s)" for w'
    using wp_drop_target [OF plan same [OF that(2)] inv(2) p] that planned_operation(3) [OF plan] by auto
  have decide: "wp (rollback_target F [] (tx_dir i) (snd s) n ?op p ?current) ?Q ?E (w', snd s)"
    if t: "tree w' = tree (fst s)" for w'
  proof (cases "is_new (h_blake3 F) ?op ?current")
    case False
    then have ok: "?Q () (w', snd s)" using same [OF t] old by auto
    show ?thesis
      unfolding rollback_target_def using False ok clean [of "(w', snd s)"] t by (auto simp: wp_simps)
  next
    case True
    show ?thesis
    proof (cases "jo_backup ?op = None \<or> jo_original_digest ?op = None")
      case none: True
      then show ?thesis
        unfolding rollback_target_def using True dropped [OF none t] by (auto split: option.splits)
    next
      case False
      then obtain b d where "jo_backup ?op = Some b" "jo_original_digest ?op = Some d" by auto
      with True undo [OF this t] pl show ?thesis
        unfolding rollback_target_def by (simp add: wp_statements(3) wp_on_world wp_io_call cong: if_cong)
    qed
  qed
  show ?thesis
    unfolding rollback_operation_def wp_simps prod.case
    using pl p
    apply simp
    apply (rule wp_read_target [OF path(4)])
    subgoal for w'
      using decide [of w'] pl by (simp add: tgt)
    subgoal using stop by simp
    done
qed

lemma rev_enumerate_split:
  assumes "rev (enumerate 0 (take m xs)) = ys @ x # zs" "m \<le> length xs"
  shows "length ys < m \<and> x = (m - Suc (length ys), xs ! (m - Suc (length ys)))"
proof -
  from assms(1) have len: "length ys < m" using assms(2)
    by (metis add.right_neutral add_Suc_right le_add1 length_append length_enumerate length_rev length_take less_Suc_eq_le
        list.size(4) min.absorb2)
  have "x = rev (enumerate 0 (take m xs)) ! length ys" by (simp add: assms(1))
  also have "\<dots> = enumerate 0 (take m xs) ! (m - Suc (length ys))"
    using len assms(2) by (subst rev_nth) simp_all
  finally show ?thesis using len assms(2) by (simp add: nth_enumerate_eq)
qed

lemma wp_rollback:
  assumes plan: "planned j" and inv: "tx_inv (h_blake3 F) tree j t0 k s" "k \<le> Suc (jn_committed (snd s))"
  shows "wp (rollback F [] (tx_dir i))
    (\<lambda>_. tx_inv (h_blake3 F) tree j t0 0) (\<lambda>_ s'. \<exists>k. tx_inv (h_blake3 F) tree j t0 k s') s"
proof -
  let ?c = "jn_committed (snd s)" and ?n = "length (jn_operations j)"
  let ?m = "min (Suc ?c) ?n"
  have start: "tx_inv (h_blake3 F) tree j t0 k (fst s, (snd s)\<lparr>jn_state := RollingBack\<rparr>)"
    using inv(1) by (simp add: tx_inv_def)
  have finish: "wp (remove_directories F []) (\<lambda>_ s'. wp (persist_current F (tx_dir i))
        (\<lambda>_. tx_inv (h_blake3 F) tree j t0 0) (\<lambda>_ s'. \<exists>k. tx_inv (h_blake3 F) tree j t0 k s')
        (fst s', (snd s')\<lparr>jn_committed := 0, jn_state := RolledBack\<rparr>))
      (\<lambda>_ s'. \<exists>k. tx_inv (h_blake3 F) tree j t0 k s') s1"
    if "tx_inv (h_blake3 F) tree j t0 0 s1" for s1
    apply (rule wp_mono [OF wp_remove_directories])
    subgoal for u s2
      using tx_inv_unseen [OF unseen_dirs_removed that, of "fst s2"] tx_inv_plan(1) [OF that]
      by (intro wp_persist_current [OF plan]) auto
    subgoal by simp
    done
  have loop: "wp (io_for_each (rollback_operation F [] (tx_dir i)) (rev (enumerate 0 (take ?m (jn_operations j)))))
      (\<lambda>_. wp (remove_directories F []) (\<lambda>_ s'. wp (persist_current F (tx_dir i))
        (\<lambda>_. tx_inv (h_blake3 F) tree j t0 0) (\<lambda>_ s'. \<exists>k. tx_inv (h_blake3 F) tree j t0 k s')
        (fst s', (snd s')\<lparr>jn_committed := 0, jn_state := RolledBack\<rparr>))
        (\<lambda>_ s'. \<exists>k. tx_inv (h_blake3 F) tree j t0 k s'))
      (\<lambda>_ s'. \<exists>k. tx_inv (h_blake3 F) tree j t0 k s') s1"
    if "tx_inv (h_blake3 F) tree j t0 k s1" for s1
  proof (rule wp_for_each [where I = "\<lambda>ys s'. \<exists>k\<le>?m - length ys. tx_inv (h_blake3 F) tree j t0 k s'"], goal_cases)
    case (1 ys x zs s2)
    from rev_enumerate_split [OF 1(1)]
    have x: "length ys < ?m" "x = (?m - Suc (length ys), jn_operations j ! (?m - Suc (length ys)))" by auto
    from 1(2) obtain k' where k': "k' \<le> ?m - length ys" "tx_inv (h_blake3 F) tree j t0 k' s2" by blast
    have "?m - Suc (length ys) < ?n" "k' \<le> Suc (?m - Suc (length ys))" using x(1) k'(1) by auto
    from wp_rollback_operation [OF plan this(1) k'(2) this(2)] show ?case
      unfolding x(2) by (rule wp_mono) auto
  next
    case 2
    from inv tx_inv_plan(2) [OF inv(1)] that show ?case by auto
  next
    case (3 s2)
    then show ?case by (auto intro: finish)
  qed
  show ?thesis
    unfolding rollback_def wp_simps Let_def
    apply (rule wp_persist_current [OF plan start])
    using tx_inv_plan(3) [OF inv(1)] loop
     apply (auto simp: wp_simps ok_or_def usize_checked_add_def cong: if_cong split: option.splits)
    done
qed

lemma wp_reconcile:
  assumes plan: "planned j" and same: "same_plan j (snd s)"
  shows "wp (reconcile F [] (tx_dir i))
    (\<lambda>_ s'. tx_inv (h_blake3 F) tree j (tree (fst s)) (jn_committed (snd s')) s' \<and>
       same_outside [CONTROL_DIR] (tree (fst s)) (tree (fst s')))
    (\<lambda>_ s'. unseen j (tree (fst s)) (tree (fst s')) \<and> same_plan j (snd s')) s"
proof -
  let ?H = "h_blake3 F" and ?t = "tree (fst s)"
  let ?I = "\<lambda>ys (c, saw) w'. tree w' = ?t \<and> c \<le> length ys \<and> (\<not> saw \<longrightarrow> c = length ys) \<and>
    (\<forall>n<length ys. if n < c then holds_new ?H ?t (ys ! n) else holds_original ?H ?t (ys ! n))"
  have step: "wp (reconcile_operation F [] acc x) (?I (ys @ [x])) (\<lambda>_ w'. tree w' = ?t) w1"
    if x: "jn_operations j = ys @ x # zs" and I: "?I ys acc w1" for ys x zs acc w1
  proof -
    obtain c saw where acc: "acc = (c, saw)" by (cases acc)
    from x have "length ys < length (jn_operations j)" "jn_operations j ! length ys = x" by simp_all
    with planned_operation(1) [OF plan, of "length ys"] obtain p where p: "parse_path (jo_target x) = Inr p" by auto
    note path = parse_path_plain [OF p]
    have tgt: "split_on 47 (as_str p) = target_path x" using path(1) by (simp add: target_path_def)
    have orig: "is_original ?H x (snapshot (?t (target_path x))) \<longleftrightarrow> holds_original ?H ?t x"
      if "file_or_absent (?t (target_path x))" using that by (simp add: holds_original_def)
    have before: "if n < c then holds_new ?H ?t (ys ! n) else holds_original ?H ?t (ys ! n)"
      if "n < length ys" for n using I that by (simp add: acc)
    show ?thesis
      unfolding reconcile_operation_def acc prod.case wp_simps p
      apply simp
      apply (rule wp_read_target [OF path(4)])
       apply (auto simp: tgt wp_simps ok_or_def usize_checked_add_def nth_append less_Suc_eq
          orig simp flip: holds_new_def split: option.splits)
      using I before
                apply (auto simp: acc orig)
      done
  qed
  have persist: "wp (persist_current F (tx_dir i))
      (\<lambda>_ s'. tx_inv ?H tree j ?t (jn_committed (snd s')) s' \<and> same_outside [CONTROL_DIR] ?t (tree (fst s')))
      (\<lambda>_ s'. unseen j ?t (tree (fst s')) \<and> same_plan j (snd s')) (w', (snd s)\<lparr>jn_committed := c\<rparr>)"
    if "tree w' = ?t" "exposed ?H (jn_operations j) ?t c" for w' c
  proof -
    have "tx_inv ?H tree j ?t c (w', (snd s)\<lparr>jn_committed := c\<rparr>)"
      using that same by (simp add: tx_inv_def)
    from tx_inv_unseen [OF _ this] that(1) same show ?thesis
      unfolding persist_current_def wp_simps
      by (intro wp_mono [OF wp_persist_journal]) (auto dest: journaled_unseen [OF plan])
  qed
  have ops: "jn_operations (snd s) = jn_operations j" using same by (simp add: same_plan_def)
  show ?thesis
    unfolding reconcile_def wp_simps
    apply (rule wp_fold [where I = ?I])
    subgoal for ys x zs acc w1
      by (rule wp_mono [OF step [of ys x zs acc w1]]) (use same in \<open>simp_all add: same_plan_def unseen_def\<close>)
    subgoal by simp
    subgoal for acc w1
      using persist [of w1 "fst acc"] ops
      by (cases acc) (simp add: wp_simps exposed_def cong: if_cong)
    done
qed

end

end
