(* ===== verification/Apply_Transactions.thy ===== *)
theory Apply_Transactions
  imports Apply_Correct
begin

text \<open>
  The entry points of \<open>rebyte-apply\<close> as a caller sees them: what \<open>apply_verified_tree\<close>, \<open>resume_transaction\<close>
  and \<open>rollback_transaction\<close> leave on disk, for every pattern of failing calls.
\<close>

section \<open>Vocabulary of the statements\<close>

definition journal_of :: "'w host \<Rightarrow> fs_tree \<Rightarrow> bytes \<Rightarrow> journal option" where
  "journal_of F t i = (case t (tx_dir i @ [JOURNAL_FILE]) of
     Some (FileNode bs _) \<Rightarrow> h_from_slice F bs | _ \<Rightarrow> None)"

definition targets_apart :: "journal \<Rightarrow> bool" where
  "targets_apart j \<longleftrightarrow>
     apart (map target_path (jn_operations j)) (map (\<lambda>d. split_on 47 (jd_path d)) (jn_required_directories j))"

definition file_path :: "verified_file \<Rightarrow> fpath" where
  "file_path f = split_on 47 (as_str (vf_path f))"

text \<open>The node at a target is the verified file: its executable bit, and bytes of its digest.\<close>

definition has_file :: "blake3 \<Rightarrow> verified_file \<Rightarrow> fs_node option \<Rightarrow> bool" where
  "has_file H f node \<longleftrightarrow> (\<exists>bs mode. node = Some (FileNode bs mode) \<and>
     mode_executable mode = vf_executable f \<and> file_digest H bs = file_digest H (vf_bytes f))"

text \<open>The node is the one that was there before, up to the digest of its bytes.\<close>

definition unchanged :: "blake3 \<Rightarrow> fs_node option \<Rightarrow> fs_node option \<Rightarrow> bool" where
  "unchanged H before after \<longleftrightarrow> after = before \<or>
     (\<exists>bs mode bs' mode'. before = Some (FileNode bs mode) \<and> after = Some (FileNode bs' mode') \<and>
        mode_executable mode' = mode_executable mode \<and> file_digest H bs' = file_digest H bs)"

definition valid_path :: "relative_artifact_path \<Rightarrow> bool" where
  "valid_path p \<longleftrightarrow> is_ok (path_new (as_str p))"

definition valid_tree :: "verified_file list \<Rightarrow> relative_artifact_path list \<Rightarrow> bool" where
  "valid_tree fs ds \<longleftrightarrow> list_all (\<lambda>f. valid_path (vf_path f)) fs \<and> list_all valid_path ds \<and>
     apart (map file_path fs) (map (\<lambda>d. split_on 47 (as_str d)) ds)"

text \<open>A run that does not finish keeps the promise of the plan for the next one.\<close>

definition still_recoverable :: "blake3 \<Rightarrow> journal \<Rightarrow> fs_tree \<Rightarrow> fs_tree \<Rightarrow> bool" where
  "still_recoverable H j t t' \<longleftrightarrow> kept (jn_operations j) t t' \<and>
     ((\<exists>k. exposed H (jn_operations j) t k) \<longrightarrow> (\<exists>k. exposed H (jn_operations j) t' k))"

section \<open>Loading a journal\<close>

lemma still_recoverable_intro:
  "unseen j t t' \<Longrightarrow> still_recoverable H j t t'"
  "tx_inv H tree j t k s \<Longrightarrow> still_recoverable H j t (tree (fst s))"
  "tx_stopped H tree j t s \<Longrightarrow> still_recoverable H j t (tree (fst s))"
  by (auto simp: still_recoverable_def tx_stopped_def tx_inv_def unseen_def intro: exposed_unseen [unfolded unseen_def])

lemma still_recoverable_refl [simp]: "still_recoverable H j t t"
  by (simp add: still_recoverable_def)

lemma validate_directories_parse:
  "try_fold (validate_directory ops) prev ds = Inr x \<Longrightarrow> \<forall>d\<in>set ds. is_ok (parse_path (jd_path d))"
  by (induction ds arbitrary: prev) (auto simp: validate_directory_def and_then_eq_Inr)

lemma validate_journal_parts:
  assumes "validate_journal F j = Inr ()"
  shows "h_uuid_parse F (jn_id j)" "jn_committed j \<le> length (jn_operations j)"
    "list_all (\<lambda>x. is_ok (validate_operation x)) (enumerate 0 (jn_operations j))"
    "list_all (\<lambda>d. is_ok (parse_path (jd_path d))) (jn_required_directories j)"
  using assms
  by (auto simp: validate_journal_def and_then_eq_Inr list_all_iff is_ok_iff
      dest: validate_directories_parse split: if_splits)

context cap_fs
begin

lemma validated_planned: "validate_journal F j = Inr () \<Longrightarrow> targets_apart j \<Longrightarrow> planned j"
  using validate_journal_parts [of F j] uuid_parse by (auto simp: planned_def targets_apart_def)

lemma wp_load_journal_of:
  assumes "\<And>w' j. tree w' = tree w \<Longrightarrow> validate_journal F j = Inr () \<Longrightarrow> journal_of F (tree w) i = Some j \<Longrightarrow> Q j w'"
    and "\<And>e w'. tree w' = tree w \<Longrightarrow> E e w'"
  shows "wp (load_journal F (tx_dir i)) Q E w"
  by (rule wp_load_journal) (auto simp: journal_of_def intro: assms)

lemma wp_open_root:
  "(\<And>w'. tree w' = tree w \<Longrightarrow> Q [] w') \<Longrightarrow> (\<And>e w'. tree w' = tree w \<Longrightarrow> E e w') \<Longrightarrow> wp (open_root F) Q E w"
  unfolding open_root_def wp_simps by (rule wp_open_ambient)

lemma made_no_dirs: "made_dirs {} t t' \<Longrightarrow> t' = t"
  by (auto simp: made_dirs_def fun_eq_iff)

lemma wp_open_transactions:
  assumes "\<And>w'. tree w' = tree w \<Longrightarrow> Q (Some [CONTROL_DIR, TRANSACTIONS_DIR]) w'"
    and "\<And>w'. tree w' = tree w \<Longrightarrow> tree w [CONTROL_DIR] = None \<or> tree w [CONTROL_DIR, TRANSACTIONS_DIR] = None \<Longrightarrow> Q None w'"
    and "\<And>e w'. tree w' = tree w \<Longrightarrow> E e w'"
  shows "wp (open_transactions F [] False) Q E w"
  unfolding open_transactions_def wp_simps
  apply (rule wp_mono [OF wp_open_or_create [OF journal_names(3)]])
  subgoal for r w1
    apply (auto simp: wp_simps dest!: made_no_dirs split: option.splits intro: assms)
    apply (rule wp_mono [OF wp_open_or_create [OF journal_names(4)]])
     apply (auto dest!: made_no_dirs split: option.splits intro: assms)
    done
  subgoal by (auto dest!: made_no_dirs intro: assms)
  done

lemma made_same_outside: "made_dirs {c # p} t t' \<Longrightarrow> same_outside [c] t t'"
  unfolding made_dirs_def same_outside_def by (metis Cons_prefix_Cons Nil_prefix singletonD)

lemma wp_open_transactions_create:
  "wp (open_transactions F [] True)
    (\<lambda>r w'. same_outside [CONTROL_DIR] (tree w) (tree w') \<and> r = Some [CONTROL_DIR, TRANSACTIONS_DIR])
    (\<lambda>_ w'. same_outside [CONTROL_DIR] (tree w) (tree w')) w"
  unfolding open_transactions_def wp_simps
  apply (rule wp_mono [OF wp_open_or_create [OF journal_names(3)]])
  subgoal for r w1
    apply (auto simp: wp_simps dest!: made_same_outside split: option.splits)
    apply (rule wp_mono [OF wp_open_or_create [OF journal_names(4)]])
     apply (auto dest!: made_same_outside intro: same_outside_trans split: option.splits)
    done
  subgoal by (auto dest!: made_same_outside)
  done

lemma wp_create_control_dir:
  assumes "plain_name n" "same_outside [CONTROL_DIR] t (tree w)" "prefix [CONTROL_DIR] d"
    and "\<And>w'. same_outside [CONTROL_DIR] t (tree w') \<Longrightarrow> Q () w'"
    and "\<And>e w'. same_outside [CONTROL_DIR] t (tree w') \<Longrightarrow> E e w'"
  shows "wp (h_create_dir F d n) Q E w"
  by (rule wp_create_dir [OF assms(1)])
    (use assms(2,3) in \<open>auto intro!: assms(4,5) same_outside_upd\<close>)

lemma wp_create_transaction:
  assumes "\<And>i w'. same_outside [CONTROL_DIR] (tree w) (tree w') \<Longrightarrow> plain_name i \<Longrightarrow> h_uuid_parse F i \<Longrightarrow>
      Q ([CONTROL_DIR, TRANSACTIONS_DIR], i, tx_dir i) w'"
    and "\<And>e w'. same_outside [CONTROL_DIR] (tree w) (tree w') \<Longrightarrow> E e w'"
  shows "wp (create_transaction F []) Q E w"
proof -
  let ?S = "\<lambda>w'. same_outside [CONTROL_DIR] (tree w) (tree w')"
  have uuid: "wp (\<lambda>w. case h_uuid_new F w of (i, w') \<Rightarrow> (Inr i, w')) Q' E' w1"
    if "?S w1" "\<And>i w'. ?S w' \<Longrightarrow> plain_name i \<Longrightarrow> h_uuid_parse F i \<Longrightarrow> Q' i w'" for Q' E' w1
    using that uuid_new by (auto simp: wp_def split: prod.splits)
  show ?thesis
    unfolding create_transaction_def wp_simps
    apply (rule wp_mono [OF wp_open_transactions_create])
    subgoal for r w1
      apply (clarsimp simp: wp_simps)
      apply (rule uuid, assumption)
      apply (rule wp_create_control_dir, assumption, assumption, simp)
       apply (rule wp_open_dir_nofollow, assumption)
        apply (rule wp_create_control_dir [OF journal_names(5)], simp, simp)
         apply (rule wp_create_control_dir [OF journal_names(6)], simp, simp)
          apply (auto intro!: wp_sync_directory assms(1) [unfolded tx_dir_def] assms(2))
      done
    subgoal using assms(2) by simp
    done
qed

lemma wp_cleanup:
  assumes "plain_name i"
  shows "wp (cleanup_transaction F [CONTROL_DIR, TRANSACTIONS_DIR] i)
    (\<lambda>_ w'. same_outside [CONTROL_DIR] (tree w) (tree w')) (\<lambda>_ w'. same_outside [CONTROL_DIR] (tree w) (tree w')) w"
proof -
  have removed: "same_outside [CONTROL_DIR] (tree w) (tree w')"
    if "h_remove_dir_all F [CONTROL_DIR, TRANSACTIONS_DIR] i w = (r, w')" for r w'
    using remove_dir_all [OF that assms] unfolding same_outside_def
    by (metis append_Cons append_Nil append_prefixD)
  show ?thesis
    unfolding cleanup_transaction_def wp_simps
    by (rule wpI; drule removed) (auto simp: wp_simps intro!: wp_sync_directory)
qed

lemma wp_open_transaction:
  assumes "\<And>w'. tree w' = tree w \<Longrightarrow> plain_name i \<Longrightarrow> Q ([], [CONTROL_DIR, TRANSACTIONS_DIR], tx_dir i) w'"
    and "\<And>e w'. tree w' = tree w \<Longrightarrow> E e w'"
  shows "wp (open_transaction F i) Q E w"
proof (cases "h_uuid_parse F i")
  case True
  note i = uuid_parse [OF this]
  show ?thesis
    unfolding open_transaction_def wp_simps validate_transaction_id_def
    using True assms(1) [unfolded tx_dir_def, OF _ i]
    by (auto simp: wp_simps intro!: wp_open_root wp_open_transactions wp_open_dir_nofollow [OF i] assms(2))
next
  case False
  then show ?thesis
    unfolding open_transaction_def wp_simps validate_transaction_id_def by (auto intro: assms(2))
qed

lemma tx_inv_control:
  assumes "planned j" "same_outside [CONTROL_DIR] (tree (fst s)) (tree w')" "tx_inv H tree j t0 k s"
  shows "tx_inv H tree j t0 k (w', snd s)"
  using tx_inv_unseen [OF unseen_control [OF assms(1,2)] assms(3)] tx_inv_plan(1) [OF assms(3)] by simp

lemma wp_rollback_transaction:
  assumes j: "journal_of F (tree w) i = Some j" "targets_apart j"
  shows "wp (rollback_transaction F i)
    (\<lambda>_ w'. exposed (h_blake3 F) (jn_operations j) (tree w') 0 \<and> kept (jn_operations j) (tree w) (tree w'))
    (\<lambda>_ w'. still_recoverable (h_blake3 F) j (tree w) (tree w')) w"
  unfolding rollback_transaction_def wp_simps
  apply (rule wp_open_transaction)
   apply (simp add: wp_simps)
   apply (rule wp_load_journal_of)
  subgoal premises prems for w1 w2 j2
  proof -
    have j2: "j2 = j" using prems j(1) by simp
    have plan: "planned j" using validated_planned prems(4) j(2) by (simp add: j2)
    have t: "tree w2 = tree w" using prems by simp
    have clean: "wp (cleanup_transaction F [CONTROL_DIR, TRANSACTIONS_DIR] i)
        (\<lambda>_ w'. exposed (h_blake3 F) (jn_operations j) (tree w') 0 \<and> kept (jn_operations j) (tree w) (tree w'))
        (\<lambda>_ w'. still_recoverable (h_blake3 F) j (tree w) (tree w')) (fst s)"
      if inv: "tx_inv (h_blake3 F) tree j (tree w) 0 s" for s
      by (rule wp_mono [OF wp_cleanup [OF prems(2)]]; drule tx_inv_control [OF plan _ inv])
        (auto simp: tx_inv_def still_recoverable_def)
    show ?thesis
      unfolding j2
      apply (rule wp_mono [OF wp_reconcile [OF plan]])
        apply (simp_all add: t wp_simps)
      apply (rule wp_mono [OF wp_rollback [OF plan]])
         apply (auto intro: clean still_recoverable_intro)
      done
  qed
   apply auto
  done

lemma wp_resume_transaction:
  assumes j: "journal_of F (tree w) i = Some j" "targets_apart j"
  shows "wp (resume_transaction F i)
    (\<lambda>_ w'. exposed (h_blake3 F) (jn_operations j) (tree w') (length (jn_operations j)) \<and>
       kept (jn_operations j) (tree w) (tree w') \<and> dirs_at (tree w') (jn_required_directories j))
    (\<lambda>_ w'. still_recoverable (h_blake3 F) j (tree w) (tree w')) w"
  unfolding resume_transaction_def wp_simps
  apply (rule wp_open_transaction)
   apply (simp add: wp_simps)
   apply (rule wp_load_journal_of)
  subgoal premises prems for w1 w2 j2
  proof -
    have j2: "j2 = j" using prems j(1) by simp
    have plan: "planned j" using validated_planned prems(4) j(2) by (simp add: j2)
    have t: "tree w2 = tree w" using prems by simp
    let ?Q = "\<lambda>w'. exposed (h_blake3 F) (jn_operations j) (tree w') (length (jn_operations j)) \<and>
       kept (jn_operations j) (tree w) (tree w') \<and> dirs_at (tree w') (jn_required_directories j)"
    have close: "wp (persist_journal F (tx_dir i) j')
        (\<lambda>_ w'. wp (io_lift (journal_total_size j')) (\<lambda>_. ?Q) (\<lambda>_ w'. still_recoverable (h_blake3 F) j (tree w) (tree w')) w')
        (\<lambda>_ w'. still_recoverable (h_blake3 F) j (tree w) (tree w')) (fst s)"
      if inv: "tx_inv (h_blake3 F) tree j (tree w) (length (jn_operations j)) s"
        and dirs: "dirs_at (tree (fst s)) (jn_required_directories j)" for s j'
    proof (rule wp_mono [OF wp_persist_journal], goal_cases)
      case (1 x w')
      note u = journaled_unseen(2) [OF plan 1]
      have "tx_inv (h_blake3 F) tree j (tree w) (length (jn_operations j)) (w', snd s)"
        by (rule tx_inv_control [OF plan u inv])
      moreover have "dirs_at (tree w') (jn_required_directories j)"
        using dirs_at_stay [OF plan _ dirs dirs_stay_control [OF u]] by simp
      ultimately show ?case
        using still_recoverable_intro(2) by (fastforce simp: wp_simps tx_inv_def split: sum.splits)
    next
      case (2 e w')
      from tx_inv_control [OF plan journaled_unseen(2) [OF plan 2] inv] show ?case
        by (auto dest: still_recoverable_intro(2))
    qed
    show ?thesis
      unfolding j2
      apply (simp add: wp_simps t)
      apply (intro impI)
      apply (rule wp_mono [OF wp_reconcile [OF plan]])
        apply (simp_all add: t wp_simps)
      subgoal for s1
        apply (rule wp_verify_staged [OF plan])
          apply (simp add: tx_inv_def same_plan_def)
         apply (rule wp_mono [OF wp_commit [OF plan, where ?t0.0 = "tree w" and c = "jn_committed (snd s1)"]])
            apply (simp add: tx_inv_def)
           apply simp
        subgoal for w3 x s2
          using close [of s2 "snd s2\<lparr>jn_state := Committed\<rparr>"] by (simp add: Let_def wp_statements)
        subgoal for w3 e s2 by (rule still_recoverable_intro(3))
        subgoal for e w3 using still_recoverable_intro(2) [of _ _ _ _ _ s1] by auto
        done
      apply (auto intro: still_recoverable_intro)
      done
  qed
   apply auto
  done

end

section \<open>From a file list to a plan\<close>

definition plans :: "blake3 \<Rightarrow> fs_tree \<Rightarrow> nat \<Rightarrow> verified_file \<Rightarrow> journal_operation \<Rightarrow> bool" where
  "plans H t n f oper \<longleftrightarrow>
     jo_target oper = as_str (vf_path f) \<and> jo_staged oper = staged_name n \<and>
     file_or_absent (t (file_path f)) \<and>
     jo_backup oper = map_option (\<lambda>_. backup_name n) (snapshot (t (file_path f))) \<and>
     jo_original_digest oper = map_option (\<lambda>v. digest_bytes (file_digest H (ts_bytes v))) (snapshot (t (file_path f))) \<and>
     jo_original_executable oper = (case snapshot (t (file_path f)) of None \<Rightarrow> False | Some v \<Rightarrow> ts_executable v) \<and>
     jo_new_digest oper = digest_bytes (file_digest H (vf_bytes f)) \<and> jo_executable oper = vf_executable f"

definition all_planned :: "blake3 \<Rightarrow> fs_tree \<Rightarrow> verified_file list \<Rightarrow> journal_operation list \<Rightarrow> bool" where
  "all_planned H t fs ops \<longleftrightarrow> length ops = length fs \<and> (\<forall>n<length fs. plans H t n (fs ! n) (ops ! n))"

text \<open>
  What a caller can see: the first \<open>k\<close> files are in place, the targets of the others are as before, and
  outside the targets and the engine's own files only directories have come or gone.
\<close>

definition shows_prefix :: "blake3 \<Rightarrow> verified_file list \<Rightarrow> fs_tree \<Rightarrow> fs_tree \<Rightarrow> nat \<Rightarrow> bool" where
  "shows_prefix H fs t0 t k \<longleftrightarrow> k \<le> length fs \<and>
     (\<forall>i<length fs. if i < k then has_file H (fs ! i) (t (file_path (fs ! i)))
        else unchanged H (t0 (file_path (fs ! i))) (t (file_path (fs ! i)))) \<and>
     (\<forall>q. q \<notin> file_path ` set fs \<and> \<not> engine_path q \<longrightarrow>
        t q = t0 q \<or> (t0 q \<in> {None, Some DirNode} \<and> t q \<in> {None, Some DirNode}))"

lemma plans_target: "plans H t n f oper \<Longrightarrow> target_path oper = file_path f"
  by (simp add: plans_def target_path_def file_path_def)

lemma plans_original: "plans H t n f oper \<Longrightarrow> holds_original H t oper"
  unfolding holds_original_def
  by (auto simp: plans_target) (auto simp: plans_def is_original_def split: option.splits)

lemma snapshot_eq_Some:
  "snapshot node = Some v \<longleftrightarrow> (\<exists>bs mode. node = Some (FileNode bs mode) \<and> v = \<lparr>ts_bytes = bs, ts_executable = mode_executable mode\<rparr>)"
  by (auto simp: snapshot_def split: option.splits fs_node.splits)

lemma snapshot_eq_None: "file_or_absent node \<Longrightarrow> snapshot node = None \<longleftrightarrow> node = None"
  by (auto simp: snapshot_def file_or_absent_def split: option.splits fs_node.splits)

lemma plans_unchanged:
  assumes "plans H t n f oper" "holds_original H t' oper"
  shows "unchanged H (t (file_path f)) (t' (file_path f))"
proof (cases "snapshot (t (file_path f))")
  case None
  with assms have "t (file_path f) = None" "t' (file_path f) = None"
    by (auto simp: plans_def holds_original_def target_path_def file_path_def is_original_def snapshot_eq_None
        split: option.splits)
  then show ?thesis by (simp add: unchanged_def)
next
  case (Some v)
  then obtain bs mode where v: "t (file_path f) = Some (FileNode bs mode)" by (auto simp: snapshot_eq_Some)
  with assms show ?thesis
    by (auto simp: plans_def holds_original_def target_path_def file_path_def is_original_def unchanged_def snapshot_eq_Some
        split: option.splits)
qed

lemma plans_has_file:
  "plans H t n f oper \<Longrightarrow> holds_new H t' oper \<Longrightarrow> has_file H f (t' (file_path f))"
  by (auto simp: holds_new_def is_new_def target_path_def file_path_def plans_def has_file_def snapshot_eq_Some
      split: option.splits)

lemma valid_tree_files:
  assumes "valid_tree fs ds" "n < length fs"
  shows "parse_path (as_str (vf_path (fs ! n))) = Inr (vf_path (fs ! n))"
    "plain_path (as_str (vf_path (fs ! n)))" "\<not> prefix [CONTROL_DIR] (file_path (fs ! n))"
proof -
  from assms have "valid_path (vf_path (fs ! n))" by (simp add: valid_tree_def list_all_length)
  then show ok: "parse_path (as_str (vf_path (fs ! n))) = Inr (vf_path (fs ! n))"
    by (auto simp: valid_path_def parse_path_def path_new_def path_with_max_bytes_def is_ok_iff and_then_eq_Inr)
  show "plain_path (as_str (vf_path (fs ! n)))" by (rule parse_path_plain(2) [OF ok])
  show "\<not> prefix [CONTROL_DIR] (file_path (fs ! n))"
    using parse_path_plain(3) [OF ok] by (cases "file_path (fs ! n)") (auto simp: file_path_def)
qed

lemma shows_prefix_start:
  assumes "valid_tree fs ds" "same_outside [CONTROL_DIR] t0 t" shows "shows_prefix H fs t0 t 0"
  using assms valid_tree_files(3) [OF assms(1)]
  by (auto simp: shows_prefix_def same_outside_def unchanged_def engine_path_def)

lemma shows_prefix_exposed:
  assumes "valid_tree fs ds" "same_outside [CONTROL_DIR] t0 t" "all_planned H t fs (jn_operations j)"
    and "exposed H (jn_operations j) t' k" "kept (jn_operations j) t t'"
  shows "shows_prefix H fs t0 t' k"
proof -
  have plan: "plans H t i (fs ! i) (jn_operations j ! i)" and len: "length (jn_operations j) = length fs"
    if "i < length fs" for i using assms(3) that by (auto simp: all_planned_def)
  have t0: "t (file_path (fs ! i)) = t0 (file_path (fs ! i))" if "i < length fs" for i
    using assms(2) valid_tree_files(3) [OF assms(1) that] by (simp add: same_outside_def)
  have paths: "target_path ` set (jn_operations j) = file_path ` set fs"
    using assms(3) plans_target unfolding all_planned_def set_conv_nth
    by (auto simp: image_iff) (metis plans_target)+
  have "if i < k then has_file H (fs ! i) (t' (file_path (fs ! i)))
      else unchanged H (t0 (file_path (fs ! i))) (t' (file_path (fs ! i)))" if "i < length fs" for i
    using assms(4) plans_has_file [OF plan [OF that]] plans_unchanged [OF plan [OF that]] t0 [OF that] that assms(3)
    unfolding exposed_def all_planned_def by (cases "i < k") auto
  moreover have "t' q = t0 q \<or> t0 q \<in> {None, Some DirNode} \<and> t' q \<in> {None, Some DirNode}"
    if "q \<notin> file_path ` set fs \<and> \<not> engine_path q" for q
  proof -
    from that assms(2) have "t q = t0 q" by (auto simp: same_outside_def engine_path_def)
    with assms(5) that paths show ?thesis unfolding kept_def by auto
  qed
  moreover have "k \<le> length fs" using assms(3,4) by (simp add: exposed_def all_planned_def)
  ultimately show ?thesis by (auto simp: shows_prefix_def)
qed

lemma all_planned_start: "all_planned H t fs ops \<Longrightarrow> exposed H ops t 0"
  by (auto simp: exposed_def all_planned_def intro: plans_original)

lemma all_planned_planned:
  assumes "valid_tree fs ds" "all_planned H t fs (jn_operations j)"
    and "map jd_path (jn_required_directories j) = map as_str ds" and "plain_name (jn_id j)"
  shows "planned j"
proof -
  have len: "length (jn_operations j) = length fs" using assms(2) by (simp add: all_planned_def)
  have plan: "plans H t i (fs ! i) (jn_operations j ! i)" if "i < length fs" for i
    using assms(2) that by (simp add: all_planned_def)
  have ops: "is_ok (validate_operation (i, jn_operations j ! i))" if "i < length fs" for i
    using plan [OF that] valid_tree_files(1) [OF assms(1) that]
    by (auto simp: validate_operation_def plans_def option.map_comp pred_option_def split: option.splits)
  have "map target_path (jn_operations j) = map file_path fs"
    using len plans_target [OF plan] by (intro nth_equalityI) auto
  moreover have "map (\<lambda>d. split_on 47 (jd_path d)) (jn_required_directories j) = map (\<lambda>d. split_on 47 (as_str d)) ds"
    using arg_cong [OF assms(3), of "map (split_on 47)"] by (simp add: comp_def)
  moreover have "is_ok (parse_path (jd_path d))" if "d \<in> set (jn_required_directories j)" for d
  proof -
    from that have "jd_path d \<in> set (map as_str ds)" by (metis assms(3) image_eqI list.set_map)
    with assms(1) show ?thesis
      by (auto simp: valid_tree_def list_all_iff valid_path_def parse_path_def is_ok_iff)
  qed
  ultimately show ?thesis
    using assms(1,4) ops len
    by (auto simp: planned_def valid_tree_def list_all_iff in_set_enumerate_eq)
qed

section \<open>Applying\<close>

definition fully_applied :: "blake3 \<Rightarrow> journal \<Rightarrow> fs_tree \<Rightarrow> fs_tree \<Rightarrow> bool" where
  "fully_applied H j t t' \<longleftrightarrow> exposed H (jn_operations j) t' (length (jn_operations j)) \<and>
     kept (jn_operations j) t t' \<and> dirs_at t' (jn_required_directories j)"

definition partly_applied :: "blake3 \<Rightarrow> journal \<Rightarrow> fs_tree \<Rightarrow> fs_tree \<Rightarrow> bool" where
  "partly_applied H j t t' \<longleftrightarrow> (\<exists>k. exposed H (jn_operations j) t' k \<and> kept (jn_operations j) t t')"

definition report_matches :: "bytes \<Rightarrow> bool \<Rightarrow> journal \<Rightarrow> apply_report \<Rightarrow> bool" where
  "report_matches i retain j r \<longleftrightarrow>
     rp_transaction_id r = i \<and> rp_files_written r = length (jn_operations j) \<and>
     rp_directories_ensured r = length (jn_required_directories j) \<and>
     rp_retained_backup r = (if retain then Some (transaction_path i) else None)"

lemma partly_applied_intro: "fully_applied H j t t' \<Longrightarrow> partly_applied H j t t'"
  by (auto simp: fully_applied_def partly_applied_def)

context cap_fs
begin

lemma wp_prepare_directories:
  assumes "list_all valid_path ds"
  shows "wp (prepare_directories F [] fs ds)
    (\<lambda>r w'. tree w' = tree w \<and> map jd_path r = map as_str ds \<and>
       (\<forall>ops. map jo_target ops = map (\<lambda>f. as_str (vf_path f)) fs \<longrightarrow>
          is_ok (try_fold (validate_directory ops) None r)))
    (\<lambda>_ w'. tree w' = tree w) w"
  unfolding prepare_directories_def wp_simps
proof (rule wp_fold [where I = "\<lambda>ys acc w'. tree w' = tree w \<and> map jd_path (snd acc) = map as_str ys \<and>
      (\<forall>ops. map jo_target ops = map (\<lambda>f. as_str (vf_path f)) fs \<longrightarrow>
         try_fold (validate_directory ops) None (snd acc) = Inr (fst acc))"], goal_cases)
  case (1 ys d zs acc w1)
  then have d: "valid_path d" using assms by simp
  then obtain p where p: "parse_path (as_str d) = Inr p"
    by (auto simp: valid_path_def is_ok_iff parse_path_def)
  have targets: "list_ex (\<lambda>oper. jo_target oper = as_str d) ops \<longleftrightarrow> list_ex (\<lambda>f. as_str (vf_path f) = as_str d) fs"
    if "map jo_target ops = map (\<lambda>f. as_str (vf_path f)) fs" for ops
  proof -
    have "list_ex (\<lambda>oper. jo_target oper = as_str d) ops \<longleftrightarrow> as_str d \<in> set (map jo_target ops)"
      by (force simp: list_ex_iff)
    then show ?thesis unfolding that by (force simp: list_ex_iff)
  qed
  obtain prev prepared where acc: "acc = (prev, prepared)" by (cases acc)
  show ?case
    using 1(2) parse_path_plain(2) [OF p] targets
    unfolding acc prepare_directory_def prod.case Let_def
    by (auto simp: wp_simps try_fold_append validate_directory_def p intro!: wp_directory_exists)
qed (auto simp: wp_simps)

lemma wp_prepare_operations:
  assumes "valid_tree fs ds"
  shows "wp (io_fold (prepare_operation F []) [] (enumerate 0 fs))
    (\<lambda>ops w'. tree w' = tree w \<and> all_planned (h_blake3 F) (tree w) fs ops) (\<lambda>_ w'. tree w' = tree w) w"
proof (rule wp_fold [where I = "\<lambda>ys ops w'. tree w' = tree w \<and> length ops = length ys \<and>
      (\<forall>n<length ys. plans (h_blake3 F) (tree w) n (fs ! n) (ops ! n))"], goal_cases)
  case (1 ys x zs ops w1)
  then have "length ys < length (enumerate 0 fs)" "x = enumerate 0 fs ! length ys" by simp_all
  then have n: "length ys < length fs" and x: "x = (length ys, fs ! length ys)"
    by (simp_all add: nth_enumerate_eq)
  note f = valid_tree_files(2) [OF assms n]
  from 1(2) show ?case
    unfolding x prepare_operation_def prod.case wp_simps
    by (intro wp_read_target [OF f])
      (auto simp: wp_simps nth_append less_Suc_eq plans_def file_path_def option.map_comp comp_def
        split: sum.splits option.splits)
qed (auto simp: all_planned_def)

lemma wp_prepare:
  assumes "valid_tree fs ds" "plain_name i"
    and "\<And>j w'. tree w' = tree w \<Longrightarrow> planned j \<Longrightarrow> jn_committed j = 0 \<Longrightarrow>
      all_planned (h_blake3 F) (tree w) fs (jn_operations j) \<Longrightarrow>
      map jd_path (jn_required_directories j) = map as_str ds \<Longrightarrow> Q j w'"
    and "\<And>e w'. tree w' = tree w \<Longrightarrow> E e w'"
  shows "wp (prepare F src fs ds [] i rb) Q E w"
  unfolding prepare_def wp_simps
  apply (rule wp_mono [OF wp_prepare_directories])
    apply (use assms(1) in \<open>simp add: valid_tree_def\<close>)
  subgoal for dirs w1
    apply (rule wp_mono [OF wp_prepare_operations [OF assms(1)]])
    subgoal for ops w2
      by (rule assms(3)) (auto intro: all_planned_planned [OF assms(1)] simp: assms(2))
    subgoal by (simp add: assms(4))
    done
  subgoal by (simp add: assms(4))
  done

lemma wp_prepare_valid:
  assumes files: "list_all (\<lambda>f. valid_path (vf_path f)) fs" and dirs: "list_all valid_path ds"
    and id: "h_uuid_parse F i"
  shows "wp (prepare F src fs ds [] i rb) (\<lambda>j _. validate_journal F j = Inr ()) (\<lambda>_ _. True) w"
proof -
  have ops: "wp (io_fold (prepare_operation F []) [] (enumerate 0 fs))
      (\<lambda>ops _. map jo_target ops = map (\<lambda>f. as_str (vf_path f)) fs \<and>
         (\<forall>n<length ops. validate_operation (n, ops ! n) = Inr ())) (\<lambda>_ _. True) w1" for w1
  proof (rule wp_fold [where I = "\<lambda>ys ops _. map jo_target ops = map (\<lambda>f. as_str (vf_path f)) (map snd ys) \<and>
        (\<forall>n<length ops. validate_operation (n, ops ! n) = Inr ())"], goal_cases)
    case (1 ys x zs ops w2)
    then have "length ys < length (enumerate 0 fs)" "x = enumerate 0 fs ! length ys" by simp_all
    then have n: "length ys < length fs" and x: "x = (length ys, fs ! length ys)"
      by (simp_all add: nth_enumerate_eq)
    with files have "valid_path (vf_path (fs ! length ys))" by (simp add: list_all_length)
    then obtain p where p: "parse_path (as_str (vf_path (fs ! length ys))) = Inr p"
      by (auto simp: valid_path_def is_ok_iff parse_path_def)
    from 1(2) have len: "length ops = length ys" by (metis length_map)
    from 1(2) len show ?case
      unfolding x prepare_operation_def prod.case wp_simps
      by (intro wp_read_target [OF parse_path_plain(2) [OF p]])
        (auto simp: wp_simps nth_append less_Suc_eq validate_operation_def p option.pred_map comp_def
          option.pred_True split: sum.splits option.splits)
  qed simp_all
  show ?thesis
    unfolding prepare_def wp_simps
    apply (rule wp_mono [OF wp_prepare_directories [OF dirs]])
     apply (rule wp_mono [OF ops])
      apply (auto simp: validate_journal_def id is_ok_iff and_then_eq_Inr in_set_enumerate_eq)
    done
qed

lemma wp_stage_operation:
  assumes "plain_path (as_str (vf_path f))" "plain_path (jo_staged oper)"
    and "\<And>b. jo_backup oper = Some b \<Longrightarrow> plain_path b"
    and "same_outside [CONTROL_DIR] t (tree w)"
  shows "wp (stage_operation F [] (tx_dir i) (f, oper))
    (\<lambda>_ w'. same_outside [CONTROL_DIR] t (tree w')) (\<lambda>_ w'. same_outside [CONTROL_DIR] t (tree w')) w"
proof -
  have upd: "same_outside [CONTROL_DIR] t (t'(tx_dir i @ p := v))" if "same_outside [CONTROL_DIR] t t'" for t' p v
    using that by (auto simp: tx_dir_def intro: same_outside_upd)
  show ?thesis
    unfolding stage_operation_def prod.case wp_simps
    using assms(4)
    by (intro wp_write_new_file [OF assms(2)])
      (auto simp: wp_simps upd assms(1,3) intro!: wp_verify_file [OF assms(2)] wp_read_target
        wp_write_new_file wp_verify_file split: option.splits sum.splits)
qed

lemma wp_stage:
  assumes "planned (snd s)" "valid_tree fs ds" "all_planned H t fs (jn_operations (snd s))"
  shows "wp (stage F fs [] (tx_dir i))
    (\<lambda>_ s'. same_outside [CONTROL_DIR] (tree (fst s)) (tree (fst s')) \<and> snd s' = (snd s)\<lparr>jn_state := Staged\<rparr>)
    (\<lambda>_ s'. same_outside [CONTROL_DIR] (tree (fst s)) (tree (fst s'))) s"
proof -
  let ?ops = "jn_operations (snd s)"
  have len: "length ?ops = length fs" using assms(3) by (simp add: all_planned_def)
  have "wp (io_for_each (stage_operation F [] (tx_dir i)) (zip fs ?ops))
      (\<lambda>_ w'. same_outside [CONTROL_DIR] (tree (fst s)) (tree w'))
      (\<lambda>_ w'. same_outside [CONTROL_DIR] (tree (fst s)) (tree w')) (fst s)"
  proof (rule wp_for_each [where I = "\<lambda>_ w'. same_outside [CONTROL_DIR] (tree (fst s)) (tree w')"], goal_cases)
    case (1 ys x zs w1)
    then have "length ys < length (zip fs ?ops)" "x = zip fs ?ops ! length ys" by simp_all
    then have n: "length ys < length fs" "length ys < length ?ops"
      and x: "x = (fs ! length ys, ?ops ! length ys)" by (simp_all add: len)
    from planned_operation(2,4) [OF assms(1) n(2)] have "plain_path (jo_staged (?ops ! length ys))"
      "\<And>b. jo_backup (?ops ! length ys) = Some b \<Longrightarrow> plain_path b"
      using staged_backup_plain by metis+
    from wp_stage_operation [OF valid_tree_files(2) [OF assms(2) n(1)] this 1(2)]
    show ?case unfolding x .
  qed simp_all
  then show ?thesis
    unfolding stage_def wp_simps using len by (auto elim: wp_mono)
qed

lemma fully_applied_control:
  assumes "planned j" "fully_applied H j t (tree w1)" "same_outside [CONTROL_DIR] (tree w1) (tree w2)"
  shows "fully_applied H j t (tree w2)"
proof -
  from assms(2) have "tx_inv H tree j t (length (jn_operations j)) (w1, j)"
    by (simp add: tx_inv_def fully_applied_def)
  with tx_inv_control [OF assms(1) _ this, of w2] assms dirs_at_stay [OF assms(1) order.refl _ dirs_stay_control]
  show ?thesis by (auto simp: tx_inv_def fully_applied_def)
qed

lemma wp_finish_apply:
  assumes plan: "planned j" and i: "plain_name i" and "same_plan j j'" and start: "fully_applied (h_blake3 F) j t (tree w)"
  shows "wp (finish_apply F [CONTROL_DIR, TRANSACTIONS_DIR] i (tx_dir i) rb j')
    (\<lambda>r w'. fully_applied (h_blake3 F) j t (tree w') \<and> report_matches i rb j r)
    (\<lambda>_ w'. partly_applied (h_blake3 F) j t (tree w')) w"
proof -
  note step = fully_applied_control [OF plan]
  have clean: "wp (cleanup_transaction F [CONTROL_DIR, TRANSACTIONS_DIR] i)
      (\<lambda>_ w'. fully_applied (h_blake3 F) j t (tree w')) (\<lambda>_ w'. partly_applied (h_blake3 F) j t (tree w')) w1"
    if "fully_applied (h_blake3 F) j t (tree w1)" for w1
    using step [OF that] partly_applied_intro by (intro wp_mono [OF wp_cleanup [OF i]]) blast+
  show ?thesis
    unfolding finish_apply_def Let_def wp_simps
    apply (rule wp_mono [OF wp_persist_journal])
    subgoal for u w1
      using step [OF start journaled_unseen(2) [OF plan]] assms(3)
      by (auto simp: wp_simps report_of_def report_matches_def same_plan_def split: sum.splits
          intro!: wp_mono [OF clean] intro: partly_applied_intro)
    subgoal for e w1
      using step [OF start journaled_unseen(2) [OF plan]] partly_applied_intro by blast
    done
qed

lemma wp_commit_apply:
  assumes plan: "planned j" and i: "plain_name i"
    and inv: "tx_inv (h_blake3 F) tree j t 0 (w, j')" and com: "jn_committed j' = 0"
  shows "wp (commit_apply F [] [CONTROL_DIR, TRANSACTIONS_DIR] i (tx_dir i) rb j')
    (\<lambda>r w'. fully_applied (h_blake3 F) j t (tree w') \<and> report_matches i rb j r)
    (\<lambda>_ w'. partly_applied (h_blake3 F) j t (tree w')) w"
    (is "wp _ ?Q ?E w")
proof -
  have stop: "?E e (fst s)" if "tx_inv (h_blake3 F) tree j t k s" for e k s
    using that by (auto simp: tx_inv_def partly_applied_def)
  have clean: "wp (cleanup_transaction F [CONTROL_DIR, TRANSACTIONS_DIR] i) (\<lambda>_. ?E e) (\<lambda>_. ?E e) (fst s)"
    if "tx_inv (h_blake3 F) tree j t k s" for e k s
    by (rule wp_mono [OF wp_cleanup [OF i]]; drule tx_inv_control [OF plan _ that])
      (auto simp: tx_inv_def partly_applied_def)
  have undo: "wp (rollback F [] (tx_dir i))
      (\<lambda>x s'. wp (cleanup_transaction F [CONTROL_DIR, TRANSACTIONS_DIR] i) (\<lambda>_. ?E e) (\<lambda>_. ?E e) (fst s'))
      (\<lambda>e' s'. ?E e' (fst s')) s" if "tx_stopped (h_blake3 F) tree j t s" for s e
  proof -
    from that obtain k where k: "tx_inv (h_blake3 F) tree j t k s" "k \<le> Suc (jn_committed (snd s))"
      by (auto simp: tx_stopped_def)
    show ?thesis
      by (rule wp_mono [OF wp_rollback [OF plan k]]) (use clean stop in blast)+
  qed
  have finished: "wp (finish_apply F [CONTROL_DIR, TRANSACTIONS_DIR] i (tx_dir i) rb (snd s)) ?Q ?E (fst s)"
    if "tx_inv (h_blake3 F) tree j t (length (jn_operations j)) s"
      "dirs_at (tree (fst s)) (jn_required_directories j)" for s
    using that by (intro wp_finish_apply [OF plan i]) (auto simp: tx_inv_def fully_applied_def)
  have start: "tx_inv (h_blake3 F) tree j t 0 (w1, j')" if "journaled (tx_dir i) vec (tree w) (tree w1)" for vec w1
    using tx_inv_control [OF plan _ inv] journaled_unseen(2) [OF plan that] by simp
  show ?thesis
    unfolding commit_apply_def wp_simps
    apply (rule wp_mono [OF wp_persist_journal])
    subgoal for u w1
      apply (rule wp_mono [OF wp_commit [OF plan start]], assumption)
      using finished undo by (auto simp: com wp_simps)
    subgoal for e w1 using stop start by fastforce
    done
qed

lemma wp_reject:
  assumes "\<And>w'. tree w' = tree w \<Longrightarrow> Q () w'" and "\<And>e w'. tree w' = tree w \<Longrightarrow> E e w'"
  shows "wp (reject_incomplete_transactions F []) Q E w"
proof -
  have entry: "wp (reject_entry F d e) (\<lambda>_ w'. tree w' = tree w) (\<lambda>_ w'. tree w' = tree w) w1"
    if "tree w1 = tree w" "\<And>n. e = Inr (Some n) \<Longrightarrow> plain_name n" for d e w1
    using that unfolding reject_entry_def
    by (auto simp: wp_simps split: sum.splits option.splits intro!: wp_open_dir_nofollow wp_load_journal)
  have loop: "wp (io_for_each (reject_entry F d) es) Q E w1"
    if "tree w1 = tree w" "\<And>n. Inr (Some n) \<in> set es \<Longrightarrow> plain_name n" for d es w1
  proof (rule wp_for_each [where I = "\<lambda>_ w'. tree w' = tree w"], goal_cases)
    case (1 ys x zs w2)
    with that(2) have "\<And>n. x = Inr (Some n) \<Longrightarrow> plain_name n" by simp
    from entry [OF 1(2) this] show ?case by (rule wp_mono) (auto intro: assms(2))
  qed (use that assms(1) in auto)
  have list: "wp (h_entries F d) (\<lambda>es. wp (io_for_each (reject_entry F d) es) Q E) (\<lambda>e. E (ApplyIo e)) w1"
    if "tree w1 = tree w" for d w1
    by (rule wpI; frule entries) (use that in \<open>auto intro!: loop assms(2)\<close>)
  show ?thesis
    unfolding reject_incomplete_transactions_def wp_simps
    by (rule wp_open_transactions) (auto simp: wp_simps intro!: assms list)
qed

lemma wp_apply:
  assumes "valid_tree fs ds"
  shows "wp (apply_verified_tree F src fs ds rb)
    (\<lambda>r w'. shows_prefix (h_blake3 F) fs (tree w) (tree w') (length fs) \<and>
       (\<forall>d\<in>set ds. tree w' (split_on 47 (as_str d)) = Some DirNode) \<and>
       rp_files_written r = length fs \<and> rp_directories_ensured r = length ds \<and>
       rp_retained_backup r = (if rb then Some (transaction_path (rp_transaction_id r)) else None))
    (\<lambda>_ w'. \<exists>k. shows_prefix (h_blake3 F) fs (tree w) (tree w') k) w" (is "wp _ ?Q ?E w")
proof -
  let ?C = "same_outside [CONTROL_DIR]"
  note trans = same_outside_trans
  have early: "?E e w'" if "?C (tree w) (tree w')" for e w'
    using shows_prefix_start [OF assms that] by blast
  have run: "wp (io_bind (owning j (stage F fs [] (tx_dir i))) (\<lambda>(r, j). case r of
       Inl e \<Rightarrow> io_bind (io_attempt (cleanup_transaction F [CONTROL_DIR, TRANSACTIONS_DIR] i)) (\<lambda>_. io_fail e)
     | Inr _ \<Rightarrow> commit_apply F [] [CONTROL_DIR, TRANSACTIONS_DIR] i (tx_dir i) rb j)) ?Q ?E w2"
    if i: "plain_name i" and w1: "?C (tree w) (tree w1)" and w2: "?C (tree w1) (tree w2)"
      and j: "planned j" "jn_committed j = 0" "all_planned (h_blake3 F) (tree w1) fs (jn_operations j)"
        "map jd_path (jn_required_directories j) = map as_str ds" for i w1 w2 j
  proof -
    have len: "length (jn_operations j) = length fs" using j(3) by (simp add: all_planned_def)
    have dirs: "\<forall>d\<in>set ds. t' (split_on 47 (as_str d)) = Some DirNode" if "dirs_at t' (jn_required_directories j)" for t'
    proof
      fix d assume "d \<in> set ds"
      then have "as_str d \<in> set (map jd_path (jn_required_directories j))" by (simp add: j(4))
      with that show "t' (split_on 47 (as_str d)) = Some DirNode" unfolding dirs_at_def by auto
    qed
    have full: "?Q r w'" if "fully_applied (h_blake3 F) j (tree w1) (tree w')" "report_matches i rb j r" for r w'
      using that shows_prefix_exposed [OF assms w1 j(3)] dirs arg_cong [OF j(4), of length]
      by (simp add: fully_applied_def report_matches_def len)
    have part: "?E e w'" if "partly_applied (h_blake3 F) j (tree w1) (tree w')" for e w'
      using that shows_prefix_exposed [OF assms w1 j(3)] by (auto simp: partly_applied_def)
    have start: "tx_inv (h_blake3 F) tree j (tree w1) 0 (w3, j')" if "?C (tree w2) (tree w3)" "same_plan j j'" for w3 j'
    proof -
      have "tx_inv (h_blake3 F) tree j (tree w1) 0 (w1, j)"
        using all_planned_start [OF j(3)] by (simp add: tx_inv_def)
      from tx_inv_unseen [OF unseen_control [OF j(1)] this that(2)] trans [OF w2 that(1)] show ?thesis by simp
    qed
    have clean: "wp (cleanup_transaction F [CONTROL_DIR, TRANSACTIONS_DIR] i) (\<lambda>_. ?E e) (\<lambda>_. ?E e) w3"
      if "?C (tree w2) (tree w3)" for e w3
      by (rule wp_mono [OF wp_cleanup [OF i]]) (use early trans [OF w1 trans [OF w2 trans [OF that]]] in blast)+
    have go: "wp (commit_apply F [] [CONTROL_DIR, TRANSACTIONS_DIR] i (tx_dir i) rb (j\<lparr>jn_state := Staged\<rparr>)) ?Q ?E w3"
      if "?C (tree w2) (tree w3)" for w3
      by (rule wp_mono [OF wp_commit_apply [OF j(1) i start [OF that]]]) (use full part j(2) in auto)
    show ?thesis
      unfolding wp_simps
      by (rule wp_mono [OF wp_stage [OF _ assms, of _ "h_blake3 F" "tree w1"]])
        (use j clean go in \<open>auto simp: wp_simps\<close>)
  qed
  show ?thesis
    unfolding apply_verified_tree_def wp_statements
    apply (rule wp_open_root)
     apply (rule wp_reject)
      apply (rule wp_create_transaction)
    subgoal for w1 w2 i w3
      apply (simp add: wp_statements)
      apply (rule wp_prepare [OF assms], assumption)
      subgoal for j w4
        apply (rule wp_mono [OF wp_persist_journal])
        subgoal for u w5
          using run [of i w3 w5 j] journaled_unseen(2) [of j i "h_to_vec F j" "tree w3" "tree w5"]
          by (simp add: wp_statements)
        subgoal for e w5
          using early [of w5] trans [of "[CONTROL_DIR]" "tree w" "tree w3" "tree w5"]
            journaled_unseen(2) [of j i "h_to_vec F j" "tree w3" "tree w5"] by simp
        done
      subgoal by (rule early) simp
      done
      apply (auto intro: early)
    done
qed

end

end
