(* ===== verification/Apply_Recovery.thy ===== *)
theory Apply_Recovery
  imports Apply_Transactions
begin

text \<open>
  When recovery cannot succeed: a temporary left beside a target blocks \<open>resume\<close>, a target below
  another target blocks both \<open>resume\<close> and \<open>rollback\<close>. And when \<open>apply\<close> refuses to start.
\<close>

definition stuck :: "('s, 'e, 'a) io \<Rightarrow> 's \<Rightarrow> bool" where
  "stuck m s \<longleftrightarrow> wp m (\<lambda>_ _. False) (\<lambda>_ _. True) s"

lemma stuck_iff: "stuck m s \<longleftrightarrow> (\<exists>e s'. m s = (Inl e, s'))"
  by (cases "m s") (auto simp: stuck_def wp_def split: sum.splits)

lemma stuck_bind:
  assumes "wp m Q E s" "\<And>x s'. Q x s' \<Longrightarrow> stuck (f x) s'" shows "stuck (io_bind m f) s"
  using assms(1) unfolding stuck_def wp_simps by (rule wp_mono) (use assms(2) in \<open>simp_all add: stuck_def\<close>)

lemma stuck_first: "stuck m s \<Longrightarrow> stuck (io_bind m f) s"
  unfolding stuck_def wp_simps by (erule wp_mono) simp_all

definition unfinished :: "'w host \<Rightarrow> fs_tree \<Rightarrow> bytes \<Rightarrow> bool" where
  "unfinished F t i \<longleftrightarrow> plain_name i \<and> utf8_decode i \<noteq> None \<and>
     t [CONTROL_DIR] = Some DirNode \<and> t [CONTROL_DIR, TRANSACTIONS_DIR] = Some DirNode \<and> t (tx_dir i) = Some DirNode \<and>
     (case journal_of F t i of None \<Rightarrow> True | Some j \<Rightarrow> \<not> finished_state (jn_state j))"

definition opens_directories :: "'w host \<Rightarrow> ('w \<Rightarrow> fs_tree) \<Rightarrow> bool" where
  "opens_directories F tree \<longleftrightarrow> (\<forall>w d n. plain_name n \<and> tree w (d @ [n]) = Some DirNode \<longrightarrow>
     (\<exists>w'. h_open_dir_nofollow F d n w = (Inr (d @ [n]), w')))"

context cap_fs
begin

section \<open>A target below a regular file\<close>

lemma walk_below_file:
  assumes "list_all plain_name (xs @ ys)" "xs \<noteq> []" "tree (fst s) (current @ xs) = Some (FileNode bs m)"
  shows "stuck (open_parent_walk F False (xs @ ys) current acc) s"
  using assms
proof (induction xs arbitrary: current acc s)
  case (Cons c xs)
  then have c: "plain_name c" and cs: "list_all plain_name (xs @ ys)" by simp_all
  have deeper: "wp (open_parent_walk F False (xs @ ys) (current @ [c]) acc') (\<lambda>_ _. False) (\<lambda>_ _. True) (w', v)"
    if "tree w' = tree (fst s)" "tree (fst s) (current @ [c]) = Some DirNode" for w' acc' v
  proof (cases xs)
    case (Cons x xs')
    with Cons.IH [OF cs, of "(w', v)" "current @ [c]"] Cons.prems(3) that(1) show ?thesis by (simp add: stuck_def)
  qed (use that Cons.prems(3) in simp)
  show ?case
    unfolding stuck_def append_Cons open_parent_walk.simps Let_def wp_simps
    apply (rule wp_symlink_metadata [OF c])
     apply (auto simp: wp_simps intro!: wp_open_dir_nofollow [OF c] deeper)
    using Cons.prems(3) by (auto dest: spec [of _ xs])
qed simp

lemma read_below_file:
  assumes p: "plain_path (as_str p)" and "strict_prefix xs (split_on 47 (as_str p))" "xs \<noteq> []"
    and "tree w xs = Some (FileNode bs m)"
  shows "stuck (read_target F [] p) w"
proof -
  let ?cs = "split_on 47 (as_str p)"
  from assms(2) obtain ys where ys: "butlast ?cs = xs @ ys"
    by (auto simp: strict_prefix_def prefix_def butlast_append)
  have "stuck (open_parent_walk F False (xs @ ys) [] []) (w', v)" if "tree w' = tree w" for w' v
    using walk_below_file [of xs ys "(w', v)" "[]"] plain_components(1) [OF p] ys assms(3,4) that by simp
  then have "stuck (open_parent F [] p False) (w, [])"
    unfolding open_parent_def Let_def ys stuck_def wp_simps
    by (auto intro!: wp_try_clone intro: wp_mono)
  then show ?thesis
    unfolding read_target_def by (intro stuck_first) (simp add: stuck_def wp_simps)
qed

lemma reconcile_below_file:
  assumes plan: "validate_journal F (snd s) = Inr ()"
    and ops: "a \<in> set (jn_operations (snd s))" "b \<in> set (jn_operations (snd s))"
      "strict_prefix (target_path a) (target_path b)" "tree (fst s) (target_path a) = Some (FileNode bs m)"
  shows "stuck (reconcile F [] d) s"
proof -
  have parse: "\<exists>p. parse_path (jo_target x) = Inr p" if "x \<in> set (jn_operations (snd s))" for x
  proof -
    from that obtain n where "n < length (jn_operations (snd s))" "x = jn_operations (snd s) ! n"
      by (auto simp: in_set_conv_nth)
    then have "(n, x) \<in> set (enumerate 0 (jn_operations (snd s)))" by (simp add: in_set_enumerate_eq)
    with validate_journal_parts(3) [OF plan] have "is_ok (validate_operation (n, x))" by (auto simp: list_all_iff)
    then show ?thesis by (auto simp: validate_operation_def is_ok_iff and_then_eq_Inr)
  qed
  have "wp (io_fold (reconcile_operation F []) (0, False) (jn_operations (snd s))) (\<lambda>_ _. False) (\<lambda>_ _. True) (fst s)"
  proof (rule wp_fold [where I = "\<lambda>ys _ w. tree w = tree (fst s) \<and> b \<notin> set ys"], goal_cases)
    case (1 ys x zs acc w1)
    then have "x \<in> set (jn_operations (snd s))" by simp
    from parse [OF this] obtain p where p: "parse_path (jo_target x) = Inr p" by blast
    note path = parse_path_plain [OF p]
    obtain c saw where acc: "acc = (c, saw)" by (cases acc)
    show ?case
    proof (cases "x = b")
      case True
      with 1 ops(3,4) path(1) have "stuck (read_target F [] p) w1"
        by (intro read_below_file [OF path(4), of "target_path a"]) (auto simp: target_path_def)
      then show ?thesis
        unfolding reconcile_operation_def acc prod.case wp_simps p stuck_def by (auto intro: wp_mono)
    next
      case False
      with 1 show ?thesis
        unfolding reconcile_operation_def acc prod.case wp_simps p
        by (auto simp: wp_simps split: sum.splits option.splits intro!: wp_read_target [OF path(4)])
    qed
  qed (use ops(2) in auto)
  then show ?thesis
    unfolding reconcile_def stuck_def wp_simps by (auto intro: wp_mono)
qed

lemma stuck_recovery:
  assumes "\<And>w' j. tree w' = tree w \<Longrightarrow> journal_of F (tree w) i = Some j \<Longrightarrow> validate_journal F j = Inr () \<Longrightarrow>
    stuck (reconcile F [] (tx_dir i)) (w', j)"
  shows "stuck (rollback_transaction F i) w" "stuck (resume_transaction F i) w"
proof -
  have first: "wp (reconcile F [] (tx_dir i)) Q (\<lambda>e s'. True) (w', j)"
    if "tree w' = tree w" "journal_of F (tree w) i = Some j" "validate_journal F j = Inr ()" for Q w' j
    using assms [OF that] unfolding stuck_def by (rule wp_mono) simp_all
  show "stuck (rollback_transaction F i) w"
    unfolding stuck_def rollback_transaction_def wp_simps
    by (rule wp_open_transaction) (auto simp: wp_simps intro!: wp_load_journal_of first)
  show "stuck (resume_transaction F i) w"
    unfolding stuck_def resume_transaction_def wp_simps
    by (rule wp_open_transaction) (auto simp: wp_simps intro!: wp_load_journal_of first)
qed

section \<open>A temporary left by a crash\<close>

lemma commit_operation_blocked:
  assumes plan: "planned j" "n < length (jn_operations j)" and inv: "tx_inv (h_blake3 F) tree j t0 n s"
    and left: "tree (fst s) (butlast (target_path (jn_operations j ! n)) @ [commit_temporary (jn_id j) n]) \<noteq> None"
  shows "stuck (commit_operation F [] (tx_dir i) n) s"
proof -
  let ?op = "jn_operations j ! n"
  from planned_operation(1) [OF plan] obtain p where p: "parse_path (jo_target ?op) = Inr p" by blast
  note path = parse_path_plain [OF p]
  have tgt: "split_on 47 (as_str p) = target_path ?op" using path(1) by (simp add: target_path_def)
  have "plain_name (jn_id j)" using plan(1) by (simp add: planned_def)
  note tmp = temporaries(1,3) [OF this, of n]
  have ne: "commit_temporary (jn_id j) n \<noteq> last (split_on 47 (as_str p))"
    using planned_operation(5) [OF plan] tmp(2) tgt by metis
  have st: "plain_path (jo_staged ?op)" using planned_operation(2) [OF plan] by (simp add: staged_backup_plain)
  have replace: "wp (atomic_replace F [] p bs x (commit_temporary (jn_id j) n)) Q (\<lambda>_ _. True) (w1, c)"
    if "tree w1 = tree (fst s)" for bs x Q w1 c
    by (rule wp_mono [OF wp_atomic_replace [OF path(4) tmp(1) ne]]) (use left that in \<open>auto simp: tgt\<close>)
  show ?thesis
    using plan(2) tx_inv_plan(3) [OF inv] p
    unfolding stuck_def commit_operation_def wp_simps
    by (auto simp: wp_simps intro!: wp_verify_precondition [OF p] wp_read [OF st] replace)
qed

lemma temporary_outside:
  assumes "planned j" "k < length (jn_operations j)"
  shows "\<not> prefix [CONTROL_DIR] (butlast (target_path (jn_operations j ! k)) @ [commit_temporary (jn_id j) k])"
proof -
  have id: "plain_name (jn_id j)" using assms(1) by (simp add: planned_def)
  have "CONTROL_DIR \<noteq> commit_temporary (jn_id j) k"
    using temporaries(3) [OF id, of k] by (auto simp: CONTROL_DIR_def ascii_def prefix_def)
  with planned_operation(6) [OF assms] show ?thesis
    by (cases "target_path (jn_operations j ! k)") (auto split: if_splits)
qed

lemma commit_blocked:
  assumes plan: "planned j" and inv: "tx_inv (h_blake3 F) tree j t0 c s" and com: "jn_committed (snd s) = c"
    and k: "c \<le> k" "k < length (jn_operations j)"
    and left: "tree (fst s) (butlast (target_path (jn_operations j ! k)) @ [commit_temporary (jn_id j) k]) \<noteq> None"
  shows "stuck (commit F [] (tx_dir i)) s"
proof -
  let ?q = "butlast (target_path (jn_operations j ! k)) @ [commit_temporary (jn_id j) k]"
  have id: "plain_name (jn_id j)" using plan by (simp add: planned_def)
  have eng: "engine_path ?q" using temporaries(3) [OF id] by (simp add: engine_path_def)
  note nc = temporary_outside [OF plan k(2)]
  have stay: "tree w2 ?q = Some v" if "tree w1 ?q = Some v" "dirs_stay (tree w1) (tree w2)" for w1 w2 v
    using that eng nc by (auto simp: dirs_stay_def)
  have ops: "wp (io_for_each (commit_operation F [] (tx_dir i)) [c..<length (jn_operations j)])
      (\<lambda>_ _. False) (\<lambda>_ _. True) s1"
    if "tx_inv (h_blake3 F) tree j t0 c s1" "jn_committed (snd s1) = c" "tree (fst s1) ?q \<noteq> None" for s1
  proof (rule wp_for_each [where I = "\<lambda>ys s'. c + length ys \<le> k \<and> tx_inv (h_blake3 F) tree j t0 (c + length ys) s' \<and>
        jn_committed (snd s') = c + length ys \<and> tree (fst s') ?q \<noteq> None"], goal_cases)
    case (1 ys x zs s2)
    from upt_split [OF 1(1)] have x: "x = c + length ys" "x < length (jn_operations j)" by simp_all
    show ?case
    proof (cases "x = k")
      case True
      with commit_operation_blocked [OF plan x(2), of t0 s2 i] 1(2) x(1) show ?thesis
        by (auto simp: stuck_def elim!: wp_mono)
    next
      case False
      with 1(2) x show ?thesis
        by (intro wp_mono [OF wp_commit_operation [OF plan x(2)]]) (auto intro: exI stay)
    qed
  qed (use that k in auto)
  have dirs: "wp (io_for_each (commit_directory F [] (tx_dir i)) (jn_required_directories j))
      (\<lambda>_. wp (io_for_each (commit_operation F [] (tx_dir i)) [c..<length (jn_operations j)])
        (\<lambda>_ _. False) (\<lambda>_ _. True)) (\<lambda>_ _. True) s1"
    if "tx_inv (h_blake3 F) tree j t0 c s1" "jn_committed (snd s1) = c" "tree (fst s1) ?q \<noteq> None" for s1
  proof (rule wp_for_each [where I = "\<lambda>ys s'. tx_inv (h_blake3 F) tree j t0 c s' \<and>
        jn_committed (snd s') = c \<and> tree (fst s') ?q \<noteq> None"], goal_cases)
    case (1 ys d zs s2)
    then have d: "d \<in> set (jn_required_directories j)" by auto
    show ?case
      using 1(2) by (intro wp_mono [OF wp_commit_directory [OF plan d]]) (auto intro: exI stay)
  qed (use that ops in auto)
  have start: "tx_inv (h_blake3 F) tree j t0 c (w', (snd s)\<lparr>jn_state := Committing\<rparr>)"
    if "tree w' = tree (fst s)" for w'
    using inv that by (simp add: tx_inv_def)
  show ?thesis
    unfolding stuck_def commit_def wp_simps using tx_inv_plan(3) [OF inv] com
    apply simp
    apply (rule wp_verify_staged [OF plan])
      apply simp
     apply (rule wp_persist_current [OF plan start])
       apply (use left in \<open>auto simp: com intro!: dirs\<close>)
    apply (blast intro: stay)
    done
qed

lemma resume_blocked:
  assumes j: "journal_of F (tree w) i = Some j" "targets_apart j"
    and k: "k < length (jn_operations j)" "\<not> holds_new (h_blake3 F) (tree w) (jn_operations j ! k)"
    and left: "tree w (butlast (target_path (jn_operations j ! k)) @ [commit_temporary (jn_id j) k]) \<noteq> None"
  shows "stuck (resume_transaction F i) w"
proof -
  have blocked: "wp (commit F [] (tx_dir i)) Q (\<lambda>_ _. True) (w', snd s)"
    if plan: "planned j" and inv: "tx_inv (h_blake3 F) tree j (tree w) (jn_committed (snd s)) s"
      and out: "same_outside [CONTROL_DIR] (tree w) (tree (fst s))" and w': "tree w' = tree (fst s)" for Q s w'
  proof -
    have nc: "\<not> prefix [CONTROL_DIR] (target_path (jn_operations j ! k))" by (rule planned_operation(6) [OF plan k(1)])
    have "tree (fst s) (target_path (jn_operations j ! k)) = tree w (target_path (jn_operations j ! k))"
      using out nc by (simp add: same_outside_def)
    with k(2) have "\<not> holds_new (h_blake3 F) (tree (fst s)) (jn_operations j ! k)" by (simp add: holds_new_def)
    with inv k(1) have "jn_committed (snd s) \<le> k"
      by (rule_tac ccontr) (auto simp: tx_inv_def exposed_def not_le dest!: spec [of _ k])
    moreover have "tree (fst s) (butlast (target_path (jn_operations j ! k)) @ [commit_temporary (jn_id j) k]) \<noteq> None"
      using left out temporary_outside [OF plan k(1)] by (simp add: same_outside_def)
    ultimately have "stuck (commit F [] (tx_dir i)) (w', snd s)"
      using inv w' k(1) by (intro commit_blocked [OF plan, of "tree w" "jn_committed (snd s)" _ k]) (auto simp: tx_inv_def)
    then show ?thesis by (auto simp: stuck_def elim!: wp_mono)
  qed
  show ?thesis
    unfolding stuck_def resume_transaction_def wp_simps
    apply (rule wp_open_transaction)
     apply (simp add: wp_simps)
     apply (rule wp_load_journal_of)
    subgoal premises prems for w1 w2 j2
    proof -
      have j2: "j2 = j" using prems j(1) by simp
      have plan: "planned j" using validated_planned prems(4) j(2) by (simp add: j2)
      have t: "tree w2 = tree w" using prems by simp
      show ?thesis
        unfolding j2
        apply (intro impI)
        apply (rule wp_mono [OF wp_reconcile [OF plan]])
          apply (simp_all add: t wp_simps)
        apply (rule wp_verify_staged [OF plan])
          apply (auto simp: tx_inv_def same_plan_def intro!: blocked [OF plan])
        done
    qed
     apply auto
    done
qed

section \<open>An unfinished transaction\<close>

lemma reject_unfinished:
  assumes unf: "unfinished F (tree w) i" and live: "opens_directories F tree"
  shows "wp (reject_incomplete_transactions F []) (\<lambda>_ _. False) (\<lambda>_ w'. tree w' = tree w) w"
proof -
  let ?d = "[CONTROL_DIR, TRANSACTIONS_DIR]"
  have i: "plain_name i" "tree w (?d @ [i]) = Some DirNode" "?d @ [i] = tx_dir i"
    using unf by (simp_all add: unfinished_def tx_dir_def)
  have hit: "wp (reject_entry F ?d (Inr (Some i))) (\<lambda>_ _. False) (\<lambda>_ w'. tree w' = tree w) w1" if t: "tree w1 = tree w" for w1
  proof -
    from live i t obtain w2 where h: "h_open_dir_nofollow F ?d i w1 = (Inr (tx_dir i), w2)"
      unfolding opens_directories_def by metis
    from open_dir_nofollow [OF h i(1)] t have t2: "tree w2 = tree w" by simp
    show ?thesis
      unfolding reject_entry_def sum.case option.case wp_simps
      by (rule wpI) (use h t2 unf in
        \<open>auto simp: wp_simps unfinished_def intro!: wp_load_journal_of\<close>)
  qed
  have entry: "wp (reject_entry F ?d e) (\<lambda>_ w'. tree w' = tree w \<and> e \<noteq> Inr (Some i) \<and> (\<forall>k. e \<noteq> Inl k))
      (\<lambda>_ w'. tree w' = tree w) w1"
    if "tree w1 = tree w" "\<And>n. e = Inr (Some n) \<Longrightarrow> plain_name n" for e w1
  proof (cases "e = Inr (Some i)")
    case True
    with hit [OF that(1)] show ?thesis by (auto elim!: wp_mono)
  next
    case False
    with that show ?thesis
      unfolding reject_entry_def
      by (auto simp: wp_simps split: sum.splits option.splits intro!: wp_open_dir_nofollow wp_load_journal)
  qed
  have list: "wp (h_entries F ?d) (\<lambda>es. wp (io_for_each (reject_entry F ?d) es) (\<lambda>_ _. False) (\<lambda>_ w'. tree w' = tree w))
      (\<lambda>e w'. tree w' = tree w) w1" if t: "tree w1 = tree w" for w1
  proof (rule wpI)
    fix es w2 assume h: "h_entries F ?d w1 = (Inr es, w2)"
    from entries [OF h] t have t2: "tree w2 = tree w" and names: "\<And>n. Inr (Some n) \<in> set es \<Longrightarrow> plain_name n"
      and all: "Inr (Some i) \<in> set es \<or> (\<exists>k. Inl k \<in> set es)"
      using i unf by (auto simp: unfinished_def)
    show "wp (io_for_each (reject_entry F ?d) es) (\<lambda>_ _. False) (\<lambda>_ w'. tree w' = tree w) w2"
    proof (rule wp_for_each [where I = "\<lambda>ys w'. tree w' = tree w \<and> Inr (Some i) \<notin> set ys \<and> (\<forall>k. Inl k \<notin> set ys)"], goal_cases)
      case (1 ys x zs w3)
      with names have x: "\<And>n. x = Inr (Some n) \<Longrightarrow> plain_name n" by simp
      from 1(2) have "tree w3 = tree w" by simp
      show ?case
        by (rule wp_mono [OF entry [of w3 x]]) (use \<open>tree w3 = tree w\<close> x 1(2) in auto)
    qed (use t2 all in auto)
  next
    fix e w2 assume "h_entries F ?d w1 = (Inl e, w2)"
    from entries [OF this] t show "tree w2 = tree w" by simp
  qed
  show ?thesis
    unfolding reject_incomplete_transactions_def wp_simps
    by (rule wp_open_transactions) (use unf in \<open>auto simp: wp_simps unfinished_def intro!: list\<close>)
qed

lemma apply_rejected:
  assumes "unfinished F (tree w) i" "opens_directories F tree"
  shows "wp (apply_verified_tree F src fs ds rb) (\<lambda>_ _. False) (\<lambda>_ w'. tree w' = tree w) w"
  unfolding apply_verified_tree_def wp_statements
  apply (rule wp_open_root)
  subgoal for w1
    by (rule wp_mono [OF reject_unfinished [of w1 i]]) (use assms in simp_all)
  subgoal by simp
  done

end

end
