(* ===== verification/Apply_Disk.thy ===== *)
theory Apply_Disk
  imports Apply_Recovery "HOL-Library.AList"
begin

text \<open>
  A computable file system that satisfies \<open>cap_fs\<close>: a list of nodes and a number of calls that still
  succeed. When the number is used up the machine has crashed: every later call fails, and the write
  during which it happens leaves half of its data. The journal codec stores what changes during a run, for a
  fixed plan.
\<close>

record disk =
  dk_nodes :: "(fpath \<times> fs_node) list"
  dk_calls :: int

definition disk_tree :: "disk \<Rightarrow> fs_tree" where
  "disk_tree w = map_of (dk_nodes w)"

definition disk_put :: "fpath \<Rightarrow> fs_node \<Rightarrow> disk \<Rightarrow> disk" where
  "disk_put p node w = w\<lparr> dk_nodes := AList.update p node (dk_nodes w) \<rparr>"

definition disk_del :: "fpath \<Rightarrow> disk \<Rightarrow> disk" where
  "disk_del p w = w\<lparr> dk_nodes := AList.delete p (dk_nodes w) \<rparr>"

definition metered :: "(disk, error_kind, 'a) io \<Rightarrow> (disk, error_kind, 'a) io" where
  "metered m w = (if dk_calls w \<le> 0 then (Inl (OtherKind 5), w) else m (w\<lparr> dk_calls := dk_calls w - 1 \<rparr>))"

definition node_metadata :: "fs_node \<Rightarrow> metadata" where
  "node_metadata node = (case node of
     FileNode bs mode \<Rightarrow> \<lparr> md_file_type = TypeFile, md_len = of_nat (length bs), md_mode = mode \<rparr>
   | DirNode \<Rightarrow> \<lparr> md_file_type = TypeDir, md_len = 0, md_mode = 493 \<rparr>
   | SymlinkNode \<Rightarrow> \<lparr> md_file_type = TypeSymlink, md_len = 0, md_mode = 511 \<rparr>
   | OtherNode \<Rightarrow> \<lparr> md_file_type = TypeOther, md_len = 0, md_mode = 420 \<rparr>)"

definition disk_metadata :: "fpath \<Rightarrow> bytes \<Rightarrow> (disk, error_kind, metadata) io" where
  "disk_metadata d n = metered (\<lambda>w. case disk_tree w (d @ [n]) of
     Some node \<Rightarrow> (Inr (node_metadata node), w)
   | None \<Rightarrow> (Inl (if list_ex (\<lambda>(q, _). prefix (d @ [n]) q) (dk_nodes w) then OtherKind 2 else NotFound), w))"

definition disk_open_dir :: "fpath \<Rightarrow> bytes \<Rightarrow> (disk, error_kind, fpath) io" where
  "disk_open_dir d n = metered (\<lambda>w. case disk_tree w (d @ [n]) of
     Some DirNode \<Rightarrow> (Inr (d @ [n]), w) | None \<Rightarrow> (Inl NotFound, w) | _ \<Rightarrow> (Inl (OtherKind 20), w))"

definition disk_create_dir :: "fpath \<Rightarrow> bytes \<Rightarrow> (disk, error_kind, unit) io" where
  "disk_create_dir d n = metered (\<lambda>w. case disk_tree w (d @ [n]) of
     None \<Rightarrow> (Inr (), disk_put (d @ [n]) DirNode w) | _ \<Rightarrow> (Inl AlreadyExists, w))"

definition disk_entries :: "fpath \<Rightarrow> (disk, error_kind, (error_kind + bytes option) list) io" where
  "disk_entries d = metered (\<lambda>w. (Inr (map (\<lambda>(q, _). Inr (Some (last q)))
     (filter (\<lambda>(q, _). q \<noteq> [] \<and> butlast q = d \<and> plain_name (last q)) (dk_nodes w))), w))"

definition disk_read :: "fpath \<Rightarrow> bytes \<Rightarrow> (disk, error_kind, bytes) io" where
  "disk_read d p = metered (\<lambda>w. case disk_tree w (d @ split_on 47 p) of
     Some (FileNode bs _) \<Rightarrow> (Inr bs, w) | None \<Rightarrow> (Inl NotFound, w) | _ \<Rightarrow> (Inl (OtherKind 21), w))"

definition disk_create_new :: "fpath \<Rightarrow> bytes \<Rightarrow> (disk, error_kind, fpath) io" where
  "disk_create_new d p = metered (\<lambda>w. case disk_tree w (d @ split_on 47 p) of
     None \<Rightarrow> (Inr (d @ split_on 47 p), disk_put (d @ split_on 47 p) (FileNode [] 420) w)
   | _ \<Rightarrow> (Inl AlreadyExists, w))"

definition disk_write_all :: "fpath \<Rightarrow> bytes \<Rightarrow> (disk, error_kind, unit) io" where
  "disk_write_all p bs w = (case disk_tree w p of
     Some (FileNode old mode) \<Rightarrow>
       if dk_calls w \<le> 0
       then (Inl (OtherKind 5), disk_put p (FileNode (old @ take (length bs div 2) bs) mode) w)
       else (Inr (), (disk_put p (FileNode (old @ bs) mode) w)\<lparr> dk_calls := dk_calls w - 1 \<rparr>)
   | _ \<Rightarrow> (Inl (OtherKind 9), w))"

definition disk_set_mode :: "fpath \<Rightarrow> u32 \<Rightarrow> (disk, error_kind, unit) io" where
  "disk_set_mode p mode = metered (\<lambda>w. case disk_tree w p of
     Some (FileNode bs _) \<Rightarrow> (Inr (), disk_put p (FileNode bs mode) w) | _ \<Rightarrow> (Inl (OtherKind 9), w))"

definition disk_rename :: "fpath \<Rightarrow> bytes \<Rightarrow> bytes \<Rightarrow> (disk, error_kind, unit) io" where
  "disk_rename d a b = metered (\<lambda>w. case disk_tree w (d @ [a]) of
     Some (FileNode bs mode) \<Rightarrow>
       if disk_tree w (d @ [b]) = Some DirNode then (Inl (OtherKind 21), w)
       else (Inr (), disk_put (d @ [b]) (FileNode bs mode) (disk_del (d @ [a]) w))
   | _ \<Rightarrow> (Inl NotFound, w))"

definition disk_remove_file :: "fpath \<Rightarrow> bytes \<Rightarrow> (disk, error_kind, unit) io" where
  "disk_remove_file d n = metered (\<lambda>w. case disk_tree w (d @ [n]) of
     None \<Rightarrow> (Inl NotFound, w) | Some DirNode \<Rightarrow> (Inl (OtherKind 21), w) | _ \<Rightarrow> (Inr (), disk_del (d @ [n]) w))"

definition disk_remove_dir :: "fpath \<Rightarrow> bytes \<Rightarrow> (disk, error_kind, unit) io" where
  "disk_remove_dir d p = metered (\<lambda>w. let q = d @ split_on 47 p in
     if disk_tree w q = Some DirNode \<and> \<not> list_ex (\<lambda>(r, _). strict_prefix q r) (dk_nodes w)
     then (Inr (), disk_del q w) else (Inl (OtherKind 39), w))"

definition disk_remove_dir_all :: "fpath \<Rightarrow> bytes \<Rightarrow> (disk, error_kind, unit) io" where
  "disk_remove_dir_all d n = metered (\<lambda>w.
     (Inr (), w\<lparr> dk_nodes := filter (\<lambda>x. \<not> prefix (d @ [n]) (fst x)) (dk_nodes w) \<rparr>))"

definition sample_uuid :: bytes where
  "sample_uuid = ascii ''3f2b''"

definition state_byte :: "transaction_state \<Rightarrow> u8" where
  "state_byte st = (case st of Prepared \<Rightarrow> 0 | Staged \<Rightarrow> 1 | Committing \<Rightarrow> 2 | Committed \<Rightarrow> 3 | RollingBack \<Rightarrow> 4 | RolledBack \<Rightarrow> 5)"

definition byte_state :: "u8 \<Rightarrow> transaction_state" where
  "byte_state b = (if b = 0 then Prepared else if b = 1 then Staged else if b = 2 then Committing
     else if b = 3 then Committed else if b = 4 then RollingBack else RolledBack)"

definition disk_host :: "journal \<Rightarrow> disk host" where
  "disk_host plan = \<lparr>
     h_blake3 = sample_hash,
     h_to_vec = (\<lambda>j. Some [state_byte (jn_state j), of_nat (jn_committed j)]),
     h_from_slice = (\<lambda>bs. case bs of
        [st, c] \<Rightarrow> Some (plan\<lparr> jn_state := byte_state st, jn_committed := unat c \<rparr>) | _ \<Rightarrow> None),
     h_uuid_parse = (\<lambda>i. i = sample_uuid),
     h_uuid_new = (\<lambda>w. (sample_uuid, w)),
     h_open_ambient = metered (\<lambda>w. (Inr [], w)),
     h_try_clone = (\<lambda>d. metered (\<lambda>w. (Inr d, w))),
     h_symlink_metadata = disk_metadata,
     h_open_dir_nofollow = disk_open_dir,
     h_create_dir = disk_create_dir,
     h_entries = disk_entries,
     h_read = disk_read,
     h_create_new = disk_create_new,
     h_write_all = disk_write_all,
     h_set_mode = disk_set_mode,
     h_sync_all = (\<lambda>p. metered (\<lambda>w. (Inr (), w))),
     h_rename = disk_rename,
     h_remove_file = disk_remove_file,
     h_remove_dir = disk_remove_dir,
     h_remove_dir_all = disk_remove_dir_all,
     h_open_self = (\<lambda>d. metered (\<lambda>w. (Inr d, w))),
     h_sync_self = (\<lambda>d. metered (\<lambda>w. (Inr (), w))) \<rparr>"

lemma disk_tree_updates [simp]:
  "disk_tree (w\<lparr>dk_calls := c\<rparr>) = disk_tree w"
  "disk_tree (disk_put p node w) = (disk_tree w)(p \<mapsto> node)"
  "disk_tree (disk_del p w) = (disk_tree w)(p := None)"
  by (simp_all add: disk_tree_def disk_put_def disk_del_def update_conv' delete_conv')

lemma disk_host_simps [simp]:
  "h_blake3 (disk_host plan) = sample_hash" "h_uuid_parse (disk_host plan) i \<longleftrightarrow> i = sample_uuid"
  by (simp_all add: disk_host_def)

lemma disk_tree_below:
  "\<not> list_ex (\<lambda>(q, _). prefix p q) (dk_nodes w) \<Longrightarrow> disk_tree w (p @ r) = None"
  by (fastforce simp: disk_tree_def list_ex_iff map_of_eq_None_iff)

lemma metered_cases:
  assumes "metered m w = (r, w')"
  shows "(r = Inl (OtherKind 5) \<and> w' = w) \<or> m (w\<lparr>dk_calls := dk_calls w - 1\<rparr>) = (r, w')"
  using assms by (cases "dk_calls w \<le> 0") (auto simp: metered_def)

lemma plain_sample_uuid: "plain_name sample_uuid"
  by code_simp

lemma map_of_filter_keys:
  "map_of (filter (\<lambda>x. P (fst x)) xs) k = (if P k then map_of xs k else None)"
  by (induction xs) auto

lemma describes_node_metadata: "describes (node_metadata node) node"
  by (cases node) (simp_all add: describes_def node_metadata_def)

lemmas disk_calls_defs =
  disk_metadata_def disk_open_dir_def disk_create_dir_def disk_entries_def disk_read_def disk_create_new_def
  disk_set_mode_def disk_rename_def disk_remove_file_def disk_remove_dir_def disk_remove_dir_all_def

interpretation disk: cap_fs "disk_host plan" disk_tree for plan
proof (unfold_locales, unfold disk_host_def host.simps, goal_cases)
  case (1 w i w')
  then show ?case using plain_sample_uuid by simp
next
  case (2 i)
  then show ?case using plain_sample_uuid by simp
next
  case (3 r w w')
  then show ?case by (auto dest!: metered_cases)
next
  case (4 d r w w')
  then show ?case by (auto dest!: metered_cases)
next
  case (5 d n r w w')
  then show ?case
    unfolding disk_metadata_def
    by (auto dest!: metered_cases split: option.splits if_splits simp: describes_node_metadata
        intro: disk_tree_below [of "d @ [n]", simplified])
next
  case (6 d n r w w')
  then show ?case
    unfolding disk_open_dir_def by (auto dest!: metered_cases split: option.splits fs_node.splits)
next
  case (7 d n r w w')
  then show ?case
    unfolding disk_create_dir_def by (auto dest!: metered_cases split: option.splits)
next
  case (8 d r w w')
  then show ?case
    unfolding disk_entries_def
    apply (auto dest!: metered_cases simp: image_iff disk_tree_def dest!: map_of_SomeD)
    apply (force)
    done
next
  case (9 d rp r w w')
  then show ?case
    unfolding disk_read_def by (auto dest!: metered_cases split: option.splits fs_node.splits)
next
  case (10 d rp r w w')
  then show ?case
    unfolding disk_create_new_def
    by (auto dest!: metered_cases split: option.splits) blast+
next
  case (11 p bs r w w' m)
  then show ?case
    unfolding disk_write_all_def
    by (auto split: if_splits intro: exI [of _ "length bs div 2"] exI [of _ "length bs"])
next
  case (12 p mode r w w' bs m)
  then show ?case
    unfolding disk_set_mode_def by (auto dest!: metered_cases) (metis fun_upd_triv)+
next
  case (13 p r w w')
  then show ?case by (auto dest!: metered_cases)
next
  case (14 d a b r w w' bs m)
  then show ?case
    unfolding disk_rename_def by (auto dest!: metered_cases split: if_splits)
next
  case (15 d n r w w')
  then show ?case
    unfolding disk_remove_file_def by (auto dest!: metered_cases split: option.splits fs_node.splits)
next
  case (16 d rp r w w' q)
  then show ?case
    unfolding disk_remove_dir_def by (auto dest!: metered_cases simp: Let_def split: if_splits)
next
  case (17 d n r w w')
  then show ?case
    unfolding disk_remove_dir_all_def
    by (auto dest!: metered_cases simp: disk_tree_def map_of_filter_keys [of "\<lambda>q. \<not> prefix (d @ [n]) q"])
next
  case (18 d r w w')
  then show ?case by (auto dest!: metered_cases)
next
  case (19 d r w w')
  then show ?case by (auto dest!: metered_cases)
qed

end
