(* ===== verification/Apply_Properties.thy ===== *)
theory Apply_Properties
  imports Apply_Disk
begin

text \<open>
  The properties of \<open>rebyte-apply\<close>, each with a run on the computable disk.
\<close>

section \<open>Sample transactions\<close>

definition sample_file_a :: verified_file where
  "sample_file_a = \<lparr> vf_path = RelativeArtifactPath (ascii ''a''), vf_bytes = [1, 2], vf_executable = False,
     vf_content_kind = Binary \<rparr>"

definition sample_file_b :: verified_file where
  "sample_file_b = \<lparr> vf_path = RelativeArtifactPath (ascii ''b''), vf_bytes = [3], vf_executable = True,
     vf_content_kind = Binary \<rparr>"

definition sample_operation :: "nat \<Rightarrow> verified_file \<Rightarrow> bytes option \<Rightarrow> journal_operation" where
  "sample_operation n f original = \<lparr>
     jo_target = as_str (vf_path f), jo_staged = staged_name n,
     jo_backup = map_option (\<lambda>_. backup_name n) original,
     jo_original_digest = map_option (\<lambda>bs. digest_bytes (file_digest sample_hash bs)) original,
     jo_original_executable = False, jo_new_digest = digest_bytes (file_digest sample_hash (vf_bytes f)),
     jo_new_size = of_nat (length (vf_bytes f)), jo_executable = vf_executable f \<rparr>"

definition sample_journal :: "journal_operation list \<Rightarrow> journal" where
  "sample_journal ops = \<lparr> jn_schema_version = 1, jn_id = sample_uuid, jn_capsule_digest = [], jn_state = Committing,
     jn_committed = 0, jn_retain_backup = False, jn_created_directories = [], jn_required_directories = [],
     jn_operations = ops \<rparr>"

definition sample_plan :: journal where
  "sample_plan = sample_journal [sample_operation 0 sample_file_a (Some [9]), sample_operation 1 sample_file_b None]"

definition sample_nested :: journal where
  "sample_nested = sample_journal [sample_operation 0 sample_file_a (Some [9]),
     sample_operation 1 (sample_file_b\<lparr> vf_path := RelativeArtifactPath (ascii ''a/c'') \<rparr>) None]"

text \<open>A clean disk, and one on which a run stopped after replacing the first of two targets.\<close>

definition clean_disk :: "int \<Rightarrow> disk" where
  "clean_disk n = \<lparr> dk_nodes = [([ascii ''a''], FileNode [9] 420), ([ascii ''z''], FileNode [8] 420)], dk_calls = n \<rparr>"

definition crashed_disk :: "(fpath \<times> fs_node) list \<Rightarrow> int \<Rightarrow> disk" where
  "crashed_disk extra n = \<lparr> dk_nodes = extra @ [
     ([ascii ''a''], FileNode [1, 2] 420), ([ascii ''z''], FileNode [8] 420),
     ([CONTROL_DIR], DirNode), ([CONTROL_DIR, TRANSACTIONS_DIR], DirNode), (tx_dir sample_uuid, DirNode),
     (tx_dir sample_uuid @ [JOURNAL_FILE], FileNode [2, 1] 420),
     (tx_dir sample_uuid @ split_on 47 (staged_name 0), FileNode [1, 2] 420),
     (tx_dir sample_uuid @ split_on 47 (backup_name 0), FileNode [9] 420),
     (tx_dir sample_uuid @ split_on 47 (staged_name 1), FileNode [3] 493)], dk_calls = n \<rparr>"

text \<open>A disk on which opening a directory that exists never fails.\<close>

definition reliable_open_dir :: "fpath \<Rightarrow> bytes \<Rightarrow> (disk, error_kind, fpath) io" where
  "reliable_open_dir d n w = (case disk_tree w (d @ [n]) of
     Some DirNode \<Rightarrow> (Inr (d @ [n]), w) | None \<Rightarrow> (Inl NotFound, w) | _ \<Rightarrow> (Inl (OtherKind 20), w))"

definition reliable_host :: "journal \<Rightarrow> disk host" where
  "reliable_host plan = (disk_host plan)\<lparr> h_open_dir_nofollow := reliable_open_dir \<rparr>"

interpretation reliable: cap_fs "reliable_host plan" disk_tree for plan
  using disk.cap_fs_axioms [of plan] unfolding cap_fs_def reliable_host_def host.simps
  by (auto simp: reliable_open_dir_def split: option.splits fs_node.splits)

lemma reliable_opens: "opens_directories (reliable_host plan) disk_tree"
  by (simp add: opens_directories_def reliable_host_def reliable_open_dir_def)

section \<open>Applying\<close>





text \<open>
  The journal that \<open>prepare\<close> writes for typed paths is one that \<open>load_journal\<close> accepts: schema, identifier, staged and
  backup names, the pairing of backups with original digests, the strict order of the explicit directories and
  their difference from every target all pass \<open>validate_journal\<close>.
\<close>

theorem prepared_journal_valid:
  assumes "cap_fs F tree" and "list_all (\<lambda>f. valid_path (vf_path f)) fs" and "list_all valid_path ds"
    and "h_uuid_parse F i" and "prepare F src fs ds [] i retain w = (Inr j, w')"
  shows "validate_journal F j = Inr ()"
  using wp_Inr [OF cap_fs.wp_prepare_valid [OF assms(1-4)] assms(5)] .

theorem prepared_journal_valid_witness:
  "\<exists>j w'. prepare (disk_host sample_plan) (Digest32 []) [sample_file_a] [RelativeArtifactPath (ascii ''d'')] [] sample_uuid False
      (clean_disk 100) = (Inr j, w') \<and> validate_journal (disk_host sample_plan) j = Inr ()"
proof -
  let ?run = "prepare (disk_host sample_plan) (Digest32 []) [sample_file_a] [RelativeArtifactPath (ascii ''d'')] [] sample_uuid
    False (clean_disk 100)"
  have "is_ok (fst ?run)" by code_simp
  then obtain j where run: "?run = (Inr j, snd ?run)" by (cases ?run) (auto simp: is_ok_iff)
  have paths: "list_all (\<lambda>f. valid_path (vf_path f)) [sample_file_a]"
    "list_all valid_path [RelativeArtifactPath (ascii ''d'')]" by code_simp+
  have id: "h_uuid_parse (disk_host sample_plan) sample_uuid" by simp
  from prepared_journal_valid [OF disk.cap_fs_axioms paths id run] run show ?thesis by blast
qed

text \<open>
  C35. While the directory of an unfinished transaction exists (its journal says so, or cannot be read), \<open>apply\<close> fails and
  changes nothing, given that the directory can be opened. When opening it fails the code
  takes the entry for something else and goes on.
\<close>

theorem unfinished_blocks_apply:
  assumes "cap_fs F tree" and "opens_directories F tree" and "unfinished F (tree w) i"
  shows "\<exists>e w'. apply_verified_tree F src fs ds retain w = (Inl e, w') \<and> tree w' = tree w"
  using cap_fs.apply_rejected [OF assms(1,3,2), of src fs ds retain]
  by (cases "apply_verified_tree F src fs ds retain w") (auto simp: wp_def split: sum.splits)

theorem unfinished_blocks_apply_witness:
  "\<exists>e w'. apply_verified_tree (reliable_host sample_plan) (Digest32 []) [sample_file_a] [] False (crashed_disk [] 1000)
     = (Inl e, w') \<and> disk_tree w' = disk_tree (crashed_disk [] 1000)"
proof -
  have "unfinished (reliable_host sample_plan) (disk_tree (crashed_disk [] 1000)) sample_uuid" by code_simp
  from unfinished_blocks_apply [OF reliable.cap_fs_axioms reliable_opens this] show ?thesis by simp
qed

section \<open>Recovering\<close>

text \<open>
  C32. When \<open>rollback_transaction\<close> succeeds, every target of the journal is in its original state (absent, or a file with
  the original digest and executable bit), whatever the crash had left and whichever calls fail on the way, and no
  other file outside control directory and temporaries differs.
\<close>

theorem rollback_restores:
  assumes "cap_fs F tree" and "journal_of F (tree w) i = Some j" and "targets_apart j"
    and "rollback_transaction F i w = (Inr (), w')"
  shows "list_all (holds_original (h_blake3 F) (tree w')) (jn_operations j) \<and> kept (jn_operations j) (tree w) (tree w')"
  using wp_Inr [OF cap_fs.wp_rollback_transaction [OF assms(1-3)] assms(4)]
  by (simp add: exposed_def list_all_length)

theorem rollback_restores_witness:
  "list_all (holds_original sample_hash (disk_tree (snd (rollback_transaction (disk_host sample_plan) sample_uuid
     (crashed_disk [] 1000))))) (jn_operations sample_plan)"
proof -
  let ?run = "rollback_transaction (disk_host sample_plan) sample_uuid (crashed_disk [] 1000)"
  let ?j = "sample_plan\<lparr> jn_committed := 1 \<rparr>"
  have "is_ok (fst ?run)" by code_simp
  then have run: "?run = (Inr (), snd ?run)" by (cases ?run) (auto simp: is_ok_iff)
  have j: "journal_of (disk_host sample_plan) (disk_tree (crashed_disk [] 1000)) sample_uuid = Some ?j" by code_simp
  have "targets_apart ?j" by code_simp
  from rollback_restores [OF disk.cap_fs_axioms j this run] show ?thesis by simp
qed

text \<open>
  C33. When \<open>resume_transaction\<close> succeeds, every target of the journal holds its new file and every required directory
  exists, whatever the crash had left and whichever calls fail on the way, and no other file outside
  control directory and temporaries differs.
\<close>

theorem resume_completes:
  assumes "cap_fs F tree" and "journal_of F (tree w) i = Some j" and "targets_apart j"
    and "resume_transaction F i w = (Inr r, w')"
  shows "list_all (holds_new (h_blake3 F) (tree w')) (jn_operations j) \<and>
    list_all (\<lambda>d. tree w' (split_on 47 (jd_path d)) = Some DirNode) (jn_required_directories j) \<and>
    kept (jn_operations j) (tree w) (tree w')"
  using wp_Inr [OF cap_fs.wp_resume_transaction [OF assms(1-3)] assms(4)]
  by (simp add: exposed_def list_all_length dirs_at_def list_all_iff [symmetric])

theorem resume_completes_witness:
  "list_all (holds_new sample_hash (disk_tree (snd (resume_transaction (disk_host sample_plan) sample_uuid
     (crashed_disk [] 1000))))) (jn_operations sample_plan)"
proof -
  let ?run = "resume_transaction (disk_host sample_plan) sample_uuid (crashed_disk [] 1000)"
  let ?j = "sample_plan\<lparr> jn_committed := 1 \<rparr>"
  have "is_ok (fst ?run)" by code_simp
  then obtain r where run: "?run = (Inr r, snd ?run)" by (cases ?run) (auto simp: is_ok_iff)
  have j: "journal_of (disk_host sample_plan) (disk_tree (crashed_disk [] 1000)) sample_uuid = Some ?j" by code_simp
  have "targets_apart ?j" by code_simp
  from resume_completes [OF disk.cap_fs_axioms j this run] show ?thesis by simp
qed



text \<open>
  C36. A temporary that a crash left beside a target not yet replaced makes every \<open>resume_transaction\<close> fail, whatever else is
  on the disk: \<open>atomic_replace\<close> refuses an existing temporary, its name is the same in every run, and no operation
  removes it.
\<close>

theorem leftover_temporary_blocks_resume:
  assumes "cap_fs F tree" and "journal_of F (tree w) i = Some j" and "targets_apart j"
    and "k < length (jn_operations j)" and "\<not> holds_new (h_blake3 F) (tree w) (jn_operations j ! k)"
    and "tree w (butlast (target_path (jn_operations j ! k)) @ [commit_temporary (jn_id j) k]) \<noteq> None"
  shows "\<exists>e w'. resume_transaction F i w = (Inl e, w')"
  using cap_fs.resume_blocked [OF assms] by (simp add: stuck_iff)

theorem leftover_temporary_blocks_resume_witness:
  "\<exists>e w'. resume_transaction (disk_host sample_plan) sample_uuid
     (crashed_disk [([commit_temporary sample_uuid 1], FileNode [] 420)] 1000) = (Inl e, w')"
proof -
  let ?w = "crashed_disk [([commit_temporary sample_uuid 1], FileNode [] 420)] 1000"
  let ?j = "sample_plan\<lparr> jn_committed := 1 \<rparr>"
  have j: "journal_of (disk_host sample_plan) (disk_tree ?w) sample_uuid = Some ?j" by code_simp
  have apart: "targets_apart ?j" by code_simp
  have k: "1 < length (jn_operations ?j)" by code_simp
  have old: "\<not> holds_new (h_blake3 (disk_host sample_plan)) (disk_tree ?w) (jn_operations ?j ! 1)" by code_simp
  have "disk_tree ?w (butlast (target_path (jn_operations ?j ! 1)) @ [commit_temporary (jn_id ?j) 1]) \<noteq> None" by code_simp
  from leftover_temporary_blocks_resume [OF disk.cap_fs_axioms j apart k old this] show ?thesis .
qed

text \<open>
  C37. A transaction with a target below another target cannot be recovered once the upper one is a file: every
  \<open>resume_transaction\<close> and every \<open>rollback_transaction\<close> fails, because \<open>reconcile\<close> reads all targets and cannot walk through the
  file. Neither \<open>prepare\<close> nor \<open>validate_journal\<close> rejects such targets.
\<close>

theorem nested_targets_block_recovery:
  assumes "cap_fs F tree" and "journal_of F (tree w) i = Some j"
    and "a \<in> set (jn_operations j)" and "b \<in> set (jn_operations j)"
    and "strict_prefix (target_path a) (target_path b)" and "tree w (target_path a) = Some (FileNode bs m)"
  shows "(\<exists>e w'. resume_transaction F i w = (Inl e, w')) \<and> (\<exists>e w'. rollback_transaction F i w = (Inl e, w'))"
proof -
  have blocked: "stuck (reconcile F [] (tx_dir i)) (w', j')"
    if "tree w' = tree w" "journal_of F (tree w) i = Some j'" "validate_journal F j' = Inr ()" for w' j'
    using cap_fs.reconcile_below_file [OF assms(1), of "(w', j')" a b bs m] assms(2-6) that by simp
  have "stuck (resume_transaction F i) w" "stuck (rollback_transaction F i) w"
    by (rule cap_fs.stuck_recovery [OF assms(1)], erule (2) blocked)+
  then show ?thesis unfolding stuck_iff by (rule conjI)
qed

theorem nested_targets_block_recovery_witness:
  "validate_journal (disk_host sample_nested) sample_nested = Inr () \<and>
   (\<exists>e w'. resume_transaction (disk_host sample_nested) sample_uuid (crashed_disk [] 1000) = (Inl e, w'))"
proof -
  let ?j = "sample_nested\<lparr> jn_committed := 1 \<rparr>"
  let ?a = "jn_operations sample_nested ! 0" and ?b = "jn_operations sample_nested ! 1"
  have valid: "validate_journal (disk_host sample_nested) sample_nested = Inr ()" by code_simp
  have j: "journal_of (disk_host sample_nested) (disk_tree (crashed_disk [] 1000)) sample_uuid = Some ?j" by code_simp
  have ops: "?a \<in> set (jn_operations ?j)" "?b \<in> set (jn_operations ?j)" by code_simp+
  have "strict_prefix (target_path ?a) (target_path ?b)" by code_simp
  moreover have "disk_tree (crashed_disk [] 1000) (target_path ?a) = Some (FileNode [1, 2] 420)" by code_simp
  ultimately show ?thesis
    using nested_targets_block_recovery [OF disk.cap_fs_axioms j ops] valid by blast
qed

end
