(* ===== verification/Artifact_Apply.thy ===== *)
theory Artifact_Apply
  imports Artifact_Token_Correct Apply_Properties
begin

text \<open>
  From a verified artifact to the files on disk: how \<open>chain apply\<close> (\<open>rebyte-cli/src/chain_command.rs\<close>) turns the
  artifact of an opened capsule into the lists that \<open>apply_verified_tree\<close> takes, that the checks of the artifact
  decoder are the ones the transaction engine needs, and what a successful application has installed.
\<close>

section \<open>The tree of a verified artifact\<close>

text \<open>The refusals of \<open>artifact_verified_tree\<close>; each is a \<open>CliError\<close> with a message and an exit code.\<close>

datatype tree_error =
    CannotVerify artifact_token_error
  | InvalidFileShape
  | InvalidTarget path_error
  | NoTarget
  | PathForDirectory
  | FileEntryWithoutPath
  | DirectoryEntryWithoutPath

definition EXIT_MALFORMED :: u8 where "EXIT_MALFORMED = 2"
definition EXIT_DIGEST :: u8 where "EXIT_DIGEST = 5"
definition EXIT_POLICY :: u8 where "EXIT_POLICY = 7"

primrec tree_error_code :: "tree_error \<Rightarrow> u8" where
  "tree_error_code (CannotVerify _) = EXIT_DIGEST"
| "tree_error_code InvalidFileShape = EXIT_MALFORMED"
| "tree_error_code (InvalidTarget _) = EXIT_POLICY"
| "tree_error_code NoTarget = EXIT_POLICY"
| "tree_error_code PathForDirectory = EXIT_POLICY"
| "tree_error_code FileEntryWithoutPath = EXIT_MALFORMED"
| "tree_error_code DirectoryEntryWithoutPath = EXIT_MALFORMED"

definition verified_file_of :: "relative_artifact_path \<Rightarrow> artifact_entry \<Rightarrow> verified_file" where
  "verified_file_of p entry = \<lparr> vf_path = p, vf_bytes = ae_bytes entry, vf_executable = ae_executable entry,
     vf_content_kind = (if from_utf8 (ae_bytes entry) then TextUtf8 else Binary) \<rparr>"

definition file_target :: "bytes option \<Rightarrow> artifact \<Rightarrow> tree_error + relative_artifact_path" where
  "file_target path_override a =
     (case path_override of
        Some p \<Rightarrow> map_err InvalidTarget (path_new p)
      | None \<Rightarrow>
     (case af_suggested_path a of
        Some p \<Rightarrow> Inr p
      | None \<Rightarrow>
     (case af_suggested_name a of
        Some name \<Rightarrow> map_err InvalidTarget (path_new name)
      | None \<Rightarrow> Inl NoTarget)))"

definition artifact_verified_tree ::
    "blake3 \<Rightarrow> ('e, 'd) zstd_engine \<Rightarrow> bytes \<Rightarrow> bytes option \<Rightarrow> security_limits \<Rightarrow>
     tree_error + (verified_file list \<times> relative_artifact_path list)" where
  "artifact_verified_tree H z artifact_binary path_override limits =
     and_then (map_err CannotVerify (decode_artifact H z artifact_binary limits)) (\<lambda>decoded.
     let a = da_artifact decoded in
     case af_kind a of
       FileArtifact \<Rightarrow>
         (case af_entries a of
            [] \<Rightarrow> Inl InvalidFileShape
          | entry # _ \<Rightarrow>
              if ae_kind entry \<noteq> FileEntry then Inl InvalidFileShape
              else and_then (file_target path_override a) (\<lambda>p. Inr ([verified_file_of p entry], [])))
     | DirectoryArtifact \<Rightarrow>
         if path_override \<noteq> None then Inl PathForDirectory
         else
         and_then (try_map (\<lambda>entry. and_then (ok_or FileEntryWithoutPath (ae_path entry))
             (\<lambda>p. Inr (verified_file_of p entry))) (filter (\<lambda>e. ae_kind e = FileEntry) (af_entries a))) (\<lambda>fs.
         and_then (try_map (\<lambda>entry. ok_or DirectoryEntryWithoutPath (ae_path entry))
             (filter (\<lambda>e. ae_kind e = DirectoryEntry) (af_entries a))) (\<lambda>ds.
         Inr (fs, ds))))"

section \<open>The decoder's tree check is what the transaction engine needs\<close>

text \<open>A file entry is not a strict ancestor of a later entry.\<close>

definition clear_of :: "artifact_entry_kind \<times> relative_artifact_path option \<Rightarrow>
    artifact_entry_kind \<times> relative_artifact_path option \<Rightarrow> bool" where
  "clear_of x y \<longleftrightarrow> (fst x = FileEntry \<longrightarrow> (\<forall>p q. snd x = Some p \<and> snd y = Some q \<longrightarrow>
     \<not> strict_prefix (split_on 47 (as_str p)) (split_on 47 (as_str q))))"

lemma validate_tree_clear:
  assumes "try_fold validate_tree_step fs cs = Inr x"
  shows "sorted_wrt clear_of (map (\<lambda>c. (ce_kind c, ce_path c)) cs) \<and>
    (\<forall>f\<in>set fs. \<forall>c\<in>set cs. pred_option (\<lambda>q. \<not> strict_prefix (split_on 47 f) (split_on 47 (as_str q))) (ce_path c))"
  using assms
proof (induction cs arbitrary: fs)
  case (Cons c cs)
  then obtain fs' where st: "validate_tree_step fs c = Inr fs'" and rest: "try_fold validate_tree_step fs' cs = Inr x"
    by (auto simp: and_then_eq_Inr)
  note ih = Cons.IH [OF rest]
  show ?case
  proof (cases "ce_path c")
    case None
    with st ih show ?thesis by (auto simp: validate_tree_step_def clear_of_def)
  next
    case (Some p)
    with st have "check_ancestors fs (as_str p) = Inr ()" "fs' = (if ce_kind c = FileEntry then as_str p # fs else fs)"
      by (auto simp: validate_tree_step_def and_then_eq_Inr)
    with ih Some show ?thesis
      by (auto simp: check_ancestors_iff clear_of_def pred_option_def split: if_splits)
  qed
qed simp

lemma place_nodes: "map (\<lambda>c. (ce_kind c, ce_path c)) (place H off es) = map (\<lambda>e. (ae_kind e, ae_path e)) es"
  by (induction es arbitrary: off) (auto split: artifact_entry_kind.splits)

lemma join_with_append: "xs \<noteq> [] \<Longrightarrow> ys \<noteq> [] \<Longrightarrow> join_with d (xs @ ys) = join_with d xs @ d # join_with d ys"
  by (induction xs) auto

lemma prefix_split_on:
  assumes "prefix (split_on d p) (split_on d q)"
  shows "prefix p q"
proof -
  from assms obtain zs where "split_on d q = split_on d p @ zs" by (auto simp: prefix_def)
  then have "q = join_with d (split_on d p @ zs)" by (metis join_split)
  then show ?thesis by (cases "zs = []") (simp_all add: join_with_append)
qed

lemma prefix_le: "prefix xs ys \<Longrightarrow> xs \<le> (ys :: bytes)"
  by (induction xs arbitrary: ys) (auto simp: prefix_def)

lemma path_validate_mono: "path_validate p m = Inr () \<Longrightarrow> m \<le> n \<Longrightarrow> path_validate p n = Inr ()"
  by (auto simp: path_validate_def split: if_splits)

text \<open>The order of the entries of a directory, and that no file lies above another entry.\<close>

definition file_order :: "artifact_entry \<Rightarrow> artifact_entry \<Rightarrow> bool" where
  "file_order d e \<longleftrightarrow> as_str (entry_sort_path d) < as_str (entry_sort_path e) \<and>
     (ae_kind d = FileEntry \<longrightarrow>
        \<not> strict_prefix (split_on 47 (as_str (entry_sort_path d))) (split_on 47 (as_str (entry_sort_path e))))"

lemma file_order_apart:
  assumes "file_order d e"
  shows "\<not> prefix (split_on 47 (as_str (entry_sort_path e))) (split_on 47 (as_str (entry_sort_path d)))"
    "ae_kind d = FileEntry \<Longrightarrow> \<not> prefix (split_on 47 (as_str (entry_sort_path d))) (split_on 47 (as_str (entry_sort_path e)))"
  using assms
  by (auto simp: file_order_def strict_prefix_def split_on_eq dest!: prefix_split_on dest: prefix_le)

lemma file_order_members:
  assumes "sorted_wrt file_order es" "e \<in> set es" "e' \<in> set es" "ae_kind e = FileEntry" "ae_kind e' \<noteq> FileEntry"
  shows "\<not> prefix (split_on 47 (as_str (entry_sort_path e))) (split_on 47 (as_str (entry_sort_path e')))"
proof -
  from assms(2,3) obtain i j where ij: "i < length es" "es ! i = e" "j < length es" "es ! j = e'" by (auto simp: in_set_conv_nth)
  with assms(4,5) consider "i < j" | "j < i" by (metis linorder_neqE_nat)
  then show ?thesis
    using assms(1,4) ij by cases (auto simp: sorted_wrt_iff_nth_less dest: file_order_apart)
qed

lemma file_path_of: "file_path (verified_file_of p e) = split_on 47 (as_str p)"
  by (simp add: file_path_def verified_file_of_def)

text \<open>What decoding guarantees of the entries of a directory.\<close>

lemma decoded_entries:
  assumes "decode_artifact H z bs limits = Inr d" "max_path_bytes limits \<le> max_path_bytes limits_V1"
  defines "a \<equiv> da_artifact d"
  shows "pred_option valid_path (af_suggested_path a)"
    and "\<forall>e\<in>set (af_entries a). (af_kind a = FileArtifact \<longleftrightarrow> ae_path e = None) \<and> pred_option valid_path (ae_path e)"
    and "af_kind a = FileArtifact \<Longrightarrow> \<exists>e. af_entries a = [e] \<and> ae_kind e = FileEntry"
    and "af_kind a = DirectoryArtifact \<Longrightarrow> sorted_wrt file_order (af_entries a)"
proof -
  obtain h m stored a' where m: "manifest_ok h limits m" and c: "envelope_content H z limits h m stored a'"
    and d: "d = report_on h m a'" using assms(1) by (rule decode_artifact_inv)
  have a: "a = a'" by (simp add: a_def d report_on_def)
  note e = decoded_envelope [OF m c, folded a]
  have path: "valid_path p" if "entry_path_ok limits p" for p
    using that path_validate_mono assms(2)
    by (auto simp: entry_path_ok_def valid_path_def path_new_def path_with_max_bytes_inv is_ok_iff)
  have entries: "dm_entries m = place H 0 (af_entries a)" "dm_suggested_path m = af_suggested_path a"
    using e(1,6) by (metis manifest_of_def decoded_manifest.select_convs(4), metis manifest_of_def decoded_manifest.select_convs(2))
  show "pred_option valid_path (af_suggested_path a)"
    using m path by (auto simp: manifest_ok_def manifest_metadata_ok_def entries option.pred_mono_strong)
  show shape: "\<forall>e\<in>set (af_entries a). (af_kind a = FileArtifact \<longleftrightarrow> ae_path e = None) \<and> pred_option valid_path (ae_path e)"
    using e(4) path by (auto simp: list_all_iff entry_shape_def intro: option.pred_mono_strong)
  show "\<exists>e. af_entries a = [e] \<and> ae_kind e = FileEntry" if "af_kind a = FileArtifact"
  proof -
    have "length (dm_entries m) = 1 \<and> list_all (\<lambda>e. ce_kind e = FileEntry) (dm_entries m)"
      using m that e(2) by (simp add: manifest_ok_def)
    then have "list_all (\<lambda>x. fst x = FileEntry) (map (\<lambda>c. (ce_kind c, ce_path c)) (dm_entries m))" "length (af_entries a) = 1"
      by (simp_all add: entries list_all_iff)
    then show ?thesis by (auto simp: entries place_nodes length_Suc_conv)
  qed
  show "sorted_wrt file_order (af_entries a)" if "af_kind a = DirectoryArtifact"
  proof -
    have named: "\<forall>e\<in>set (af_entries a). ae_path e \<noteq> None" using shape that by auto
    from m obtain x where "try_fold validate_tree_step [] (dm_entries m) = Inr x"
      by (auto simp: manifest_ok_def validate_tree_def and_then_eq_Inr)
    then have "sorted_wrt (\<lambda>d e. clear_of (ae_kind d, ae_path d) (ae_kind e, ae_path e)) (af_entries a)"
      using validate_tree_clear by (fastforce simp: entries place_nodes sorted_wrt_map)
    moreover have "sorted_wrt (\<lambda>d e. entry_sort_path d < entry_sort_path e) (af_entries a)"
      using orders_strict [OF e(5) named] by simp
    moreover have "ae_path (af_entries a ! i) = Some (entry_sort_path (af_entries a ! i))" if "i < length (af_entries a)" for i
      using bspec [OF named nth_mem [OF that]] by (auto simp: entry_sort_path_def)
    ultimately show ?thesis
      by (simp add: sorted_wrt_iff_nth_less file_order_def clear_of_def less_relative_artifact_path_def)
  qed
qed

text \<open>The lists of files and directories, by the entries they come from.\<close>

lemma try_map_files:
  assumes "\<forall>e\<in>set es. ae_path e \<noteq> None"
  shows "try_map (\<lambda>e. and_then (ok_or err (ae_path e)) (\<lambda>p. Inr (verified_file_of p e))) es
      = Inr (map (\<lambda>e. verified_file_of (entry_sort_path e) e) es)"
    "try_map (\<lambda>e. ok_or err (ae_path e)) es = Inr (map entry_sort_path es)"
  using assms by (induction es) (auto simp: entry_sort_path_def)

lemma verified_tree_cases:
  assumes "artifact_verified_tree H z binary path_override limits = Inr (fs, ds)"
    and "max_path_bytes limits \<le> max_path_bytes limits_V1"
  obtains (file_tree) d e p where "decode_artifact H z binary limits = Inr d" "af_kind (da_artifact d) = FileArtifact"
      "af_entries (da_artifact d) = [e]" "ae_kind e = FileEntry" "file_target path_override (da_artifact d) = Inr p"
      "valid_path p" "fs = [verified_file_of p e]" "ds = []"
  | (directory_tree) d where "decode_artifact H z binary limits = Inr d" "af_kind (da_artifact d) = DirectoryArtifact"
      "\<forall>e\<in>set (af_entries (da_artifact d)). ae_path e \<noteq> None \<and> valid_path (entry_sort_path e)"
      "fs = map (\<lambda>e. verified_file_of (entry_sort_path e) e)
         (filter (\<lambda>e. ae_kind e = FileEntry) (af_entries (da_artifact d)))"
      "ds = map entry_sort_path (filter (\<lambda>e. ae_kind e = DirectoryEntry) (af_entries (da_artifact d)))"
proof -
  from assms(1) obtain d where d: "decode_artifact H z binary limits = Inr d"
    by (auto simp: artifact_verified_tree_def and_then_eq_Inr map_err_eq_Inr)
  note c = decoded_entries [OF d assms(2)]
  show thesis
  proof (cases "af_kind (da_artifact d)")
    case FileArtifact
    with c(3) obtain e where e: "af_entries (da_artifact d) = [e]" "ae_kind e = FileEntry" by blast
    with assms(1) d FileArtifact obtain p where p: "file_target path_override (da_artifact d) = Inr p"
      "fs = [verified_file_of p e]" "ds = []"
      by (auto simp: artifact_verified_tree_def and_then_eq_Inr)
    from p(1) c(1) have "valid_path p"
      by (auto simp: file_target_def valid_path_def path_new_def path_with_max_bytes_inv is_ok_iff map_err_eq_Inr
          split: option.splits)
    with file_tree [OF d FileArtifact e p(1) _ p(2,3)] show thesis .
  next
    case DirectoryArtifact
    with c(2) have named: "\<forall>e\<in>set (af_entries (da_artifact d)). ae_path e \<noteq> None \<and> valid_path (entry_sort_path e)"
      by (auto simp: entry_sort_path_def split: option.splits)
    with assms(1) d DirectoryArtifact show thesis
      using directory_tree [OF d DirectoryArtifact named]
      by (auto simp: artifact_verified_tree_def Let_def try_map_files split: if_splits)
  qed
qed

text \<open>A verified tree is one that the engine can apply.\<close>

lemma verified_tree_valid:
  assumes tree: "artifact_verified_tree H z binary path_override limits = Inr (fs, ds)"
    and max: "max_path_bytes limits \<le> max_path_bytes limits_V1"
    and names: "list_all (\<lambda>f. \<not> prefix (ascii ''.rebyte-'') (last (file_path f))) fs"
  shows "valid_tree fs ds"
  using tree max
proof (cases rule: verified_tree_cases)
  case (file_tree d e p)
  with names show ?thesis by (simp add: valid_tree_def apart_def verified_file_of_def)
next
  case (directory_tree d)
  let ?es = "af_entries (da_artifact d)" and ?path = "\<lambda>e. split_on 47 (as_str (entry_sort_path e))"
  note sorted = decoded_entries(4) [OF directory_tree(1) max directory_tree(2)]
  have "sorted_wrt file_order (filter (\<lambda>e. ae_kind e = FileEntry) ?es)" using sorted by (rule sorted_wrt_filter)
  then have "sorted_wrt (\<lambda>p q. \<not> prefix p q \<and> \<not> prefix q p) (map file_path fs)"
    unfolding directory_tree(4) by (auto simp: sorted_wrt_map file_path_of file_order_apart elim!: sorted_wrt_mono_rel [rotated])
  moreover have "list_all (\<lambda>p. list_all (\<lambda>d. \<not> prefix p d) (map (\<lambda>d. split_on 47 (as_str d)) ds)) (map file_path fs)"
    using file_order_members [OF sorted] unfolding directory_tree(4,5) by (fastforce simp: list_all_iff file_path_of)
  ultimately show ?thesis
    using names directory_tree(3) unfolding valid_tree_def apart_def
    by (auto simp: list_all_iff directory_tree(4,5) verified_file_of_def)
qed

section \<open>Applying a verified artifact\<close>

text \<open>The node of an entry: the file with its executable bit and bytes of its digest, or a directory.\<close>

definition installed :: "blake3 \<Rightarrow> fs_node option \<Rightarrow> artifact_entry \<Rightarrow> bool" where
  "installed H node e \<longleftrightarrow> (case ae_kind e of
     FileEntry \<Rightarrow> (\<exists>bs mode. node = Some (FileNode bs mode) \<and> mode_executable mode = ae_executable e \<and>
       file_digest H bs = file_digest H (ae_bytes e))
   | DirectoryEntry \<Rightarrow> node = Some DirNode)"

lemma installed_file: "ae_kind e = FileEntry \<Longrightarrow> installed H node e \<longleftrightarrow> has_file H (verified_file_of p e) node"
  by (simp add: installed_def has_file_def verified_file_of_def)

lemma length_kinds:
  "length (filter (\<lambda>e. ae_kind e = FileEntry) es) + length (filter (\<lambda>e. ae_kind e = DirectoryEntry) es) = length es"
proof (induction es)
  case (Cons e es)
  then show ?case by (cases "ae_kind e") auto
qed simp

lemma shows_all: "shows_prefix H fs t0 t (length fs) \<Longrightarrow> f \<in> set fs \<Longrightarrow> has_file H f (t (file_path f))"
  by (auto simp: shows_prefix_def in_set_conv_nth)

text \<open>
  C29. What the decoder accepts is what the engine can apply, and all of it is installed: whenever the tree of a decrypted
  artifact is accepted and \<open>apply_verified_tree\<close> returns a report, every entry of the decoded artifact is on disk, a file
  under its path (a single file under the override, the suggested path or the suggested name) with its bytes and
  executable bit, and a directory as a directory. The tree check of the decoder excludes every
  conflict between entries; only names in the engine's own name space \<open>.rebyte-\<close> have to be excluded.
\<close>

theorem artifact_apply_installs:
  assumes "cap_fs F tree" and "artifact_verified_tree (h_blake3 F) z binary path_override limits = Inr (fs, ds)"
    and "max_path_bytes limits \<le> max_path_bytes limits_V1"
    and "list_all (\<lambda>f. \<not> prefix (ascii ''.rebyte-'') (last (file_path f))) fs"
    and "apply_verified_tree F src fs ds retain w = (Inr r, w')"
  shows "\<exists>d. decode_artifact (h_blake3 F) z binary limits = Inr d \<and>
    rp_files_written r + rp_directories_ensured r = length (af_entries (da_artifact d)) \<and>
    list_all (\<lambda>e. \<exists>p. installed (h_blake3 F) (tree w' (split_on 47 (as_str p))) e \<and>
      (if af_kind (da_artifact d) = FileArtifact then file_target path_override (da_artifact d) = Inr p
       else ae_path e = Some p)) (af_entries (da_artifact d))"
proof -
  note run = wp_Inr [OF cap_fs.wp_apply [OF assms(1) verified_tree_valid [OF assms(2-4)]] assms(5)]
  from assms(2,3) show ?thesis
  proof (cases rule: verified_tree_cases)
    case (file_tree d e p)
    with run have "has_file (h_blake3 F) (verified_file_of p e) (tree w' (split_on 47 (as_str p)))"
      using shows_all [of "h_blake3 F" fs "tree w" "tree w'" "verified_file_of p e"] by (simp add: file_path_of)
    with file_tree run show ?thesis by (auto simp: installed_file [where p = p])
  next
    case (directory_tree d)
    let ?es = "af_entries (da_artifact d)"
    have inst: "installed (h_blake3 F) (tree w' (split_on 47 (as_str (entry_sort_path e)))) e" if "e \<in> set ?es" for e
    proof (cases "ae_kind e")
      case FileEntry
      with that have "verified_file_of (entry_sort_path e) e \<in> set fs" by (simp add: directory_tree(4))
      with run FileEntry show ?thesis
        by (auto dest!: shows_all [where f = "verified_file_of (entry_sort_path e) e"]
            simp: file_path_of installed_file [where p = "entry_sort_path e"])
    next
      case DirectoryEntry
      with that run show ?thesis by (auto simp: directory_tree(5) installed_def)
    qed
    have "ae_path e = Some (entry_sort_path e)" if "e \<in> set ?es" for e
      using that directory_tree(3) by (auto simp: entry_sort_path_def)
    moreover have "length fs + length ds = length ?es"
      unfolding directory_tree(4,5) length_map by (rule length_kinds)
    ultimately show ?thesis
      using inst run directory_tree(1,2) by (auto simp: list_all_iff)
  qed
qed

text \<open>The sample directory, applied to a disk on which its file does not exist yet.\<close>

definition empty_disk :: disk where
  "empty_disk = \<lparr> dk_nodes = [([ascii ''z''], FileNode [8] 420)], dk_calls = 1000 \<rparr>"

definition sample_path :: relative_artifact_path where
  "sample_path = RelativeArtifactPath (ascii ''src/b'')"

theorem artifact_apply_installs_witness:
  "\<exists>fs ds r w'. artifact_verified_tree sample_hash stored_zstd
      (envelope_of sample_hash sample_artifact Balanced sample_payload) None limits_SIMPLE_ARTIFACT = Inr (fs, ds) \<and>
    apply_verified_tree (disk_host sample_plan) (Digest32 []) fs ds False empty_disk = (Inr r, w') \<and>
    rp_files_written r + rp_directories_ensured r = 2 \<and>
    installed sample_hash (disk_tree w' (split_on 47 (ascii ''src/b''))) (entry_file sample_path [7, 8, 9] True)"
proof -
  let ?binary = "envelope_of sample_hash sample_artifact Balanced sample_payload"
  let ?e = "entry_file sample_path [7, 8, 9] True" and ?d = "RelativeArtifactPath (ascii ''a'')"
  let ?f = "verified_file_of sample_path ?e"
  let ?run = "apply_verified_tree (disk_host sample_plan) (Digest32 []) [?f] [?d] False empty_disk"
  obtain d where d: "decode_artifact sample_hash stored_zstd ?binary limits_SIMPLE_ARTIFACT = Inr d"
    "da_artifact d = sample_artifact\<lparr> af_entries := canonical_order sample_artifact \<rparr>" using sample_envelope by blast
  moreover have order: "canonical_order sample_artifact = [entry_directory ?d, ?e]" by code_simp
  moreover have kind: "af_kind sample_artifact = DirectoryArtifact" by (simp add: sample_artifact_def)
  ultimately have tree: "artifact_verified_tree sample_hash stored_zstd ?binary None limits_SIMPLE_ARTIFACT = Inr ([?f], [?d])"
    by (simp add: artifact_verified_tree_def entry_file_def entry_directory_def)
  have "is_ok (fst ?run)" by code_simp
  then obtain r where run: "?run = (Inr r, snd ?run)" by (cases ?run) (auto simp: is_ok_iff)
  have names: "list_all (\<lambda>f. \<not> prefix (ascii ''.rebyte-'') (last (file_path f))) [?f]" by code_simp
  have "max_path_bytes limits_SIMPLE_ARTIFACT \<le> max_path_bytes limits_V1" by (simp add: limits_SIMPLE_ARTIFACT_def)
  from artifact_apply_installs [OF disk.cap_fs_axioms _ this names run, of stored_zstd ?binary None] tree d order kind
  have "rp_files_written r + rp_directories_ensured r = 2 \<and> installed sample_hash (disk_tree (snd ?run) (split_on 47 (as_str sample_path))) ?e"
    by (simp add: entry_file_def disk_host_simps)
  with tree run show ?thesis by (auto simp: sample_path_def)
qed

end
