(* ===== verification/Semantic_Patch.thy ===== *)
theory Semantic_Patch
  imports Rap_Crypto
begin

text \<open>
  The crate \<open>rebyte-semantic\<close>: bounded patches of JSON and TOML documents. serde_json and toml_edit are third-party code:
  a JSON text is what the parser hands to the visitor (\<open>raw_json\<close>, where an object may still repeat a key), numbers
  are a type of their own with the equality the parser's crate gives them, and a TOML document is reached through a
  record of the calls of toml_edit.
\<close>

section \<open>Values, operations and patches\<close>

datatype 'n json =
    JsonNull
  | JsonBool bool
  | JsonNumber 'n
  | JsonString bytes
  | JsonArray "'n json list"
  | JsonObject "(bytes \<times> 'n json) list"

datatype 'r raw_json =
    RawNull
  | RawBool bool
  | RawNumber 'r
  | RawString bytes
  | RawSeq "'r raw_json list"
  | RawMap "(bytes \<times> 'r raw_json) list"

datatype patch_format = FormatJson | FormatToml

datatype 'n patch_operation =
    OpTest bytes "'n json"
  | OpSet bytes "'n json"
  | OpRemove bytes

primrec operation_path :: "'n patch_operation \<Rightarrow> bytes" where
  "operation_path (OpTest p _) = p"
| "operation_path (OpSet p _) = p"
| "operation_path (OpRemove p) = p"

record 'n semantic_patch =
  sem_schema_version :: u16
  sem_format :: patch_format
  sem_target_digest :: "bytes option"
  sem_operations :: "'n patch_operation list"

record semantic_patch_result =
  spr_bytes :: bytes
  spr_before_digest :: digest32
  spr_after_digest :: digest32
  spr_changed :: bool
  spr_operations_applied :: u32

datatype semantic_error =
    SemPatchTooLarge
  | SemInvalidPatch
  | SemUnsupportedVersion u16
  | SemOperationLimit
  | SemInvalidPointer
  | SemInvalidDigest
  | SemTargetDigestMismatch
  | SemInvalidJson
  | SemInvalidToml
  | SemMissingPath
  | SemTypeConflict
  | SemTestFailed
  | SemUnsupportedTomlPath
  | SemUnsupportedTomlValue
  | SemLengthOverflow

definition MAX_PATCH_BYTES :: u64 where "MAX_PATCH_BYTES = 2 * 1024 * 1024"
definition MAX_OPERATIONS :: nat where "MAX_OPERATIONS = 512"
definition MAX_POINTER_BYTES :: nat where "MAX_POINTER_BYTES = 1024"
definition MAX_POINTER_DEPTH :: nat where "MAX_POINTER_DEPTH = 64"

section \<open>Objects\<close>

text \<open>A JSON object is a map ordered by its keys.\<close>

fun object_get :: "bytes \<Rightarrow> (bytes \<times> 'v) list \<Rightarrow> 'v option" where
  "object_get k [] = None"
| "object_get k ((j, v) # xs) = (if k = j then Some v else object_get k xs)"

fun object_insert :: "bytes \<Rightarrow> 'v \<Rightarrow> (bytes \<times> 'v) list \<Rightarrow> (bytes \<times> 'v) list" where
  "object_insert k v [] = [(k, v)]"
| "object_insert k v ((j, w) # xs) =
     (if k = j then (k, v) # xs else if k < j then (k, v) # (j, w) # xs else (j, w) # object_insert k v xs)"

definition object_remove :: "bytes \<Rightarrow> (bytes \<times> 'v) list \<Rightarrow> (bytes \<times> 'v) list" where
  "object_remove k xs = filter (\<lambda>x. fst x \<noteq> k) xs"

text \<open>Equality of values, given the equality of numbers.\<close>

fun json_eq :: "('n \<Rightarrow> 'n \<Rightarrow> bool) \<Rightarrow> 'n json \<Rightarrow> 'n json \<Rightarrow> bool" where
  "json_eq eq JsonNull JsonNull = True"
| "json_eq eq (JsonBool a) (JsonBool b) = (a = b)"
| "json_eq eq (JsonNumber a) (JsonNumber b) = eq a b"
| "json_eq eq (JsonString a) (JsonString b) = (a = b)"
| "json_eq eq (JsonArray xs) (JsonArray ys) = list_all2 (json_eq eq) xs ys"
| "json_eq eq (JsonObject xs) (JsonObject ys) =
     list_all2 (\<lambda>x y. fst x = fst y \<and> json_eq eq (snd x) (snd y)) xs ys"
| "json_eq eq _ _ = False"

text \<open>The visitor of \<open>StrictJson\<close>: a repeated key or a number that is not finite is refused.\<close>

fun strict_json :: "('r \<Rightarrow> 'n option) \<Rightarrow> 'r raw_json \<Rightarrow> 'n json option"
  and strict_seq :: "('r \<Rightarrow> 'n option) \<Rightarrow> 'r raw_json list \<Rightarrow> 'n json list option"
  and strict_map :: "('r \<Rightarrow> 'n option) \<Rightarrow> bytes list \<Rightarrow> (bytes \<times> 'n json) list \<Rightarrow> (bytes \<times> 'r raw_json) list \<Rightarrow>
    (bytes \<times> 'n json) list option" where
  "strict_json num RawNull = Some JsonNull"
| "strict_json num (RawBool b) = Some (JsonBool b)"
| "strict_json num (RawNumber r) = map_option JsonNumber (num r)"
| "strict_json num (RawString s) = Some (JsonString s)"
| "strict_json num (RawSeq xs) = map_option JsonArray (strict_seq num xs)"
| "strict_json num (RawMap xs) = map_option JsonObject (strict_map num [] [] xs)"
| "strict_seq num [] = Some []"
| "strict_seq num (x # xs) =
     (case strict_json num x of None \<Rightarrow> None | Some v \<Rightarrow> map_option ((#) v) (strict_seq num xs))"
| "strict_map num keys values [] = Some values"
| "strict_map num keys values ((k, x) # xs) =
     (if k \<in> set keys then None
      else case strict_json num x of None \<Rightarrow> None
        | Some v \<Rightarrow> strict_map num (k # keys) (object_insert k v values) xs)"

section \<open>Pointers\<close>

definition is_ascii_digit :: "u8 \<Rightarrow> bool" where
  "is_ascii_digit b \<longleftrightarrow> 48 \<le> b \<and> b \<le> 57"

definition decimal_value :: "bytes \<Rightarrow> nat" where
  "decimal_value bs = foldl (\<lambda>n b. 10 * n + (unat b - 48)) 0 bs"

text \<open>\<open>str::parse\<close> of an unsigned integer: an optional plus sign, digits, and no overflow.\<close>

definition parse_usize :: "bytes \<Rightarrow> nat option" where
  "parse_usize bs =
     (let digits = (case bs of b # r \<Rightarrow> if b = 43 then r else bs | [] \<Rightarrow> []) in
      if digits = [] \<or> \<not> list_all is_ascii_digit digits \<or> usize_max < decimal_value digits then None
      else Some (decimal_value digits))"

definition parse_array_index :: "bytes \<Rightarrow> nat \<Rightarrow> bool \<Rightarrow> semantic_error + nat" where
  "parse_array_index value len appends =
     (if value = ascii ''-'' \<and> appends then Inr len
      else if value = [] \<or> (1 < length value \<and> hd value = 48) \<or> list_ex (\<lambda>b. \<not> is_ascii_digit b) value
      then Inl SemTypeConflict
      else ok_or SemTypeConflict (parse_usize value))"

fun decode_component :: "bytes \<Rightarrow> semantic_error + bytes" where
  "decode_component [] = Inr []"
| "decode_component (c # cs) =
     (if c \<noteq> 126 then and_then (decode_component cs) (\<lambda>d. Inr (c # d))
      else case cs of
        [] \<Rightarrow> Inl SemInvalidPointer
      | e # rest \<Rightarrow>
          if e = 48 then and_then (decode_component rest) (\<lambda>d. Inr (126 # d))
          else if e = 49 then and_then (decode_component rest) (\<lambda>d. Inr (47 # d))
          else Inl SemInvalidPointer)"

definition parse_pointer_step :: "bytes list \<Rightarrow> bytes \<Rightarrow> semantic_error + bytes list" where
  "parse_pointer_step components raw =
     and_then (decode_component raw) (\<lambda>decoded.
       let components = components @ [decoded] in
       if MAX_POINTER_DEPTH < length components then Inl SemInvalidPointer else Inr components)"

definition parse_pointer :: "bytes \<Rightarrow> semantic_error + bytes list" where
  "parse_pointer value =
     (if MAX_POINTER_BYTES < length value then Inl SemInvalidPointer
      else if value = [] then Inr []
      else
      and_then (ok_or SemInvalidPointer (strip_prefix [47] value)) (\<lambda>body.
        try_fold parse_pointer_step [] (split_on 47 body)))"

text \<open>One step down: the child a component names.\<close>

definition array_child :: "'v list \<Rightarrow> bytes \<Rightarrow> semantic_error + nat" where
  "array_child values component =
     and_then (parse_array_index component (length values) False) (\<lambda>index.
       if index < length values then Inr index else Inl SemMissingPath)"

definition json_child :: "'n json \<Rightarrow> bytes \<Rightarrow> semantic_error + 'n json" where
  "json_child current component =
     (case current of
        JsonObject xs \<Rightarrow> ok_or SemMissingPath (object_get component xs)
      | JsonArray values \<Rightarrow> and_then (array_child values component) (\<lambda>index. Inr (values ! index))
      | _ \<Rightarrow> Inl SemTypeConflict)"

definition pointer_get :: "'n json \<Rightarrow> bytes list \<Rightarrow> semantic_error + 'n json" where
  "pointer_get current components = try_fold json_child current components"

text \<open>
  A mutable reference to the parent is the function that puts a changed parent back: \<open>pointer_parent_mut\<close> walks down
  and \<open>change\<close> is what the caller does with the parent and the final component.
\<close>

fun at_parent ::
    "('n json \<Rightarrow> bytes \<Rightarrow> semantic_error + 'n json) \<Rightarrow> 'n json \<Rightarrow> bytes list \<Rightarrow> semantic_error + 'n json" where
  "at_parent change current [] = Inl SemInvalidPointer"
| "at_parent change current [final] = change current final"
| "at_parent change current (component # rest) =
     (case current of
        JsonObject xs \<Rightarrow>
          and_then (ok_or SemMissingPath (object_get component xs)) (\<lambda>child.
          and_then (at_parent change child rest) (\<lambda>child'.
            Inr (JsonObject (object_insert component child' xs))))
      | JsonArray values \<Rightarrow>
          and_then (array_child values component) (\<lambda>index.
          and_then (at_parent change (values ! index) rest) (\<lambda>child'.
            Inr (JsonArray (values[index := child']))))
      | _ \<Rightarrow> Inl SemTypeConflict)"

definition set_in_parent :: "'n json \<Rightarrow> 'n json \<Rightarrow> bytes \<Rightarrow> semantic_error + 'n json" where
  "set_in_parent value parent final =
     (case parent of
        JsonObject xs \<Rightarrow> Inr (JsonObject (object_insert final value xs))
      | JsonArray values \<Rightarrow>
          if final = ascii ''-'' then Inr (JsonArray (values @ [value]))
          else and_then (array_child values final) (\<lambda>index. Inr (JsonArray (values[index := value])))
      | _ \<Rightarrow> Inl SemTypeConflict)"

definition pointer_set :: "'n json \<Rightarrow> bytes list \<Rightarrow> 'n json \<Rightarrow> semantic_error + 'n json" where
  "pointer_set root components value =
     (if components = [] then Inr value else at_parent (set_in_parent value) root components)"

definition remove_from_parent :: "'n json \<Rightarrow> bytes \<Rightarrow> semantic_error + 'n json" where
  "remove_from_parent parent final =
     (case parent of
        JsonObject xs \<Rightarrow>
          and_then (ok_or SemMissingPath (object_get final xs)) (\<lambda>_. Inr (JsonObject (object_remove final xs)))
      | JsonArray values \<Rightarrow>
          and_then (array_child values final) (\<lambda>index. Inr (JsonArray (take index values @ drop (Suc index) values)))
      | _ \<Rightarrow> Inl SemTypeConflict)"

definition pointer_remove :: "'n json \<Rightarrow> bytes list \<Rightarrow> semantic_error + 'n json" where
  "pointer_remove root components = at_parent remove_from_parent root components"

section \<open>Applying operations\<close>

definition apply_operation ::
    "('n \<Rightarrow> 'n \<Rightarrow> bool) \<Rightarrow> 'n json \<Rightarrow> 'n patch_operation \<Rightarrow> semantic_error + 'n json" where
  "apply_operation eq root op =
     and_then (parse_pointer (operation_path op)) (\<lambda>components.
       case op of
         OpTest _ value \<Rightarrow>
           and_then (pointer_get root components) (\<lambda>current.
             if \<not> json_eq eq current value then Inl SemTestFailed else Inr root)
       | OpSet _ value \<Rightarrow> pointer_set root components value
       | OpRemove _ \<Rightarrow> pointer_remove root components)"

definition apply_operations ::
    "('n \<Rightarrow> 'n \<Rightarrow> bool) \<Rightarrow> 'n json \<Rightarrow> 'n patch_operation list \<Rightarrow> semantic_error + 'n json" where
  "apply_operations eq root ops = try_fold (apply_operation eq) root ops"

text \<open>The calls of serde_json.\<close>

record ('r, 'n) serde_json =
  sj_from_slice :: "bytes \<Rightarrow> 'r raw_json option"
  sj_number :: "'r \<Rightarrow> 'n option"
  sj_number_eq :: "'n \<Rightarrow> 'n \<Rightarrow> bool"
  sj_to_vec_pretty :: "'n json \<Rightarrow> bytes option"
  sj_patch_from_value :: "'n json \<Rightarrow> 'n semantic_patch option"
  sj_patch_to_vec_pretty :: "'n semantic_patch \<Rightarrow> bytes option"

definition strict_from_slice :: "('r, 'n) serde_json \<Rightarrow> bytes \<Rightarrow> 'n json option" where
  "strict_from_slice J bs = Option.bind (sj_from_slice J bs) (strict_json (sj_number J))"

definition apply_json ::
    "('r, 'n) serde_json \<Rightarrow> bytes \<Rightarrow> 'n patch_operation list \<Rightarrow> semantic_error + bytes" where
  "apply_json J target ops =
     and_then (ok_or SemInvalidJson (strict_from_slice J target)) (\<lambda>root.
     and_then (apply_operations (sj_number_eq J) root ops) (\<lambda>root.
     and_then (ok_or SemInvalidJson (sj_to_vec_pretty J root)) (\<lambda>output.
       Inr (output @ [10]))))"

text \<open>The calls of toml_edit: \<open>'t\<close> is an item, a table being an item with entries.\<close>

record ('t, 'n) toml_edit =
  te_parse :: "bytes \<Rightarrow> 't option"
  te_mirror :: "bytes \<Rightarrow> 'n json option"
  te_get :: "'t \<Rightarrow> bytes \<Rightarrow> 't option"
  te_is_table :: "'t \<Rightarrow> bool"
  te_put :: "'t \<Rightarrow> bytes \<Rightarrow> 't \<Rightarrow> 't"
  te_insert :: "'t \<Rightarrow> bytes \<Rightarrow> 't \<Rightarrow> 't"
  te_remove :: "'t \<Rightarrow> bytes \<Rightarrow> 't option"
  te_is_value :: "'t \<Rightarrow> bool"
  te_copy_decor :: "'t \<Rightarrow> 't \<Rightarrow> 't"
  te_item_of :: "'n json \<Rightarrow> 't option"
  te_to_string :: "'t \<Rightarrow> bytes"

fun toml_at_parent ::
    "('t, 'n) toml_edit \<Rightarrow> ('t \<Rightarrow> bytes \<Rightarrow> semantic_error + 't) \<Rightarrow> 't \<Rightarrow> bytes list \<Rightarrow> semantic_error + 't" where
  "toml_at_parent T change current [] = Inl SemUnsupportedTomlPath"
| "toml_at_parent T change current [final] = change current final"
| "toml_at_parent T change current (component # rest) =
     and_then (ok_or SemMissingPath (te_get T current component)) (\<lambda>child.
       if \<not> te_is_table T child then Inl SemTypeConflict
       else and_then (toml_at_parent T change child rest) (\<lambda>child'. Inr (te_put T current component child')))"

definition toml_set :: "('t, 'n) toml_edit \<Rightarrow> 't \<Rightarrow> bytes list \<Rightarrow> 't \<Rightarrow> semantic_error + 't" where
  "toml_set T table components item =
     toml_at_parent T (\<lambda>current final.
       let item = (case te_get T current final of
             None \<Rightarrow> item
           | Some existing \<Rightarrow>
               if te_is_value T existing \<and> te_is_value T item then te_copy_decor T existing item else item)
       in Inr (te_insert T current final item)) table components"

definition toml_remove :: "('t, 'n) toml_edit \<Rightarrow> 't \<Rightarrow> bytes list \<Rightarrow> semantic_error + 't" where
  "toml_remove T table components =
     toml_at_parent T (\<lambda>current final. ok_or SemMissingPath (te_remove T current final)) table components"

definition json_to_toml_item :: "('t, 'n) toml_edit \<Rightarrow> 'n json \<Rightarrow> semantic_error + 't" where
  "json_to_toml_item T value = ok_or SemUnsupportedTomlValue (te_item_of T value)"

definition apply_toml_operation :: "('t, 'n) toml_edit \<Rightarrow> 't \<Rightarrow> 'n patch_operation \<Rightarrow> semantic_error + 't" where
  "apply_toml_operation T document op =
     (case op of
        OpTest _ _ \<Rightarrow> Inr document
      | OpSet p value \<Rightarrow>
          and_then (parse_pointer p) (\<lambda>components.
          and_then (json_to_toml_item T value) (\<lambda>item. toml_set T document components item))
      | OpRemove p \<Rightarrow> and_then (parse_pointer p) (\<lambda>components. toml_remove T document components))"

definition apply_toml ::
    "('r, 'n) serde_json \<Rightarrow> ('t, 'n) toml_edit \<Rightarrow> bytes \<Rightarrow> 'n patch_operation list \<Rightarrow> semantic_error + bytes" where
  "apply_toml J T target ops =
     (if \<not> from_utf8 target then Inl SemInvalidToml
      else
      and_then (ok_or SemInvalidToml (te_parse T target)) (\<lambda>document.
      and_then (ok_or SemInvalidToml (te_mirror T target)) (\<lambda>mirror.
      and_then (apply_operations (sj_number_eq J) mirror ops) (\<lambda>_.
      and_then (try_fold (apply_toml_operation T) document ops) (\<lambda>document.
        Inr (te_to_string T document))))))"

section \<open>Patch documents\<close>

definition hex_value :: "u8 \<Rightarrow> u8" where
  "hex_value b = (if 48 \<le> b \<and> b \<le> 57 then b - 48 else if 97 \<le> b \<and> b \<le> 102 then b - 97 + 10 else 0)"

fun hex_pairs :: "bytes \<Rightarrow> bytes" where
  "hex_pairs (a # b # r) = or (push_bit 4 (hex_value a)) (hex_value b) # hex_pairs r"
| "hex_pairs _ = []"

definition decode_digest :: "bytes \<Rightarrow> semantic_error + digest32" where
  "decode_digest value =
     (if length value \<noteq> 64 \<or> list_ex (\<lambda>b. \<not> is_ascii_digit b \<and> \<not> (97 \<le> b \<and> b \<le> 102)) value
      then Inl SemInvalidDigest else Inr (Digest32 (hex_pairs value)))"

definition validate_operation_path :: "patch_format \<Rightarrow> 'n patch_operation \<Rightarrow> semantic_error + unit" where
  "validate_operation_path fmt op =
     and_then (parse_pointer (operation_path op)) (\<lambda>components.
       if fmt = FormatToml \<and>
          (components = [] \<or> list_ex (\<lambda>c. c = ascii ''-'' \<or> parse_usize c \<noteq> None) components)
       then Inl SemUnsupportedTomlPath else Inr ())"

definition patch_validate :: "'n semantic_patch \<Rightarrow> semantic_error + unit" where
  "patch_validate self =
     (if sem_schema_version self \<noteq> 1 then Inl (SemUnsupportedVersion (sem_schema_version self))
      else if sem_operations self = [] \<or> MAX_OPERATIONS < length (sem_operations self) then Inl SemOperationLimit
      else
      and_then (case sem_target_digest self of None \<Rightarrow> Inr () | Some v \<Rightarrow> and_then (decode_digest v) (\<lambda>_. Inr ())) (\<lambda>_.
        try_for_each (validate_operation_path (sem_format self)) (sem_operations self)))"

definition patch_new ::
    "patch_format \<Rightarrow> bytes option \<Rightarrow> 'n patch_operation list \<Rightarrow> semantic_error + 'n semantic_patch" where
  "patch_new fmt target_digest ops =
     (let patch = \<lparr> sem_schema_version = 1, sem_format = fmt, sem_target_digest = target_digest, sem_operations = ops \<rparr>
      in and_then (patch_validate patch) (\<lambda>_. Inr patch))"

definition to_json_bytes :: "('r, 'n) serde_json \<Rightarrow> 'n semantic_patch \<Rightarrow> semantic_error + bytes" where
  "to_json_bytes J self = and_then (ok_or SemInvalidPatch (sj_patch_to_vec_pretty J self)) (\<lambda>output. Inr (output @ [10]))"

definition parse_patch :: "('r, 'n) serde_json \<Rightarrow> bytes \<Rightarrow> semantic_error + 'n semantic_patch" where
  "parse_patch J bs =
     and_then (try_from_usize SemLengthOverflow (length bs)) (\<lambda>len :: u64.
       if MAX_PATCH_BYTES < len then Inl SemPatchTooLarge
       else
       and_then (ok_or SemInvalidPatch (strict_from_slice J bs)) (\<lambda>strict.
       and_then (ok_or SemInvalidPatch (sj_patch_from_value J strict)) (\<lambda>patch.
       and_then (patch_validate patch) (\<lambda>_. Inr patch))))"

definition check_target_digest :: "blake3 \<Rightarrow> 'n semantic_patch \<Rightarrow> digest32 \<Rightarrow> semantic_error + unit" where
  "check_target_digest H patch before_digest =
     (case sem_target_digest patch of
        None \<Rightarrow> Inr ()
      | Some expected \<Rightarrow>
          and_then (decode_digest expected) (\<lambda>expected.
            if \<not> digest_matches expected before_digest then Inl SemTargetDigestMismatch else Inr ()))"

definition apply_semantic_patch ::
    "blake3 \<Rightarrow> ('r, 'n) serde_json \<Rightarrow> ('t, 'n) toml_edit \<Rightarrow> 'n semantic_patch \<Rightarrow> bytes \<Rightarrow>
     semantic_error + semantic_patch_result" where
  "apply_semantic_patch H J T patch target =
     and_then (patch_validate patch) (\<lambda>_.
     let before_digest = file_digest H target in
     and_then (check_target_digest H patch before_digest) (\<lambda>_.
     and_then (case sem_format patch of
         FormatJson \<Rightarrow> apply_json J target (sem_operations patch)
       | FormatToml \<Rightarrow> apply_toml J T target (sem_operations patch)) (\<lambda>bs.
     and_then (try_from_usize SemLengthOverflow (length (sem_operations patch))) (\<lambda>operations_applied.
       Inr \<lparr> spr_bytes = bs, spr_before_digest = before_digest, spr_after_digest = file_digest H bs,
         spr_changed = (bs \<noteq> target), spr_operations_applied = operations_applied \<rparr>))))"

end
