(* ===== verification/Semantic_Patch_Correct.thy ===== *)
theory Semantic_Patch_Correct
  imports Semantic_Patch "HOL-Library.Sublist"
begin

text \<open>
  What the operations of a semantic patch do to a JSON value: a set value is found again at its pointer and everything
  at a pointer beside it is untouched, and objects stay ordered without a repeated key.
\<close>

section \<open>Objects\<close>

lemma object_get_insert [simp]: "object_get j (object_insert k v xs) = (if j = k then Some v else object_get j xs)"
  by (induction k v xs rule: object_insert.induct) auto

lemma object_insert_keys: "fst ` set (object_insert k v xs) = insert k (fst ` set xs)"
  by (induction k v xs rule: object_insert.induct) auto

lemma object_get_remove [simp]: "object_get j (object_remove k xs) = (if j = k then None else object_get j xs)"
  by (induction xs) (auto simp: object_remove_def)

lemma object_insert_sorted:
  assumes "sorted_wrt (<) (map fst xs)"
  shows "sorted_wrt (<) (map fst (object_insert k v xs))"
  using assms
proof (induction k v xs rule: object_insert.induct)
  case (2 k v j w xs)
  have "fst ` set (object_insert k v xs) = insert k (fst ` set xs)" by (rule object_insert_keys)
  with 2 show ?case
    by (cases "k = j"; cases "k < j") (auto simp: image_iff dest: less_trans)
qed simp

lemma object_insert_values: "(j, x) \<in> set (object_insert k v xs) \<Longrightarrow> (j, x) = (k, v) \<or> (j, x) \<in> set xs"
  by (induction k v xs rule: object_insert.induct) (auto split: if_splits)

lemma object_get_value: "object_get k xs = Some v \<Longrightarrow> (k, v) \<in> set xs"
  by (induction k xs rule: object_get.induct) (auto split: if_splits)

section \<open>Array indices\<close>

lemma decimal_value_snoc [simp]: "decimal_value [] = 0" "decimal_value (xs @ [d]) = 10 * decimal_value xs + (unat d - 48)"
  by (simp_all add: decimal_value_def)

lemma digit_unat: "is_ascii_digit d \<Longrightarrow> unat d - 48 < 10 \<and> 48 \<le> unat d"
  by (auto simp: is_ascii_digit_def word_le_nat_alt)

text \<open>A numeral without a leading zero is determined by its value.\<close>

definition canonical_index :: "bytes \<Rightarrow> bool" where
  "canonical_index bs \<longleftrightarrow> bs \<noteq> [] \<and> list_all is_ascii_digit bs \<and> \<not> (1 < length bs \<and> hd bs = 48)"

lemma canonical_index_pos: "canonical_index bs \<Longrightarrow> hd bs \<noteq> 48 \<Longrightarrow> 0 < decimal_value bs"
proof (induction bs rule: rev_induct)
  case (snoc d bs)
  show ?case
  proof (cases "bs = []")
    case True
    with snoc.prems have "48 \<le> unat d" "d \<noteq> 48" by (simp_all add: canonical_index_def digit_unat)
    moreover from this(2) have "unat d \<noteq> 48" by (simp add: word_unat_eq_iff)
    ultimately show ?thesis using True by (simp add: decimal_value_def)
  next
    case False
    with snoc show ?thesis by (simp add: canonical_index_def)
  qed
qed (simp add: canonical_index_def)

lemma ten_digits:
  fixes a b x y :: nat
  assumes "10 * a + x = 10 * b + y" "x < 10" "y < 10"
  shows "a = b \<and> x = y"
  using assms by presburger

lemma decimal_value_inj:
  "canonical_index xs \<Longrightarrow> canonical_index ys \<Longrightarrow> decimal_value xs = decimal_value ys \<Longrightarrow> xs = ys"
proof (induction xs arbitrary: ys rule: rev_induct)
  case (snoc d xs)
  from snoc.prems(2) obtain ys' e where ys: "ys = ys' @ [e]" by (cases ys rule: rev_cases) (auto simp: canonical_index_def)
  have dig: "is_ascii_digit d" "is_ascii_digit e" using snoc.prems by (simp_all add: canonical_index_def ys)
  from snoc.prems(3) ys have sum: "10 * decimal_value xs + (unat d - 48) = 10 * decimal_value ys' + (unat e - 48)" by simp
  have eq: "decimal_value xs = decimal_value ys'" "unat d = unat e"
    using ten_digits [OF sum] digit_unat [OF dig(1)] digit_unat [OF dig(2)] by auto
  have pos: "0 < decimal_value zs" if "canonical_index (zs @ [c])" "zs \<noteq> []" for zs c
    using that canonical_index_pos [of zs] by (simp add: canonical_index_def)
  have "xs = ys'"
  proof (cases "xs = [] \<or> ys' = []")
    case True
    with eq(1) pos snoc.prems ys show ?thesis by (metis decimal_value_snoc(1) not_less0)
  next
    case False
    with snoc.prems ys have "canonical_index xs" "canonical_index ys'" by (auto simp: canonical_index_def)
    with snoc.IH eq(1) show ?thesis by blast
  qed
  with eq(2) ys show ?case by (simp add: word_unat_eq_iff)
qed (simp add: canonical_index_def)

lemma array_child_inv:
  assumes "array_child vs c = Inr i"
  shows "i < length vs" "canonical_index c" "decimal_value c = i"
proof -
  from assms have i: "parse_array_index c (length vs) False = Inr i" "i < length vs"
    by (auto simp: array_child_def and_then_eq_Inr split: if_splits)
  then have c: "c \<noteq> []" "list_all is_ascii_digit c" "\<not> (1 < length c \<and> hd c = 48)" and p: "parse_usize c = Some i"
    by (auto simp: parse_array_index_def list_ex_iff list_all_iff ok_or_eq_Inr split: if_splits)
  then have "hd c \<noteq> 43" by (cases c) (auto simp: is_ascii_digit_def)
  with c p show "decimal_value c = i" by (cases c) (auto simp: parse_usize_def Let_def split: if_splits)
  show "i < length vs" "canonical_index c" using i c by (auto simp: canonical_index_def)
qed

lemma array_child_inj: "array_child vs c = Inr i \<Longrightarrow> array_child vs d = Inr i \<Longrightarrow> c = d"
  by (metis array_child_inv(2,3) decimal_value_inj)

lemma array_child_length: "length vs = length vs' \<Longrightarrow> array_child vs = array_child vs'"
  by (simp add: array_child_def fun_eq_iff)

section \<open>Setting a value\<close>

lemma pointer_get_Cons: "pointer_get v (c # cs) = and_then (json_child v c) (\<lambda>w. pointer_get w cs)"
  by (simp add: pointer_get_def)

lemma pointer_get_Nil [simp]: "pointer_get v [] = Inr v"
  by (simp add: pointer_get_def)

text \<open>A value with one child replaced: that child is the new one, all others are the old ones.\<close>

definition replaces_child :: "'n json \<Rightarrow> bytes \<Rightarrow> 'n json \<Rightarrow> 'n json \<Rightarrow> bool" where
  "replaces_child v c w v' \<longleftrightarrow> json_child v' c = Inr w \<and> (\<forall>d. d \<noteq> c \<longrightarrow> json_child v' d = json_child v d)"

lemma replaces_object: "replaces_child (JsonObject xs) c w (JsonObject (object_insert c w xs))"
  by (simp add: replaces_child_def json_child_def)

lemma replaces_array:
  assumes "array_child vs c = Inr i"
  shows "replaces_child (JsonArray vs) c w (JsonArray (vs[i := w]))"
proof -
  have len: "array_child (vs[i := w]) = array_child vs" by (rule array_child_length) simp
  have "vs[i := w] ! j = vs ! j" if "array_child vs d = Inr j" "d \<noteq> c" for d j
    using array_child_inj [OF that(1), of c] assms that(2) by (metis nth_list_update_neq)
  then have "json_child (JsonArray (vs[i := w])) d = json_child (JsonArray vs) d" if "d \<noteq> c" for d
    using that by (cases "array_child vs d") (simp_all add: json_child_def len)
  with assms array_child_inv(1) [OF assms] show ?thesis by (simp add: replaces_child_def json_child_def len)
qed

lemma set_in_parent_replaces:
  "set_in_parent value v c = Inr v' \<Longrightarrow> c \<noteq> ascii ''-'' \<Longrightarrow> replaces_child v c value v'"
  by (cases v) (auto simp: set_in_parent_def and_then_eq_Inr replaces_object intro: replaces_array)

lemma at_parent_step:
  assumes "at_parent change v (c # d # cs) = Inr v'"
  obtains child child' where "json_child v c = Inr child" "at_parent change child (d # cs) = Inr child'"
    "replaces_child v c child' v'"
proof (cases v)
  case (JsonArray vs)
  with assms obtain i child' where "array_child vs c = Inr i" "at_parent change (vs ! i) (d # cs) = Inr child'"
    "v' = JsonArray (vs[i := child'])" by (auto simp: and_then_eq_Inr)
  with JsonArray that show ?thesis by (auto simp: json_child_def intro: replaces_array)
next
  case (JsonObject xs)
  with assms obtain child child' where "object_get c xs = Some child" "at_parent change child (d # cs) = Inr child'"
    "v' = JsonObject (object_insert c child' xs)" by (auto simp: and_then_eq_Inr ok_or_eq_Inr)
  with JsonObject that show ?thesis by (auto simp: json_child_def intro: replaces_object)
qed (insert assms, simp_all)

text \<open>Pointers that lead to disjoint parts of a document.\<close>

definition beside :: "bytes list \<Rightarrow> bytes list \<Rightarrow> bool" where
  "beside cs ds \<longleftrightarrow> \<not> prefix cs ds \<and> \<not> prefix ds cs"

lemma replaces_child_get:
  assumes "replaces_child v c w v'"
  shows "pointer_get v' (c # cs) = pointer_get w cs" "d \<noteq> c \<Longrightarrow> pointer_get v' (d # ds) = pointer_get v (d # ds)"
  using assms by (simp_all add: replaces_child_def pointer_get_Cons)

lemma at_parent_set:
  assumes "at_parent (set_in_parent value) v cs = Inr v'" "last cs \<noteq> ascii ''-''"
  shows "pointer_get v' cs = Inr value \<and> (\<forall>ds. beside cs ds \<longrightarrow> pointer_get v' ds = pointer_get v ds)"
  using assms
proof (induction "set_in_parent value" v cs arbitrary: v' rule: at_parent.induct)
  case (2 v c)
  then have r: "replaces_child v c value v'" by (simp add: set_in_parent_replaces)
  have "pointer_get v' ds = pointer_get v ds" if "beside [c] ds" for ds
    using that replaces_child_get(2) [OF r] by (cases ds) (auto simp: beside_def)
  with replaces_child_get(1) [OF r, of "[]"] show ?case by simp
next
  case (3 v c d cs)
  from 3(3) obtain child child' where ch: "json_child v c = Inr child" "at_parent (set_in_parent value) child (d # cs) = Inr child'"
    and r: "replaces_child v c child' v'" by (rule at_parent_step)
  have ih: "pointer_get child' (d # cs) = Inr value \<and>
      (\<forall>ds. beside (d # cs) ds \<longrightarrow> pointer_get child' ds = pointer_get child ds)"
  proof (cases v)
    case (JsonArray vs)
    with ch(1) obtain i where "array_child vs c = Inr i" "child = vs ! i" by (auto simp: json_child_def and_then_eq_Inr)
    with 3(1) [OF JsonArray] 3(4) ch(2) show ?thesis by simp
  next
    case (JsonObject xs)
    with 3(2) [OF JsonObject] 3(4) ch show ?thesis by (simp add: json_child_def)
  qed (insert ch(1), simp_all add: json_child_def)
  have "pointer_get v' ds = pointer_get v ds" if b: "beside (c # d # cs) ds" for ds
  proof (cases ds)
    case (Cons e es)
    show ?thesis
    proof (cases "e = c")
      case True
      with b Cons have "beside (d # cs) es" by (simp add: beside_def)
      with ih ch(1) True Cons replaces_child_get(1) [OF r, of es] show ?thesis by (simp add: pointer_get_Cons)
    next
      case False
      with Cons replaces_child_get(2) [OF r] show ?thesis by simp
    qed
  qed (insert b, simp add: beside_def)
  with ih replaces_child_get(1) [OF r] show ?case by simp
qed simp


definition sample_document :: "nat json" where
  "sample_document = JsonObject [(ascii ''a'', JsonArray [JsonNull, JsonNumber 7]), (ascii ''b'', JsonBool True)]"


section \<open>Well-formed documents\<close>

fun wf_json :: "'n json \<Rightarrow> bool" where
  "wf_json (JsonArray vs) = list_all wf_json vs"
| "wf_json (JsonObject xs) = (sorted_wrt (<) (map fst xs) \<and> list_all (\<lambda>x. wf_json (snd x)) xs)"
| "wf_json _ = True"

lemma object_insert_wf:
  "wf_json (JsonObject xs) \<Longrightarrow> wf_json v \<Longrightarrow> wf_json (JsonObject (object_insert k v xs))"
  by (auto simp: object_insert_sorted list_all_iff dest!: object_insert_values)

lemma strict_json_wf:
  "strict_json num r = Some v \<Longrightarrow> wf_json v"
  "strict_seq num rs = Some vs \<Longrightarrow> list_all wf_json vs"
  "strict_map num ks ws xs = Some ys \<Longrightarrow> wf_json (JsonObject ws) \<Longrightarrow> wf_json (JsonObject ys)"
proof (induction num r and num rs and num ks ws xs arbitrary: v and vs and ys
    rule: strict_json_strict_seq_strict_map.induct)
  case (10 num ks ws k x xs)
  then show ?case by (auto simp del: wf_json.simps(2) split: if_splits option.splits intro: object_insert_wf)
qed (auto split: option.splits)

lemma json_child_wf: "wf_json v \<Longrightarrow> json_child v c = Inr w \<Longrightarrow> wf_json w"
  by (cases v) (auto simp: json_child_def and_then_eq_Inr ok_or_eq_Inr list_all_iff
      dest!: object_get_value array_child_inv(1))

lemma sorted_wrt_map_filter: "sorted_wrt R (map f xs) \<Longrightarrow> sorted_wrt R (map f (filter P xs))"
  by (simp add: sorted_wrt_map sorted_wrt_filter)

lemma at_parent_wf:
  assumes "\<And>v c v'. change v c = Inr v' \<Longrightarrow> wf_json v \<Longrightarrow> wf_json v'"
    and "at_parent change v cs = Inr v'" and "wf_json v"
  shows "wf_json v'"
  using assms
proof (induction change v cs arbitrary: v' rule: at_parent.induct)
  case (3 change v c d cs)
  show ?case
  proof (cases v)
    case (JsonArray vs)
    with 3 obtain i child' where ch: "array_child vs c = Inr i" "at_parent change (vs ! i) (d # cs) = Inr child'"
      "v' = JsonArray (vs[i := child'])" by (auto simp: and_then_eq_Inr)
    with 3 JsonArray have "wf_json child'" by (auto simp: list_all_length dest: array_child_inv(1))
    moreover have "\<forall>w \<in> set vs. wf_json w" using 3(5) JsonArray by (simp add: list_all_iff)
    ultimately show ?thesis using ch(3) set_update_subset_insert [of vs i child'] by (auto simp: list_all_iff)
  next
    case (JsonObject xs)
    with 3 obtain child child' where ch: "object_get c xs = Some child" "at_parent change child (d # cs) = Inr child'"
      "v' = JsonObject (object_insert c child' xs)" by (auto simp: and_then_eq_Inr ok_or_eq_Inr)
    then have "wf_json child" using 3(5) JsonObject object_get_value by (fastforce simp: list_all_iff)
    with ch 3(2) [OF JsonObject _ 3(3)] have "wf_json child'" by simp
    with 3 JsonObject ch show ?thesis by (simp add: object_insert_wf del: wf_json.simps)
  qed (insert 3, simp_all)
qed auto

lemma set_in_parent_wf: "set_in_parent w v c = Inr v' \<Longrightarrow> wf_json w \<Longrightarrow> wf_json v \<Longrightarrow> wf_json v'"
  using set_update_subset_insert
  by (cases v) (fastforce simp: set_in_parent_def and_then_eq_Inr list_all_iff object_insert_sorted
      dest: object_insert_values split: if_splits)+

lemma remove_from_parent_wf: "remove_from_parent v c = Inr v' \<Longrightarrow> wf_json v \<Longrightarrow> wf_json v'"
  using set_take_subset set_drop_subset
  by (cases v) (fastforce simp: remove_from_parent_def and_then_eq_Inr list_all_iff object_remove_def
      sorted_wrt_map_filter)+

primrec operation_wf :: "'n patch_operation \<Rightarrow> bool" where
  "operation_wf (OpTest p v) = wf_json v"
| "operation_wf (OpSet p v) = wf_json v"
| "operation_wf (OpRemove p) = True"

lemma apply_operation_wf:
  assumes "apply_operation eq root op = Inr root'" "wf_json root" "operation_wf op"
  shows "wf_json root'"
proof (cases op)
  case (OpSet p w)
  with assms obtain cs where s: "pointer_set root cs w = Inr root'" "wf_json w"
    by (auto simp: apply_operation_def and_then_eq_Inr)
  show ?thesis
  proof (cases "cs = []")
    case False
    with s(1) have "at_parent (set_in_parent w) root cs = Inr root'" by (simp add: pointer_set_def)
    then show ?thesis by (rule at_parent_wf [rotated]) (auto intro: set_in_parent_wf s(2) assms(2))
  qed (insert s, simp add: pointer_set_def)
next
  case (OpRemove p)
  with assms obtain cs where "pointer_remove root cs = Inr root'" by (auto simp: apply_operation_def and_then_eq_Inr)
  then have "at_parent remove_from_parent root cs = Inr root'" by (simp add: pointer_remove_def)
  then show ?thesis by (rule at_parent_wf [rotated]) (auto intro: remove_from_parent_wf assms(2))
qed (insert assms, auto simp: apply_operation_def and_then_eq_Inr split: if_splits)

lemma apply_operations_wf:
  "apply_operations eq root ops = Inr root' \<Longrightarrow> wf_json root \<Longrightarrow> list_all operation_wf ops \<Longrightarrow> wf_json root'"
  unfolding apply_operations_def
  by (induction ops arbitrary: root) (auto simp: and_then_eq_Inr intro: apply_operation_wf)


definition sample_serde :: "(nat, nat) serde_json" where
  "sample_serde =
     \<lparr> sj_from_slice = (\<lambda>bs. Some (RawMap [(ascii ''b'', RawString bs), (ascii ''a'', RawSeq [RawNull, RawNumber 7])])),
       sj_number = Some, sj_number_eq = (=), sj_to_vec_pretty = (\<lambda>_. Some []), sj_patch_from_value = (\<lambda>_. None),
       sj_patch_to_vec_pretty = (\<lambda>_. None) \<rparr>"

definition sample_operations :: "nat patch_operation list" where
  "sample_operations =
     [OpTest (ascii ''/b'') (JsonString []), OpRemove (ascii ''/b''), OpSet (ascii ''/a/-'') (JsonBool True)]"


end
