(* ===== verification/Chain_Identity.thy ===== *)
theory Chain_Identity
  imports Chain_Base Rap_Crypto
begin

text \<open>
  The documents of one person in the crate \<open>rebyte-chain\<close>: the helpers of \<open>codec.rs\<close>, public and encrypted identities
  (\<open>identity.rs\<close>) and status documents (\<open>status.rs\<close>). Third-party code is the argument \<open>C\<close>, a record of its calls;
  entropy is a function from the number of a draw within a call and the length to the bytes drawn, if any;
  serde_json is a codec for each type of document. A secret key is its 32-byte seed.
\<close>

section \<open>Third-party calls\<close>

record kdf_cost =
  memory_kib :: u32
  iterations :: u32
  lanes :: u32

text \<open>
  \<open>argon2id\<close> and the AEAD of chacha20poly1305 may fail; HPKE is its single-shot mode, with the number of the call standing
  for the ephemeral key it draws.
\<close>

record chain_host =
  host_blake3 :: blake3
  host_base64 :: base64_engine
  host_ed25519 :: ed25519
  verifying_key :: "bytes \<Rightarrow> bytes"
  ed25519_sign :: "bytes \<Rightarrow> bytes \<Rightarrow> bytes"
  derive_keypair :: "bytes \<Rightarrow> bytes \<times> bytes"
  hpke_public_key :: "bytes \<Rightarrow> bool"
  argon2id :: "kdf_cost \<Rightarrow> bytes \<Rightarrow> bytes \<Rightarrow> bytes option"
  aead_encrypt :: "bytes \<Rightarrow> bytes \<Rightarrow> bytes \<Rightarrow> bytes \<Rightarrow> bytes option"
  aead_decrypt :: "bytes \<Rightarrow> bytes \<Rightarrow> bytes \<Rightarrow> bytes \<Rightarrow> bytes option"
  hpke_seal :: "nat \<Rightarrow> bytes \<Rightarrow> bytes \<Rightarrow> bytes \<Rightarrow> bytes \<Rightarrow> (bytes \<times> bytes) option"
  hpke_encapped_key :: "bytes \<Rightarrow> bool"
  hpke_open :: "bytes \<Rightarrow> bytes \<Rightarrow> bytes \<Rightarrow> bytes \<Rightarrow> bytes \<Rightarrow> bytes option"

type_synonym entropy = "nat \<Rightarrow> nat \<Rightarrow> bytes option"

record 'd json_codec =
  json_from_slice :: "bytes \<Rightarrow> 'd option"
  json_to_vec_pretty :: "'d \<Rightarrow> bytes option"

definition getrandom_fill :: "entropy \<Rightarrow> nat \<Rightarrow> nat \<Rightarrow> chain_error + bytes" where
  "getrandom_fill rng i n = ok_or ChainEntropyUnavailable (rng i n)"

definition cipher_new :: "bytes \<Rightarrow> chain_error + bytes" where
  "cipher_new key = array_of_slice ChainCryptographicFailure 32 key"

definition verify_strict :: "chain_host \<Rightarrow> bytes \<Rightarrow> bytes \<Rightarrow> bytes \<Rightarrow> chain_error + unit" where
  "verify_strict C key message sig =
     (if \<not> vk_from_bytes (host_ed25519 C) key then Inl ChainInvalidPublicKey
      else if \<not> vk_verify_strict (host_ed25519 C) key message sig then Inl ChainInvalidSignature
      else Inr ())"

section \<open>Codec helpers (codec.rs)\<close>

definition encode_base64 :: "chain_host \<Rightarrow> bytes \<Rightarrow> bytes" where
  "encode_base64 C bs = b64_encode (host_base64 C) bs"

definition decode_base64 :: "chain_host \<Rightarrow> bytes \<Rightarrow> chain_error + bytes" where
  "decode_base64 C value =
     (if value = [] \<or> list_ex (\<lambda>b. \<not> is_ascii_alphanumeric b \<and> b \<noteq> 45 \<and> b \<noteq> 95) value then Inl ChainInvalidEncoding
      else
      and_then (ok_or ChainInvalidEncoding (b64_decode (host_base64 C) value)) (\<lambda>decoded.
        if encode_base64 C decoded \<noteq> value then Inl ChainInvalidEncoding else Inr decoded))"

definition decode_array :: "chain_host \<Rightarrow> nat \<Rightarrow> bytes \<Rightarrow> chain_error + bytes" where
  "decode_array C n value = and_then (decode_base64 C value) (array_of_slice ChainInvalidEncoding n)"

definition domain_hash :: "chain_host \<Rightarrow> bytes \<Rightarrow> bytes list \<Rightarrow> bytes" where
  "domain_hash C context parts = host_blake3 C context (foldl (@) [] parts)"

definition chain_put_u16 :: "bytes \<Rightarrow> u16 \<Rightarrow> bytes" where
  "chain_put_u16 output v = output @ u16_to_be_bytes v"

definition chain_put_u32 :: "bytes \<Rightarrow> u32 \<Rightarrow> bytes" where
  "chain_put_u32 output v = output @ u32_to_be_bytes v"

definition chain_put_u64 :: "bytes \<Rightarrow> u64 \<Rightarrow> bytes" where
  "chain_put_u64 output v = output @ u64_to_be_bytes v"

definition chain_put_bytes_u16 :: "bytes \<Rightarrow> bytes \<Rightarrow> chain_error + bytes" where
  "chain_put_bytes_u16 output v =
     and_then (try_from_usize ChainLengthOverflow (length v)) (\<lambda>len. Inr (chain_put_u16 output len @ v))"

definition chain_put_bytes_u32 :: "bytes \<Rightarrow> bytes \<Rightarrow> chain_error + bytes" where
  "chain_put_bytes_u32 output v =
     and_then (try_from_usize ChainLengthOverflow (length v)) (\<lambda>len. Inr (chain_put_u32 output len @ v))"

record chain_reader =
  cr_input :: bytes
  cr_offset :: nat

definition chain_reader_new :: "bytes \<Rightarrow> chain_reader" where
  "chain_reader_new bs = \<lparr> cr_input = bs, cr_offset = 0 \<rparr>"

definition chain_take :: "nat \<Rightarrow> chain_reader \<Rightarrow> chain_error + bytes \<times> chain_reader" where
  "chain_take len r =
     and_then (ok_or ChainLengthOverflow (usize_checked_add (cr_offset r) len)) (\<lambda>end_pos.
     and_then (ok_or ChainUnexpectedEof (slice_get (cr_offset r) end_pos (cr_input r))) (\<lambda>v.
       Inr (v, r\<lparr> cr_offset := end_pos \<rparr>)))"

definition chain_array :: "nat \<Rightarrow> chain_reader \<Rightarrow> chain_error + bytes \<times> chain_reader" where
  "chain_array n r = and_then (chain_take n r) (\<lambda>(v, r). and_then (array_of_slice ChainUnexpectedEof n v) (\<lambda>v. Inr (v, r)))"

definition chain_u16 :: "chain_reader \<Rightarrow> chain_error + u16 \<times> chain_reader" where
  "chain_u16 r = and_then (chain_array 2 r) (\<lambda>(v, r). Inr (u16_from_be_bytes v, r))"

definition chain_u32 :: "chain_reader \<Rightarrow> chain_error + u32 \<times> chain_reader" where
  "chain_u32 r = and_then (chain_array 4 r) (\<lambda>(v, r). Inr (u32_from_be_bytes v, r))"

definition chain_u64 :: "chain_reader \<Rightarrow> chain_error + u64 \<times> chain_reader" where
  "chain_u64 r = and_then (chain_array 8 r) (\<lambda>(v, r). Inr (u64_from_be_bytes v, r))"

definition chain_bytes_u32 :: "nat \<Rightarrow> chain_reader \<Rightarrow> chain_error + bytes \<times> chain_reader" where
  "chain_bytes_u32 maximum r =
     and_then (chain_u32 r) (\<lambda>(len, r).
     and_then (usize_try_from ChainLengthOverflow len) (\<lambda>len.
       if maximum < len then Inl ChainLimitExceeded else chain_take len r))"

definition chain_finish :: "chain_reader \<Rightarrow> chain_error + unit" where
  "chain_finish r = (if cr_offset r = length (cr_input r) then Inr () else Inl ChainNonCanonicalEnvelope)"

text \<open>The two serialization functions that every document type has, over its codec and its validation.\<close>

definition document_to_json :: "'d json_codec \<Rightarrow> 'd \<Rightarrow> chain_error + bytes" where
  "document_to_json J d = and_then (ok_or ChainInvalidDocument (json_to_vec_pretty J d)) (\<lambda>bs. Inr (bs @ [10]))"

definition document_from_json :: "'d json_codec \<Rightarrow> ('d \<Rightarrow> chain_error + unit) \<Rightarrow> bytes \<Rightarrow> chain_error + 'd" where
  "document_from_json J valid bs =
     and_then (ok_or ChainInvalidDocument (json_from_slice J bs)) (\<lambda>d.
     and_then (valid d) (\<lambda>_.
     and_then (document_to_json J d) (\<lambda>out.
       if out \<noteq> bs then Inl ChainInvalidDocument else Inr d)))"

section \<open>Public identities (identity.rs)\<close>

definition IDENTITY_VERSION :: u16 where "IDENTITY_VERSION = 1"
definition PUBLIC_KIND :: bytes where "PUBLIC_KIND = ascii ''rebyte-chain-identity-public''"
definition PRIVATE_KIND :: bytes where "PRIVATE_KIND = ascii ''rebyte-chain-identity-private''"
definition PRIVATE_ENCRYPTION :: bytes where "PRIVATE_ENCRYPTION = ascii ''argon2id-xchacha20poly1305-v2''"
definition PRIVATE_ENCRYPTION_V1 :: bytes where "PRIVATE_ENCRYPTION_V1 = ascii ''argon2id-xchacha20poly1305-v1''"
definition IDENTITY_SIGNATURE_DOMAIN :: bytes where
  "IDENTITY_SIGNATURE_DOMAIN = ascii ''rebyte chain identity proof v1'' @ [0]"
definition PRIVATE_AAD_DOMAIN :: bytes where "PRIVATE_AAD_DOMAIN = ascii ''rebyte chain private identity v1'' @ [0]"
definition MIN_PASSPHRASE_BYTES :: nat where "MIN_PASSPHRASE_BYTES = 12"
definition MAX_PASSPHRASE_BYTES :: nat where "MAX_PASSPHRASE_BYTES = 1024"
definition MAX_NAME_BYTES :: nat where "MAX_NAME_BYTES = 256"
definition SALT_BYTES :: nat where "SALT_BYTES = 16"
definition NONCE_BYTES :: nat where "NONCE_BYTES = 24"
definition SEED_BYTES :: nat where "SEED_BYTES = 32"
definition SECRET_PLAINTEXT_BYTES :: nat where "SECRET_PLAINTEXT_BYTES = SEED_BYTES * 2"
definition TAG_BYTES :: nat where "TAG_BYTES = 16"

definition KDF_COST :: kdf_cost where
  "KDF_COST = \<lparr> memory_kib = 262144, iterations = 1, lanes = 4 \<rparr>"

definition KDF_COST_V1 :: kdf_cost where
  "KDF_COST_V1 = \<lparr> memory_kib = 65536, iterations = 3, lanes = 1 \<rparr>"

datatype identity_id = IdentityId (identity_bytes: bytes)

record identity_public =
  idp_schema_version :: u16
  idp_kind :: bytes
  idp_display_name :: bytes
  idp_signing_public_key :: bytes
  idp_encryption_public_key :: bytes
  idp_package_nonce :: bytes
  idp_identity_id :: bytes
  idp_proof_signature :: bytes

definition identity_to_base64 :: "chain_host \<Rightarrow> identity_id \<Rightarrow> bytes" where
  "identity_to_base64 C i = encode_base64 C (identity_bytes i)"

definition identity_validate_name :: "bytes \<Rightarrow> chain_error + unit" where
  "identity_validate_name value =
     (if value = [] \<or> MAX_NAME_BYTES < length value \<or>
         list_ex (\<lambda>c. char_is_control c \<or> c = 0x7f) (str_chars value)
      then Inl ChainInvalidName else Inr ())"

definition validate_passphrase :: "bytes \<Rightarrow> chain_error + unit" where
  "validate_passphrase passphrase =
     (if MIN_PASSPHRASE_BYTES \<le> length passphrase \<and> length passphrase \<le> MAX_PASSPHRASE_BYTES
      then Inr () else Inl ChainInvalidPassphrase)"

definition identity_message :: "bytes \<Rightarrow> bytes \<Rightarrow> bytes \<Rightarrow> bytes \<Rightarrow> chain_error + bytes" where
  "identity_message display_name signing_public_key encryption_public_key package_nonce =
     and_then (identity_validate_name display_name) (\<lambda>_.
     and_then (chain_put_bytes_u16 (chain_put_u16 IDENTITY_SIGNATURE_DOMAIN IDENTITY_VERSION) display_name) (\<lambda>message.
       Inr (message @ signing_public_key @ encryption_public_key @ package_nonce)))"

definition identity_id_of :: "chain_host \<Rightarrow> bytes \<Rightarrow> bytes \<Rightarrow> identity_id" where
  "identity_id_of C message sig =
     IdentityId (domain_hash C (ascii ''Rebyte Chain identity id v1 2026-07-17'') [message, sig])"

definition signing_public_key :: "chain_host \<Rightarrow> identity_public \<Rightarrow> chain_error + bytes" where
  "signing_public_key C self =
     and_then (decode_array C 32 (idp_signing_public_key self)) (\<lambda>bs.
       if \<not> vk_from_bytes (host_ed25519 C) bs then Inl ChainInvalidPublicKey
       else if vk_is_weak (host_ed25519 C) bs then Inl ChainInvalidPublicKey
       else Inr bs)"

definition encryption_public_key :: "chain_host \<Rightarrow> identity_public \<Rightarrow> chain_error + bytes" where
  "encryption_public_key C self =
     and_then (decode_array C 32 (idp_encryption_public_key self)) (\<lambda>bs.
       if \<not> hpke_public_key C bs then Inl ChainInvalidPublicKey else Inr bs)"

definition identity_validate :: "chain_host \<Rightarrow> identity_public \<Rightarrow> chain_error + unit" where
  "identity_validate C self =
     (if idp_schema_version self \<noteq> IDENTITY_VERSION \<or> idp_kind self \<noteq> PUBLIC_KIND then Inl ChainUnsupportedDocument
      else
      and_then (identity_validate_name (idp_display_name self)) (\<lambda>_.
      and_then (signing_public_key C self) (\<lambda>spk.
      and_then (encryption_public_key C self) (\<lambda>epk.
      and_then (decode_array C 32 (idp_package_nonce self)) (\<lambda>package_nonce.
      and_then (decode_array C 64 (idp_proof_signature self)) (\<lambda>proof_signature.
      and_then (identity_message (idp_display_name self) spk epk package_nonce) (\<lambda>message.
      and_then (verify_strict C spk message proof_signature) (\<lambda>_.
      and_then (decode_array C 32 (idp_identity_id self)) (\<lambda>declared.
        if declared \<noteq> identity_bytes (identity_id_of C message proof_signature)
        then Inl ChainIdentityMismatch else Inr ())))))))))"

definition identity_id_unchecked :: "chain_host \<Rightarrow> identity_public \<Rightarrow> chain_error + identity_id" where
  "identity_id_unchecked C self = and_then (decode_array C 32 (idp_identity_id self)) (\<lambda>bs. Inr (IdentityId bs))"

definition public_identity_id :: "chain_host \<Rightarrow> identity_public \<Rightarrow> chain_error + identity_id" where
  "public_identity_id C self = and_then (identity_validate C self) (\<lambda>_. identity_id_unchecked C self)"

definition canonical_member_bytes_unchecked :: "chain_host \<Rightarrow> identity_public \<Rightarrow> chain_error + bytes" where
  "canonical_member_bytes_unchecked C self =
     and_then (decode_array C 32 (idp_signing_public_key self)) (\<lambda>spk.
     and_then (decode_array C 32 (idp_encryption_public_key self)) (\<lambda>epk.
     and_then (decode_array C 32 (idp_package_nonce self)) (\<lambda>package_nonce.
     and_then (identity_message (idp_display_name self) spk epk package_nonce) (\<lambda>bs.
     and_then (decode_array C 64 (idp_proof_signature self)) (\<lambda>signature. Inr (bs @ signature))))))"

definition canonical_member_bytes :: "chain_host \<Rightarrow> identity_public \<Rightarrow> chain_error + bytes" where
  "canonical_member_bytes C self = and_then (identity_validate C self) (\<lambda>_. canonical_member_bytes_unchecked C self)"

definition identity_to_json :: "identity_public json_codec \<Rightarrow> identity_public \<Rightarrow> chain_error + bytes" where
  "identity_to_json J self = document_to_json J self"

definition identity_from_json ::
    "chain_host \<Rightarrow> identity_public json_codec \<Rightarrow> bytes \<Rightarrow> chain_error + identity_public" where
  "identity_from_json C J bs = document_from_json J (identity_validate C) bs"

section \<open>Encrypted identities\<close>

record encrypted_identity =
  eid_schema_version :: u16
  eid_kind :: bytes
  eid_encryption :: bytes
  eid_kdf_memory_kib :: u32
  eid_kdf_iterations :: u32
  eid_kdf_lanes :: u32
  eid_public_identity :: identity_public
  eid_salt :: bytes
  eid_nonce :: bytes
  eid_encrypted_secrets :: bytes

record unlocked_identity =
  ui_signing_key :: bytes
  ui_encryption_ikm :: bytes
  ui_public_identity :: identity_public
  ui_identity_id :: identity_id

record identity_random_material =
  irm_signing_seed :: bytes
  irm_encryption_ikm :: bytes
  irm_package_nonce :: bytes
  irm_salt :: bytes
  irm_nonce :: bytes

definition identity_sign :: "chain_host \<Rightarrow> unlocked_identity \<Rightarrow> bytes \<Rightarrow> bytes" where
  "identity_sign C self message = ed25519_sign C (ui_signing_key self) message"

definition hpke_private_key :: "chain_host \<Rightarrow> unlocked_identity \<Rightarrow> bytes" where
  "hpke_private_key C self = fst (derive_keypair C (ui_encryption_ikm self))"

definition document_kdf_cost :: "encrypted_identity \<Rightarrow> kdf_cost" where
  "document_kdf_cost self =
     \<lparr> memory_kib = eid_kdf_memory_kib self, iterations = eid_kdf_iterations self, lanes = eid_kdf_lanes self \<rparr>"

definition supported_profile :: "encrypted_identity \<Rightarrow> bool" where
  "supported_profile self =
     (if eid_encryption self = PRIVATE_ENCRYPTION then document_kdf_cost self = KDF_COST
      else if eid_encryption self = PRIVATE_ENCRYPTION_V1 then document_kdf_cost self = KDF_COST_V1
      else False)"

definition encrypted_validate :: "chain_host \<Rightarrow> encrypted_identity \<Rightarrow> chain_error + unit" where
  "encrypted_validate C self =
     (if eid_schema_version self \<noteq> IDENTITY_VERSION \<or> eid_kind self \<noteq> PRIVATE_KIND \<or> \<not> supported_profile self
      then Inl ChainUnsupportedDocument
      else
      and_then (identity_validate C (eid_public_identity self)) (\<lambda>_.
      and_then (decode_array C SALT_BYTES (eid_salt self)) (\<lambda>_.
      and_then (decode_array C NONCE_BYTES (eid_nonce self)) (\<lambda>_.
      and_then (decode_array C (SECRET_PLAINTEXT_BYTES + TAG_BYTES) (eid_encrypted_secrets self)) (\<lambda>_. Inr ())))))"

definition encrypted_to_json :: "encrypted_identity json_codec \<Rightarrow> encrypted_identity \<Rightarrow> chain_error + bytes" where
  "encrypted_to_json J self = document_to_json J self"

definition encrypted_from_json ::
    "chain_host \<Rightarrow> encrypted_identity json_codec \<Rightarrow> bytes \<Rightarrow> chain_error + encrypted_identity" where
  "encrypted_from_json C J bs = document_from_json J (encrypted_validate C) bs"

definition private_aad ::
    "chain_host \<Rightarrow> identity_public \<Rightarrow> bytes \<Rightarrow> bytes \<Rightarrow> kdf_cost \<Rightarrow> chain_error + bytes" where
  "private_aad C public salt nonce cost =
     and_then (canonical_member_bytes C public) (\<lambda>public_bytes.
       let aad = chain_put_u32 PRIVATE_AAD_DOMAIN (memory_kib cost);
           aad = chain_put_u32 aad (iterations cost);
           aad = chain_put_u32 aad (lanes cost)
       in Inr (aad @ public_bytes @ salt @ nonce))"

definition derive_encryption_key :: "chain_host \<Rightarrow> bytes \<Rightarrow> bytes \<Rightarrow> kdf_cost \<Rightarrow> chain_error + bytes" where
  "derive_encryption_key C passphrase salt cost = ok_or ChainKeyDerivation (argon2id C cost passphrase salt)"

definition unlocked_from_seeds ::
    "chain_host \<Rightarrow> bytes \<Rightarrow> bytes \<Rightarrow> identity_public \<Rightarrow> chain_error + unlocked_identity" where
  "unlocked_from_seeds C signing_seed encryption_ikm public_identity =
     and_then (signing_public_key C public_identity) (\<lambda>spk.
       if verifying_key C signing_seed \<noteq> spk then Inl ChainIdentityMismatch
       else
     and_then (encryption_public_key C public_identity) (\<lambda>epk.
       if snd (derive_keypair C encryption_ikm) \<noteq> epk then Inl ChainIdentityMismatch
       else
     and_then (public_identity_id C public_identity) (\<lambda>identity_id.
       Inr \<lparr> ui_signing_key = signing_seed, ui_encryption_ikm = encryption_ikm,
             ui_public_identity = public_identity, ui_identity_id = identity_id \<rparr>)))"

definition unlock :: "chain_host \<Rightarrow> encrypted_identity \<Rightarrow> bytes \<Rightarrow> chain_error + unlocked_identity" where
  "unlock C self passphrase =
     and_then (encrypted_validate C self) (\<lambda>_.
     and_then (validate_passphrase passphrase) (\<lambda>_.
     and_then (decode_array C SALT_BYTES (eid_salt self)) (\<lambda>salt.
     and_then (decode_array C NONCE_BYTES (eid_nonce self)) (\<lambda>nonce.
     and_then (decode_array C (SECRET_PLAINTEXT_BYTES + TAG_BYTES) (eid_encrypted_secrets self)) (\<lambda>encrypted.
     and_then (derive_encryption_key C passphrase salt (document_kdf_cost self)) (\<lambda>key.
     and_then (cipher_new key) (\<lambda>key.
     and_then (private_aad C (eid_public_identity self) salt nonce (document_kdf_cost self)) (\<lambda>aad.
     and_then (ok_or ChainAuthenticationFailed (aead_decrypt C key nonce aad encrypted)) (\<lambda>plaintext.
     and_then (ok_or ChainIdentityMismatch (slice_get 0 SEED_BYTES plaintext)) (\<lambda>signing_bytes.
     and_then (ok_or ChainIdentityMismatch (slice_get SEED_BYTES SECRET_PLAINTEXT_BYTES plaintext)) (\<lambda>encryption_bytes.
       unlocked_from_seeds C signing_bytes encryption_bytes (eid_public_identity self))))))))))))"

definition encrypt_identity_at ::
    "chain_host \<Rightarrow> identity_public \<Rightarrow> bytes \<Rightarrow> bytes \<Rightarrow> bytes \<Rightarrow> bytes \<Rightarrow> bytes \<Rightarrow> bytes \<Rightarrow> kdf_cost \<Rightarrow>
     chain_error + encrypted_identity" where
  "encrypt_identity_at C public signing_seed encryption_ikm passphrase salt nonce scheme cost =
     and_then (validate_passphrase passphrase) (\<lambda>_.
     let secrets = signing_seed @ encryption_ikm in
     and_then (derive_encryption_key C passphrase salt cost) (\<lambda>key.
     and_then (cipher_new key) (\<lambda>key.
     and_then (private_aad C public salt nonce cost) (\<lambda>aad.
     and_then (ok_or ChainEncryptionFailed (aead_encrypt C key nonce aad secrets)) (\<lambda>encrypted.
     let private =
       \<lparr> eid_schema_version = IDENTITY_VERSION, eid_kind = PRIVATE_KIND, eid_encryption = scheme,
         eid_kdf_memory_kib = memory_kib cost, eid_kdf_iterations = iterations cost, eid_kdf_lanes = lanes cost,
         eid_public_identity = public, eid_salt = encode_base64 C salt, eid_nonce = encode_base64 C nonce,
         eid_encrypted_secrets = encode_base64 C encrypted \<rparr> in
     and_then (encrypted_validate C private) (\<lambda>_. Inr private))))))"

definition encrypt_identity_with_material ::
    "chain_host \<Rightarrow> identity_public \<Rightarrow> bytes \<Rightarrow> bytes \<Rightarrow> bytes \<Rightarrow> bytes \<Rightarrow> bytes \<Rightarrow> chain_error + encrypted_identity" where
  "encrypt_identity_with_material C public signing_seed encryption_ikm passphrase salt nonce =
     encrypt_identity_at C public signing_seed encryption_ikm passphrase salt nonce PRIVATE_ENCRYPTION KDF_COST"

definition reencrypt_identity ::
    "chain_host \<Rightarrow> entropy \<Rightarrow> identity_public \<Rightarrow> bytes \<Rightarrow> bytes \<Rightarrow> bytes \<Rightarrow> chain_error + encrypted_identity" where
  "reencrypt_identity C rng public signing_seed encryption_ikm passphrase =
     and_then (getrandom_fill rng 0 SALT_BYTES) (\<lambda>salt.
     and_then (getrandom_fill rng 1 NONCE_BYTES) (\<lambda>nonce.
       encrypt_identity_with_material C public signing_seed encryption_ikm passphrase salt nonce))"

definition rekey_identity ::
    "chain_host \<Rightarrow> entropy \<Rightarrow> encrypted_identity \<Rightarrow> bytes \<Rightarrow> bytes \<Rightarrow> chain_error + encrypted_identity" where
  "rekey_identity C rng document passphrase new_passphrase =
     and_then (unlock C document passphrase) (\<lambda>unlocked.
       reencrypt_identity C rng (ui_public_identity unlocked) (ui_signing_key unlocked) (ui_encryption_ikm unlocked)
         new_passphrase)"

definition create_identity_documents ::
    "chain_host \<Rightarrow> bytes \<Rightarrow> bytes \<Rightarrow> identity_random_material \<Rightarrow> chain_error + encrypted_identity \<times> identity_public" where
  "create_identity_documents C display_name passphrase material =
     (let spk = verifying_key C (irm_signing_seed material) in
      and_then (array_of_slice ChainInvalidPublicKey 32 (snd (derive_keypair C (irm_encryption_ikm material)))) (\<lambda>epk.
      and_then (identity_message display_name spk epk (irm_package_nonce material)) (\<lambda>message.
      let proof_signature = ed25519_sign C (irm_signing_seed material) message;
          fingerprint = identity_id_of C message proof_signature;
          public =
            \<lparr> idp_schema_version = IDENTITY_VERSION, idp_kind = PUBLIC_KIND, idp_display_name = display_name,
              idp_signing_public_key = encode_base64 C spk, idp_encryption_public_key = encode_base64 C epk,
              idp_package_nonce = encode_base64 C (irm_package_nonce material),
              idp_identity_id = identity_to_base64 C fingerprint,
              idp_proof_signature = encode_base64 C proof_signature \<rparr> in
      and_then (identity_validate C public) (\<lambda>_.
      and_then (encrypt_identity_with_material C public (irm_signing_seed material) (irm_encryption_ikm material)
          passphrase (irm_salt material) (irm_nonce material)) (\<lambda>private.
        Inr (private, public))))))"

definition generate_identity ::
    "chain_host \<Rightarrow> entropy \<Rightarrow> bytes \<Rightarrow> bytes \<Rightarrow> chain_error + encrypted_identity \<times> identity_public" where
  "generate_identity C rng display_name passphrase =
     and_then (identity_validate_name display_name) (\<lambda>_.
     and_then (validate_passphrase passphrase) (\<lambda>_.
     and_then (getrandom_fill rng 0 SEED_BYTES) (\<lambda>signing_seed.
     and_then (getrandom_fill rng 1 SEED_BYTES) (\<lambda>encryption_ikm.
     and_then (getrandom_fill rng 2 SEED_BYTES) (\<lambda>package_nonce.
     and_then (getrandom_fill rng 3 SALT_BYTES) (\<lambda>salt.
     and_then (getrandom_fill rng 4 NONCE_BYTES) (\<lambda>nonce.
       create_identity_documents C display_name passphrase
         \<lparr> irm_signing_seed = signing_seed, irm_encryption_ikm = encryption_ikm, irm_package_nonce = package_nonce,
           irm_salt = salt, irm_nonce = nonce \<rparr>)))))))"

section \<open>Status documents (status.rs)\<close>

definition STATUS_VERSION :: u16 where "STATUS_VERSION = 1"
definition STATUS_KIND :: bytes where "STATUS_KIND = ascii ''rebyte-chain-identity-status''"
definition STATUS_SIGNATURE_DOMAIN :: bytes where
  "STATUS_SIGNATURE_DOMAIN = ascii ''rebyte chain identity status v1'' @ [0]"
definition STATUS_RETIRED :: bytes where "STATUS_RETIRED = ascii ''retired''"
definition STATUS_REVOKED :: bytes where "STATUS_REVOKED = ascii ''revoked''"

datatype identity_status = StatusRetired | StatusRevoked

primrec status_as_str :: "identity_status \<Rightarrow> bytes" where
  "status_as_str StatusRetired = STATUS_RETIRED"
| "status_as_str StatusRevoked = STATUS_REVOKED"

primrec status_code :: "identity_status \<Rightarrow> u8" where
  "status_code StatusRetired = 1"
| "status_code StatusRevoked = 2"

record identity_status_document =
  sd_schema_version :: u16
  sd_kind :: bytes
  sd_status :: bytes
  sd_public_identity :: identity_public
  sd_signature :: bytes

definition document_status :: "identity_status_document \<Rightarrow> chain_error + identity_status" where
  "document_status self =
     (if sd_status self = STATUS_RETIRED then Inr StatusRetired
      else if sd_status self = STATUS_REVOKED then Inr StatusRevoked
      else Inl ChainUnsupportedDocument)"

definition status_message :: "chain_host \<Rightarrow> identity_status \<Rightarrow> identity_public \<Rightarrow> chain_error + bytes" where
  "status_message C status public =
     and_then (canonical_member_bytes C public) (\<lambda>public_bytes.
       Inr (chain_put_u16 STATUS_SIGNATURE_DOMAIN STATUS_VERSION @ [status_code status] @ public_bytes))"

definition status_validate_shape :: "chain_host \<Rightarrow> identity_status_document \<Rightarrow> chain_error + unit" where
  "status_validate_shape C self =
     (if sd_schema_version self \<noteq> STATUS_VERSION \<or> sd_kind self \<noteq> STATUS_KIND then Inl ChainUnsupportedDocument
      else
      and_then (document_status self) (\<lambda>status.
      and_then (identity_validate C (sd_public_identity self)) (\<lambda>_.
      and_then (decode_array C 64 (sd_signature self)) (\<lambda>signature.
      and_then (status_message C status (sd_public_identity self)) (\<lambda>message.
      and_then (signing_public_key C (sd_public_identity self)) (\<lambda>spk.
        verify_strict C spk message signature))))))"

definition status_to_json ::
    "identity_status_document json_codec \<Rightarrow> identity_status_document \<Rightarrow> chain_error + bytes" where
  "status_to_json J self = document_to_json J self"

definition status_from_json ::
    "chain_host \<Rightarrow> identity_status_document json_codec \<Rightarrow> bytes \<Rightarrow> chain_error + identity_status_document" where
  "status_from_json C J bs = document_from_json J (status_validate_shape C) bs"

definition status_identity_id :: "chain_host \<Rightarrow> identity_status_document \<Rightarrow> chain_error + identity_id" where
  "status_identity_id C self =
     and_then (status_validate_shape C self) (\<lambda>_. identity_id_unchecked C (sd_public_identity self))"

definition issue_identity_status ::
    "chain_host \<Rightarrow> unlocked_identity \<Rightarrow> identity_status \<Rightarrow> chain_error + identity_status_document" where
  "issue_identity_status C identity status =
     and_then (status_message C status (ui_public_identity identity)) (\<lambda>message.
     let document =
       \<lparr> sd_schema_version = STATUS_VERSION, sd_kind = STATUS_KIND, sd_status = status_as_str status,
         sd_public_identity = ui_public_identity identity,
         sd_signature = encode_base64 C (identity_sign C identity message) \<rparr> in
     and_then (status_validate_shape C document) (\<lambda>_. Inr document))"

definition deny_statused_identities ::
    "chain_host \<Rightarrow> identity_status_document list \<Rightarrow> identity_id list \<Rightarrow> chain_error + unit" where
  "deny_statused_identities C status_documents identity_ids =
     try_for_each (\<lambda>document.
       and_then (status_identity_id C document) (\<lambda>denied.
         if denied \<in> set identity_ids then Inl ChainIdentityMismatch else Inr ())) status_documents"

end
