(* ===== verification/Chain_Identity_Correct.thy ===== *)
theory Chain_Identity_Correct
  imports Chain_Identity Rap_Token
begin

text \<open>
  What an identity document promises: it is one canonical text, it is self-signed, and whoever unlocks it holds the two
  secret keys that belong to its public keys. The contract of the cryptographic libraries is \<open>host_contract\<close>: what is
  signed verifies, what is sealed opens, and the lengths are the documented ones. Nothing is assumed about what an
  attacker cannot compute.
\<close>

section \<open>The contract of the libraries\<close>

definition host_contract :: "chain_host \<Rightarrow> bool" where
  "host_contract C \<longleftrightarrow>
     blake3_contract (host_blake3 C) \<and> base64_contract (host_base64 C) \<and>
     (\<forall>seed. length seed = 32 \<longrightarrow>
        length (verifying_key C seed) = 32 \<and> vk_from_bytes (host_ed25519 C) (verifying_key C seed) \<and>
        \<not> vk_is_weak (host_ed25519 C) (verifying_key C seed) \<and>
        (\<forall>m. length (ed25519_sign C seed m) = 64 \<and>
           vk_verify_strict (host_ed25519 C) (verifying_key C seed) m (ed25519_sign C seed m))) \<and>
     (\<forall>ikm. length ikm = 32 \<longrightarrow>
        length (snd (derive_keypair C ikm)) = 32 \<and> hpke_public_key C (snd (derive_keypair C ikm))) \<and>
     (\<forall>cost p s k. argon2id C cost p s = Some k \<longrightarrow> length k = 32) \<and>
     (\<forall>k n a m c. aead_encrypt C k n a m = Some c \<longrightarrow> length c = length m + 16 \<and> aead_decrypt C k n a c = Some m) \<and>
     (\<forall>i ikm info m a e c. hpke_seal C i (snd (derive_keypair C ikm)) info m a = Some (e, c) \<longrightarrow>
        length e = 32 \<and> length c = length m + 16 \<and> hpke_encapped_key C e \<and>
        hpke_open C (fst (derive_keypair C ikm)) e info c a = Some m)"

definition entropy_contract :: "entropy \<Rightarrow> bool" where
  "entropy_contract rng \<longleftrightarrow> (\<forall>i n bs. rng i n = Some bs \<longrightarrow> length bs = n)"

lemma host_hash [simp]: "host_contract C \<Longrightarrow> length (domain_hash C c ps) = 32"
  by (simp add: host_contract_def blake3_contract_def domain_hash_def)

lemma host_keys:
  assumes "host_contract C" "length seed = 32"
  shows "length (verifying_key C seed) = 32" "vk_from_bytes (host_ed25519 C) (verifying_key C seed)"
    "\<not> vk_is_weak (host_ed25519 C) (verifying_key C seed)"
    "length (ed25519_sign C seed m) = 64" "verify_strict C (verifying_key C seed) m (ed25519_sign C seed m) = Inr ()"
    "length (snd (derive_keypair C seed)) = 32" "hpke_public_key C (snd (derive_keypair C seed))"
  using assms by (simp_all add: host_contract_def verify_strict_def)

lemma host_aead:
  assumes "host_contract C" "aead_encrypt C k n a m = Some c"
  shows "length c = length m + 16" "aead_decrypt C k n a c = Some m"
  using assms unfolding host_contract_def by blast+

lemma host_kdf: "host_contract C \<Longrightarrow> derive_encryption_key C p s cost = Inr k \<Longrightarrow> cipher_new k = Inr k"
  by (simp add: host_contract_def derive_encryption_key_def cipher_new_def array_of_slice_def)

lemma host_hpke:
  assumes "host_contract C" "hpke_seal C i (snd (derive_keypair C ikm)) info m a = Some (e, c)"
  shows "length e = 32" "length c = length m + 16" "hpke_encapped_key C e"
    "hpke_open C (fst (derive_keypair C ikm)) e info c a = Some m"
  using assms unfolding host_contract_def by blast+

lemma getrandom_fill_length:
  "entropy_contract rng \<Longrightarrow> getrandom_fill rng i n = Inr bs \<Longrightarrow> length bs = n"
  by (simp add: entropy_contract_def getrandom_fill_def)

section \<open>Codec helpers\<close>

lemma decode_encode_base64:
  assumes "host_contract C" "bs \<noteq> []"
  shows "decode_base64 C (encode_base64 C bs) = Inr bs"
proof -
  from assms(1) have b: "base64_contract (host_base64 C)" by (simp add: host_contract_def)
  then have "length (b64_encode (host_base64 C) bs) = (4 * length bs + 2) div 3" by (simp add: base64_contract_def)
  with assms(2) have "b64_encode (host_base64 C) bs \<noteq> []" by (cases bs) auto
  with b show ?thesis
    by (auto simp: decode_base64_def encode_base64_def base64_contract_def list_ex_iff list_all_iff base64url_byte_def)
qed

lemma decode_encode_array [simp]:
  "host_contract C \<Longrightarrow> length bs = n \<Longrightarrow> 0 < n \<Longrightarrow> decode_array C n (encode_base64 C bs) = Inr bs"
  by (auto simp: decode_array_def decode_encode_base64 array_of_slice_def)

lemma decode_array_inv: "decode_array C n v = Inr bs \<Longrightarrow> length bs = n \<and> v = encode_base64 C bs"
  by (auto simp: decode_array_def decode_base64_def and_then_eq_Inr split: if_splits)

text \<open>The Chain reader is a cursor like those of the other formats.\<close>

definition chain_at :: "bytes \<Rightarrow> bytes \<Rightarrow> chain_reader" where
  "chain_at pre post = \<lparr> cr_input = pre @ post, cr_offset = length pre \<rparr>"

lemma chain_take_at:
  "chain_take n (chain_at pre post) = Inr (bs, c) \<longleftrightarrow>
     length pre + n \<le> usize_max \<and> length bs = n \<and> (\<exists>r. post = bs @ r \<and> c = chain_at (pre @ bs) r)"
  by (auto simp: chain_take_def chain_at_def and_then_eq_Inr slice_get_at)

interpretation cr: byte_reader chain_take chain_at
proof
  fix pre bs r :: bytes
  assume "length pre + length bs \<le> usize_max"
  then show "chain_take (length bs) (chain_at pre (bs @ r)) = Inr (bs, chain_at (pre @ bs) r)"
    by (simp add: chain_take_at)
next
  fix n and pre post bs :: bytes and c
  assume "chain_take n (chain_at pre post) = Inr (bs, c)"
  then show "length bs = n \<and> (\<exists>r. post = bs @ r \<and> c = chain_at (pre @ bs) r)" by (simp add: chain_take_at)
qed

section \<open>Canonical documents\<close>

text \<open>
  What every document type of the crate offers: parsing accepts a valid document in the one text that
  printing gives, so that a document has at most one accepted text.
\<close>

locale canonical_document =
  fixes of_json :: "bytes \<Rightarrow> chain_error + 'd"
    and to_json :: "'d \<Rightarrow> chain_error + bytes"
    and valid :: "'d \<Rightarrow> chain_error + unit"
  assumes accepted: "of_json bs = Inr d \<Longrightarrow> valid d = Inr () \<and> to_json d = Inr bs"
begin

lemma one_text: "of_json a = Inr d \<Longrightarrow> of_json b = Inr d \<Longrightarrow> a = b"
  using accepted by (metis sum.inject(2))

end

lemma document_from_json_accepted:
  "document_from_json J valid bs = Inr d \<Longrightarrow> valid d = Inr () \<and> document_to_json J d = Inr bs"
  by (auto simp: document_from_json_def and_then_eq_Inr split: if_splits)

text \<open>What is expected of serde_json: the pretty text of a value, also with a newline behind it, parses to the value.\<close>

definition json_contract :: "'d json_codec \<Rightarrow> bool" where
  "json_contract J \<longleftrightarrow> (\<forall>d bs. json_to_vec_pretty J d = Some bs \<longrightarrow> json_from_slice J (bs @ [10]) = Some d)"

lemma document_from_to_json:
  "json_contract J \<Longrightarrow> valid d = Inr () \<Longrightarrow> document_to_json J d = Inr bs \<Longrightarrow> document_from_json J valid bs = Inr d"
  by (auto simp: document_from_json_def document_to_json_def json_contract_def and_then_eq_Inr)

interpretation idj: canonical_document "identity_from_json C J" "identity_to_json J" "identity_validate C" for C J
  by unfold_locales (auto simp: identity_from_json_def identity_to_json_def dest: document_from_json_accepted)

interpretation eidj: canonical_document "encrypted_from_json C J" "encrypted_to_json J" "encrypted_validate C" for C J
  by unfold_locales (auto simp: encrypted_from_json_def encrypted_to_json_def dest: document_from_json_accepted)

interpretation stj: canonical_document "status_from_json C J" "status_to_json J" "status_validate_shape C" for C J
  by unfold_locales (auto simp: status_from_json_def status_to_json_def dest: document_from_json_accepted)

section \<open>Validation\<close>

lemma verify_strict_eq:
  "verify_strict C k m s = Inr () \<longleftrightarrow> vk_from_bytes (host_ed25519 C) k \<and> vk_verify_strict (host_ed25519 C) k m s"
  by (simp add: verify_strict_def)

lemma identity_validate_unchecked: "identity_validate C d = Inr () \<Longrightarrow> \<exists>i. identity_id_unchecked C d = Inr i"
  by (auto simp: identity_validate_def identity_id_unchecked_def and_then_eq_Inr split: if_splits)

lemma canonical_member_bytes_ok:
  assumes "identity_validate C d = Inr ()"
  obtains bs where "canonical_member_bytes C d = Inr bs" "canonical_member_bytes_unchecked C d = Inr bs"
  using assms
  by (auto simp: identity_validate_def canonical_member_bytes_def canonical_member_bytes_unchecked_def
      signing_public_key_def encryption_public_key_def and_then_eq_Inr split: if_splits)

lemma identity_id_length: "identity_id_unchecked C d = Inr i \<Longrightarrow> length (identity_bytes i) = 32"
  by (auto simp: identity_id_unchecked_def and_then_eq_Inr dest: decode_array_inv)

text \<open>Secrets that belong to a valid public document.\<close>

definition wf_unlocked :: "chain_host \<Rightarrow> unlocked_identity \<Rightarrow> bool" where
  "wf_unlocked C u \<longleftrightarrow>
     length (ui_signing_key u) = 32 \<and> length (ui_encryption_ikm u) = 32 \<and>
     identity_validate C (ui_public_identity u) = Inr () \<and>
     signing_public_key C (ui_public_identity u) = Inr (verifying_key C (ui_signing_key u)) \<and>
     encryption_public_key C (ui_public_identity u) = Inr (snd (derive_keypair C (ui_encryption_ikm u))) \<and>
     identity_id_unchecked C (ui_public_identity u) = Inr (ui_identity_id u)"

lemma unlocked_from_seeds_eq:
  assumes "length seed = 32" "length ikm = 32"
  shows "unlocked_from_seeds C seed ikm d = Inr u \<longleftrightarrow>
    wf_unlocked C u \<and> ui_signing_key u = seed \<and> ui_encryption_ikm u = ikm \<and> ui_public_identity u = d"
  using assms
  by (cases u) (auto simp: unlocked_from_seeds_def wf_unlocked_def public_identity_id_def and_then_eq_Inr split: if_splits)

lemma unlock_wf:
  assumes "unlock C d p = Inr u"
  shows "wf_unlocked C u" "ui_public_identity u = eid_public_identity d"
proof -
  from assms obtain m s e where "unlocked_from_seeds C s e (eid_public_identity d) = Inr u"
    and "slice_get 0 32 m = Some s" "slice_get 32 64 m = Some e"
    by (auto simp: unlock_def and_then_eq_Inr SEED_BYTES_def SECRET_PLAINTEXT_BYTES_def)
  moreover from this(2,3) have "length s = 32" "length e = 32" by (auto dest: slice_get_length)
  ultimately show "wf_unlocked C u" "ui_public_identity u = eid_public_identity d" by (simp_all add: unlocked_from_seeds_eq)
qed

lemma wf_unlocked_sign:
  assumes "host_contract C" "wf_unlocked C u"
  shows "verify_strict C (verifying_key C (ui_signing_key u)) m (identity_sign C u m) = Inr ()"
    "length (identity_sign C u m) = 64"
  using assms host_keys [OF assms(1)] by (simp_all add: wf_unlocked_def identity_sign_def)

section \<open>Sealing and unlocking\<close>

lemma private_aad_ok:
  "identity_validate C d = Inr () \<Longrightarrow> \<exists>aad. private_aad C d salt nonce cost = Inr aad"
  by (erule canonical_member_bytes_ok) (simp add: private_aad_def)

lemma encrypted_kdf_cost:
  "document_kdf_cost \<lparr> eid_schema_version = v, eid_kind = k, eid_encryption = e, eid_kdf_memory_kib = memory_kib cost,
     eid_kdf_iterations = iterations cost, eid_kdf_lanes = lanes cost, eid_public_identity = p, eid_salt = s,
     eid_nonce = n, eid_encrypted_secrets = x \<rparr> = cost"
  by (cases cost) (simp add: document_kdf_cost_def)

lemma encrypt_identity_unlocks:
  assumes C: "host_contract C" and u: "wf_unlocked C u" and lens: "length salt = 16" "length nonce = 24"
    and profile: "scheme = PRIVATE_ENCRYPTION \<and> cost = KDF_COST \<or> scheme = PRIVATE_ENCRYPTION_V1 \<and> cost = KDF_COST_V1"
    and e: "encrypt_identity_at C (ui_public_identity u) (ui_signing_key u) (ui_encryption_ikm u) p salt nonce scheme cost = Inr d"
  shows "unlock C d p = Inr u" "eid_public_identity d = ui_public_identity u"
proof -
  from e obtain key aad c where pass: "validate_passphrase p = Inr ()"
    and key: "derive_encryption_key C p salt cost = Inr key"
    and aad: "private_aad C (ui_public_identity u) salt nonce cost = Inr aad"
    and c: "aead_encrypt C key nonce aad (ui_signing_key u @ ui_encryption_ikm u) = Some c"
    and valid: "encrypted_validate C d = Inr ()"
    and d: "d = \<lparr> eid_schema_version = IDENTITY_VERSION, eid_kind = PRIVATE_KIND, eid_encryption = scheme,
         eid_kdf_memory_kib = memory_kib cost, eid_kdf_iterations = iterations cost, eid_kdf_lanes = lanes cost,
         eid_public_identity = ui_public_identity u, eid_salt = encode_base64 C salt, eid_nonce = encode_base64 C nonce,
         eid_encrypted_secrets = encode_base64 C c \<rparr>"
    by (auto simp: encrypt_identity_at_def and_then_eq_Inr Let_def cipher_new_def)
  have len: "length (ui_signing_key u) = 32" "length (ui_encryption_ikm u) = 32" using u by (simp_all add: wf_unlocked_def)
  have cost: "document_kdf_cost d = cost" unfolding d by (rule encrypted_kdf_cost)
  have fields: "eid_public_identity d = ui_public_identity u" "eid_salt d = encode_base64 C salt"
    "eid_nonce d = encode_base64 C nonce" "eid_encrypted_secrets d = encode_base64 C c"
    by (simp_all add: d)
  then show "eid_public_identity d = ui_public_identity u" by simp
  have open_c: "length c = 80" "aead_decrypt C key nonce aad c = Some (ui_signing_key u @ ui_encryption_ikm u)"
    using host_aead [OF C c] len by simp_all
  have "unlocked_from_seeds C (ui_signing_key u) (ui_encryption_ikm u) (ui_public_identity u) = Inr u"
    using u len by (simp add: unlocked_from_seeds_eq)
  then show "unlock C d p = Inr u"
    using valid pass key aad open_c len lens C host_kdf [OF C key]
    by (simp add: unlock_def fields cost SALT_BYTES_def NONCE_BYTES_def SEED_BYTES_def SECRET_PLAINTEXT_BYTES_def
        TAG_BYTES_def slice_get_def)
qed

lemma encrypt_identity_total:
  assumes C: "host_contract C" and u: "wf_unlocked C u" and lens: "length salt = 16" "length nonce = 24"
    and pass: "validate_passphrase p = Inr ()"
    and works: "argon2id C KDF_COST p salt \<noteq> None" "\<And>k a. aead_encrypt C k nonce a (ui_signing_key u @ ui_encryption_ikm u) \<noteq> None"
  shows "\<exists>d. encrypt_identity_with_material C (ui_public_identity u) (ui_signing_key u) (ui_encryption_ikm u) p salt nonce = Inr d"
proof -
  from works(1) obtain key where key: "derive_encryption_key C p salt KDF_COST = Inr key"
    by (auto simp: derive_encryption_key_def)
  from u private_aad_ok obtain aad where aad: "private_aad C (ui_public_identity u) salt nonce KDF_COST = Inr aad"
    unfolding wf_unlocked_def by blast
  obtain c where c: "aead_encrypt C key nonce aad (ui_signing_key u @ ui_encryption_ikm u) = Some c" using works(2) by blast
  have "length c = 80" using host_aead(1) [OF C c] u by (simp add: wf_unlocked_def)
  then show ?thesis
    using pass key aad c host_kdf [OF C key] C u lens
    by (simp add: encrypt_identity_with_material_def encrypt_identity_at_def encrypted_validate_def supported_profile_def
        encrypted_kdf_cost wf_unlocked_def SALT_BYTES_def NONCE_BYTES_def SECRET_PLAINTEXT_BYTES_def SEED_BYTES_def TAG_BYTES_def)
qed

lemma reencrypt_ok:
  assumes "host_contract C" "wf_unlocked C u" "validate_passphrase p = Inr ()" "entropy_contract rng"
    and "\<And>i n. rng i n \<noteq> None" "\<And>cost p s. argon2id C cost p s \<noteq> None" "\<And>k n a m. aead_encrypt C k n a m \<noteq> None"
  shows "\<exists>d. reencrypt_identity C rng (ui_public_identity u) (ui_signing_key u) (ui_encryption_ikm u) p = Inr d \<and>
    unlock C d p = Inr u"
proof -
  from assms(5) obtain salt nonce where f: "getrandom_fill rng 0 16 = Inr salt" "getrandom_fill rng 1 24 = Inr nonce"
    unfolding getrandom_fill_def ok_or_eq_Inr by (metis option.exhaust)
  then have l: "length salt = 16" "length nonce = 24" using getrandom_fill_length [OF assms(4)] by blast+
  from encrypt_identity_total [OF assms(1,2) l assms(3,6,7)] obtain d where
    d: "encrypt_identity_with_material C (ui_public_identity u) (ui_signing_key u) (ui_encryption_ikm u) p salt nonce = Inr d" ..
  from encrypt_identity_unlocks(1) [OF assms(1,2) l _ d [unfolded encrypt_identity_with_material_def]] d f
  show ?thesis by (simp add: reencrypt_identity_def SALT_BYTES_def NONCE_BYTES_def)
qed

section \<open>New identities\<close>

lemma identity_message_ok:
  assumes "identity_validate_name name = Inr ()"
  obtains m where "identity_message name spk epk nonce = Inr m"
proof -
  from assms have "length name \<le> 256" by (auto simp: identity_validate_name_def MAX_NAME_BYTES_def split: if_splits)
  then have "length name < 2 ^ LENGTH(16)" by simp
  with assms that show thesis
    by (simp add: identity_message_def chain_put_bytes_u16_def try_from_usize_ok)
qed

text \<open>The public document of fresh secrets.\<close>

definition fresh_public :: "chain_host \<Rightarrow> bytes \<Rightarrow> bytes \<Rightarrow> bytes \<Rightarrow> bytes \<Rightarrow> bytes \<Rightarrow> identity_public" where
  "fresh_public C name seed ikm nonce message =
     (let sig = ed25519_sign C seed message in
      \<lparr> idp_schema_version = IDENTITY_VERSION, idp_kind = PUBLIC_KIND, idp_display_name = name,
        idp_signing_public_key = encode_base64 C (verifying_key C seed),
        idp_encryption_public_key = encode_base64 C (snd (derive_keypair C ikm)),
        idp_package_nonce = encode_base64 C nonce,
        idp_identity_id = identity_to_base64 C (identity_id_of C message sig),
        idp_proof_signature = encode_base64 C sig \<rparr>)"

definition fresh_identity :: "chain_host \<Rightarrow> bytes \<Rightarrow> bytes \<Rightarrow> bytes \<Rightarrow> bytes \<Rightarrow> bytes \<Rightarrow> unlocked_identity" where
  "fresh_identity C name seed ikm nonce message =
     \<lparr> ui_signing_key = seed, ui_encryption_ikm = ikm,
       ui_public_identity = fresh_public C name seed ikm nonce message,
       ui_identity_id = identity_id_of C message (ed25519_sign C seed message) \<rparr>"

lemma fresh_identity_wf:
  assumes C: "host_contract C" and lens: "length seed = 32" "length ikm = 32" "length nonce = 32"
    and name: "identity_validate_name name = Inr ()"
    and m: "identity_message name (verifying_key C seed) (snd (derive_keypair C ikm)) nonce = Inr message"
  shows "wf_unlocked C (fresh_identity C name seed ikm nonce message)"
proof -
  let ?p = "fresh_public C name seed ikm nonce message"
  note k = host_keys [OF C lens(1)] host_keys [OF C lens(2)]
  have keys: "signing_public_key C ?p = Inr (verifying_key C seed)"
    "encryption_public_key C ?p = Inr (snd (derive_keypair C ikm))"
    using k C by (simp_all add: fresh_public_def signing_public_key_def encryption_public_key_def Let_def)
  moreover have "identity_validate C ?p = Inr ()"
    unfolding identity_validate_def keys
    using k C m lens name by (simp add: fresh_public_def identity_to_base64_def identity_id_of_def Let_def)
  moreover have "identity_id_unchecked C ?p = Inr (identity_id_of C message (ed25519_sign C seed message))"
    using C by (simp add: fresh_public_def identity_id_unchecked_def identity_to_base64_def identity_id_of_def Let_def)
  ultimately show ?thesis using lens by (simp add: wf_unlocked_def fresh_identity_def)
qed

lemma create_identity_documents_eq:
  assumes "host_contract C" "length (irm_encryption_ikm x) = 32"
    and "identity_message name (verifying_key C (irm_signing_seed x)) (snd (derive_keypair C (irm_encryption_ikm x)))
      (irm_package_nonce x) = Inr message"
  shows "create_identity_documents C name pass x =
    (let public = fresh_public C name (irm_signing_seed x) (irm_encryption_ikm x) (irm_package_nonce x) message in
     and_then (identity_validate C public) (\<lambda>_.
     and_then (encrypt_identity_with_material C public (irm_signing_seed x) (irm_encryption_ikm x) pass (irm_salt x)
       (irm_nonce x)) (\<lambda>private. Inr (private, public))))"
  using assms host_keys(6) [OF assms(1,2)]
  by (simp add: create_identity_documents_def fresh_public_def array_of_slice_def Let_def)

text \<open>
  C25. Whoever creates an identity can use it, and changing the passphrase does not change the identity. With
  a valid name and passphrase, and libraries and an entropy source that work, creation succeeds; the passphrase unlocks
  the new document to secrets that belong to the published keys; re-encrypting under a second passphrase
  succeeds, and that passphrase unlocks exactly the same secrets and the same fingerprint.
\<close>

theorem identity_life_cycle:
  assumes "host_contract C" and "entropy_contract rng" and "entropy_contract rng'"
    and "identity_validate_name name = Inr ()" and "validate_passphrase p = Inr ()" and "validate_passphrase q = Inr ()"
    and "\<And>i n. rng i n \<noteq> None \<and> rng' i n \<noteq> None" and "\<And>cost p s. argon2id C cost p s \<noteq> None"
    and "\<And>k n a m. aead_encrypt C k n a m \<noteq> None"
  shows "\<exists>private public u private'. generate_identity C rng name p = Inr (private, public) \<and>
    unlock C private p = Inr u \<and> wf_unlocked C u \<and> ui_public_identity u = public \<and> idp_display_name public = name \<and>
    rekey_identity C rng' private p q = Inr private' \<and> unlock C private' q = Inr u"
proof -
  have fill: "\<exists>bs. getrandom_fill r i n = Inr bs \<and> length bs = n" if "r = rng \<or> r = rng'" for r i n
    using that assms(2,3) assms(7) [of i n] by (auto simp: getrandom_fill_def entropy_contract_def)
  from fill obtain seed ikm nonce salt xn where
    f: "getrandom_fill rng 0 32 = Inr seed" "getrandom_fill rng 1 32 = Inr ikm" "getrandom_fill rng 2 32 = Inr nonce"
      "getrandom_fill rng 3 16 = Inr salt" "getrandom_fill rng 4 24 = Inr xn" and
    l: "length seed = 32" "length ikm = 32" "length nonce = 32" "length salt = 16" "length xn = 24" by metis
  from fill obtain salt' xn' where
    f': "getrandom_fill rng' 0 16 = Inr salt'" "getrandom_fill rng' 1 24 = Inr xn'" "length salt' = 16" "length xn' = 24"
    by metis
  obtain m where m: "identity_message name (verifying_key C seed) (snd (derive_keypair C ikm)) nonce = Inr m"
    using identity_message_ok [OF assms(4)] by blast
  define u where "u = fresh_identity C name seed ikm nonce m"
  have u: "wf_unlocked C u" "ui_public_identity u = fresh_public C name seed ikm nonce m" "ui_signing_key u = seed"
      "ui_encryption_ikm u = ikm"
    using fresh_identity_wf [OF assms(1) l(1-3) assms(4) m] by (simp_all add: u_def fresh_identity_def)
  have total: "\<exists>d. encrypt_identity_with_material C (ui_public_identity u) (ui_signing_key u) (ui_encryption_ikm u) r s n = Inr d \<and>
      unlock C d r = Inr u" if "validate_passphrase r = Inr ()" "length s = 16" "length n = 24" for r s n
  proof -
    from encrypt_identity_total [OF assms(1) u(1) that(2,3,1) assms(8,9)] obtain d where
      d: "encrypt_identity_with_material C (ui_public_identity u) (ui_signing_key u) (ui_encryption_ikm u) r s n = Inr d" ..
    from encrypt_identity_unlocks(1) [OF assms(1) u(1) that(2,3) _ d [unfolded encrypt_identity_with_material_def]] d
    show ?thesis by blast
  qed
  from total [OF assms(5) l(4,5)] obtain d where
    d: "encrypt_identity_with_material C (ui_public_identity u) seed ikm p salt xn = Inr d" "unlock C d p = Inr u"
    unfolding u(3,4) by blast
  from total [OF assms(6) f'(3,4)] obtain d' where
    d': "encrypt_identity_with_material C (ui_public_identity u) (ui_signing_key u) (ui_encryption_ikm u) q salt' xn' = Inr d'"
      "unlock C d' q = Inr u" by blast
  have "generate_identity C rng name p = Inr (d, ui_public_identity u)"
    using f l m assms(1,4,5) u d(1)
    by (simp add: generate_identity_def SEED_BYTES_def SALT_BYTES_def NONCE_BYTES_def create_identity_documents_eq
        wf_unlocked_def Let_def)
  moreover have "rekey_identity C rng' d p q = Inr d'"
    using d(2) f' d'(1) by (simp add: rekey_identity_def reencrypt_identity_def SALT_BYTES_def NONCE_BYTES_def)
  moreover have "idp_display_name (ui_public_identity u) = name" unfolding u(2) by (simp add: fresh_public_def Let_def)
  ultimately show ?thesis using d d' u(1) by blast
qed

section \<open>A computable instance\<close>

text \<open>Stand-ins for the libraries that meet the contract, on which witnesses run.\<close>

definition sample_chain_host :: chain_host where
  "sample_chain_host =
     \<lparr> host_blake3 = sample_hash, host_base64 = url_safe_no_pad, host_ed25519 = sample_ed25519,
       verifying_key = (\<lambda>seed. seed), ed25519_sign = (\<lambda>seed m. take 64 (seed @ rev m @ replicate 64 0)),
       derive_keypair = (\<lambda>ikm. (rev ikm, ikm)), hpke_public_key = (\<lambda>k. length k = 32),
       argon2id = (\<lambda>cost p s. Some (take 32 (p @ s @ replicate 32 0))),
       aead_encrypt = (\<lambda>k n a m. Some (m @ take 16 (k @ replicate 16 0))),
       aead_decrypt = (\<lambda>k n a c.
         if drop (length c - 16) c = take 16 (k @ replicate 16 0) then Some (take (length c - 16) c) else None),
       hpke_seal = (\<lambda>i pk info m a. Some (take 32 (pk @ replicate 32 0), m @ replicate 16 (of_nat i))),
       hpke_encapped_key = (\<lambda>e. length e = 32),
       hpke_open = (\<lambda>sk e info c a. if e = take 32 (rev sk @ replicate 32 0) then Some (take (length c - 16) c) else None) \<rparr>"

definition sample_rng :: "u8 \<Rightarrow> entropy" where
  "sample_rng b i n = Some (replicate n (b + of_nat i))"

lemma sample_host_contract [simp]: "host_contract sample_chain_host"
proof -
  have "take (length m) (m @ t) = m" for m t :: bytes by simp
  then show ?thesis
    using url_safe_no_pad_contract
    by (simp add: host_contract_def sample_chain_host_def sample_ed25519_def blake3_contract_def sample_hash_def
        del: take_append)
qed

lemma sample_rng_contract [simp]: "entropy_contract (sample_rng b)"
  by (auto simp: entropy_contract_def sample_rng_def)

theorem identity_life_cycle_witness:
  "\<exists>private public u private'.
     generate_identity sample_chain_host (sample_rng 1) (ascii ''Alice'') (ascii ''correct horse'') = Inr (private, public) \<and>
     unlock sample_chain_host private (ascii ''correct horse'') = Inr u \<and> ui_public_identity u = public \<and>
     rekey_identity sample_chain_host (sample_rng 9) private (ascii ''correct horse'') (ascii ''battery staple'') = Inr private' \<and>
     unlock sample_chain_host private' (ascii ''battery staple'') = Inr u"
proof -
  have "identity_validate_name (ascii ''Alice'') = Inr ()" by code_simp
  moreover have "validate_passphrase (ascii ''correct horse'') = Inr ()" "validate_passphrase (ascii ''battery staple'') = Inr ()"
    by (simp_all add: validate_passphrase_def MIN_PASSPHRASE_BYTES_def MAX_PASSPHRASE_BYTES_def)
  ultimately show ?thesis
    using identity_life_cycle [OF sample_host_contract sample_rng_contract sample_rng_contract, of "ascii ''Alice''"
        "ascii ''correct horse''" "ascii ''battery staple''" 1 9]
    by (auto simp: sample_rng_def sample_chain_host_def)
qed

text \<open>Sample identities, one for each byte.\<close>

definition sample_message :: "u8 \<Rightarrow> bytes" where
  "sample_message b = projr (identity_message (ascii ''Alice'') (replicate 32 b) (replicate 32 (b + 1)) (replicate 32 (b + 2)))"

definition sample_identity :: "u8 \<Rightarrow> unlocked_identity" where
  "sample_identity b =
     fresh_identity sample_chain_host (ascii ''Alice'') (replicate 32 b) (replicate 32 (b + 1)) (replicate 32 (b + 2))
       (sample_message b)"

lemma sample_identity_wf: "wf_unlocked sample_chain_host (sample_identity b)"
proof -
  have name: "identity_validate_name (ascii ''Alice'') = Inr ()" by code_simp
  obtain m where m: "identity_message (ascii ''Alice'') (replicate 32 b) (replicate 32 (b + 1)) (replicate 32 (b + 2)) = Inr m"
    using identity_message_ok [OF name] by blast
  then have "sample_message b = m" by (simp add: sample_message_def)
  moreover have "verifying_key sample_chain_host k = k" "snd (derive_keypair sample_chain_host k) = k" for k
    by (simp_all add: sample_chain_host_def)
  ultimately show ?thesis unfolding sample_identity_def using m by (intro fresh_identity_wf name) simp_all
qed

end
