(* ===== verification/Chain_Backup.thy ===== *)
theory Chain_Backup
  imports Chain_Identity_Correct Secret_Sharing "HOL-Library.Multiset"
begin

text \<open>
  Backup of an identity (\<open>backup.rs\<close>): both seeds are split into signed shares, and any threshold of them
  restore the identity under a new passphrase. The draws of \<open>split_secret\<close> for the two seeds are separate arguments.
\<close>

section \<open>The program's functions\<close>

definition SHARE_VERSION :: u16 where "SHARE_VERSION = 1"
definition SHARE_KIND :: bytes where "SHARE_KIND = ascii ''rebyte-chain-identity-backup-share''"
definition SHARE_SIGNATURE_DOMAIN :: bytes where
  "SHARE_SIGNATURE_DOMAIN = ascii ''rebyte chain identity backup share v1'' @ [0]"
definition MIN_BACKUP_THRESHOLD :: u16 where "MIN_BACKUP_THRESHOLD = 2"
definition MAX_BACKUP_SHARES :: u16 where "MAX_BACKUP_SHARES = 64"

record identity_backup_share =
  bs_schema_version :: u16
  bs_kind :: bytes
  bs_share_count :: u16
  bs_threshold :: u16
  bs_public_identity :: identity_public
  bs_signing_share :: bytes
  bs_encryption_share :: bytes
  bs_signature :: bytes

definition validate_backup_parameters :: "u16 \<Rightarrow> u16 \<Rightarrow> chain_error + unit" where
  "validate_backup_parameters share_count threshold =
     (if threshold < MIN_BACKUP_THRESHOLD \<or> share_count < threshold \<or> MAX_BACKUP_SHARES < share_count
      then Inl ChainInvalidThreshold else Inr ())"

definition share_message ::
    "chain_host \<Rightarrow> u16 \<Rightarrow> u16 \<Rightarrow> bytes \<Rightarrow> bytes \<Rightarrow> identity_public \<Rightarrow> chain_error + bytes" where
  "share_message C share_count threshold signing_share encryption_share public =
     and_then (canonical_member_bytes C public) (\<lambda>public_bytes.
       let message = chain_put_u16 SHARE_SIGNATURE_DOMAIN SHARE_VERSION;
           message = chain_put_u16 message share_count;
           message = chain_put_u16 message threshold
       in Inr (message @ signing_share @ encryption_share @ public_bytes))"

definition share_validate_shape :: "chain_host \<Rightarrow> identity_backup_share \<Rightarrow> chain_error + unit" where
  "share_validate_shape C self =
     (if bs_schema_version self \<noteq> SHARE_VERSION \<or> bs_kind self \<noteq> SHARE_KIND then Inl ChainUnsupportedDocument
      else
      and_then (validate_backup_parameters (bs_share_count self) (bs_threshold self)) (\<lambda>_.
      and_then (identity_validate C (bs_public_identity self)) (\<lambda>_.
      and_then (decode_array C SHARE_BYTES (bs_signing_share self)) (\<lambda>signing_share.
      and_then (decode_array C SHARE_BYTES (bs_encryption_share self)) (\<lambda>encryption_share.
        if signing_share ! 0 = 0 \<or> signing_share ! 0 \<noteq> encryption_share ! 0 \<or>
           bs_share_count self < ucast (signing_share ! 0)
        then Inl ChainInvalidShare
        else
      and_then (decode_array C 64 (bs_signature self)) (\<lambda>sig.
      and_then (share_message C (bs_share_count self) (bs_threshold self) signing_share encryption_share
          (bs_public_identity self)) (\<lambda>message.
      and_then (signing_public_key C (bs_public_identity self)) (\<lambda>key. verify_strict C key message sig))))))))"

definition share_to_json :: "identity_backup_share json_codec \<Rightarrow> identity_backup_share \<Rightarrow> chain_error + bytes" where
  "share_to_json J self = document_to_json J self"

definition share_from_json ::
    "chain_host \<Rightarrow> identity_backup_share json_codec \<Rightarrow> bytes \<Rightarrow> chain_error + identity_backup_share" where
  "share_from_json C J bs = document_from_json J (share_validate_shape C) bs"

definition share_index :: "chain_host \<Rightarrow> identity_backup_share \<Rightarrow> chain_error + u8" where
  "share_index C self =
     and_then (share_validate_shape C self) (\<lambda>_.
     and_then (decode_array C SHARE_BYTES (bs_signing_share self)) (\<lambda>share. Inr (share ! 0)))"

definition backup_share ::
    "chain_host \<Rightarrow> unlocked_identity \<Rightarrow> u8 \<Rightarrow> u8 \<Rightarrow> bytes \<times> bytes \<Rightarrow> chain_error + identity_backup_share" where
  "backup_share C identity share_count threshold pair =
     (case pair of (signing_share, encryption_share) \<Rightarrow>
      and_then (share_message C (ucast share_count) (ucast threshold) signing_share encryption_share
          (ui_public_identity identity)) (\<lambda>message.
      let share =
        \<lparr> bs_schema_version = SHARE_VERSION, bs_kind = SHARE_KIND, bs_share_count = ucast share_count,
          bs_threshold = ucast threshold, bs_public_identity = ui_public_identity identity,
          bs_signing_share = encode_base64 C signing_share, bs_encryption_share = encode_base64 C encryption_share,
          bs_signature = encode_base64 C (identity_sign C identity message) \<rparr> in
      and_then (share_validate_shape C share) (\<lambda>_. Inr share)))"

definition backup_identity ::
    "chain_host \<Rightarrow> (nat \<Rightarrow> bytes option) \<Rightarrow> (nat \<Rightarrow> bytes option) \<Rightarrow> unlocked_identity \<Rightarrow> u8 \<Rightarrow> u8 \<Rightarrow>
     chain_error + identity_backup_share list" where
  "backup_identity C rng1 rng2 identity share_count threshold =
     and_then (validate_backup_parameters (ucast share_count) (ucast threshold)) (\<lambda>_.
     and_then (split_secret rng1 (ui_signing_key identity) share_count threshold) (\<lambda>signing_shares.
     and_then (split_secret rng2 (ui_encryption_ikm identity) share_count threshold) (\<lambda>encryption_shares.
       try_map (backup_share C identity share_count threshold) (zip signing_shares encryption_shares))))"

definition collect_share ::
    "chain_host \<Rightarrow> identity_backup_share \<Rightarrow> bytes list \<times> bytes list \<Rightarrow> identity_backup_share \<Rightarrow>
     chain_error + bytes list \<times> bytes list" where
  "collect_share C first collected share =
     and_then (share_validate_shape C share) (\<lambda>_.
       if bs_threshold share \<noteq> bs_threshold first \<or> bs_share_count share \<noteq> bs_share_count first \<or>
          bs_public_identity share \<noteq> bs_public_identity first
       then Inl ChainBindingMismatch
       else
       and_then (decode_array C SHARE_BYTES (bs_signing_share share)) (\<lambda>signing_share.
       and_then (decode_array C SHARE_BYTES (bs_encryption_share share)) (\<lambda>encryption_share.
         Inr (fst collected @ [signing_share], snd collected @ [encryption_share]))))"

definition restore_identity ::
    "chain_host \<Rightarrow> entropy \<Rightarrow> identity_backup_share list \<Rightarrow> bytes \<Rightarrow> chain_error + encrypted_identity \<times> identity_public" where
  "restore_identity C rng shares passphrase =
     (case shares of
        [] \<Rightarrow> Inl ChainInvalidShare
      | first # _ \<Rightarrow>
      and_then (share_validate_shape C first) (\<lambda>_.
        if length shares \<noteq> unat (bs_threshold first) then Inl ChainInvalidShare
        else
      and_then (try_fold (collect_share C first) ([], []) shares) (\<lambda>(signing_shares, encryption_shares).
      let signing_shares = sort_key (\<lambda>share. share ! 0) signing_shares;
          encryption_shares = sort_key (\<lambda>share. share ! 0) encryption_shares in
      and_then (try_from_usize ChainInvalidThreshold (unat (bs_threshold first))) (\<lambda>threshold :: u8.
      and_then (combine_shares signing_shares threshold) (\<lambda>signing_seed.
      and_then (combine_shares encryption_shares threshold) (\<lambda>encryption_ikm.
      and_then (unlocked_from_seeds C signing_seed encryption_ikm (bs_public_identity first)) (\<lambda>unlocked.
      and_then (reencrypt_identity C rng (bs_public_identity first) signing_seed encryption_ikm passphrase) (\<lambda>private.
        Inr (private, ui_public_identity unlocked)))))))))"

interpretation bsj: canonical_document "share_from_json C J" "share_to_json J" "share_validate_shape C" for C J
  by unfold_locales (auto simp: share_from_json_def share_to_json_def dest: document_from_json_accepted)

section \<open>Shares of a backup\<close>

text \<open>The share document of one pair of shares.\<close>

definition share_document ::
    "chain_host \<Rightarrow> unlocked_identity \<Rightarrow> u8 \<Rightarrow> u8 \<Rightarrow> bytes \<Rightarrow> bytes \<Rightarrow> bytes \<Rightarrow> identity_backup_share" where
  "share_document C u n t s e message =
     \<lparr> bs_schema_version = SHARE_VERSION, bs_kind = SHARE_KIND, bs_share_count = ucast n, bs_threshold = ucast t,
       bs_public_identity = ui_public_identity u, bs_signing_share = encode_base64 C s,
       bs_encryption_share = encode_base64 C e, bs_signature = encode_base64 C (identity_sign C u message) \<rparr>"

lemma unat_ucast_u16 [simp]: "unat (ucast (x :: u8) :: u16) = unat x"
proof -
  have "unat x < 2 ^ 8" using unsigned_less [of x, where ?'a = nat] by simp
  then show ?thesis by (simp add: unsigned_ucast_eq take_bit_nat_eq_self)
qed

lemma backup_parameters_ok:
  "validate_backup_parameters (ucast (n :: u8)) (ucast (t :: u8)) = Inr () \<longleftrightarrow>
     2 \<le> unat t \<and> unat t \<le> unat n \<and> unat n \<le> 64"
  by (auto simp: validate_backup_parameters_def MIN_BACKUP_THRESHOLD_def MAX_BACKUP_SHARES_def word_less_nat_alt)

lemma backup_share_ok:
  assumes C: "host_contract C" and u: "wf_unlocked C u" and n: "2 \<le> unat t" "unat t \<le> unat n" "unat n \<le> 64"
    and s: "length s = 33" "length e = 33" "s ! 0 = x" "e ! 0 = x" "x \<noteq> 0" "unat x \<le> unat n"
  obtains message where "backup_share C u n t (s, e) = Inr (share_document C u n t s e message)"
    "share_validate_shape C (share_document C u n t s e message) = Inr ()"
proof -
  from u have v: "identity_validate C (ui_public_identity u) = Inr ()"
    and k: "signing_public_key C (ui_public_identity u) = Inr (verifying_key C (ui_signing_key u))"
    by (simp_all add: wf_unlocked_def)
  obtain bs where "canonical_member_bytes C (ui_public_identity u) = Inr bs" using v by (rule canonical_member_bytes_ok)
  then obtain message where m: "share_message C (ucast n) (ucast t) s e (ui_public_identity u) = Inr message"
    by (simp add: share_message_def Let_def)
  have "\<not> (ucast n :: u16) < ucast x" using s(6) by (simp add: word_less_nat_alt)
  then have valid: "share_validate_shape C (share_document C u n t s e message) = Inr ()"
    using v k m C n s wf_unlocked_sign [OF C u]
    by (simp add: share_validate_shape_def share_document_def backup_parameters_ok SHARE_BYTES_def SECRET_BYTES_def)
  moreover have "backup_share C u n t (s, e) = Inr (share_document C u n t s e message)"
    using m valid by (simp add: backup_share_def share_document_def Let_def)
  ultimately show thesis by (rule that [rotated])
qed

lemma share_document_fields:
  assumes "host_contract C" "length s = 33" "length e = 33"
  shows "decode_array C SHARE_BYTES (bs_signing_share (share_document C u n t s e m)) = Inr s"
    "decode_array C SHARE_BYTES (bs_encryption_share (share_document C u n t s e m)) = Inr e"
    "bs_threshold (share_document C u n t s e m) = ucast t" "bs_share_count (share_document C u n t s e m) = ucast n"
    "bs_public_identity (share_document C u n t s e m) = ui_public_identity u"
  using assms by (simp_all add: share_document_def SHARE_BYTES_def SECRET_BYTES_def)

lemma collect_shares_eq:
  assumes "\<And>d. d \<in> set ds \<Longrightarrow> share_validate_shape C d = Inr () \<and> bs_threshold d = bs_threshold first \<and>
      bs_share_count d = bs_share_count first \<and> bs_public_identity d = bs_public_identity first \<and>
      decode_array C SHARE_BYTES (bs_signing_share d) = Inr (f d) \<and>
      decode_array C SHARE_BYTES (bs_encryption_share d) = Inr (h d)"
  shows "try_fold (collect_share C first) (a, b) ds = Inr (a @ map f ds, b @ map h ds)"
  using assms by (induction ds arbitrary: a b) (simp_all add: collect_share_def)

lemma split_secret_eq:
  assumes "length secret = 32" "0 < unat t" "unat t \<le> unat n" "unat n \<le> 64"
    and "rng ((unat t - 1) * 32) = Some c" "length c = (unat t - 1) * 32"
  shows "split_secret rng secret n t = Inr (map (\<lambda>i. share_at secret (unat t) c (of_nat i)) [1..<unat n + 1])"
proof -
  have "(unat t - 1) * 32 \<le> usize_max" using assms(3,4) by (simp add: usize_max_def)
  then have "usize_checked_mul (unat t - 1) SECRET_BYTES = Some ((unat t - 1) * 32)"
    by (simp add: usize_checked_mul_ok SECRET_BYTES_def)
  moreover have "validate_parameters (unat n) (unat t) = Inr ()" using assms by simp
  ultimately show ?thesis
    using assms by (simp add: split_secret_def split_with_coefficients_eq del: upt_Suc validate_parameters_eq_Inr)
qed

section \<open>Restoring\<close>

lemma subset_image_list:
  assumes "set xs \<subseteq> f ` A"
  obtains ys where "xs = map f ys" "set ys \<subseteq> A"
proof -
  have "\<exists>ys. xs = map f ys \<and> set ys \<subseteq> A" using assms
  proof (induction xs)
    case (Cons x xs)
    then obtain a ys where "x = f a" "a \<in> A" "xs = map f ys" "set ys \<subseteq> A" by auto
    then show ?case by (intro exI [of _ "a # ys"]) simp
  qed simp
  with that show thesis by blast
qed

text \<open>
  The seeds of chosen share documents: sorting by the abscissa changes neither which shares they are nor
  their number.
\<close>

lemma share_at_inj:
  assumes "share_at secret t c (of_nat i) = share_at secret t c (of_nat j)" "i \<le> 64" "j \<le> 64"
  shows "i = j"
proof -
  from assms(1) have "(of_nat i :: u8) = of_nat j" by (simp add: share_at_def)
  then have "unat (of_nat i :: u8) = unat (of_nat j :: u8)" by simp
  with assms(2,3) show ?thesis by (simp add: unat_of_nat)
qed

lemma sorted_shares_recover:
  assumes "length secret = 32" "0 < unat t" "unat t \<le> unat n" "unat n \<le> 64"
    and "distinct is" "set is \<subseteq> set [1..<unat n + 1]" "length is = unat t"
  shows "combine_shares (sort_key (\<lambda>s. s ! 0) (map (\<lambda>i. share_at secret (unat t) c (of_nat i)) is)) t = Inr secret"
proof (rule chosen_shares_recover [OF assms(1-4)])
  let ?f = "\<lambda>i. share_at secret (unat t) c (of_nat i)"
  show "set (sort_key (\<lambda>s. s ! 0) (map ?f is)) \<subseteq> set (map ?f [1..<unat n + 1])"
    unfolding set_sort set_map by (rule image_mono) (rule assms(6))
  have "inj_on ?f (set is)" by (rule inj_onI, rule share_at_inj) (use assms(4,6) in auto)
  then show "distinct (sort_key (\<lambda>s. s ! 0) (map ?f is))" using assms(5) by (simp add: distinct_map)
qed (simp add: assms(7))

lemma restore_shares:
  fixes c1 c2 :: bytes and m :: "nat \<Rightarrow> bytes"
  assumes C: "host_contract C" and u: "wf_unlocked C u" and n: "2 \<le> unat t" "unat t \<le> unat n" "unat n \<le> 64"
    and js: "distinct js" "set js \<subseteq> set [1..<unat n + 1]" "length js = unat t"
  defines "s \<equiv> \<lambda>i. share_at (ui_signing_key u) (unat t) c1 (of_nat i)"
    and "e \<equiv> \<lambda>i. share_at (ui_encryption_ikm u) (unat t) c2 (of_nat i)"
  defines "d \<equiv> \<lambda>i. share_document C u n t (s i) (e i) (m i)"
  assumes valid: "\<And>i. i \<in> set js \<Longrightarrow> share_validate_shape C (d i) = Inr ()"
    and pass: "validate_passphrase p = Inr ()"
    and works: "entropy_contract rng" "\<And>i k. rng i k \<noteq> None" "\<And>cost p s. argon2id C cost p s \<noteq> None"
      "\<And>k n a m. aead_encrypt C k n a m \<noteq> None"
  shows "\<exists>private. restore_identity C rng (map d js) p = Inr (private, ui_public_identity u) \<and> unlock C private p = Inr u"
proof -
  have seeds: "length (ui_signing_key u) = 32" "length (ui_encryption_ikm u) = 32" using u by (simp_all add: wf_unlocked_def)
  have pos: "0 < unat t" using n(1) by simp
  have len: "length (s i) = 33" "length (e i) = 33" for i using seeds by (simp_all add: s_def e_def share_at_def)
  have f: "decode_array C SHARE_BYTES (bs_signing_share (d i)) = Inr (s i)"
    "decode_array C SHARE_BYTES (bs_encryption_share (d i)) = Inr (e i)" "bs_threshold (d i) = ucast t"
    "bs_share_count (d i) = ucast n" "bs_public_identity (d i) = ui_public_identity u" for i
    unfolding d_def by (simp_all only: share_document_fields [OF C len])
  obtain j rest where cons: "js = j # rest" using js(3) pos by (cases js) auto
  have "try_fold (collect_share C (d j)) ([], []) (map d js) =
      Inr ([] @ map (\<lambda>d. projr (decode_array C SHARE_BYTES (bs_signing_share d))) (map d js),
        [] @ map (\<lambda>d. projr (decode_array C SHARE_BYTES (bs_encryption_share d))) (map d js))"
    by (rule collect_shares_eq) (auto simp: f valid)
  then have "try_fold (collect_share C (d j)) ([], []) (map d js) = Inr (map s js, map e js)" by (simp add: f comp_def)
  moreover have "combine_shares (sort_key (\<lambda>s. s ! 0) (map s js)) t = Inr (ui_signing_key u)"
    "combine_shares (sort_key (\<lambda>s. s ! 0) (map e js)) t = Inr (ui_encryption_ikm u)"
    unfolding s_def e_def using sorted_shares_recover [OF seeds(1) pos n(2,3) js] sorted_shares_recover [OF seeds(2) pos n(2,3) js]
    by blast+
  moreover have "unlocked_from_seeds C (ui_signing_key u) (ui_encryption_ikm u) (ui_public_identity u) = Inr u"
    using u seeds by (simp add: unlocked_from_seeds_eq)
  moreover obtain sealed where
    "reencrypt_identity C rng (ui_public_identity u) (ui_signing_key u) (ui_encryption_ikm u) p = Inr sealed"
    "unlock C sealed p = Inr u"
    using reencrypt_ok [OF C u pass works] by blast
  moreover have "share_validate_shape C (d j) = Inr ()" using valid cons by simp
  ultimately show ?thesis using cons js(3) by (simp add: restore_identity_def f Let_def)
qed

text \<open>
  C26. A backup restores the identity: splitting an unlocked identity into \<open>n\<close> shares with threshold \<open>t\<close> succeeds whatever
  coefficients are drawn, and any \<open>t\<close> different shares of it, in any order, are restored under a new passphrase that unlocks
  exactly the original secrets, public document and fingerprint.
\<close>

theorem backup_restores:
  assumes C: "host_contract C" and u: "wf_unlocked C u" and n: "2 \<le> unat t" "unat t \<le> unat n" "unat n \<le> 64"
    and rng1: "rng1 ((unat t - 1) * 32) = Some c1" "length c1 = (unat t - 1) * 32"
    and rng2: "rng2 ((unat t - 1) * 32) = Some c2" "length c2 = (unat t - 1) * 32"
    and pass: "validate_passphrase p = Inr ()"
    and works: "entropy_contract rng" "\<And>i k. rng i k \<noteq> None" "\<And>cost p s. argon2id C cost p s \<noteq> None"
      "\<And>k n a m. aead_encrypt C k n a m \<noteq> None"
  shows "\<exists>shares. backup_identity C rng1 rng2 u n t = Inr shares \<and> length shares = unat n \<and> distinct shares \<and>
    (\<forall>chosen. set chosen \<subseteq> set shares \<and> distinct chosen \<and> length chosen = unat t \<longrightarrow>
      (\<exists>private. restore_identity C rng chosen p = Inr (private, ui_public_identity u) \<and> unlock C private p = Inr u))"
proof -
  have seeds: "length (ui_signing_key u) = 32" "length (ui_encryption_ikm u) = 32" using u by (simp_all add: wf_unlocked_def)
  have pos: "0 < unat t" using n(1) by simp
  let ?s = "\<lambda>i. share_at (ui_signing_key u) (unat t) c1 (of_nat i)"
  let ?e = "\<lambda>i. share_at (ui_encryption_ikm u) (unat t) c2 (of_nat i)"
  let ?is = "[1..<unat n + 1]"
  have len: "length (?s i) = 33" "length (?e i) = 33" for i using seeds by (simp_all add: share_at_def)
  have "\<exists>m. backup_share C u n t (?s i, ?e i) = Inr (share_document C u n t (?s i) (?e i) m) \<and>
      share_validate_shape C (share_document C u n t (?s i) (?e i) m) = Inr ()" if "i \<in> set ?is" for i
  proof -
    from that n have i: "1 \<le> i" "i \<le> unat n" "i \<le> 64" by auto
    then have x: "unat (of_nat i :: u8) = i" by (simp add: unat_of_nat)
    with i have "(of_nat i :: u8) \<noteq> 0" by auto
    then show ?thesis
      using backup_share_ok [OF C u n, of "?s i" "?e i" "of_nat i"] len i x by (auto simp: share_at_def)
  qed
  then obtain m where m: "\<And>i. i \<in> set ?is \<Longrightarrow> backup_share C u n t (?s i, ?e i) = Inr (share_document C u n t (?s i) (?e i) (m i))"
      "\<And>i. i \<in> set ?is \<Longrightarrow> share_validate_shape C (share_document C u n t (?s i) (?e i) (m i)) = Inr ()" by metis
  let ?d = "\<lambda>i. share_document C u n t (?s i) (?e i) (m i)"
  have zip: "zip (map ?s ?is) (map ?e ?is) = map (\<lambda>i. (?s i, ?e i)) ?is" by (simp add: zip_map_map zip_same_conv_map del: upt_Suc)
  have "try_map (backup_share C u n t) (map (\<lambda>i. (?s i, ?e i)) ?is) = Inr (map ?d ?is)"
    unfolding try_map_eq_Inr list.rel_map using m(1) by (intro list.rel_refl_strong)
  moreover have "split_secret rng1 (ui_signing_key u) n t = Inr (map ?s ?is)" "split_secret rng2 (ui_encryption_ikm u) n t = Inr (map ?e ?is)"
    by (rule split_secret_eq [where rng = rng1, OF seeds(1) pos n(2,3) rng1])
      (rule split_secret_eq [where rng = rng2, OF seeds(2) pos n(2,3) rng2])
  ultimately have backup: "backup_identity C rng1 rng2 u n t = Inr (map ?d ?is)"
    using n backup_parameters_ok [of n t] zip by (simp add: backup_identity_def del: upt_Suc)
  have "\<exists>private. restore_identity C rng chosen p = Inr (private, ui_public_identity u) \<and> unlock C private p = Inr u"
    if ch: "set chosen \<subseteq> set (map ?d ?is)" "distinct chosen" "length chosen = unat t" for chosen
  proof -
    from ch(1) obtain js where js: "chosen = map ?d js" "set js \<subseteq> set ?is"
      unfolding set_map by (rule subset_image_list)
    then have dj: "distinct js" "length js = unat t" using ch(2,3) by (auto simp: distinct_map)
    have "share_validate_shape C (?d i) = Inr ()" if "i \<in> set js" for i using m(2) js(2) that by blast
    with restore_shares [OF C u n dj(1) js(2) dj(2) _ pass works, of c1 c2 m] js(1) show ?thesis by blast
  qed
  moreover have "distinct (map ?d ?is)"
  proof -
    have "inj_on ?d (set ?is)"
    proof (rule inj_onI)
      fix i j
      assume "i \<in> set ?is" "j \<in> set ?is" and eq: "?d i = ?d j"
      then have "?s i = ?s j" using share_document_fields(1) [OF C len] by (metis sum.inject(2))
      with \<open>i \<in> set ?is\<close> \<open>j \<in> set ?is\<close> n show "i = j" by (intro share_at_inj) auto
    qed
    then show ?thesis by (simp add: distinct_map del: upt_Suc)
  qed
  ultimately show ?thesis using backup by (intro exI [of _ "map ?d ?is"]) (simp del: upt_Suc)
qed

theorem backup_restores_witness:
  "\<exists>shares private. backup_identity sample_chain_host (\<lambda>n. Some (replicate n 3)) (\<lambda>n. Some (replicate n 4)) (sample_identity 1) 3 2 =
       Inr shares \<and> length shares = 3 \<and>
     restore_identity sample_chain_host (sample_rng 9) [shares ! 2, shares ! 0] (ascii ''battery staple'') =
       Inr (private, ui_public_identity (sample_identity 1)) \<and>
     unlock sample_chain_host private (ascii ''battery staple'') = Inr (sample_identity 1)"
proof -
  let ?u = "sample_identity 1" and ?c1 = "replicate 32 (3 :: u8)" and ?c2 = "replicate 32 (4 :: u8)"
  have pass: "validate_passphrase (ascii ''battery staple'') = Inr ()"
    by (simp add: validate_passphrase_def MIN_PASSPHRASE_BYTES_def MAX_PASSPHRASE_BYTES_def)
  have works: "sample_rng b i k \<noteq> None" "argon2id sample_chain_host cost p s \<noteq> None"
    "aead_encrypt sample_chain_host k' n a m \<noteq> None" for b i k cost p s k' n a m
    by (simp_all add: sample_rng_def sample_chain_host_def)
  have "\<exists>shares. backup_identity sample_chain_host (\<lambda>n. Some (replicate n 3)) (\<lambda>n. Some (replicate n 4)) ?u 3 2 = Inr shares \<and>
    length shares = unat (3 :: u8) \<and> distinct shares \<and>
    (\<forall>chosen. set chosen \<subseteq> set shares \<and> distinct chosen \<and> length chosen = unat (2 :: u8) \<longrightarrow>
      (\<exists>private. restore_identity sample_chain_host (sample_rng 9) chosen (ascii ''battery staple'') =
          Inr (private, ui_public_identity ?u) \<and> unlock sample_chain_host private (ascii ''battery staple'') = Inr ?u))"
    by (rule backup_restores [where ?c1.0 = ?c1 and ?c2.0 = ?c2, OF sample_host_contract sample_identity_wf])
      (use pass works in simp_all)
  then obtain shares where sh: "backup_identity sample_chain_host (\<lambda>n. Some (replicate n 3)) (\<lambda>n. Some (replicate n 4)) ?u 3 2 = Inr shares"
    "length shares = 3" and re: "\<And>chosen. set chosen \<subseteq> set shares \<Longrightarrow> distinct chosen \<Longrightarrow> length chosen = 2 \<Longrightarrow>
      \<exists>private. restore_identity sample_chain_host (sample_rng 9) chosen (ascii ''battery staple'') =
          Inr (private, ui_public_identity ?u) \<and> unlock sample_chain_host private (ascii ''battery staple'') = Inr ?u"
    and sh4: "distinct shares"
    by auto
  have "shares ! 2 \<noteq> shares ! 0"
    using sh(2) sh4 by (simp add: nth_eq_iff_index_eq)
  then show ?thesis using re [of "[shares ! 2, shares ! 0]"] sh by auto
qed

end
