(* ===== verification/Chain_Group.thy ===== *)
theory Chain_Group
  imports Chain_Identity
begin

text \<open>
  Groups (\<open>group.rs\<close>): a proposal lists the members in the order of their fingerprints, every member signs it, and
  the certificate carries all signatures. The progress report of group formation (\<open>ceremony.rs\<close>) counts the
  acceptances that a coordinator has collected so far.
\<close>

section \<open>Documents\<close>

definition GROUP_VERSION :: u16 where "GROUP_VERSION = 1"
definition PROPOSAL_KIND :: bytes where "PROPOSAL_KIND = ascii ''rebyte-chain-group-proposal''"
definition ACCEPTANCE_KIND :: bytes where "ACCEPTANCE_KIND = ascii ''rebyte-chain-group-acceptance''"
definition CERTIFICATE_KIND :: bytes where "CERTIFICATE_KIND = ascii ''rebyte-chain-group-certificate''"
definition GROUP_BODY_DOMAIN :: bytes where "GROUP_BODY_DOMAIN = ascii ''rebyte chain group body v1'' @ [0]"
definition GROUP_ACCEPTANCE_DOMAIN :: bytes where
  "GROUP_ACCEPTANCE_DOMAIN = ascii ''rebyte chain group acceptance v1'' @ [0]"
definition MAX_GROUP_MEMBERS :: nat where "MAX_GROUP_MEMBERS = 64"
definition MAX_GROUP_NAME_BYTES :: nat where "MAX_GROUP_NAME_BYTES = 256"

datatype group_id = GroupId (group_bytes: bytes)

record group_proposal =
  gp_schema_version :: u16
  gp_kind :: bytes
  gp_display_name :: bytes
  gp_group_nonce :: bytes
  gp_capsule_threshold :: u16
  gp_members :: "identity_public list"
  gp_group_id :: bytes

record group_acceptance =
  ga_schema_version :: u16
  ga_kind :: bytes
  ga_group_id :: bytes
  ga_member_id :: bytes
  ga_signature :: bytes

record group_certificate =
  gc_schema_version :: u16
  gc_kind :: bytes
  gc_proposal :: group_proposal
  gc_acceptances :: "group_acceptance list"

definition group_to_base64 :: "chain_host \<Rightarrow> group_id \<Rightarrow> bytes" where
  "group_to_base64 C g = encode_base64 C (group_bytes g)"

text \<open>\<open>Result::ok\<close>, and the key under which members and signatures are sorted.\<close>

definition id_key :: "chain_error + identity_id \<Rightarrow> bytes" where
  "id_key r = (case r of Inl _ \<Rightarrow> replicate 32 0 | Inr i \<Rightarrow> identity_bytes i)"

text \<open>The order test of the validation loops.\<close>

definition check_order :: "identity_id option \<Rightarrow> identity_id \<Rightarrow> chain_error + unit" where
  "check_order previous i =
     (case previous of
        None \<Rightarrow> Inr ()
      | Some v \<Rightarrow>
          if identity_bytes i \<le> identity_bytes v
          then Inl (if previous = Some i then ChainDuplicateIdentity else ChainNonCanonicalOrder) else Inr ())"

section \<open>Proposals\<close>

definition validate_group_name :: "bytes \<Rightarrow> chain_error + unit" where
  "validate_group_name value =
     (if value = [] \<or> MAX_GROUP_NAME_BYTES < length value \<or>
         list_ex (\<lambda>c. char_is_control c \<or> c = 0x7f) (str_chars value)
      then Inl ChainInvalidName else Inr ())"

definition put_member :: "chain_host \<Rightarrow> bytes \<Rightarrow> identity_public \<Rightarrow> chain_error + bytes" where
  "put_member C body member =
     and_then (canonical_member_bytes_unchecked C member) (\<lambda>member_bytes.
     and_then (try_from_usize ChainLengthOverflow (length member_bytes)) (\<lambda>len.
       Inr (chain_put_u32 body len @ member_bytes)))"

definition calculate_group_id ::
    "chain_host \<Rightarrow> bytes \<Rightarrow> bytes \<Rightarrow> u16 \<Rightarrow> identity_public list \<Rightarrow> chain_error + group_id" where
  "calculate_group_id C display_name nonce capsule_threshold members =
     and_then (try_from_usize ChainLengthOverflow (length members)) (\<lambda>member_count.
     and_then (chain_put_bytes_u16 (chain_put_u16 GROUP_BODY_DOMAIN GROUP_VERSION) display_name) (\<lambda>body.
     let body = chain_put_u16 (chain_put_u16 (body @ nonce) capsule_threshold) member_count in
     and_then (try_fold (put_member C) body members) (\<lambda>body.
       Inr (GroupId (domain_hash C (ascii ''Rebyte Chain group id v1 2026-07-17'') [body])))))"

definition group_id_unchecked :: "chain_host \<Rightarrow> group_proposal \<Rightarrow> chain_error + group_id" where
  "group_id_unchecked C self = and_then (decode_array C 32 (gp_group_id self)) (\<lambda>bs. Inr (GroupId bs))"

definition member_step :: "chain_host \<Rightarrow> identity_id option \<Rightarrow> identity_public \<Rightarrow> chain_error + identity_id option" where
  "member_step C previous member =
     and_then (identity_validate C member) (\<lambda>_.
     and_then (identity_id_unchecked C member) (\<lambda>i.
     and_then (check_order previous i) (\<lambda>_. Inr (Some i))))"

definition proposal_validate :: "chain_host \<Rightarrow> group_proposal \<Rightarrow> chain_error + unit" where
  "proposal_validate C self =
     (if gp_schema_version self \<noteq> GROUP_VERSION \<or> gp_kind self \<noteq> PROPOSAL_KIND then Inl ChainUnsupportedDocument
      else
      and_then (validate_group_name (gp_display_name self)) (\<lambda>_.
        if gp_members self = [] \<or> MAX_GROUP_MEMBERS < length (gp_members self) then Inl ChainLimitExceeded
        else
      and_then (try_from_usize ChainLengthOverflow (length (gp_members self))) (\<lambda>member_count.
        if gp_capsule_threshold self = 0 \<or> member_count < gp_capsule_threshold self then Inl ChainInvalidThreshold
        else
      and_then (try_fold (member_step C) None (gp_members self)) (\<lambda>_.
      and_then (decode_array C 32 (gp_group_nonce self)) (\<lambda>nonce.
      and_then (calculate_group_id C (gp_display_name self) nonce (gp_capsule_threshold self) (gp_members self)) (\<lambda>expected.
      and_then (decode_array C 32 (gp_group_id self)) (\<lambda>declared.
        if declared \<noteq> group_bytes expected then Inl ChainBindingMismatch else Inr ())))))))"

definition proposal_group_id :: "chain_host \<Rightarrow> group_proposal \<Rightarrow> chain_error + group_id" where
  "proposal_group_id C self = and_then (proposal_validate C self) (\<lambda>_. group_id_unchecked C self)"

definition proposal_member :: "chain_host \<Rightarrow> group_proposal \<Rightarrow> identity_id \<Rightarrow> identity_public option" where
  "proposal_member C self i = find (\<lambda>member. identity_id_unchecked C member = Inr i) (gp_members self)"

definition proposal_with_nonce ::
    "chain_host \<Rightarrow> bytes \<Rightarrow> u16 \<Rightarrow> identity_public list \<Rightarrow> bytes \<Rightarrow> chain_error + group_proposal" where
  "proposal_with_nonce C display_name capsule_threshold members nonce =
     and_then (validate_group_name display_name) (\<lambda>_.
     and_then (try_for_each (identity_validate C) members) (\<lambda>_.
     let members = sort_key (\<lambda>member. id_key (identity_id_unchecked C member)) members in
     if any_window2 (\<lambda>left right.
          result_ok (identity_id_unchecked C left) = result_ok (identity_id_unchecked C right)) members
     then Inl ChainDuplicateIdentity
     else
     and_then (try_from_usize ChainLengthOverflow (length members)) (\<lambda>member_count.
       if members = [] \<or> MAX_GROUP_MEMBERS < length members then Inl ChainLimitExceeded
       else if capsule_threshold = 0 \<or> member_count < capsule_threshold then Inl ChainInvalidThreshold
       else
     and_then (calculate_group_id C display_name nonce capsule_threshold members) (\<lambda>group_id.
     let proposal =
       \<lparr> gp_schema_version = GROUP_VERSION, gp_kind = PROPOSAL_KIND, gp_display_name = display_name,
         gp_group_nonce = encode_base64 C nonce, gp_capsule_threshold = capsule_threshold, gp_members = members,
         gp_group_id = group_to_base64 C group_id \<rparr> in
     and_then (proposal_validate C proposal) (\<lambda>_. Inr proposal)))))"

definition group_proposal_new ::
    "chain_host \<Rightarrow> entropy \<Rightarrow> bytes \<Rightarrow> u16 \<Rightarrow> identity_public list \<Rightarrow> chain_error + group_proposal" where
  "group_proposal_new C rng display_name capsule_threshold members =
     and_then (getrandom_fill rng 0 32) (\<lambda>nonce. proposal_with_nonce C display_name capsule_threshold members nonce)"

definition proposal_to_json :: "group_proposal json_codec \<Rightarrow> group_proposal \<Rightarrow> chain_error + bytes" where
  "proposal_to_json J self = document_to_json J self"

definition proposal_from_json ::
    "chain_host \<Rightarrow> group_proposal json_codec \<Rightarrow> bytes \<Rightarrow> chain_error + group_proposal" where
  "proposal_from_json C J bs = document_from_json J (proposal_validate C) bs"

section \<open>Acceptances\<close>

definition acceptance_validate_shape :: "chain_host \<Rightarrow> group_acceptance \<Rightarrow> chain_error + unit" where
  "acceptance_validate_shape C self =
     (if ga_schema_version self \<noteq> GROUP_VERSION \<or> ga_kind self \<noteq> ACCEPTANCE_KIND then Inl ChainUnsupportedDocument
      else
      and_then (decode_array C 32 (ga_group_id self)) (\<lambda>_.
      and_then (decode_array C 32 (ga_member_id self)) (\<lambda>_.
      and_then (decode_array C 64 (ga_signature self)) (\<lambda>_. Inr ()))))"

definition acceptance_member_id :: "chain_host \<Rightarrow> group_acceptance \<Rightarrow> chain_error + identity_id" where
  "acceptance_member_id C self =
     and_then (acceptance_validate_shape C self) (\<lambda>_.
     and_then (decode_array C 32 (ga_member_id self)) (\<lambda>bs. Inr (IdentityId bs)))"

definition acceptance_to_json :: "group_acceptance json_codec \<Rightarrow> group_acceptance \<Rightarrow> chain_error + bytes" where
  "acceptance_to_json J self = document_to_json J self"

definition acceptance_from_json ::
    "chain_host \<Rightarrow> group_acceptance json_codec \<Rightarrow> bytes \<Rightarrow> chain_error + group_acceptance" where
  "acceptance_from_json C J bs = document_from_json J (acceptance_validate_shape C) bs"

definition acceptance_message :: "group_id \<Rightarrow> identity_id \<Rightarrow> bytes" where
  "acceptance_message g i = GROUP_ACCEPTANCE_DOMAIN @ group_bytes g @ identity_bytes i"

definition verify_acceptance ::
    "chain_host \<Rightarrow> group_id \<Rightarrow> identity_public \<Rightarrow> group_acceptance \<Rightarrow> chain_error + unit" where
  "verify_acceptance C g member acceptance =
     and_then (acceptance_validate_shape C acceptance) (\<lambda>_.
     and_then (identity_id_unchecked C member) (\<lambda>member_id.
     and_then (decode_array C 32 (ga_group_id acceptance)) (\<lambda>declared.
       if declared \<noteq> group_bytes g then Inl ChainBindingMismatch
       else
     and_then (acceptance_member_id C acceptance) (\<lambda>accepting.
       if accepting \<noteq> member_id then Inl ChainBindingMismatch
       else
     and_then (signing_public_key C member) (\<lambda>key.
       if \<not> vk_from_bytes (host_ed25519 C) key then Inl ChainInvalidPublicKey
       else
     and_then (decode_array C 64 (ga_signature acceptance)) (\<lambda>sig.
       if \<not> vk_verify_strict (host_ed25519 C) key (acceptance_message g member_id) sig then Inl ChainInvalidSignature
       else Inr ()))))))"

definition accept_group ::
    "chain_host \<Rightarrow> group_proposal \<Rightarrow> unlocked_identity \<Rightarrow> chain_error + group_acceptance" where
  "accept_group C proposal identity =
     and_then (proposal_validate C proposal) (\<lambda>_.
       if proposal_member C proposal (ui_identity_id identity) = None then Inl ChainNotGroupMember
       else
     and_then (group_id_unchecked C proposal) (\<lambda>g.
     let message = acceptance_message g (ui_identity_id identity) in
       Inr \<lparr> ga_schema_version = GROUP_VERSION, ga_kind = ACCEPTANCE_KIND, ga_group_id = group_to_base64 C g,
             ga_member_id = identity_to_base64 C (ui_identity_id identity),
             ga_signature = encode_base64 C (identity_sign C identity message) \<rparr>))"

section \<open>Certificates\<close>

definition certificate_validate :: "chain_host \<Rightarrow> group_certificate \<Rightarrow> chain_error + unit" where
  "certificate_validate C self =
     (if gc_schema_version self \<noteq> GROUP_VERSION \<or> gc_kind self \<noteq> CERTIFICATE_KIND then Inl ChainUnsupportedDocument
      else
      and_then (proposal_validate C (gc_proposal self)) (\<lambda>_.
        if length (gc_acceptances self) \<noteq> length (gp_members (gc_proposal self)) then Inl ChainIncompleteGroup
        else
      and_then (group_id_unchecked C (gc_proposal self)) (\<lambda>g.
        try_for_each (\<lambda>(member, acceptance). verify_acceptance C g member acceptance)
          (zip (gp_members (gc_proposal self)) (gc_acceptances self)))))"

definition certificate_group_id :: "chain_host \<Rightarrow> group_certificate \<Rightarrow> chain_error + group_id" where
  "certificate_group_id C self = and_then (certificate_validate C self) (\<lambda>_. group_id_unchecked C (gc_proposal self))"

definition certificate_to_json :: "group_certificate json_codec \<Rightarrow> group_certificate \<Rightarrow> chain_error + bytes" where
  "certificate_to_json J self = document_to_json J self"

definition certificate_from_json ::
    "chain_host \<Rightarrow> group_certificate json_codec \<Rightarrow> bytes \<Rightarrow> chain_error + group_certificate" where
  "certificate_from_json C J bs = document_from_json J (certificate_validate C) bs"

definition finalize_group ::
    "chain_host \<Rightarrow> group_proposal \<Rightarrow> group_acceptance list \<Rightarrow> chain_error + group_certificate" where
  "finalize_group C proposal acceptances =
     and_then (proposal_validate C proposal) (\<lambda>_.
     and_then (try_for_each (acceptance_validate_shape C) acceptances) (\<lambda>_.
     let acceptances = sort_key (\<lambda>acceptance. id_key (acceptance_member_id C acceptance)) acceptances in
     if any_window2 (\<lambda>left right.
          result_ok (acceptance_member_id C left) = result_ok (acceptance_member_id C right)) acceptances
     then Inl ChainDuplicateIdentity
     else
     let certificate =
       \<lparr> gc_schema_version = GROUP_VERSION, gc_kind = CERTIFICATE_KIND, gc_proposal = proposal,
         gc_acceptances = acceptances \<rparr> in
     and_then (certificate_validate C certificate) (\<lambda>_. Inr certificate)))"

section \<open>Progress of the ceremony (ceremony.rs)\<close>

record ceremony_member =
  cm_identity_id :: identity_id
  cm_display_name :: bytes
  cm_signed :: bool

record rejected_document =
  rd_index :: nat
  rd_error :: chain_error

record ceremony_status =
  cs_required_signatures :: nat
  cs_members :: "ceremony_member list"
  cs_rejected :: "rejected_document list"

definition collected_signatures :: "ceremony_status \<Rightarrow> nat" where
  "collected_signatures self = length (filter cm_signed (cs_members self))"

definition ceremony_ready :: "ceremony_status \<Rightarrow> bool" where
  "ceremony_ready self \<longleftrightarrow> cs_required_signatures self \<le> collected_signatures self"

definition pending_members :: "chain_host \<Rightarrow> identity_public list \<Rightarrow> chain_error + ceremony_member list" where
  "pending_members C members =
     try_map (\<lambda>member.
       and_then (identity_id_unchecked C member) (\<lambda>i.
         Inr \<lparr> cm_identity_id = i, cm_display_name = idp_display_name member, cm_signed = False \<rparr>)) members"

fun iter_position :: "('a \<Rightarrow> bool) \<Rightarrow> 'a list \<Rightarrow> nat option" where
  "iter_position p [] = None"
| "iter_position p (x # xs) = (if p x then Some 0 else map_option Suc (iter_position p xs))"

definition signable_position :: "ceremony_member list \<Rightarrow> identity_id \<Rightarrow> chain_error + nat" where
  "signable_position members member_id =
     and_then (ok_or ChainNotGroupMember (iter_position (\<lambda>member. cm_identity_id member = member_id) members)) (\<lambda>position.
       if cm_signed (members ! position) then Inl ChainDuplicateIdentity else Inr position)"

text \<open>A counted document marks its member, any other is reported with its index.\<close>

definition count_document ::
    "nat \<Rightarrow> chain_error + nat \<Rightarrow> ceremony_member list \<times> rejected_document list \<Rightarrow>
     ceremony_member list \<times> rejected_document list" where
  "count_document index counted s =
     (case s of (members, rejected) \<Rightarrow>
      (case counted of
         Inr pos \<Rightarrow> (members[pos := (members ! pos)\<lparr> cm_signed := True \<rparr>], rejected)
       | Inl e \<Rightarrow> (members, rejected @ [\<lparr> rd_index = index, rd_error = e \<rparr>])))"

definition count_acceptance ::
    "chain_host \<Rightarrow> group_proposal \<Rightarrow> group_id \<Rightarrow> ceremony_member list \<times> rejected_document list \<Rightarrow>
     nat \<times> group_acceptance \<Rightarrow> ceremony_member list \<times> rejected_document list" where
  "count_acceptance C proposal g s x =
     (case x of (index, acceptance) \<Rightarrow>
      count_document index
        (and_then (acceptance_member_id C acceptance) (\<lambda>member_id.
         and_then (signable_position (fst s) member_id) (\<lambda>position.
         and_then (ok_or ChainNotGroupMember (proposal_member C proposal member_id)) (\<lambda>member.
         and_then (verify_acceptance C g member acceptance) (\<lambda>_. Inr position))))) s)"

definition group_ceremony_status ::
    "chain_host \<Rightarrow> group_proposal \<Rightarrow> group_acceptance list \<Rightarrow> chain_error + ceremony_status" where
  "group_ceremony_status C proposal acceptances =
     and_then (proposal_group_id C proposal) (\<lambda>g.
     and_then (pending_members C (gp_members proposal)) (\<lambda>members.
     case foldl (count_acceptance C proposal g) (members, []) (enumerate 0 acceptances) of (members, rejected) \<Rightarrow>
       Inr \<lparr> cs_required_signatures = length members, cs_members = members, cs_rejected = rejected \<rparr>))"

end
