(* ===== verification/Chain_Envelope.thy ===== *)
theory Chain_Envelope
  imports Chain_Group Access_Contract Artifact_Token Semantic_Patch Secret_Sharing
begin

text \<open>
  Encrypted capsules (\<open>envelope.rs\<close>): a proposal binds a group certificate, an access contract and the encrypted content
  with one key slot for each holder, members approve it, and the envelope carries the approvals. The
  libraries are collected in the argument \<open>E\<close>: the chain host, Zstandard for artifacts, serde_json for semantic
  patches and for the two documents that a proposal embeds.
\<close>

section \<open>Constants and documents\<close>

definition CAPSULE_TOKEN_PREFIX :: bytes where "CAPSULE_TOKEN_PREFIX = ascii ''rbe2_''"
definition PROPOSAL_MAGIC :: bytes where "PROPOSAL_MAGIC = ascii ''RBEP''"
definition ENVELOPE_MAGIC :: bytes where "ENVELOPE_MAGIC = ascii ''RBEE''"
definition WIRE_VERSION :: u16 where "WIRE_VERSION = 2"
definition CRYPTO_SUITE :: u16 where "CRYPTO_SUITE = 1"
definition APPROVAL_VERSION :: u16 where "APPROVAL_VERSION = 1"
definition APPROVAL_KIND :: bytes where "APPROVAL_KIND = ascii ''rebyte-chain-capsule-approval''"
definition PAYLOAD_AAD_DOMAIN :: bytes where "PAYLOAD_AAD_DOMAIN = ascii ''rebyte chain payload aad v2'' @ [0]"
definition HPKE_INFO_DOMAIN :: bytes where "HPKE_INFO_DOMAIN = ascii ''rebyte chain hpke cek slot v2'' @ [0]"
definition APPROVAL_DOMAIN :: bytes where "APPROVAL_DOMAIN = ascii ''rebyte chain capsule approval v2'' @ [0]"
definition MAX_GROUP_DOCUMENT_BYTES :: nat where "MAX_GROUP_DOCUMENT_BYTES = 1024 * 1024"
definition MAX_ACCESS_CONTRACT_BYTES :: nat where "MAX_ACCESS_CONTRACT_BYTES = 16 * 1024"
definition MAX_IDENTITY_DOCUMENT_BYTES :: nat where "MAX_IDENTITY_DOCUMENT_BYTES = 64 * 1024"
definition MAX_RECIPIENTS :: nat where "MAX_RECIPIENTS = 64"
definition HPKE_ENCAPPED_KEY_BYTES :: nat where "HPKE_ENCAPPED_KEY_BYTES = 32"
definition CEK_BYTES :: nat where "CEK_BYTES = 32"
definition HPKE_TAG_BYTES :: nat where "HPKE_TAG_BYTES = 16"
definition HPKE_WRAPPED_CEK_BYTES :: nat where "HPKE_WRAPPED_CEK_BYTES = CEK_BYTES + HPKE_TAG_BYTES"
definition HPKE_WRAPPED_SHARE_BYTES :: nat where "HPKE_WRAPPED_SHARE_BYTES = SHARE_BYTES + HPKE_TAG_BYTES"
definition PAYLOAD_NONCE_BYTES :: nat where "PAYLOAD_NONCE_BYTES = 24"
definition CHALLENGE_WRAPPED_CEK_BYTES :: nat where "CHALLENGE_WRAPPED_CEK_BYTES = CEK_BYTES + HPKE_TAG_BYTES"
definition CHALLENGE_AAD_DOMAIN :: bytes where
  "CHALLENGE_AAD_DOMAIN = ascii ''rebyte chain challenge wrap aad v1'' @ [0]"
definition CHALLENGE_AUDIT_INFO_DOMAIN :: bytes where
  "CHALLENGE_AUDIT_INFO_DOMAIN = ascii ''rebyte chain hpke challenge audit slot v1'' @ [0]"
definition SHARD_WRAPPED_SHARE_BYTES :: nat where "SHARD_WRAPPED_SHARE_BYTES = SHARE_BYTES + HPKE_TAG_BYTES"
definition SHARD_AAD_DOMAIN :: bytes where
  "SHARD_AAD_DOMAIN = ascii ''rebyte chain challenge shard wrap aad v1'' @ [0]"
definition SEQUENCE_INFO_DOMAIN :: bytes where
  "SEQUENCE_INFO_DOMAIN = ascii ''rebyte chain hpke key sequence slot v1'' @ [0]"
definition SEQUENCE_PRINCIPAL_CONTEXT :: bytes where
  "SEQUENCE_PRINCIPAL_CONTEXT = ascii ''Rebyte Chain key sequence principal v1 2026-07-19''"
definition SEQUENCE_LAYER_BYTES :: nat where "SEQUENCE_LAYER_BYTES = HPKE_ENCAPPED_KEY_BYTES + HPKE_TAG_BYTES"
definition SHARD_AUDIT_INFO_DOMAIN :: bytes where
  "SHARD_AUDIT_INFO_DOMAIN = ascii ''rebyte chain hpke sharded challenge audit slot v1'' @ [0]"
definition PAYLOAD_TAG_BYTES :: nat where "PAYLOAD_TAG_BYTES = 16"

lemmas envelope_constants =
  MAX_GROUP_DOCUMENT_BYTES_def MAX_ACCESS_CONTRACT_BYTES_def MAX_IDENTITY_DOCUMENT_BYTES_def MAX_RECIPIENTS_def
  HPKE_ENCAPPED_KEY_BYTES_def CEK_BYTES_def HPKE_TAG_BYTES_def HPKE_WRAPPED_CEK_BYTES_def HPKE_WRAPPED_SHARE_BYTES_def
  PAYLOAD_NONCE_BYTES_def CHALLENGE_WRAPPED_CEK_BYTES_def SHARD_WRAPPED_SHARE_BYTES_def SEQUENCE_LAYER_BYTES_def
  PAYLOAD_TAG_BYTES_def SHARE_BYTES_def SECRET_BYTES_def

record ('r, 'n, 'e, 'd) envelope_host =
  eh_chain :: chain_host
  eh_zstd :: "('e, 'd) zstd_engine"
  eh_serde :: "('r, 'n) serde_json"
  eh_identity_json :: "identity_public json_codec"
  eh_certificate_json :: "group_certificate json_codec"

record chain_limits =
  cl_artifact :: security_limits
  cl_max_envelope_bytes :: u64
  cl_max_token_bytes :: u64

definition chain_limits_STANDARD :: chain_limits where
  "chain_limits_STANDARD =
     \<lparr> cl_artifact = limits_SIMPLE_ARTIFACT, cl_max_envelope_bytes = 38 * 1024 * 1024,
       cl_max_token_bytes = 52 * 1024 * 1024 \<rparr>"

record quorum_proposal_options =
  qo_threshold :: u16
  qo_not_before_unix_ms :: "u64 option"
  qo_maximum_successful_releases :: "u32 option"

record key_slot =
  sl_holder :: identity_public
  sl_encapped_key :: bytes
  sl_wrapped_key :: bytes

record challenge_slot =
  ch_nonce :: bytes
  ch_wrapped_key :: bytes

record challenge_shard_slot =
  ss_nonce :: bytes
  ss_wrapped_share :: bytes

datatype challenge_wrap = WrapPlain | WrapSingle bytes | WrapSharded "bytes list"

record capsule_proposal =
  cp_group :: group_certificate
  cp_contract :: access_contract
  cp_proposal_nonce :: bytes
  cp_content_digest :: bytes
  cp_content_size :: u64
  cp_payload_nonce :: bytes
  cp_slots :: "key_slot list"
  cp_ciphertext :: bytes
  cp_challenge :: "challenge_slot option"
  cp_shard_slots :: "challenge_shard_slot list option"
  cp_sequence_recipes :: "identity_public list list option"
  cp_proposal_id :: bytes

record capsule_approval =
  ap_schema_version :: u16
  ap_kind :: bytes
  ap_group_id :: bytes
  ap_proposal_id :: bytes
  ap_member_id :: bytes
  ap_signature :: bytes

record capsule_envelope =
  ce_proposal :: capsule_proposal
  ce_approvals :: "capsule_approval list"
  ce_envelope_id :: bytes

record opened_capsule =
  oc_artifact_binary :: bytes
  oc_contract_id :: contract_id
  oc_group_id :: group_id
  oc_proposal_id :: bytes
  oc_recipient_id :: identity_id

record 'n opened_semantic_patch =
  op_patch :: "'n semantic_patch"
  op_contract_id :: contract_id
  op_group_id :: group_id
  op_proposal_id :: bytes
  op_recipient_id :: identity_id

datatype 'n opened_content = OpenedExactArtifact opened_capsule | OpenedSemanticPatch "'n opened_semantic_patch"

record decrypted_content =
  dc_bytes :: bytes
  dc_content_kind :: protected_kind
  dc_contract_id :: contract_id
  dc_group_id :: group_id
  dc_proposal_id :: bytes
  dc_recipient_id :: identity_id

section \<open>Messages and digests\<close>

definition principal_of :: "identity_id \<Rightarrow> principal_id" where
  "principal_of i = PrincipalId (identity_bytes i)"

definition map_contract_error :: "contract_error \<Rightarrow> chain_error" where
  "map_contract_error e =
     (case e of
        ContractEntropyUnavailable \<Rightarrow> ChainEntropyUnavailable
      | ContractLimitExceeded \<Rightarrow> ChainLimitExceeded
      | ContractLengthOverflow \<Rightarrow> ChainLimitExceeded
      | _ \<Rightarrow> ChainInvalidContract)"

definition enforce_length :: "nat \<Rightarrow> u64 \<Rightarrow> chain_error + unit" where
  "enforce_length len maximum =
     and_then (try_from_usize ChainLengthOverflow len) (\<lambda>len.
       if maximum < len then Inl ChainLimitExceeded else Inr ())"

definition chain_contract_bytes :: "chain_host \<Rightarrow> access_contract \<Rightarrow> chain_error + bytes" where
  "chain_contract_bytes C c = map_err (\<lambda>_. ChainInvalidContract) (contract_to_bytes (host_blake3 C) c)"

definition proposal_core ::
    "('r, 'n, 'e, 'd) envelope_host \<Rightarrow> group_certificate \<Rightarrow> access_contract \<Rightarrow> bytes \<Rightarrow> bytes \<Rightarrow> chain_error + bytes" where
  "proposal_core E grp contract proposal_nonce payload_nonce =
     (let C = eh_chain E in
      and_then (group_id_unchecked C (gc_proposal grp)) (\<lambda>g.
      and_then (certificate_to_json (eh_certificate_json E) grp) (\<lambda>group_json.
      let group_digest = domain_hash C (ascii ''Rebyte Chain group certificate digest v2 2026-07-18'') [group_json] in
      and_then (chain_contract_bytes C contract) (\<lambda>contract_bytes.
      let core = ascii ''rebyte chain capsule proposal core v2'' @ [0];
          core = chain_put_u16 (chain_put_u16 core WIRE_VERSION) CRYPTO_SUITE;
          core = core @ group_bytes g @ group_digest in
      and_then (chain_put_bytes_u32 core contract_bytes) (\<lambda>core.
        Inr (core @ proposal_nonce @ payload_nonce))))))"

definition core_digest_of :: "('r, 'n, 'e, 'd) envelope_host \<Rightarrow> bytes \<Rightarrow> bytes" where
  "core_digest_of E core =
     domain_hash (eh_chain E) (ascii ''Rebyte Chain proposal core digest v2 2026-07-18'') [core]"

definition core_bytes :: "('r, 'n, 'e, 'd) envelope_host \<Rightarrow> capsule_proposal \<Rightarrow> chain_error + bytes" where
  "core_bytes E p = proposal_core E (cp_group p) (cp_contract p) (cp_proposal_nonce p) (cp_payload_nonce p)"

definition slot_id_bytes :: "chain_host \<Rightarrow> bytes \<Rightarrow> key_slot \<Rightarrow> chain_error + bytes" where
  "slot_id_bytes C out slot =
     and_then (identity_id_unchecked C (sl_holder slot)) (\<lambda>i.
       Inr (out @ identity_bytes i @ sl_encapped_key slot @ sl_wrapped_key slot))"

definition recipe_id_bytes :: "chain_host \<Rightarrow> bytes \<Rightarrow> identity_public \<Rightarrow> chain_error + bytes" where
  "recipe_id_bytes C out identity = and_then (identity_id_unchecked C identity) (\<lambda>i. Inr (out @ identity_bytes i))"

definition calculate_proposal_id :: "('r, 'n, 'e, 'd) envelope_host \<Rightarrow> capsule_proposal \<Rightarrow> chain_error + bytes" where
  "calculate_proposal_id E p =
     (let C = eh_chain E in
      and_then (core_bytes E p) (\<lambda>core.
      and_then (try_fold (slot_id_bytes C) [] (cp_slots p)) (\<lambda>slots.
      let slots = (case cp_challenge p of None \<Rightarrow> slots | Some c \<Rightarrow> slots @ ch_nonce c @ ch_wrapped_key c);
          slots = (case cp_shard_slots p of None \<Rightarrow> slots
                   | Some ss \<Rightarrow> foldl (\<lambda>out s. out @ ss_nonce s @ ss_wrapped_share s) slots ss) in
      and_then (case cp_sequence_recipes p of None \<Rightarrow> Inr slots
                | Some recipes \<Rightarrow> try_fold (try_fold (recipe_id_bytes C)) slots recipes) (\<lambda>slots.
      let ciphertext_digest = domain_hash C (ascii ''Rebyte Chain ciphertext digest v2 2026-07-18'') [cp_ciphertext p] in
        Inr (domain_hash C (ascii ''Rebyte Chain capsule proposal id v2 2026-07-18'') [core, slots, ciphertext_digest])))))"

definition protected_content_digest :: "chain_host \<Rightarrow> bytes \<Rightarrow> bytes" where
  "protected_content_digest C content =
     domain_hash C (ascii ''Rebyte Chain protected content digest v2 2026-07-18'') [content]"

definition payload_aad :: "bytes \<Rightarrow> bytes" where
  "payload_aad core = PAYLOAD_AAD_DOMAIN @ core"

definition challenge_aad :: "bytes \<Rightarrow> bytes" where
  "challenge_aad core = CHALLENGE_AAD_DOMAIN @ core"

definition shard_aad :: "bytes \<Rightarrow> u16 \<Rightarrow> bytes" where
  "shard_aad core shard_index = chain_put_u16 SHARD_AAD_DOMAIN shard_index @ core"

definition key_slot_info :: "group_id \<Rightarrow> bytes \<Rightarrow> identity_id \<Rightarrow> release_policy \<Rightarrow> bytes" where
  "key_slot_info g proposal_nonce holder release =
     (let domain =
        (case release of
           DirectRecipients \<Rightarrow> HPKE_INFO_DOMAIN
         | Quorum _ \<Rightarrow> ascii ''rebyte chain hpke witness share slot v2'' @ [0]
         | Challenge _ \<Rightarrow> CHALLENGE_AUDIT_INFO_DOMAIN
         | ShardedChallenge _ \<Rightarrow> SHARD_AUDIT_INFO_DOMAIN
         | KeySequence _ \<Rightarrow> ascii ''rebyte chain hpke unsupported slot v2'' @ [0])
      in domain @ group_bytes g @ proposal_nonce @ identity_bytes holder)"

definition sequence_slot_info :: "group_id \<Rightarrow> bytes \<Rightarrow> identity_id \<Rightarrow> nat \<Rightarrow> chain_error + bytes" where
  "sequence_slot_info g proposal_nonce holder layer =
     and_then (try_from_usize ChainLengthOverflow layer) (\<lambda>layer.
       Inr (chain_put_u16 (SEQUENCE_INFO_DOMAIN @ group_bytes g @ proposal_nonce @ identity_bytes holder) layer))"

definition approval_message :: "group_id \<Rightarrow> bytes \<Rightarrow> identity_id \<Rightarrow> bytes" where
  "approval_message g proposal_id member = APPROVAL_DOMAIN @ group_bytes g @ proposal_id @ identity_bytes member"

definition wrapped_key_bytes :: "release_policy \<Rightarrow> nat" where
  "wrapped_key_bytes release =
     (case release of
        DirectRecipients \<Rightarrow> HPKE_WRAPPED_CEK_BYTES
      | Challenge _ \<Rightarrow> HPKE_WRAPPED_CEK_BYTES
      | ShardedChallenge _ \<Rightarrow> HPKE_WRAPPED_CEK_BYTES
      | Quorum _ \<Rightarrow> HPKE_WRAPPED_SHARE_BYTES
      | KeySequence policy \<Rightarrow> SEQUENCE_LAYER_BYTES * unat (ks_depth policy))"

definition sequence_principal_for ::
    "chain_host \<Rightarrow> identity_public list \<Rightarrow> identity_id \<Rightarrow> chain_error + principal_id" where
  "sequence_principal_for C inner_recipe outer_id =
     and_then (try_map (identity_id_unchecked C) inner_recipe) (\<lambda>inner.
     let ids = map identity_bytes (inner @ [outer_id]) in
     if any_window2 (=) (sort ids) then Inl ChainDuplicateIdentity
     else Inr (PrincipalId (domain_hash C SEQUENCE_PRINCIPAL_CONTEXT [concat ids])))"

section \<open>Validation\<close>

definition member_principals :: "chain_host \<Rightarrow> group_certificate \<Rightarrow> chain_error + principal_id list" where
  "member_principals C grp =
     try_map (\<lambda>member. and_then (identity_id_unchecked C member) (\<lambda>i. Inr (principal_of i))) (gp_members (gc_proposal grp))"

definition validate_sequence_bindings ::
    "chain_host \<Rightarrow> access_contract \<Rightarrow> identity_id list \<Rightarrow> identity_public list list option \<Rightarrow> chain_error + unit" where
  "validate_sequence_bindings C contract holder_ids sequence_recipes =
     and_then (ok_or ChainBindingMismatch sequence_recipes) (\<lambda>recipes.
       if length recipes \<noteq> length holder_ids then Inl ChainBindingMismatch
       else
       and_then (try_map (\<lambda>(recipe, holder_id). sequence_principal_for C recipe holder_id) (zip recipes holder_ids)) (\<lambda>composites.
       let composites = sort composites in
       if any_window2 (=) composites \<or> ac_recipients contract \<noteq> composites then Inl ChainInvalidContract else Inr ()))"

definition validate_contract_bindings ::
    "chain_host \<Rightarrow> group_certificate \<Rightarrow> access_contract \<Rightarrow> bytes \<Rightarrow> u64 \<Rightarrow> identity_id list \<Rightarrow>
     identity_public list list option \<Rightarrow> chain_error + unit" where
  "validate_contract_bindings C grp contract digest_bytes32 content_size holder_ids sequence_recipes =
     and_then (chain_contract_bytes C contract) (\<lambda>contract_bytes.
       if MAX_ACCESS_CONTRACT_BYTES < length contract_bytes then Inl ChainLimitExceeded
       else
     and_then (group_id_unchecked C (gc_proposal grp)) (\<lambda>g.
       if ac_group_id contract \<noteq> PrincipalId (group_bytes g) \<or>
          ac_seal_threshold contract \<noteq> gp_capsule_threshold (gc_proposal grp) \<or>
          cc_digest (ac_content contract) \<noteq> digest_bytes32 \<or> cc_size (ac_content contract) \<noteq> content_size
       then Inl ChainInvalidContract
       else
     and_then (member_principals C grp) (\<lambda>controllers.
     let holders = map principal_of holder_ids in
       if ac_controllers contract \<noteq> controllers \<or> \<not> capabilities_contains (ac_capabilities contract) Decrypt
       then Inl ChainInvalidContract
       else
       (case ac_release contract of
          Quorum policy \<Rightarrow> if qr_witnesses policy = holders then Inr () else Inl ChainInvalidContract
        | KeySequence _ \<Rightarrow> validate_sequence_bindings C contract holder_ids sequence_recipes
        | _ \<Rightarrow> if ac_recipients contract = holders then Inr () else Inl ChainInvalidContract))))"

definition slot_step ::
    "chain_host \<Rightarrow> release_policy \<Rightarrow> identity_id option \<times> identity_id list \<Rightarrow> key_slot \<Rightarrow>
     chain_error + identity_id option \<times> identity_id list" where
  "slot_step C release s slot =
     (case s of (previous, holder_ids) \<Rightarrow>
      and_then (identity_validate C (sl_holder slot)) (\<lambda>_.
        if length (sl_wrapped_key slot) \<noteq> wrapped_key_bytes release then Inl ChainIntegrityMismatch
        else
      and_then (identity_id_unchecked C (sl_holder slot)) (\<lambda>i.
      and_then (check_order previous i) (\<lambda>_. Inr (Some i, holder_ids @ [i])))))"

definition check_shard_slots :: "capsule_proposal \<Rightarrow> chain_error + unit" where
  "check_shard_slots p =
     (case (ac_release (cp_contract p), cp_shard_slots p) of
        (ShardedChallenge policy, Some ss) \<Rightarrow>
          if length ss = length (sc_shards policy) then Inr () else Inl ChainBindingMismatch
      | (ShardedChallenge _, None) \<Rightarrow> Inl ChainBindingMismatch
      | (_, Some _) \<Rightarrow> Inl ChainBindingMismatch
      | (_, None) \<Rightarrow> Inr ())"

definition check_recipe :: "chain_host \<Rightarrow> nat \<Rightarrow> identity_public list \<Rightarrow> chain_error + unit" where
  "check_recipe C inner_layers recipe =
     (if length recipe \<noteq> inner_layers then Inl ChainBindingMismatch else try_for_each (identity_validate C) recipe)"

definition check_recipes :: "chain_host \<Rightarrow> capsule_proposal \<Rightarrow> chain_error + unit" where
  "check_recipes C p =
     (case (ac_release (cp_contract p), cp_sequence_recipes p) of
        (KeySequence policy, Some recipes) \<Rightarrow>
          if length recipes = length (cp_slots p)
          then try_for_each (check_recipe C (unat (ks_depth policy) - 1)) recipes
          else Inl ChainBindingMismatch
      | (KeySequence _, None) \<Rightarrow> Inl ChainBindingMismatch
      | (_, Some _) \<Rightarrow> Inl ChainBindingMismatch
      | (_, None) \<Rightarrow> Inr ())"

definition is_challenge :: "release_policy \<Rightarrow> bool" where
  "is_challenge r = (case r of Challenge _ \<Rightarrow> True | _ \<Rightarrow> False)"

definition capsule_validate ::
    "('r, 'n, 'e, 'd) envelope_host \<Rightarrow> chain_limits \<Rightarrow> capsule_proposal \<Rightarrow> chain_error + unit" where
  "capsule_validate E limits p =
     (let C = eh_chain E in
      and_then (certificate_validate C (cp_group p)) (\<lambda>_.
        if cp_slots p = [] \<or> MAX_RECIPIENTS < length (cp_slots p) then Inl ChainLimitExceeded
        else if max_capsule_bytes (cl_artifact limits) < cp_content_size p then Inl ChainLimitExceeded
        else if cc_kind (ac_content (cp_contract p)) = SemanticPatch \<and> MAX_PATCH_BYTES < cp_content_size p
        then Inl ChainLimitExceeded
        else
      and_then (usize_try_from ChainLengthOverflow (cp_content_size p)) (\<lambda>content_size.
      and_then (ok_or ChainLengthOverflow (usize_checked_add content_size PAYLOAD_TAG_BYTES)) (\<lambda>expected.
        if length (cp_ciphertext p) \<noteq> expected then Inl ChainIntegrityMismatch
        else if is_challenge (ac_release (cp_contract p)) \<noteq> (cp_challenge p \<noteq> None) then Inl ChainBindingMismatch
        else
      and_then (check_shard_slots p) (\<lambda>_.
      and_then (check_recipes C p) (\<lambda>_.
      and_then (try_fold (slot_step C (ac_release (cp_contract p))) (None, []) (cp_slots p)) (\<lambda>(_, holder_ids).
      and_then (validate_contract_bindings C (cp_group p) (cp_contract p) (cp_content_digest p) (cp_content_size p)
          holder_ids (cp_sequence_recipes p)) (\<lambda>_.
      and_then (calculate_proposal_id E p) (\<lambda>i.
        if i \<noteq> cp_proposal_id p then Inl ChainBindingMismatch else Inr ())))))))))"

section \<open>Approvals and envelopes\<close>

definition approval_validate_shape :: "chain_host \<Rightarrow> capsule_approval \<Rightarrow> chain_error + unit" where
  "approval_validate_shape C self =
     (if ap_schema_version self \<noteq> APPROVAL_VERSION \<or> ap_kind self \<noteq> APPROVAL_KIND then Inl ChainUnsupportedDocument
      else
      and_then (decode_array C 32 (ap_group_id self)) (\<lambda>_.
      and_then (decode_array C 32 (ap_proposal_id self)) (\<lambda>_.
      and_then (decode_array C 32 (ap_member_id self)) (\<lambda>_.
      and_then (decode_array C 64 (ap_signature self)) (\<lambda>_. Inr ())))))"

definition approval_member_id :: "chain_host \<Rightarrow> capsule_approval \<Rightarrow> chain_error + identity_id" where
  "approval_member_id C self =
     and_then (approval_validate_shape C self) (\<lambda>_.
     and_then (decode_array C 32 (ap_member_id self)) (\<lambda>bs. Inr (IdentityId bs)))"

definition approval_to_json :: "capsule_approval json_codec \<Rightarrow> capsule_approval \<Rightarrow> chain_error + bytes" where
  "approval_to_json J self = document_to_json J self"

definition approval_from_json ::
    "chain_host \<Rightarrow> capsule_approval json_codec \<Rightarrow> bytes \<Rightarrow> chain_error + capsule_approval" where
  "approval_from_json C J bs = document_from_json J (approval_validate_shape C) bs"

definition verify_capsule_approval ::
    "chain_host \<Rightarrow> group_id \<Rightarrow> capsule_proposal \<Rightarrow> capsule_approval \<Rightarrow> chain_error + unit" where
  "verify_capsule_approval C g p approval =
     and_then (approval_validate_shape C approval) (\<lambda>_.
     and_then (approval_member_id C approval) (\<lambda>member_id.
     and_then (decode_array C 32 (ap_group_id approval)) (\<lambda>declared_group.
       if declared_group \<noteq> group_bytes g then Inl ChainBindingMismatch
       else
     and_then (decode_array C 32 (ap_proposal_id approval)) (\<lambda>declared_proposal.
       if declared_proposal \<noteq> cp_proposal_id p then Inl ChainBindingMismatch
       else
     and_then (ok_or ChainNotGroupMember (proposal_member C (gc_proposal (cp_group p)) member_id)) (\<lambda>member.
     and_then (signing_public_key C member) (\<lambda>key.
       if \<not> vk_from_bytes (host_ed25519 C) key then Inl ChainInvalidPublicKey
       else
     and_then (decode_array C 64 (ap_signature approval)) (\<lambda>sig.
       if \<not> vk_verify_strict (host_ed25519 C) key (approval_message g (cp_proposal_id p) member_id) sig
       then Inl ChainInvalidSignature else Inr ())))))))"

definition approval_id_bytes :: "chain_host \<Rightarrow> bytes \<Rightarrow> capsule_approval \<Rightarrow> chain_error + bytes" where
  "approval_id_bytes C out approval =
     and_then (approval_member_id C approval) (\<lambda>i.
     and_then (decode_array C 64 (ap_signature approval)) (\<lambda>sig. Inr (out @ identity_bytes i @ sig)))"

definition calculate_envelope_id ::
    "chain_host \<Rightarrow> capsule_proposal \<Rightarrow> capsule_approval list \<Rightarrow> chain_error + bytes" where
  "calculate_envelope_id C p approvals =
     and_then (try_fold (approval_id_bytes C) [] approvals) (\<lambda>approval_bytes.
       Inr (domain_hash C (ascii ''Rebyte Chain capsule envelope id v2 2026-07-18'') [cp_proposal_id p, approval_bytes]))"

definition approval_step ::
    "chain_host \<Rightarrow> group_id \<Rightarrow> capsule_proposal \<Rightarrow> identity_id option \<Rightarrow> capsule_approval \<Rightarrow> chain_error + identity_id option" where
  "approval_step C g p previous approval =
     and_then (approval_member_id C approval) (\<lambda>i.
     and_then (check_order previous i) (\<lambda>_.
     and_then (verify_capsule_approval C g p approval) (\<lambda>_. Inr (Some i))))"

definition envelope_validate ::
    "('r, 'n, 'e, 'd) envelope_host \<Rightarrow> chain_limits \<Rightarrow> capsule_envelope \<Rightarrow> chain_error + unit" where
  "envelope_validate E limits self =
     (let C = eh_chain E; p = ce_proposal self in
      and_then (capsule_validate E limits p) (\<lambda>_.
        if length (ce_approvals self) < unat (gp_capsule_threshold (gc_proposal (cp_group p))) \<or>
           length (gp_members (gc_proposal (cp_group p))) < length (ce_approvals self)
        then Inl ChainInsufficientApprovals
        else
      and_then (group_id_unchecked C (gc_proposal (cp_group p))) (\<lambda>g.
      and_then (try_fold (approval_step C g p) None (ce_approvals self)) (\<lambda>_.
      and_then (calculate_envelope_id C p (ce_approvals self)) (\<lambda>i.
        if i \<noteq> ce_envelope_id self then Inl ChainBindingMismatch else Inr ())))))"

definition approve_capsule ::
    "('r, 'n, 'e, 'd) envelope_host \<Rightarrow> chain_limits \<Rightarrow> capsule_proposal \<Rightarrow> unlocked_identity \<Rightarrow>
     chain_error + capsule_approval" where
  "approve_capsule E limits p identity =
     (let C = eh_chain E in
      and_then (capsule_validate E limits p) (\<lambda>_.
      and_then (group_id_unchecked C (gc_proposal (cp_group p))) (\<lambda>g.
        if proposal_member C (gc_proposal (cp_group p)) (ui_identity_id identity) = None then Inl ChainNotGroupMember
        else
        let message = approval_message g (cp_proposal_id p) (ui_identity_id identity) in
        Inr \<lparr> ap_schema_version = APPROVAL_VERSION, ap_kind = APPROVAL_KIND, ap_group_id = group_to_base64 C g,
              ap_proposal_id = encode_base64 C (cp_proposal_id p),
              ap_member_id = identity_to_base64 C (ui_identity_id identity),
              ap_signature = encode_base64 C (identity_sign C identity message) \<rparr>)))"

definition finalize_capsule ::
    "('r, 'n, 'e, 'd) envelope_host \<Rightarrow> chain_limits \<Rightarrow> capsule_proposal \<Rightarrow> capsule_approval list \<Rightarrow>
     chain_error + capsule_envelope" where
  "finalize_capsule E limits p approvals =
     (let C = eh_chain E in
      and_then (capsule_validate E limits p) (\<lambda>_.
      and_then (try_for_each (approval_validate_shape C) approvals) (\<lambda>_.
      let approvals = sort_key (\<lambda>approval. id_key (approval_member_id C approval)) approvals in
      if any_window2 (\<lambda>left right.
           result_ok (approval_member_id C left) = result_ok (approval_member_id C right)) approvals
      then Inl ChainDuplicateIdentity
      else
      and_then (calculate_envelope_id C p approvals) (\<lambda>envelope_id.
      let envelope = \<lparr> ce_proposal = p, ce_approvals = approvals, ce_envelope_id = envelope_id \<rparr> in
      and_then (envelope_validate E limits envelope) (\<lambda>_. Inr envelope)))))"

definition count_approval ::
    "chain_host \<Rightarrow> capsule_proposal \<Rightarrow> group_id \<Rightarrow> ceremony_member list \<times> rejected_document list \<Rightarrow>
     nat \<times> capsule_approval \<Rightarrow> ceremony_member list \<times> rejected_document list" where
  "count_approval C p g s x =
     (case x of (index, approval) \<Rightarrow>
      count_document index
        (and_then (approval_member_id C approval) (\<lambda>member_id.
         and_then (signable_position (fst s) member_id) (\<lambda>pos.
         and_then (verify_capsule_approval C g p approval) (\<lambda>_. Inr pos)))) s)"

definition capsule_ceremony_status ::
    "('r, 'n, 'e, 'd) envelope_host \<Rightarrow> chain_limits \<Rightarrow> capsule_proposal \<Rightarrow> capsule_approval list \<Rightarrow>
     chain_error + ceremony_status" where
  "capsule_ceremony_status E limits p approvals =
     (let C = eh_chain E in
      and_then (capsule_validate E limits p) (\<lambda>_.
      and_then (certificate_group_id C (cp_group p)) (\<lambda>g.
      and_then (pending_members C (gp_members (gc_proposal (cp_group p)))) (\<lambda>members.
      case foldl (count_approval C p g) (members, []) (enumerate 0 approvals) of (members, rejected) \<Rightarrow>
        Inr \<lparr> cs_required_signatures = unat (gp_capsule_threshold (gc_proposal (cp_group p))), cs_members = members,
              cs_rejected = rejected \<rparr>))))"

end
