(* ===== verification/Chain_Capsule.thy ===== *)
theory Chain_Capsule
  imports Chain_Envelope
begin

text \<open>
  Encrypting, opening and serializing capsules, the second half of \<open>envelope.rs\<close>. The draws of entropy within a call are
  numbered in the order of the code; the number of an HPKE call stands for its ephemeral key.
\<close>

section \<open>Content and holders\<close>

definition validate_plaintext_content ::
    "('r, 'n, 'e, 'd) envelope_host \<Rightarrow> bytes \<Rightarrow> protected_kind \<Rightarrow> chain_limits \<Rightarrow> chain_error + unit" where
  "validate_plaintext_content E content kind limits =
     (case kind of
        ExactArtifact \<Rightarrow>
          and_then (enforce_length (length content) (max_capsule_bytes (cl_artifact limits))) (\<lambda>_.
          and_then (map_err (\<lambda>_. ChainInvalidArtifact)
              (decode_artifact (host_blake3 (eh_chain E)) (eh_zstd E) content (cl_artifact limits))) (\<lambda>_. Inr ()))
      | SemanticPatch \<Rightarrow>
          and_then (enforce_length (length content) MAX_PATCH_BYTES) (\<lambda>_.
          and_then (map_err (\<lambda>_. ChainInvalidContent) (parse_patch (eh_serde E) content)) (\<lambda>patch.
          and_then (map_err (\<lambda>_. ChainInvalidContent) (to_json_bytes (eh_serde E) patch)) (\<lambda>out.
            if out \<noteq> content then Inl ChainInvalidContent else Inr ()))))"

definition canonical_identities :: "chain_host \<Rightarrow> identity_public list \<Rightarrow> chain_error + identity_public list" where
  "canonical_identities C recipients =
     (if recipients = [] \<or> MAX_RECIPIENTS < length recipients then Inl ChainLimitExceeded
      else
      and_then (try_for_each (identity_validate C) recipients) (\<lambda>_.
      let recipients = sort_key (\<lambda>r. id_key (identity_id_unchecked C r)) recipients in
      if any_window2 (\<lambda>left right.
           result_ok (identity_id_unchecked C left) = result_ok (identity_id_unchecked C right)) recipients
      then Inl ChainDuplicateIdentity else Inr recipients))"

definition key_material_for_holders ::
    "(nat \<Rightarrow> bytes option) \<Rightarrow> bytes \<Rightarrow> release_policy \<Rightarrow> nat \<Rightarrow> chain_error + bytes list" where
  "key_material_for_holders getrandom cek release holder_count =
     (case release of
        DirectRecipients \<Rightarrow> Inr (replicate holder_count cek)
      | Challenge _ \<Rightarrow> Inr (replicate holder_count cek)
      | ShardedChallenge _ \<Rightarrow> Inr (replicate holder_count cek)
      | Quorum policy \<Rightarrow>
          and_then (try_from_usize ChainLengthOverflow holder_count) (\<lambda>share_count.
          and_then (try_from_usize ChainInvalidThreshold (unat (qr_threshold policy))) (\<lambda>threshold.
            split_secret getrandom cek share_count threshold))
      | KeySequence _ \<Rightarrow> Inl ChainUnsupportedReleasePolicy)"

section \<open>Creation\<close>

definition seal_payload :: "chain_host \<Rightarrow> bytes \<Rightarrow> bytes \<Rightarrow> bytes \<Rightarrow> bytes \<Rightarrow> chain_error + bytes" where
  "seal_payload C key nonce aad msg =
     and_then (cipher_new key) (\<lambda>key. ok_or ChainCryptographicFailure (aead_encrypt C key nonce aad msg))"

definition shard_slot_for ::
    "chain_host \<Rightarrow> entropy \<Rightarrow> bytes \<Rightarrow> nat \<times> bytes \<times> bytes \<Rightarrow> chain_error + challenge_shard_slot" where
  "shard_slot_for C rng core x =
     (case x of (index, share, shard_key) \<Rightarrow>
      and_then (getrandom_fill rng (4 + index) PAYLOAD_NONCE_BYTES) (\<lambda>nonce.
      and_then (cipher_new shard_key) (\<lambda>key.
      and_then (try_from_usize ChainLengthOverflow index) (\<lambda>index.
      and_then (ok_or ChainCryptographicFailure (aead_encrypt C key nonce (shard_aad core index) share)) (\<lambda>wrapped.
      and_then (array_of_slice ChainCryptographicFailure SHARD_WRAPPED_SHARE_BYTES wrapped) (\<lambda>wrapped_share.
        Inr \<lparr> ss_nonce = nonce, ss_wrapped_share = wrapped_share \<rparr>))))))"

definition challenge_slots ::
    "chain_host \<Rightarrow> entropy \<Rightarrow> bytes \<Rightarrow> bytes \<Rightarrow> release_policy \<Rightarrow> challenge_wrap \<Rightarrow>
     chain_error + challenge_slot option \<times> challenge_shard_slot list option" where
  "challenge_slots C rng core cek release wrap =
     (case (release, wrap) of
        (Challenge _, WrapSingle solution_key) \<Rightarrow>
          and_then (getrandom_fill rng 3 PAYLOAD_NONCE_BYTES) (\<lambda>nonce.
          and_then (seal_payload C solution_key nonce (challenge_aad core) cek) (\<lambda>wrapped.
          and_then (array_of_slice ChainCryptographicFailure CHALLENGE_WRAPPED_CEK_BYTES wrapped) (\<lambda>wrapped_key.
            Inr (Some \<lparr> ch_nonce = nonce, ch_wrapped_key = wrapped_key \<rparr>, None))))
      | (ShardedChallenge policy, WrapSharded shard_keys) \<Rightarrow>
          if length shard_keys \<noteq> length (sc_shards policy) then Inl ChainUnsupportedReleasePolicy
          else
          and_then (try_from_usize ChainLengthOverflow (length shard_keys)) (\<lambda>share_count.
          and_then (try_from_usize ChainInvalidThreshold (unat (sc_threshold policy))) (\<lambda>threshold.
          and_then (split_secret (rng 3) cek share_count threshold) (\<lambda>shares.
          and_then (try_map (shard_slot_for C rng core) (enumerate 0 (zip shares shard_keys))) (\<lambda>slots.
            Inr (None, Some slots)))))
      | (DirectRecipients, WrapPlain) \<Rightarrow> Inr (None, None)
      | (Quorum _, WrapPlain) \<Rightarrow> Inr (None, None)
      | _ \<Rightarrow> Inl ChainUnsupportedReleasePolicy)"

definition seal_slot ::
    "('r, 'n, 'e, 'd) envelope_host \<Rightarrow> group_id \<Rightarrow> bytes \<Rightarrow> bytes \<Rightarrow> release_policy \<Rightarrow>
     nat \<times> (identity_public \<times> identity_id) \<times> bytes \<Rightarrow> chain_error + key_slot" where
  "seal_slot E g proposal_nonce core release x =
     (case x of (call, (holder, holder_id), material) \<Rightarrow>
      let C = eh_chain E in
      and_then (encryption_public_key C holder) (\<lambda>public_key.
        if \<not> hpke_public_key C public_key then Inl ChainInvalidPublicKey
        else
      and_then (ok_or ChainCryptographicFailure
          (hpke_seal C call public_key (key_slot_info g proposal_nonce holder_id release) material (core_digest_of E core)))
        (\<lambda>(encapped_key, wrapped_key).
      and_then (array_of_slice ChainCryptographicFailure HPKE_ENCAPPED_KEY_BYTES encapped_key) (\<lambda>encapped_key.
        if length wrapped_key \<noteq> wrapped_key_bytes release then Inl ChainCryptographicFailure
        else Inr \<lparr> sl_holder = holder, sl_encapped_key = encapped_key, sl_wrapped_key = wrapped_key \<rparr>))))"

definition identify_proposal ::
    "('r, 'n, 'e, 'd) envelope_host \<Rightarrow> chain_limits \<Rightarrow> capsule_proposal \<Rightarrow> chain_error + capsule_proposal" where
  "identify_proposal E limits p =
     and_then (calculate_proposal_id E p) (\<lambda>proposal_id.
     let p = p\<lparr> cp_proposal_id := proposal_id \<rparr> in
     and_then (capsule_validate E limits p) (\<lambda>_. Inr p))"

definition create_proposal_with_holders ::
    "('r, 'n, 'e, 'd) envelope_host \<Rightarrow> entropy \<Rightarrow> group_certificate \<Rightarrow> bytes \<Rightarrow> identity_public list \<Rightarrow>
     access_contract \<Rightarrow> challenge_wrap \<Rightarrow> chain_limits \<Rightarrow> chain_error + capsule_proposal" where
  "create_proposal_with_holders E rng grp content holders contract wrap limits =
     (let C = eh_chain E in
      and_then (certificate_validate C grp) (\<lambda>_.
      and_then (validate_plaintext_content E content (cc_kind (ac_content contract)) limits) (\<lambda>_.
      and_then (canonical_identities C holders) (\<lambda>holders.
      let digest_bytes32 = protected_content_digest C content in
      and_then (try_from_usize ChainLengthOverflow (length content)) (\<lambda>content_size.
      and_then (try_map (identity_id_unchecked C) holders) (\<lambda>holder_ids.
      and_then (validate_contract_bindings C grp contract digest_bytes32 content_size holder_ids None) (\<lambda>_.
      and_then (group_id_unchecked C (gc_proposal grp)) (\<lambda>g.
        if holders = [] \<or> MAX_RECIPIENTS < length holders then Inl ChainLimitExceeded
        else
      and_then (getrandom_fill rng 0 CEK_BYTES) (\<lambda>cek.
      and_then (getrandom_fill rng 1 32) (\<lambda>proposal_nonce.
      and_then (getrandom_fill rng 2 PAYLOAD_NONCE_BYTES) (\<lambda>payload_nonce.
      and_then (proposal_core E grp contract proposal_nonce payload_nonce) (\<lambda>core.
      and_then (seal_payload C cek payload_nonce (payload_aad core) content) (\<lambda>ciphertext.
      and_then (challenge_slots C rng core cek (ac_release contract) wrap) (\<lambda>(challenge, shard_slots).
      and_then (key_material_for_holders (rng 3) cek (ac_release contract) (length holders)) (\<lambda>key_material.
      and_then (try_map (seal_slot E g proposal_nonce core (ac_release contract))
          (enumerate 0 (zip (zip holders holder_ids) key_material))) (\<lambda>slots.
        identify_proposal E limits
          \<lparr> cp_group = grp, cp_contract = contract, cp_proposal_nonce = proposal_nonce,
            cp_content_digest = digest_bytes32, cp_content_size = content_size, cp_payload_nonce = payload_nonce,
            cp_slots = slots, cp_ciphertext = ciphertext, cp_challenge = challenge, cp_shard_slots = shard_slots,
            cp_sequence_recipes = None, cp_proposal_id = replicate 32 0 \<rparr>))))))))))))))))"

definition create_content_proposal_with_contract ::
    "('r, 'n, 'e, 'd) envelope_host \<Rightarrow> entropy \<Rightarrow> group_certificate \<Rightarrow> bytes \<Rightarrow> identity_public list \<Rightarrow>
     access_contract \<Rightarrow> chain_limits \<Rightarrow> chain_error + capsule_proposal" where
  "create_content_proposal_with_contract E rng grp content recipients contract limits =
     (if ac_release contract \<noteq> DirectRecipients then Inl ChainUnsupportedReleasePolicy
      else create_proposal_with_holders E rng grp content recipients contract WrapPlain limits)"

definition create_capsule_proposal_with_contract ::
    "('r, 'n, 'e, 'd) envelope_host \<Rightarrow> entropy \<Rightarrow> group_certificate \<Rightarrow> bytes \<Rightarrow> identity_public list \<Rightarrow>
     access_contract \<Rightarrow> chain_limits \<Rightarrow> chain_error + capsule_proposal" where
  "create_capsule_proposal_with_contract E rng grp artifact_binary recipients contract limits =
     (if cc_kind (ac_content contract) \<noteq> ExactArtifact then Inl ChainInvalidContract
      else create_content_proposal_with_contract E rng grp artifact_binary recipients contract limits)"

definition create_quorum_content_proposal_with_contract ::
    "('r, 'n, 'e, 'd) envelope_host \<Rightarrow> entropy \<Rightarrow> group_certificate \<Rightarrow> bytes \<Rightarrow> identity_public list \<Rightarrow>
     access_contract \<Rightarrow> chain_limits \<Rightarrow> chain_error + capsule_proposal" where
  "create_quorum_content_proposal_with_contract E rng grp content witnesses contract limits =
     (case ac_release contract of
        Quorum _ \<Rightarrow> create_proposal_with_holders E rng grp content witnesses contract WrapPlain limits
      | _ \<Rightarrow> Inl ChainUnsupportedReleasePolicy)"

definition create_challenge_content_proposal_with_contract ::
    "('r, 'n, 'e, 'd) envelope_host \<Rightarrow> entropy \<Rightarrow> group_certificate \<Rightarrow> bytes \<Rightarrow> identity_public list \<Rightarrow>
     access_contract \<Rightarrow> bytes \<Rightarrow> chain_limits \<Rightarrow> chain_error + capsule_proposal" where
  "create_challenge_content_proposal_with_contract E rng grp content recipients contract solution_key limits =
     (case ac_release contract of
        Challenge _ \<Rightarrow> create_proposal_with_holders E rng grp content recipients contract (WrapSingle solution_key) limits
      | _ \<Rightarrow> Inl ChainUnsupportedReleasePolicy)"

definition create_sharded_challenge_content_proposal_with_contract ::
    "('r, 'n, 'e, 'd) envelope_host \<Rightarrow> entropy \<Rightarrow> group_certificate \<Rightarrow> bytes \<Rightarrow> identity_public list \<Rightarrow>
     access_contract \<Rightarrow> bytes list \<Rightarrow> chain_limits \<Rightarrow> chain_error + capsule_proposal" where
  "create_sharded_challenge_content_proposal_with_contract E rng grp content recipients contract shard_keys limits =
     (case ac_release contract of
        ShardedChallenge _ \<Rightarrow>
          create_proposal_with_holders E rng grp content recipients contract (WrapSharded shard_keys) limits
      | _ \<Rightarrow> Inl ChainUnsupportedReleasePolicy)"

text \<open>The constructors that build the contract draw its nonce first.\<close>

definition identity_principals :: "chain_host \<Rightarrow> identity_public list \<Rightarrow> chain_error + principal_id list" where
  "identity_principals C identities =
     try_map (\<lambda>identity. and_then (identity_id_unchecked C identity) (\<lambda>i. Inr (principal_of i))) identities"

definition build_contract ::
    "chain_host \<Rightarrow> entropy \<Rightarrow> group_certificate \<Rightarrow> group_id \<Rightarrow> principal_id list \<Rightarrow> principal_id list \<Rightarrow> protected_kind \<Rightarrow>
     bytes \<Rightarrow> u64 \<Rightarrow> capabilities \<Rightarrow> release_policy \<Rightarrow> chain_error + access_contract" where
  "build_contract C rng grp g controllers recipient_ids kind digest_bytes32 content_size caps release =
     map_err map_contract_error (contract_new (host_blake3 C) (rng 0)
       (builder_release release (builder_capabilities caps (builder_recipients recipient_ids
         (builder_controllers controllers (gp_capsule_threshold (gc_proposal grp))
           (builder_new (PrincipalId (group_bytes g))
             \<lparr> cc_kind = kind, cc_digest = digest_bytes32, cc_size = content_size \<rparr>))))))"

definition create_default_content_proposal ::
    "('r, 'n, 'e, 'd) envelope_host \<Rightarrow> entropy \<Rightarrow> group_certificate \<Rightarrow> bytes \<Rightarrow> identity_public list \<Rightarrow> protected_kind \<Rightarrow>
     capabilities \<Rightarrow> chain_limits \<Rightarrow> chain_error + capsule_proposal" where
  "create_default_content_proposal E rng grp content recipients kind caps limits =
     (let C = eh_chain E in
      and_then (certificate_validate C grp) (\<lambda>_.
      and_then (validate_plaintext_content E content kind limits) (\<lambda>_.
      and_then (canonical_identities C recipients) (\<lambda>recipients.
      let digest_bytes32 = protected_content_digest C content in
      and_then (try_from_usize ChainLengthOverflow (length content)) (\<lambda>content_size.
      and_then (group_id_unchecked C (gc_proposal grp)) (\<lambda>g.
      and_then (member_principals C grp) (\<lambda>controllers.
      and_then (identity_principals C recipients) (\<lambda>recipient_ids.
      and_then (build_contract C rng grp g controllers recipient_ids kind digest_bytes32 content_size caps DirectRecipients)
        (\<lambda>contract.
        create_content_proposal_with_contract E (\<lambda>i. rng (Suc i)) grp content recipients contract limits)))))))))"

definition create_capsule_proposal ::
    "('r, 'n, 'e, 'd) envelope_host \<Rightarrow> entropy \<Rightarrow> group_certificate \<Rightarrow> bytes \<Rightarrow> identity_public list \<Rightarrow> chain_limits \<Rightarrow>
     chain_error + capsule_proposal" where
  "create_capsule_proposal E rng grp artifact_binary recipients limits =
     create_default_content_proposal E rng grp artifact_binary recipients ExactArtifact CAP_APPLY_EXACT limits"

definition create_semantic_patch_proposal ::
    "('r, 'n, 'e, 'd) envelope_host \<Rightarrow> entropy \<Rightarrow> group_certificate \<Rightarrow> bytes \<Rightarrow> identity_public list \<Rightarrow> chain_limits \<Rightarrow>
     chain_error + capsule_proposal" where
  "create_semantic_patch_proposal E rng grp patch_binary recipients limits =
     create_default_content_proposal E rng grp patch_binary recipients SemanticPatch CAP_APPLY_PATCH limits"

definition create_default_quorum_proposal ::
    "('r, 'n, 'e, 'd) envelope_host \<Rightarrow> entropy \<Rightarrow> group_certificate \<Rightarrow> bytes \<Rightarrow> identity_public list \<Rightarrow>
     identity_public list \<Rightarrow> protected_kind \<Rightarrow> capabilities \<Rightarrow> quorum_proposal_options \<Rightarrow> chain_limits \<Rightarrow>
     chain_error + capsule_proposal" where
  "create_default_quorum_proposal E rng grp content recipients witnesses kind caps options limits =
     (let C = eh_chain E in
      and_then (certificate_validate C grp) (\<lambda>_.
      and_then (validate_plaintext_content E content kind limits) (\<lambda>_.
      and_then (canonical_identities C recipients) (\<lambda>recipients.
      and_then (canonical_identities C witnesses) (\<lambda>witnesses.
      let digest_bytes32 = protected_content_digest C content in
      and_then (try_from_usize ChainLengthOverflow (length content)) (\<lambda>content_size.
      and_then (group_id_unchecked C (gc_proposal grp)) (\<lambda>g.
      and_then (member_principals C grp) (\<lambda>controllers.
      and_then (identity_principals C recipients) (\<lambda>recipient_ids.
      and_then (identity_principals C witnesses) (\<lambda>witness_ids.
      and_then (map_err map_contract_error (quorum_release_new witness_ids (qo_threshold options)
          (qo_not_before_unix_ms options) (qo_maximum_successful_releases options))) (\<lambda>release.
      and_then (build_contract C rng grp g controllers recipient_ids kind digest_bytes32 content_size caps (Quorum release))
        (\<lambda>contract.
        create_quorum_content_proposal_with_contract E (\<lambda>i. rng (Suc i)) grp content witnesses contract limits))))))))))))"

definition create_quorum_capsule_proposal ::
    "('r, 'n, 'e, 'd) envelope_host \<Rightarrow> entropy \<Rightarrow> group_certificate \<Rightarrow> bytes \<Rightarrow> identity_public list \<Rightarrow>
     identity_public list \<Rightarrow> quorum_proposal_options \<Rightarrow> chain_limits \<Rightarrow> chain_error + capsule_proposal" where
  "create_quorum_capsule_proposal E rng grp artifact_binary recipients witnesses options limits =
     create_default_quorum_proposal E rng grp artifact_binary recipients witnesses ExactArtifact CAP_APPLY_EXACT options limits"

definition create_quorum_semantic_patch_proposal ::
    "('r, 'n, 'e, 'd) envelope_host \<Rightarrow> entropy \<Rightarrow> group_certificate \<Rightarrow> bytes \<Rightarrow> identity_public list \<Rightarrow>
     identity_public list \<Rightarrow> quorum_proposal_options \<Rightarrow> chain_limits \<Rightarrow> chain_error + capsule_proposal" where
  "create_quorum_semantic_patch_proposal E rng grp patch_binary recipients witnesses options limits =
     create_default_quorum_proposal E rng grp patch_binary recipients witnesses SemanticPatch CAP_APPLY_PATCH options limits"

section \<open>Opening\<close>

definition decrypt_payload_core ::
    "('r, 'n, 'e, 'd) envelope_host \<Rightarrow> capsule_envelope \<Rightarrow> identity_id \<Rightarrow> bytes \<Rightarrow> chain_limits \<Rightarrow>
     chain_error + decrypted_content" where
  "decrypt_payload_core E envelope recipient_id cek limits =
     (let C = eh_chain E; p = ce_proposal envelope in
      and_then (envelope_validate E limits envelope) (\<lambda>_.
        if length cek \<noteq> CEK_BYTES then Inl ChainCryptographicFailure
        else
      and_then (group_id_unchecked C (gc_proposal (cp_group p))) (\<lambda>g.
      and_then (core_bytes E p) (\<lambda>core.
      and_then (cipher_new cek) (\<lambda>key.
      and_then (ok_or ChainCryptographicFailure
          (aead_decrypt C key (cp_payload_nonce p) (payload_aad core) (cp_ciphertext p))) (\<lambda>content.
      and_then (try_from_usize ChainLengthOverflow (length content)) (\<lambda>len.
        if len \<noteq> cp_content_size p \<or> protected_content_digest C content \<noteq> cp_content_digest p
        then Inl ChainIntegrityMismatch
        else
      and_then (validate_plaintext_content E content (cc_kind (ac_content (cp_contract p))) limits) (\<lambda>_.
        Inr \<lparr> dc_bytes = content, dc_content_kind = cc_kind (ac_content (cp_contract p)),
              dc_contract_id = ac_contract_id (cp_contract p), dc_group_id = g, dc_proposal_id = cp_proposal_id p,
              dc_recipient_id = recipient_id \<rparr>))))))))"

definition decrypt_payload_with_cek ::
    "('r, 'n, 'e, 'd) envelope_host \<Rightarrow> capsule_envelope \<Rightarrow> identity_id \<Rightarrow> bytes \<Rightarrow> chain_limits \<Rightarrow>
     chain_error + decrypted_content" where
  "decrypt_payload_with_cek E envelope recipient_id cek limits =
     and_then (envelope_validate E limits envelope) (\<lambda>_.
       if principal_of recipient_id \<notin> set (ac_recipients (cp_contract (ce_proposal envelope))) then Inl ChainNotRecipient
       else decrypt_payload_core E envelope recipient_id cek limits)"

definition holder_slot :: "chain_host \<Rightarrow> capsule_proposal \<Rightarrow> identity_id \<Rightarrow> key_slot option" where
  "holder_slot C p i = find (\<lambda>slot. identity_id_unchecked C (sl_holder slot) = Inr i) (cp_slots p)"

definition open_slot ::
    "('r, 'n, 'e, 'd) envelope_host \<Rightarrow> capsule_proposal \<Rightarrow> unlocked_identity \<Rightarrow> key_slot \<Rightarrow> chain_error + bytes" where
  "open_slot E p holder slot =
     (let C = eh_chain E in
      and_then (group_id_unchecked C (gc_proposal (cp_group p))) (\<lambda>g.
      and_then (core_bytes E p) (\<lambda>core.
        if \<not> hpke_encapped_key C (sl_encapped_key slot) then Inl ChainCryptographicFailure
        else
        ok_or ChainCryptographicFailure
          (hpke_open C (hpke_private_key C holder) (sl_encapped_key slot)
            (key_slot_info g (cp_proposal_nonce p) (ui_identity_id holder) (ac_release (cp_contract p)))
            (sl_wrapped_key slot) (core_digest_of E core)))))"

definition direct_release :: "release_policy \<Rightarrow> bool" where
  "direct_release r =
     (case r of DirectRecipients \<Rightarrow> True | Challenge _ \<Rightarrow> True | ShardedChallenge _ \<Rightarrow> True | _ \<Rightarrow> False)"

definition recipient_cek ::
    "('r, 'n, 'e, 'd) envelope_host \<Rightarrow> capsule_envelope \<Rightarrow> unlocked_identity \<Rightarrow> chain_limits \<Rightarrow> chain_error + bytes" where
  "recipient_cek E envelope recipient limits =
     (let C = eh_chain E; p = ce_proposal envelope in
      and_then (envelope_validate E limits envelope) (\<lambda>_.
        if \<not> direct_release (ac_release (cp_contract p)) then Inl ChainUnsupportedReleasePolicy
        else if \<not> capabilities_contains (ac_capabilities (cp_contract p)) Decrypt then Inl ChainInvalidContract
        else
      and_then (ok_or ChainNotRecipient (holder_slot C p (ui_identity_id recipient))) (\<lambda>slot.
      and_then (open_slot E p recipient slot) (\<lambda>cek.
        if length cek \<noteq> CEK_BYTES then Inl ChainCryptographicFailure else Inr cek))))"

definition decrypt_content ::
    "('r, 'n, 'e, 'd) envelope_host \<Rightarrow> capsule_envelope \<Rightarrow> unlocked_identity \<Rightarrow> chain_limits \<Rightarrow>
     chain_error + decrypted_content" where
  "decrypt_content E envelope recipient limits =
     and_then (recipient_cek E envelope recipient limits) (\<lambda>cek.
       decrypt_payload_with_cek E envelope (ui_identity_id recipient) cek limits)"

definition capsule_of_decrypted :: "decrypted_content \<Rightarrow> opened_capsule" where
  "capsule_of_decrypted d =
     \<lparr> oc_artifact_binary = dc_bytes d, oc_contract_id = dc_contract_id d, oc_group_id = dc_group_id d,
       oc_proposal_id = dc_proposal_id d, oc_recipient_id = dc_recipient_id d \<rparr>"

definition patch_of_decrypted :: "decrypted_content \<Rightarrow> 'n semantic_patch \<Rightarrow> 'n opened_semantic_patch" where
  "patch_of_decrypted d patch =
     \<lparr> op_patch = patch, op_contract_id = dc_contract_id d, op_group_id = dc_group_id d,
       op_proposal_id = dc_proposal_id d, op_recipient_id = dc_recipient_id d \<rparr>"

definition open_capsule ::
    "('r, 'n, 'e, 'd) envelope_host \<Rightarrow> capsule_envelope \<Rightarrow> unlocked_identity \<Rightarrow> chain_limits \<Rightarrow>
     chain_error + opened_capsule" where
  "open_capsule E envelope recipient limits =
     (if cc_kind (ac_content (cp_contract (ce_proposal envelope))) \<noteq> ExactArtifact then Inl ChainInvalidContent
      else and_then (decrypt_content E envelope recipient limits) (\<lambda>opened. Inr (capsule_of_decrypted opened)))"

definition open_semantic_patch ::
    "('r, 'n, 'e, 'd) envelope_host \<Rightarrow> capsule_envelope \<Rightarrow> unlocked_identity \<Rightarrow> chain_limits \<Rightarrow>
     chain_error + 'n opened_semantic_patch" where
  "open_semantic_patch E envelope recipient limits =
     (if cc_kind (ac_content (cp_contract (ce_proposal envelope))) \<noteq> SemanticPatch then Inl ChainInvalidContent
      else
      and_then (decrypt_content E envelope recipient limits) (\<lambda>opened.
      and_then (map_err (\<lambda>_. ChainInvalidContent) (parse_patch (eh_serde E) (dc_bytes opened))) (\<lambda>patch.
        Inr (patch_of_decrypted opened patch))))"

definition opened_content_of ::
    "('r, 'n, 'e, 'd) envelope_host \<Rightarrow> decrypted_content \<Rightarrow> chain_error + 'n opened_content" where
  "opened_content_of E d =
     (case dc_content_kind d of
        ExactArtifact \<Rightarrow> Inr (OpenedExactArtifact (capsule_of_decrypted d))
      | SemanticPatch \<Rightarrow>
          and_then (map_err (\<lambda>_. ChainInvalidContent) (parse_patch (eh_serde E) (dc_bytes d))) (\<lambda>patch.
            Inr (OpenedSemanticPatch (patch_of_decrypted d patch))))"

definition witness_coordinate :: "quorum_release \<Rightarrow> identity_id \<Rightarrow> chain_error + u8" where
  "witness_coordinate policy witness_id =
     and_then (ok_or ChainInvalidShare (iter_position (\<lambda>candidate. candidate = principal_of witness_id) (qr_witnesses policy)))
       (\<lambda>index. try_from_usize ChainInvalidShare (min (index + 1) usize_max))"

definition unwrap_quorum_share ::
    "('r, 'n, 'e, 'd) envelope_host \<Rightarrow> capsule_envelope \<Rightarrow> unlocked_identity \<Rightarrow> chain_limits \<Rightarrow> chain_error + bytes" where
  "unwrap_quorum_share E envelope witness limits =
     (let C = eh_chain E; p = ce_proposal envelope in
      and_then (envelope_validate E limits envelope) (\<lambda>_.
      case ac_release (cp_contract p) of
        Quorum policy \<Rightarrow>
          if principal_of (ui_identity_id witness) \<notin> set (qr_witnesses policy) then Inl ChainNotWitness
          else
          and_then (ok_or ChainNotWitness (holder_slot C p (ui_identity_id witness))) (\<lambda>slot.
          and_then (open_slot E p witness slot) (\<lambda>share.
            if length share \<noteq> SHARE_BYTES then Inl ChainInvalidShare
            else
          and_then (witness_coordinate policy (ui_identity_id witness)) (\<lambda>expected_x.
            if share ! 0 \<noteq> expected_x then Inl ChainInvalidShare else Inr share)))
      | _ \<Rightarrow> Inl ChainUnsupportedReleasePolicy))"

end
