(* ===== verification/Chain_Group_Correct.thy ===== *)
theory Chain_Group_Correct
  imports Chain_Group Chain_Identity_Correct "HOL-Library.Multiset"
begin

text \<open>
  Group formation: a certificate that validates carries the valid signature of every member, members who accept always
  obtain the same certificate in whatever order their acceptances arrive, and the progress report counts exactly the
  members with a valid acceptance.
\<close>

section \<open>Ordered collections\<close>

definition previous_key :: "identity_id option \<Rightarrow> bytes list" where
  "previous_key previous = (case previous of None \<Rightarrow> [] | Some i \<Rightarrow> [identity_bytes i])"

lemma check_order_eq: "check_order previous i = Inr () \<longleftrightarrow> (\<forall>k \<in> set (previous_key previous). k < identity_bytes i)"
  by (auto simp: check_order_def previous_key_def split: option.splits)

lemma id_key_Inr [simp]: "id_key (Inr i) = identity_bytes i"
  by (simp add: id_key_def)

text \<open>A validation loop that compares each fingerprint with the previous one accepts exactly the increasing lists.\<close>

lemma ordered_fold:
  assumes "\<And>previous x r. step previous x = Inr r \<longleftrightarrow>
      (\<exists>i. r = Some i \<and> ok x \<and> idf x = Inr i \<and> check_order previous i = Inr ())"
  shows "(\<exists>r. try_fold step previous xs = Inr r) \<longleftrightarrow>
    (\<forall>x \<in> set xs. ok x \<and> (\<exists>i. idf x = Inr i)) \<and>
    sorted_wrt (<) (map (\<lambda>x. id_key (idf x)) xs) \<and>
    (\<forall>k \<in> set (previous_key previous). \<forall>x \<in> set xs. k < id_key (idf x))"
proof (induction xs arbitrary: previous)
  case (Cons x xs)
  show ?case
  proof (cases "\<exists>i. ok x \<and> idf x = Inr i \<and> check_order previous i = Inr ()")
    case True
    then obtain i where i: "ok x" "idf x = Inr i" "check_order previous i = Inr ()" by blast
    then have "step previous x = Inr (Some i)" using assms by blast
    moreover have "previous_key (Some i) = [identity_bytes i]" by (simp add: previous_key_def)
    ultimately show ?thesis
      using Cons.IH [of "Some i"] i check_order_eq [of previous i] by (auto intro: less_trans)
  next
    case False
    then have "\<not> (\<exists>r. step previous x = Inr r)" using assms by blast
    then show ?thesis using False by (auto simp: and_then_eq_Inr check_order_eq)
  qed
qed simp

lemma unique_window:
  assumes "\<And>x. x \<in> set xs \<Longrightarrow> \<exists>i. idf x = Inr i"
  shows "any_window2 (\<lambda>a b. result_ok (idf a) = result_ok (idf b)) xs = any_window2 (=) (map (\<lambda>x. id_key (idf x)) xs)"
  using assms
proof (induction xs rule: induct_list012)
  case (3 x y zs)
  then obtain i j where "idf x = Inr i" "idf y = Inr j" by (meson list.set_intros)
  with 3 show ?case by (auto simp: identity_id.expand)
qed simp_all

lemma sorted_by_id:
  assumes "\<And>x. x \<in> set xs \<Longrightarrow> \<exists>i. idf x = Inr i"
  defines "ys \<equiv> sort_key (\<lambda>x. id_key (idf x)) xs"
  shows "\<not> any_window2 (\<lambda>a b. result_ok (idf a) = result_ok (idf b)) ys \<longleftrightarrow> distinct (map (\<lambda>x. id_key (idf x)) xs)"
    and "distinct (map (\<lambda>x. id_key (idf x)) xs) \<Longrightarrow> sorted_wrt (<) (map (\<lambda>x. id_key (idf x)) ys)"
proof -
  have sorted: "sorted (map (\<lambda>x. id_key (idf x)) ys)" by (simp add: ys_def)
  have "mset (map (\<lambda>x. id_key (idf x)) ys) = mset (map (\<lambda>x. id_key (idf x)) xs)" by (simp add: ys_def)
  then have d: "distinct (map (\<lambda>x. id_key (idf x)) ys) = distinct (map (\<lambda>x. id_key (idf x)) xs)"
    by (rule mset_eq_imp_distinct_iff)
  have "any_window2 (\<lambda>a b. result_ok (idf a) = result_ok (idf b)) ys = any_window2 (=) (map (\<lambda>x. id_key (idf x)) ys)"
    by (rule unique_window) (simp add: ys_def assms(1))
  with sorted_no_equal_window [OF sorted] d
  show "\<not> any_window2 (\<lambda>a b. result_ok (idf a) = result_ok (idf b)) ys \<longleftrightarrow> distinct (map (\<lambda>x. id_key (idf x)) xs)" by simp
  show "sorted_wrt (<) (map (\<lambda>x. id_key (idf x)) ys)" if "distinct (map (\<lambda>x. id_key (idf x)) xs)"
    using that sorted d by (simp add: strict_sorted_iff)
qed

lemma distinct_map_mset: "mset as = mset bs \<Longrightarrow> distinct (map f as) = distinct (map f bs)"
  by (rule mset_eq_imp_distinct_iff) simp

lemma sort_by_distinct_key:
  assumes "mset as = mset bs" "distinct (map f as)"
  shows "sort_key f as = sort_key (f :: 'a \<Rightarrow> 'b :: linorder) bs"
proof (rule map_inj_on)
  have d: "distinct (map f bs)" using assms mset_eq_imp_distinct_iff [of "map f as" "map f bs"] by simp
  have "distinct (map f (sort_key f as))" "distinct (map f (sort_key f bs))"
    using assms(2) d by (simp_all add: distinct_map)
  then show "map f (sort_key f as) = map f (sort_key f bs)"
    using mset_eq_setD [OF assms(1)] by (intro sorted_distinct_set_unique) simp_all
  show "inj_on f (set (sort_key f as) \<union> set (sort_key f bs))"
    using assms(2) mset_eq_setD [OF assms(1)] by (simp add: distinct_map)
qed

section \<open>Valid proposals\<close>

abbreviation member_key :: "chain_host \<Rightarrow> identity_public \<Rightarrow> bytes" where
  "member_key C m \<equiv> id_key (identity_id_unchecked C m)"

abbreviation acceptance_key :: "chain_host \<Rightarrow> group_acceptance \<Rightarrow> bytes" where
  "acceptance_key C a \<equiv> id_key (acceptance_member_id C a)"

lemma member_step_eq:
  "member_step C previous m = Inr r \<longleftrightarrow>
     (\<exists>i. r = Some i \<and> identity_validate C m = Inr () \<and> identity_id_unchecked C m = Inr i \<and> check_order previous i = Inr ())"
  by (auto simp: member_step_def and_then_eq_Inr)

lemma members_fold:
  "(\<exists>r. try_fold (member_step C) None ms = Inr r) \<longleftrightarrow>
     (\<forall>m \<in> set ms. identity_validate C m = Inr ()) \<and> sorted_wrt (<) (map (member_key C) ms)"
  using ordered_fold [of "member_step C" "\<lambda>m. identity_validate C m = Inr ()" "identity_id_unchecked C", OF member_step_eq]
    identity_validate_unchecked by (auto simp: previous_key_def)

lemma proposal_validate_facts:
  assumes "proposal_validate C p = Inr ()"
  shows "\<forall>m \<in> set (gp_members p). identity_validate C m = Inr ()" "sorted_wrt (<) (map (member_key C) (gp_members p))"
    "gp_members p \<noteq> []" "length (gp_members p) \<le> 64"
    "0 < unat (gp_capsule_threshold p)" "unat (gp_capsule_threshold p) \<le> length (gp_members p)"
    "\<exists>g nonce. group_id_unchecked C p = Inr g \<and> decode_array C 32 (gp_group_nonce p) = Inr nonce \<and>
       calculate_group_id C (gp_display_name p) nonce (gp_capsule_threshold p) (gp_members p) = Inr g"
proof -
  from assms obtain n :: u16 and r where len: "length (gp_members p) = unat n" "gp_members p \<noteq> []"
      "length (gp_members p) \<le> 64" "gp_capsule_threshold p \<noteq> 0" "\<not> n < gp_capsule_threshold p"
    and fold: "try_fold (member_step C) None (gp_members p) = Inr r"
    by (auto simp: proposal_validate_def and_then_eq_Inr MAX_GROUP_MEMBERS_def split: if_splits)
  then show "gp_members p \<noteq> []" "length (gp_members p) \<le> 64" by simp_all
  from len show "0 < unat (gp_capsule_threshold p)" "unat (gp_capsule_threshold p) \<le> length (gp_members p)"
    by (simp_all add: unat_gt_0 word_less_nat_alt)
  from fold members_fold [of C "gp_members p"]
  show "\<forall>m \<in> set (gp_members p). identity_validate C m = Inr ()" "sorted_wrt (<) (map (member_key C) (gp_members p))"
    by auto
  from assms show "\<exists>g nonce. group_id_unchecked C p = Inr g \<and> decode_array C 32 (gp_group_nonce p) = Inr nonce \<and>
       calculate_group_id C (gp_display_name p) nonce (gp_capsule_threshold p) (gp_members p) = Inr g"
    by (auto simp: proposal_validate_def group_id_unchecked_def and_then_eq_Inr split: if_splits)
qed

lemma members_distinct: "sorted_wrt (<) (map (member_key C) ms) \<Longrightarrow> distinct (map (member_key C) ms)"
  by (rule sorted_wrt_less_distinct)

lemma proposal_member_eq:
  assumes "proposal_validate C p = Inr ()"
  shows "proposal_member C p i = Some m \<longleftrightarrow> m \<in> set (gp_members p) \<and> identity_id_unchecked C m = Inr i"
proof -
  note d = members_distinct [OF proposal_validate_facts(2) [OF assms]]
  have "find (\<lambda>m. identity_id_unchecked C m = Inr i) ms = Some m \<longleftrightarrow> m \<in> set ms \<and> identity_id_unchecked C m = Inr i"
    if "distinct (map (member_key C) ms)" for ms
    using that
  proof (induction ms)
    case (Cons x xs)
    then show ?case
      by (cases "identity_id_unchecked C x = Inr i") (auto simp: image_iff)
  qed simp
  from this [OF d] show ?thesis by (simp add: proposal_member_def)
qed

section \<open>Acceptances\<close>

lemma verify_acceptance_eq:
  "verify_acceptance C g m a = Inr () \<longleftrightarrow>
     (\<exists>i key sig. acceptance_validate_shape C a = Inr () \<and> identity_id_unchecked C m = Inr i \<and>
        acceptance_member_id C a = Inr i \<and> decode_array C 32 (ga_group_id a) = Inr (group_bytes g) \<and>
        signing_public_key C m = Inr key \<and> vk_from_bytes (host_ed25519 C) key \<and>
        decode_array C 64 (ga_signature a) = Inr sig \<and>
        vk_verify_strict (host_ed25519 C) key (acceptance_message g i) sig)"
  by (auto simp: verify_acceptance_def and_then_eq_Inr split: if_splits)

lemma verify_acceptance_key: "verify_acceptance C g m a = Inr () \<Longrightarrow> acceptance_key C a = member_key C m"
  by (auto simp: verify_acceptance_eq)

lemma accept_group_verifies:
  assumes C: "host_contract C" and p: "proposal_validate C p = Inr ()" and u: "wf_unlocked C u"
    and member: "ui_public_identity u \<in> set (gp_members p)" and g: "group_id_unchecked C p = Inr g"
  shows "\<exists>a. accept_group C p u = Inr a \<and> verify_acceptance C g (ui_public_identity u) a = Inr ()"
proof -
  from u have id: "identity_id_unchecked C (ui_public_identity u) = Inr (ui_identity_id u)" by (simp add: wf_unlocked_def)
  with member proposal_member_eq [OF p] have m: "proposal_member C p (ui_identity_id u) = Some (ui_public_identity u)" by blast
  from g have len: "length (group_bytes g) = 32"
    by (auto simp: group_id_unchecked_def and_then_eq_Inr dest: decode_array_inv)
  note idlen = identity_id_length [OF id]
  show ?thesis
    using p m g C u id len idlen wf_unlocked_sign [OF C u]
    by (simp add: accept_group_def verify_acceptance_eq acceptance_validate_shape_def acceptance_member_id_def
        wf_unlocked_def group_to_base64_def identity_to_base64_def verify_strict_eq)
qed

section \<open>Certificates\<close>

lemma certificate_validate_eq:
  "certificate_validate C c = Inr () \<longleftrightarrow>
     gc_schema_version c = GROUP_VERSION \<and> gc_kind c = CERTIFICATE_KIND \<and> proposal_validate C (gc_proposal c) = Inr () \<and>
     (\<exists>g. group_id_unchecked C (gc_proposal c) = Inr g \<and>
       list_all2 (\<lambda>m a. verify_acceptance C g m a = Inr ()) (gp_members (gc_proposal c)) (gc_acceptances c))"
  by (auto simp: certificate_validate_def and_then_eq_Inr list_all2_iff split: if_splits)

lemma acceptances_match_members:
  assumes "\<forall>a \<in> set as. \<exists>m \<in> set ms. verify_acceptance C g m a = Inr ()" "length as = length ms"
    and "sorted_wrt (<) (map (acceptance_key C) as)" "sorted_wrt (<) (map (member_key C) ms)"
  shows "list_all2 (\<lambda>m a. verify_acceptance C g m a = Inr ()) ms as"
proof -
  let ?A = "set (map (acceptance_key C) as)" and ?M = "set (map (member_key C) ms)"
  have "?A \<subseteq> ?M" using assms(1) by (auto dest!: verify_acceptance_key simp: image_iff)
  moreover have "card ?A = length as" "card ?M = length ms"
    using assms(3,4) by (metis distinct_card length_map sorted_wrt_less_distinct)+
  ultimately have "?A = ?M" using assms(2) by (intro card_subset_eq) simp_all
  then have keys: "map (acceptance_key C) as = map (member_key C) ms"
    using assms(3,4) by (intro sorted_wrt_less_unique)
  show ?thesis unfolding list_all2_conv_all_nth
  proof (intro conjI allI impI)
    fix i
    assume i: "i < length ms"
    with assms(1,2) obtain m where m: "m \<in> set ms" "verify_acceptance C g m (as ! i) = Inr ()" by (metis nth_mem)
    have "member_key C m = member_key C (ms ! i)"
      using verify_acceptance_key [OF m(2)] keys i assms(2) by (metis nth_map)
    moreover have "inj_on (member_key C) (set ms)"
      using members_distinct [OF assms(4)] by (simp add: distinct_map)
    ultimately have "m = ms ! i" using m(1) i by (metis inj_onD nth_mem)
    with m(2) show "verify_acceptance C g (ms ! i) (as ! i) = Inr ()" by simp
  qed (simp add: assms(2))
qed

lemma finalize_group_ok:
  assumes p: "proposal_validate C p = Inr ()" and g: "group_id_unchecked C p = Inr g"
    and as: "\<forall>a \<in> set as. \<exists>m \<in> set (gp_members p). verify_acceptance C g m a = Inr ()"
    and d: "distinct (map (acceptance_key C) as)" and len: "length as = length (gp_members p)"
  shows "finalize_group C p as =
    Inr \<lparr> gc_schema_version = GROUP_VERSION, gc_kind = CERTIFICATE_KIND, gc_proposal = p,
      gc_acceptances = sort_key (acceptance_key C) as \<rparr>"
proof -
  have shape: "acceptance_validate_shape C a = Inr () \<and> (\<exists>i. acceptance_member_id C a = Inr i)" if "a \<in> set as" for a
    using as that by (auto simp: verify_acceptance_eq)
  let ?bs = "sort_key (acceptance_key C) as"
  have "list_all2 (\<lambda>m a. verify_acceptance C g m a = Inr ()) (gp_members p) ?bs"
    using as len sorted_by_id(2) [of as "acceptance_member_id C"] shape d proposal_validate_facts(2) [OF p]
    by (intro acceptances_match_members) auto
  moreover have "\<not> any_window2 (\<lambda>l r. result_ok (acceptance_member_id C l) = result_ok (acceptance_member_id C r)) ?bs"
    using sorted_by_id(1) [of as "acceptance_member_id C"] shape d by blast
  moreover have "try_for_each (acceptance_validate_shape C) as = Inr ()" using shape by simp
  moreover from calculation have "certificate_validate C \<lparr> gc_schema_version = GROUP_VERSION, gc_kind = CERTIFICATE_KIND,
      gc_proposal = p, gc_acceptances = ?bs \<rparr> = Inr ()" unfolding certificate_validate_eq using p g by simp
  ultimately show ?thesis using p by (simp add: finalize_group_def Let_def del: try_for_each_eq_Inr)
qed

section \<open>Unanimous formation\<close>

text \<open>
  C22. A group certificate that validates was accepted by everyone: its members are pairwise different, its threshold is
  between one and their number, its identifier is the hash of exactly this composition and policy, and beside every
  member stands a signature over the identifier and the fingerprint of the member that verifies under the
  member's own published key.
\<close>

theorem certificate_unanimous:
  assumes "certificate_validate C c = Inr ()"
  shows "\<exists>g nonce.
    calculate_group_id C (gp_display_name (gc_proposal c)) nonce (gp_capsule_threshold (gc_proposal c))
      (gp_members (gc_proposal c)) = Inr g \<and>
    distinct (map (identity_id_unchecked C) (gp_members (gc_proposal c))) \<and>
    0 < unat (gp_capsule_threshold (gc_proposal c)) \<and>
    unat (gp_capsule_threshold (gc_proposal c)) \<le> length (gp_members (gc_proposal c)) \<and>
    list_all2 (\<lambda>m a. \<exists>i key sig. identity_id_unchecked C m = Inr i \<and> signing_public_key C m = Inr key \<and>
        decode_array C 64 (ga_signature a) = Inr sig \<and>
        vk_verify_strict (host_ed25519 C) key (acceptance_message g i) sig)
      (gp_members (gc_proposal c)) (gc_acceptances c)"
proof -
  from assms obtain g where p: "proposal_validate C (gc_proposal c) = Inr ()" and g: "group_id_unchecked C (gc_proposal c) = Inr g"
    and all: "list_all2 (\<lambda>m a. verify_acceptance C g m a = Inr ()) (gp_members (gc_proposal c)) (gc_acceptances c)"
    unfolding certificate_validate_eq by blast
  note f = proposal_validate_facts [OF p]
  have "distinct (map id_key (map (identity_id_unchecked C) (gp_members (gc_proposal c))))"
    using members_distinct [OF f(2)] by (simp add: comp_def)
  then have d: "distinct (map (identity_id_unchecked C) (gp_members (gc_proposal c)))" by (simp only: distinct_map)
  have "list_all2 (\<lambda>m a. \<exists>i key sig. identity_id_unchecked C m = Inr i \<and> signing_public_key C m = Inr key \<and>
        decode_array C 64 (ga_signature a) = Inr sig \<and>
        vk_verify_strict (host_ed25519 C) key (acceptance_message g i) sig)
      (gp_members (gc_proposal c)) (gc_acceptances c)"
    using all by (rule list_all2_mono) (auto simp: verify_acceptance_eq)
  with f(5-7) g d show ?thesis by auto
qed

text \<open>Proposals of valid members with a sensible threshold are built.\<close>

lemma member_bytes_length:
  assumes "canonical_member_bytes_unchecked C m = Inr bs"
  shows "length bs < 2 ^ LENGTH(32)"
proof -
  from assms obtain spk epk nonce sig msg where
    "length spk = 32" "length epk = 32" "length nonce = 32" "length sig = 64" "bs = msg @ sig"
    "identity_message (idp_display_name m) spk epk nonce = Inr msg"
    by (auto simp: canonical_member_bytes_unchecked_def and_then_eq_Inr dest!: decode_array_inv)
  then show ?thesis
    by (auto simp: identity_message_def identity_validate_name_def MAX_NAME_BYTES_def chain_put_bytes_u16_def
        chain_put_u16_def IDENTITY_SIGNATURE_DOMAIN_def and_then_eq_Inr split: if_splits)
qed

lemma put_members_total:
  assumes "\<forall>m \<in> set ms. identity_validate C m = Inr ()"
  shows "\<exists>out. try_fold (put_member C) body ms = Inr out"
  using assms
proof (induction ms arbitrary: body)
  case (Cons m ms)
  then obtain bs where bs: "canonical_member_bytes_unchecked C m = Inr bs"
    by (meson canonical_member_bytes_ok list.set_intros(1))
  have "try_from_usize ChainLengthOverflow (length bs) = Inr (of_nat (length bs) :: u32)"
    by (rule try_from_usize_ok) (use member_bytes_length [OF bs] in simp)
  with bs Cons show ?case by (simp add: put_member_def [abs_def] del: try_from_usize_eq_Inr)
qed simp

lemma calculate_group_id_total:
  assumes "host_contract C" "\<forall>m \<in> set ms. identity_validate C m = Inr ()" "length ms \<le> 64" "validate_group_name name = Inr ()"
  obtains g where "calculate_group_id C name nonce t ms = Inr g" "length (group_bytes g) = 32"
proof -
  have "length name \<le> 256" using assms(4) by (auto simp: validate_group_name_def MAX_GROUP_NAME_BYTES_def split: if_splits)
  then have "try_from_usize ChainLengthOverflow (length name) = Inr (of_nat (length name) :: u16)"
    "try_from_usize ChainLengthOverflow (length ms) = Inr (of_nat (length ms) :: u16)"
    using assms(3) by (simp_all add: try_from_usize_ok)
  then show thesis
    using put_members_total [OF assms(2)] that assms(1)
    by (fastforce simp: calculate_group_id_def chain_put_bytes_u16_def Let_def and_then_eq_Inr)
qed

lemma proposal_with_nonce_ok:
  assumes C: "host_contract C" and name: "validate_group_name name = Inr ()" and nonce: "length nonce = 32"
    and ms: "\<forall>m \<in> set ms. identity_validate C m = Inr ()" "distinct (map (member_key C) ms)" "length ms \<le> 64"
    and t: "0 < unat t" "unat t \<le> length ms"
  obtains p where "proposal_with_nonce C name t ms nonce = Inr p" "proposal_validate C p = Inr ()"
    "mset (gp_members p) = mset ms" "gp_capsule_threshold p = t"
proof -
  let ?ns = "sort_key (member_key C) ms"
  have idok: "\<exists>i. identity_id_unchecked C m = Inr i" if "m \<in> set ms" for m
    using ms(1) identity_validate_unchecked that by blast
  note s = sorted_by_id [of ms "identity_id_unchecked C", OF idok]
  obtain g where g: "calculate_group_id C name nonce t ?ns = Inr g" "length (group_bytes g) = 32"
    by (rule calculate_group_id_total [OF C, of ?ns name]) (use ms name in auto)
  have n: "try_from_usize ChainLengthOverflow (length ms) = Inr (of_nat (length ms) :: u16)"
    "\<not> (of_nat (length ms) :: u16) < t" "t \<noteq> 0" "ms \<noteq> []"
    using ms(3) t by (auto simp: try_from_usize_ok word_less_nat_alt unat_of_nat)
  then have ne: "?ns \<noteq> []" by (metis length_0_conv length_sort)
  define p where "p = \<lparr> gp_schema_version = GROUP_VERSION, gp_kind = PROPOSAL_KIND, gp_display_name = name,
         gp_group_nonce = encode_base64 C nonce, gp_capsule_threshold = t, gp_members = ?ns,
         gp_group_id = group_to_base64 C g \<rparr>"
  from members_fold [of C ?ns] ms(1) s(2) ms(2) obtain r where r: "try_fold (member_step C) None ?ns = Inr r" by auto
  have valid: "proposal_validate C p = Inr ()"
    using name n ne ms(3) r g C nonce
    by (simp add: proposal_validate_def p_def MAX_GROUP_MEMBERS_def group_to_base64_def del: try_from_usize_eq_Inr)
  moreover have "proposal_with_nonce C name t ms nonce = Inr p"
  proof -
    have "try_for_each (identity_validate C) ms = Inr ()" using ms(1) by simp
    then show ?thesis
      using name n ne ms(2,3) s(1) g(1) valid
      by (simp add: proposal_with_nonce_def MAX_GROUP_MEMBERS_def p_def Let_def
          del: try_for_each_eq_Inr try_from_usize_eq_Inr)
  qed
  ultimately show thesis using that by (simp add: p_def)
qed

lemma formation_any_order:
  assumes "host_contract C" and "proposal_validate C p = Inr ()" and "list_all (wf_unlocked C) us"
    and "mset (map ui_public_identity us) = mset (gp_members p)"
  shows "\<exists>as c. try_map (accept_group C p) us = Inr as \<and> gc_proposal c = p \<and> certificate_validate C c = Inr () \<and>
    (\<forall>bs. mset bs = mset as \<longrightarrow> finalize_group C p bs = Inr c)"
proof -
  note f = proposal_validate_facts [OF assms(2)]
  from f(7) obtain g where g: "group_id_unchecked C p = Inr g" by blast
  have sets: "set (map ui_public_identity us) = set (gp_members p)" using assms(4) by (rule mset_eq_setD)
  have "\<exists>a. accept_group C p u = Inr a \<and> verify_acceptance C g (ui_public_identity u) a = Inr ()" if "u \<in> set us" for u
    using that sets assms(3) by (intro accept_group_verifies [OF assms(1,2) _ _ g]) (auto simp: list_all_iff)
  then obtain acc where acc: "\<And>u. u \<in> set us \<Longrightarrow> accept_group C p u = Inr (acc u)"
      "\<And>u. u \<in> set us \<Longrightarrow> verify_acceptance C g (ui_public_identity u) (acc u) = Inr ()" by metis
  let ?as = "map acc us"
  have as: "try_map (accept_group C p) us = Inr ?as" using acc(1) by (rule try_map_total)
  have keys: "map (acceptance_key C) ?as = map (member_key C) (map ui_public_identity us)"
    using acc(2) by (auto dest: verify_acceptance_key)
  have "mset (map (member_key C) (map ui_public_identity us)) = mset (map (member_key C) (gp_members p))"
    by (metis assms(4) mset_map)
  with members_distinct [OF f(2)] have d: "distinct (map (acceptance_key C) ?as)"
    unfolding keys using mset_eq_imp_distinct_iff by blast
  define c where "c = \<lparr> gc_schema_version = GROUP_VERSION, gc_kind = CERTIFICATE_KIND, gc_proposal = p,
      gc_acceptances = sort_key (acceptance_key C) ?as \<rparr>"
  have fin: "finalize_group C p bs = Inr c" if bs: "mset bs = mset ?as" for bs
  proof -
    have "set bs = set ?as" by (rule mset_eq_setD [OF bs])
    moreover have "length bs = length ?as" by (rule mset_eq_length [OF bs])
    moreover have "length us = length (gp_members p)" using assms(4) by (metis mset_eq_length length_map)
    moreover have "\<forall>a \<in> set ?as. \<exists>m \<in> set (gp_members p). verify_acceptance C g m a = Inr ()" using acc(2) sets by auto
    moreover have "distinct (map (acceptance_key C) bs)"
      using d distinct_map_mset [OF bs, of "acceptance_key C"] by blast
    ultimately show ?thesis
      using finalize_group_ok [OF assms(2) g, of bs] sort_by_distinct_key [OF bs] by (simp add: c_def)
  qed
  from fin [of ?as] have "certificate_validate C c = Inr ()"
    by (auto simp: finalize_group_def and_then_eq_Inr Let_def split: if_splits)
  moreover have "gc_proposal c = p" by (simp add: c_def)
  ultimately show ?thesis using as fin by blast
qed

lemma unlocked_keys_distinct:
  assumes "list_all (wf_unlocked C) us" "distinct (map ui_identity_id us)"
  shows "distinct (map (member_key C) (map ui_public_identity us))"
proof -
  have "map (member_key C) (map ui_public_identity us) = map identity_bytes (map ui_identity_id us)"
    using assms(1) by (auto simp: list_all_iff wf_unlocked_def)
  moreover have "inj identity_bytes" by (rule injI) (rule identity_id.expand)
  then have "inj_on identity_bytes (set (map ui_identity_id us))" by (rule inj_on_subset) simp
  with assms(2) have "distinct (map identity_bytes (map ui_identity_id us))" unfolding distinct_map by blast
  ultimately show ?thesis by (simp only:)
qed

lemma formation_from_identities:
  assumes "host_contract C" and "validate_group_name name = Inr ()" and "length nonce = 32"
    and "list_all (wf_unlocked C) us" and "distinct (map ui_identity_id us)" and "length us \<le> 64"
    and "0 < unat t" and "unat t \<le> length us"
  shows "\<exists>p as c. proposal_with_nonce C name t (map ui_public_identity us) nonce = Inr p \<and>
    try_map (accept_group C p) us = Inr as \<and> gc_proposal c = p \<and> certificate_validate C c = Inr () \<and>
    (\<forall>bs. mset bs = mset as \<longrightarrow> finalize_group C p bs = Inr c)"
proof -
  have valid: "\<forall>m \<in> set (map ui_public_identity us). identity_validate C m = Inr ()"
    using assms(4) by (auto simp: list_all_iff wf_unlocked_def)
  obtain p where "proposal_with_nonce C name t (map ui_public_identity us) nonce = Inr p"
    and p: "proposal_validate C p = Inr ()" "mset (gp_members p) = mset (map ui_public_identity us)"
    by (rule proposal_with_nonce_ok [OF assms(1-3) valid unlocked_keys_distinct [OF assms(4,5)]])
      (use assms(6-8) in simp_all)
  with formation_any_order [OF assms(1) p(1) assms(4) p(2) [symmetric]] show ?thesis by blast
qed

section \<open>Progress reports\<close>

lemma iter_position_key:
  "distinct (map f xs) \<Longrightarrow> iter_position (\<lambda>x. f x = v) xs = Some n \<longleftrightarrow> n < length xs \<and> f (xs ! n) = v"
proof (induction xs arbitrary: n)
  case (Cons x xs)
  show ?case
  proof (cases n)
    case 0
    then show ?thesis by simp
  next
    case (Suc k)
    have "f (xs ! k) \<noteq> f x" if "k < length xs" using Cons.prems that by (metis distinct.simps(2) image_eqI image_set list.simps(9) nth_mem)
    with Cons.IH [of k] Cons.prems Suc show ?thesis by (cases "f x = v") auto
  qed
qed simp

text \<open>The state of a report after some documents: who has signed, and that every document was counted or reported.\<close>

definition report_inv ::
    "chain_host \<Rightarrow> group_proposal \<Rightarrow> group_id \<Rightarrow> group_acceptance list \<Rightarrow>
     ceremony_member list \<times> rejected_document list \<Rightarrow> bool" where
  "report_inv C p g seen s \<longleftrightarrow>
     map (\<lambda>m. Inr (cm_identity_id m)) (fst s) = map (identity_id_unchecked C) (gp_members p) \<and>
     (\<forall>j < length (gp_members p).
        cm_signed (fst s ! j) \<longleftrightarrow> (\<exists>a \<in> set seen. verify_acceptance C g (gp_members p ! j) a = Inr ())) \<and>
     length (filter cm_signed (fst s)) + length (snd s) = length seen"

lemma report_ids:
  assumes "proposal_validate C p = Inr ()" "report_inv C p g seen s"
  shows "length (fst s) = length (gp_members p)" "distinct (map cm_identity_id (fst s))"
    "\<And>j. j < length (gp_members p) \<Longrightarrow> identity_id_unchecked C (gp_members p ! j) = Inr (cm_identity_id (fst s ! j))"
proof -
  from assms(2) have m: "map (\<lambda>m. Inr (cm_identity_id m)) (fst s) = map (identity_id_unchecked C) (gp_members p)"
    by (simp add: report_inv_def)
  then show len: "length (fst s) = length (gp_members p)" by (metis length_map)
  show "identity_id_unchecked C (gp_members p ! j) = Inr (cm_identity_id (fst s ! j))" if "j < length (gp_members p)" for j
    using that len m by (metis nth_map)
  have "distinct (map id_key (map (identity_id_unchecked C) (gp_members p)))"
    using members_distinct [OF proposal_validate_facts(2) [OF assms(1)]] by (simp add: comp_def)
  then have "distinct (map (identity_id_unchecked C) (gp_members p))" by (simp only: distinct_map)
  then have "distinct (map (\<lambda>m. Inr (cm_identity_id m) :: chain_error + identity_id) (fst s))" by (simp only: m)
  then have "distinct (map Inr (map cm_identity_id (fst s)) :: (chain_error + identity_id) list)" by (simp add: comp_def)
  then show "distinct (map cm_identity_id (fst s))" by (simp only: distinct_map)
qed

text \<open>What counting one acceptance amounts to.\<close>

lemma counted_eq:
  assumes p: "proposal_validate C p = Inr ()" and inv: "report_inv C p g seen s"
  shows "and_then (acceptance_member_id C a) (\<lambda>member_id.
      and_then (signable_position (fst s) member_id) (\<lambda>position.
      and_then (ok_or ChainNotGroupMember (proposal_member C p member_id)) (\<lambda>member.
      and_then (verify_acceptance C g member a) (\<lambda>_. Inr position)))) = Inr j \<longleftrightarrow>
    j < length (gp_members p) \<and> \<not> cm_signed (fst s ! j) \<and> verify_acceptance C g (gp_members p ! j) a = Inr ()"
proof -
  note ids = report_ids [OF p inv]
  have pos: "signable_position (fst s) i = Inr j \<longleftrightarrow>
      j < length (gp_members p) \<and> cm_identity_id (fst s ! j) = i \<and> \<not> cm_signed (fst s ! j)" for i
  proof -
    have "iter_position (\<lambda>m. cm_identity_id m = i) (fst s) = Some k \<longleftrightarrow>
        k < length (gp_members p) \<and> cm_identity_id (fst s ! k) = i" for k
      using iter_position_key [OF ids(2)] by (simp add: ids(1))
    then show ?thesis by (auto simp: signable_position_def and_then_eq_Inr split: if_splits)
  qed
  have mem: "proposal_member C p i = Some m \<longleftrightarrow> m = gp_members p ! j"
    if "j < length (gp_members p)" "cm_identity_id (fst s ! j) = i" for i m
  proof -
    have at: "gp_members p ! j \<in> set (gp_members p)" "identity_id_unchecked C (gp_members p ! j) = Inr i"
      using that ids(3) by auto
    then have "proposal_member C p i = Some (gp_members p ! j)" using proposal_member_eq [OF p] by blast
    then show ?thesis by auto
  qed
  show ?thesis
  proof
    assume "and_then (acceptance_member_id C a) (\<lambda>member_id.
      and_then (signable_position (fst s) member_id) (\<lambda>position.
      and_then (ok_or ChainNotGroupMember (proposal_member C p member_id)) (\<lambda>member.
      and_then (verify_acceptance C g member a) (\<lambda>_. Inr position)))) = Inr j"
    then obtain i m where "signable_position (fst s) i = Inr j" "proposal_member C p i = Some m"
      "verify_acceptance C g m a = Inr ()" by (auto simp: and_then_eq_Inr)
    with pos mem show "j < length (gp_members p) \<and> \<not> cm_signed (fst s ! j) \<and> verify_acceptance C g (gp_members p ! j) a = Inr ()"
      by auto
  next
    assume j: "j < length (gp_members p) \<and> \<not> cm_signed (fst s ! j) \<and> verify_acceptance C g (gp_members p ! j) a = Inr ()"
    then have "acceptance_member_id C a = Inr (cm_identity_id (fst s ! j))"
      using ids(3) by (auto simp: verify_acceptance_eq)
    with j pos mem show "and_then (acceptance_member_id C a) (\<lambda>member_id.
      and_then (signable_position (fst s) member_id) (\<lambda>position.
      and_then (ok_or ChainNotGroupMember (proposal_member C p member_id)) (\<lambda>member.
      and_then (verify_acceptance C g member a) (\<lambda>_. Inr position)))) = Inr j"
      by (simp add: and_then_eq_Inr)
  qed
qed

lemma verify_acceptance_unique:
  assumes "proposal_validate C p = Inr ()" "j < length (gp_members p)" "k < length (gp_members p)"
    and "verify_acceptance C g (gp_members p ! j) a = Inr ()" "verify_acceptance C g (gp_members p ! k) a = Inr ()"
  shows "j = k"
proof -
  have "map (member_key C) (gp_members p) ! j = map (member_key C) (gp_members p) ! k"
    using assms(2,3) verify_acceptance_key [OF assms(4)] verify_acceptance_key [OF assms(5)] by simp
  then show ?thesis
    using members_distinct [OF proposal_validate_facts(2) [OF assms(1)]] assms(2,3)
    by (simp add: nth_eq_iff_index_eq del: nth_map)
qed

lemma length_filter_set:
  "j < length xs \<Longrightarrow> \<not> P (xs ! j) \<Longrightarrow> P y \<Longrightarrow> length (filter P (xs[j := y])) = Suc (length (filter P xs))"
proof (induction xs arbitrary: j)
  case (Cons x xs)
  then show ?case by (cases j) auto
qed simp

lemma count_acceptance_inv:
  assumes p: "proposal_validate C p = Inr ()" and inv: "report_inv C p g seen s"
  shows "report_inv C p g (seen @ [a]) (count_acceptance C p g s (n, a))"
proof -
  let ?r = "and_then (acceptance_member_id C a) (\<lambda>member_id.
      and_then (signable_position (fst s) member_id) (\<lambda>position.
      and_then (ok_or ChainNotGroupMember (proposal_member C p member_id)) (\<lambda>member.
      and_then (verify_acceptance C g member a) (\<lambda>_. Inr position))))"
  note eq = counted_eq [OF p inv, of a] and ids = report_ids [OF p inv]
  have step: "count_acceptance C p g s (n, a) = count_document n ?r s" by (simp add: count_acceptance_def)
  show ?thesis
  proof (cases ?r)
    case (Inl e)
    with eq have "\<And>j. j < length (gp_members p) \<Longrightarrow> verify_acceptance C g (gp_members p ! j) a = Inr () \<Longrightarrow> cm_signed (fst s ! j)"
      by fastforce
    with inv show ?thesis unfolding step Inl
      by (auto simp: report_inv_def count_document_def split_def)
  next
    case (Inr j)
    with eq have j: "j < length (gp_members p)" "\<not> cm_signed (fst s ! j)" "verify_acceptance C g (gp_members p ! j) a = Inr ()"
      by auto
    let ?ms = "(fst s)[j := (fst s ! j)\<lparr> cm_signed := True \<rparr>]"
    have "map (\<lambda>m. Inr (cm_identity_id m)) ?ms = map (identity_id_unchecked C) (gp_members p)"
      using inv j(1) ids(1,3) by (simp add: report_inv_def map_update list_update_same_conv)
    moreover have "cm_signed (?ms ! k) \<longleftrightarrow> (\<exists>b \<in> set (seen @ [a]). verify_acceptance C g (gp_members p ! k) b = Inr ())"
      if k: "k < length (gp_members p)" for k
    proof (cases "k = j")
      case True
      with j ids(1) show ?thesis by simp
    next
      case False
      then have "verify_acceptance C g (gp_members p ! k) a \<noteq> Inr ()" using verify_acceptance_unique [OF p k j(1) _ j(3)] by blast
      with False inv k show ?thesis by (simp add: report_inv_def)
    qed
    moreover have "length (filter cm_signed ?ms) = Suc (length (filter cm_signed (fst s)))"
      using j ids(1) by (intro length_filter_set) simp_all
    ultimately show ?thesis using inv unfolding step Inr
      by (simp add: report_inv_def count_document_def split_def)
  qed
qed

lemma count_acceptances_inv:
  assumes "proposal_validate C p = Inr ()" "report_inv C p g seen s"
  shows "report_inv C p g (seen @ as) (foldl (count_acceptance C p g) s (enumerate n as))"
  using assms(2)
proof (induction as arbitrary: seen s n)
  case (Cons a as)
  from Cons.IH [OF count_acceptance_inv [OF assms(1) Cons.prems, of a n], of "Suc n"] show ?case by simp
qed simp

lemma group_ceremony_inv:
  assumes "group_ceremony_status C p as = Inr st"
  obtains g where "proposal_group_id C p = Inr g" "report_inv C p g as (cs_members st, cs_rejected st)"
    "cs_required_signatures st = length (gp_members p)"
proof -
  from assms obtain g ms where g: "proposal_group_id C p = Inr g" and ms: "pending_members C (gp_members p) = Inr ms"
    and st: "foldl (count_acceptance C p g) (ms, []) (enumerate 0 as) = (cs_members st, cs_rejected st)"
      "cs_required_signatures st = length (cs_members st)"
    by (clarsimp simp: group_ceremony_status_def and_then_eq_Inr split_def)
  from g have p: "proposal_validate C p = Inr ()" by (auto simp: proposal_group_id_def and_then_eq_Inr)
  have all2: "list_all2 (\<lambda>m c. identity_id_unchecked C m = Inr (cm_identity_id c) \<and> \<not> cm_signed c) (gp_members p) ms"
    using ms unfolding pending_members_def try_map_eq_Inr
    by (rule list_all2_mono) (auto simp: and_then_eq_Inr)
  then have "map (\<lambda>m. Inr (cm_identity_id m)) ms = map (identity_id_unchecked C) (gp_members p)"
    by (auto simp: list_all2_conv_all_nth intro: nth_equalityI)
  moreover have "filter cm_signed ms = []" "\<forall>j < length (gp_members p). \<not> cm_signed (ms ! j)"
    using all2 by (auto simp: list_all2_conv_all_nth filter_empty_conv in_set_conv_nth)
  ultimately have "report_inv C p g [] (ms, [])" by (simp add: report_inv_def)
  from count_acceptances_inv [OF p this, of as 0] st(1) have inv: "report_inv C p g as (cs_members st, cs_rejected st)" by simp
  with g st(2) report_ids(1) [OF p inv] that show thesis by simp
qed

text \<open>When every member has a valid acceptance and there are no further documents, the documents finalize.\<close>

lemma complete_acceptances_finalize:
  assumes p: "proposal_validate C p = Inr ()" and g: "group_id_unchecked C p = Inr g" and len: "length as = length (gp_members p)"
    and all: "\<forall>m \<in> set (gp_members p). \<exists>a \<in> set as. verify_acceptance C g m a = Inr ()"
  shows "\<exists>c. finalize_group C p as = Inr c"
proof -
  let ?ms = "gp_members p"
  from all obtain f where f: "\<And>m. m \<in> set ?ms \<Longrightarrow> f m \<in> set as \<and> verify_acceptance C g m (f m) = Inr ()" by metis
  have keys: "map (acceptance_key C) (map f ?ms) = map (member_key C) ?ms" using f by (auto dest: verify_acceptance_key)
  then have d: "distinct (map (acceptance_key C) (map f ?ms))"
    using members_distinct [OF proposal_validate_facts(2) [OF p]] by (simp only:)
  then have "distinct (map f ?ms)" by (simp only: distinct_map)
  then have "card (set (map f ?ms)) = length as" using len by (metis distinct_card length_map)
  moreover have sub: "set (map f ?ms) \<subseteq> set as" using f by auto
  moreover have "card (set as) \<le> length as" by (rule card_length)
  ultimately have eq: "set (map f ?ms) = set as" by (intro card_seteq) auto
  then have "distinct as" using \<open>card (set (map f ?ms)) = length as\<close> by (simp add: card_distinct)
  moreover have "inj_on (acceptance_key C) (set as)" using d eq by (metis distinct_map)
  ultimately have "distinct (map (acceptance_key C) as)" by (simp add: distinct_map)
  moreover have "\<forall>a \<in> set as. \<exists>m \<in> set ?ms. verify_acceptance C g m a = Inr ()" using f eq by force
  ultimately show ?thesis using finalize_group_ok [OF p g _ _ len] by blast
qed


text \<open>
  C23. A group can always be formed, and formation does not depend on the order of arrival. For up to 64 unlocked identities
  with different fingerprints, a valid name and a threshold between one and their number, the proposal is built; every
  member is granted its acceptance; and finalizing the acceptances in any order succeeds with one and the
  same certificate, which validates.
\<close>

theorem group_formation:
  assumes "host_contract C" and "validate_group_name name = Inr ()" and "length nonce = 32"
    and "list_all (wf_unlocked C) us" and "distinct (map ui_identity_id us)" and "length us \<le> 64"
    and "0 < unat t" and "unat t \<le> length us"
  shows "\<exists>p as c. proposal_with_nonce C name t (map ui_public_identity us) nonce = Inr p \<and>
    try_map (accept_group C p) us = Inr as \<and> gc_proposal c = p \<and> certificate_validate C c = Inr () \<and>
    (\<forall>bs. mset bs = mset as \<longrightarrow> finalize_group C p bs = Inr c)"
  by (rule formation_from_identities [OF assms])

section \<open>Witnesses\<close>

definition sample_members :: "unlocked_identity list" where
  "sample_members = [sample_identity 7, sample_identity 1]"

lemma sample_members_ok:
  "list_all (wf_unlocked sample_chain_host) sample_members" "distinct (map ui_identity_id sample_members)"
  "length sample_members = 2" "validate_group_name (ascii ''Group'') = Inr ()" "0 < unat (2 :: u16)" "unat (2 :: u16) \<le> 2"
proof -
  show "list_all (wf_unlocked sample_chain_host) sample_members" by (simp add: sample_members_def sample_identity_wf)
  have "ui_identity_id (sample_identity 7) \<noteq> ui_identity_id (sample_identity 1)" by code_simp
  then show "distinct (map ui_identity_id sample_members)" by (simp add: sample_members_def)
  show "validate_group_name (ascii ''Group'') = Inr ()" by code_simp
qed (simp_all add: sample_members_def)

theorem group_formation_witness:
  "\<exists>p as c. proposal_with_nonce sample_chain_host (ascii ''Group'') 2 (map ui_public_identity sample_members) (replicate 32 5) = Inr p \<and>
     try_map (accept_group sample_chain_host p) sample_members = Inr as \<and> certificate_validate sample_chain_host c = Inr () \<and>
     finalize_group sample_chain_host p (rev as) = Inr c"
  using group_formation [OF sample_host_contract sample_members_ok(4) _ sample_members_ok(1,2), of "replicate 32 5" 2]
    sample_members_ok(3,5,6) by fastforce

lemma sample_certificate: "\<exists>c. certificate_validate sample_chain_host c = Inr ()"
proof -
  have "length sample_members \<le> 64" "unat (2 :: u16) \<le> length sample_members" using sample_members_ok(3) by simp_all
  from formation_from_identities [OF sample_host_contract sample_members_ok(4) length_replicate sample_members_ok(1,2)
      this(1) sample_members_ok(5) this(2)] show ?thesis by blast
qed

theorem certificate_unanimous_witness:
  "\<exists>c. certificate_validate sample_chain_host c = Inr () \<and>
     distinct (map (identity_id_unchecked sample_chain_host) (gp_members (gc_proposal c)))"
  using sample_certificate certificate_unanimous [of sample_chain_host] by blast

lemma group_ceremony_total:
  assumes "proposal_validate C p = Inr ()"
  shows "\<exists>st. group_ceremony_status C p as = Inr st"
proof -
  note f = proposal_validate_facts [OF assms]
  have "\<exists>ms. pending_members C (gp_members p) = Inr ms"
    unfolding pending_members_def is_ok_iff [symmetric] is_ok_try_map
    using f(1) identity_validate_unchecked by (fastforce simp: is_ok_iff)
  with f(7) assms show ?thesis
    by (auto simp: group_ceremony_status_def proposal_group_id_def split_def)
qed


end
