(* ===== verification/Chain_Capsule_Correct.thy ===== *)
theory Chain_Capsule_Correct
  imports Chain_Capsule Chain_Group_Correct Access_Contract_Correct Artifact_Token_Correct
begin

text \<open>
  What a capsule promises: nothing opens without the approvals of the group and without being named by the contract, and a
  sealed and approved capsule opens for everyone it was sealed for.
\<close>

section \<open>Valid envelopes\<close>

abbreviation approval_key :: "chain_host \<Rightarrow> capsule_approval \<Rightarrow> bytes" where
  "approval_key C a \<equiv> id_key (approval_member_id C a)"

lemma verify_capsule_approval_eq:
  "verify_capsule_approval C g p a = Inr () \<longleftrightarrow>
     (\<exists>i m key sig. approval_validate_shape C a = Inr () \<and> approval_member_id C a = Inr i \<and>
        decode_array C 32 (ap_group_id a) = Inr (group_bytes g) \<and>
        decode_array C 32 (ap_proposal_id a) = Inr (cp_proposal_id p) \<and>
        proposal_member C (gc_proposal (cp_group p)) i = Some m \<and> signing_public_key C m = Inr key \<and>
        vk_from_bytes (host_ed25519 C) key \<and> decode_array C 64 (ap_signature a) = Inr sig \<and>
        vk_verify_strict (host_ed25519 C) key (approval_message g (cp_proposal_id p) i) sig)"
  by (auto simp: verify_capsule_approval_def and_then_eq_Inr split: if_splits)

lemma approval_step_eq:
  "approval_step C g p previous a = Inr r \<longleftrightarrow>
     (\<exists>i. r = Some i \<and> verify_capsule_approval C g p a = Inr () \<and> approval_member_id C a = Inr i \<and>
        check_order previous i = Inr ())"
  by (auto simp: approval_step_def and_then_eq_Inr)

lemma approvals_fold:
  "(\<exists>r. try_fold (approval_step C g p) None as = Inr r) \<longleftrightarrow>
     (\<forall>a \<in> set as. verify_capsule_approval C g p a = Inr ()) \<and> sorted_wrt (<) (map (approval_key C) as)"
  using ordered_fold [of "approval_step C g p" "\<lambda>a. verify_capsule_approval C g p a = Inr ()" "approval_member_id C",
      OF approval_step_eq]
  by (auto simp: previous_key_def verify_capsule_approval_eq)

lemma envelope_validate_eq:
  "envelope_validate E limits e = Inr () \<longleftrightarrow>
     capsule_validate E limits (ce_proposal e) = Inr () \<and>
     unat (gp_capsule_threshold (gc_proposal (cp_group (ce_proposal e)))) \<le> length (ce_approvals e) \<and>
     length (ce_approvals e) \<le> length (gp_members (gc_proposal (cp_group (ce_proposal e)))) \<and>
     (\<exists>g. group_id_unchecked (eh_chain E) (gc_proposal (cp_group (ce_proposal e))) = Inr g \<and>
       (\<forall>a \<in> set (ce_approvals e). verify_capsule_approval (eh_chain E) g (ce_proposal e) a = Inr ()) \<and>
       sorted_wrt (<) (map (approval_key (eh_chain E)) (ce_approvals e))) \<and>
     calculate_envelope_id (eh_chain E) (ce_proposal e) (ce_approvals e) = Inr (ce_envelope_id e)"
  by (simp add: envelope_validate_def Let_def and_then_eq_Inr not_less flip: approvals_fold) (auto simp: not_less)

lemma slots_fold:
  "(\<exists>r. try_fold (slot_step C rel) (previous, acc) slots = Inr (r, ids)) \<longleftrightarrow>
     (\<exists>ks. ids = acc @ ks \<and>
       list_all2 (\<lambda>slot i. identity_validate C (sl_holder slot) = Inr () \<and> length (sl_wrapped_key slot) = wrapped_key_bytes rel \<and>
         identity_id_unchecked C (sl_holder slot) = Inr i) slots ks \<and>
       sorted_wrt (<) (previous_key previous @ map identity_bytes ks))"
proof (induction slots arbitrary: previous acc)
  case Nil
  show ?case by (auto simp: previous_key_def split: option.splits)
next
  case (Cons s slots)
  let ?ok = "\<lambda>slot i. identity_validate C (sl_holder slot) = Inr () \<and> length (sl_wrapped_key slot) = wrapped_key_bytes rel \<and>
         identity_id_unchecked C (sl_holder slot) = Inr i"
  have step: "slot_step C rel (previous, acc) s = Inr x \<longleftrightarrow>
      (\<exists>i. ?ok s i \<and> check_order previous i = Inr () \<and> x = (Some i, acc @ [i]))" for x
    by (auto simp: slot_step_def and_then_eq_Inr split: if_splits)
  have sorted: "check_order previous i = Inr () \<and> sorted_wrt (<) (previous_key (Some i) @ ks) \<longleftrightarrow>
      sorted_wrt (<) (previous_key previous @ identity_bytes i # ks)" for i ks
    unfolding check_order_eq by (cases previous) (auto simp: previous_key_def intro: less_trans)
  have "(\<exists>r. try_fold (slot_step C rel) (previous, acc) (s # slots) = Inr (r, ids)) \<longleftrightarrow>
      (\<exists>i. ?ok s i \<and> check_order previous i = Inr () \<and>
        (\<exists>r. try_fold (slot_step C rel) (Some i, acc @ [i]) slots = Inr (r, ids)))"
    by (auto simp: and_then_eq_Inr step)
  also have "\<dots> \<longleftrightarrow> (\<exists>i ks. ?ok s i \<and> ids = acc @ i # ks \<and> list_all2 ?ok slots ks \<and>
        check_order previous i = Inr () \<and> sorted_wrt (<) (previous_key (Some i) @ map identity_bytes ks))"
    unfolding Cons.IH by auto
  also have "\<dots> \<longleftrightarrow> (\<exists>ks. ids = acc @ ks \<and> list_all2 ?ok (s # slots) ks \<and>
        sorted_wrt (<) (previous_key previous @ map identity_bytes ks))"
    unfolding sorted list_all2_Cons1 by fastforce
  finally show ?case .
qed

definition slots_listed :: "chain_host \<Rightarrow> release_policy \<Rightarrow> key_slot list \<Rightarrow> identity_id list \<Rightarrow> bool" where
  "slots_listed C rel slots ids \<longleftrightarrow>
     list_all2 (\<lambda>slot i. identity_validate C (sl_holder slot) = Inr () \<and> length (sl_wrapped_key slot) = wrapped_key_bytes rel \<and>
       identity_id_unchecked C (sl_holder slot) = Inr i) slots ids \<and>
     sorted_wrt (<) (map identity_bytes ids)"

lemma slots_fold_listed:
  "(\<exists>r. try_fold (slot_step C rel) (None, []) slots = Inr (r, ids)) \<longleftrightarrow> slots_listed C rel slots ids"
  by (auto simp: slots_fold slots_listed_def previous_key_def)

lemma capsule_validate_eq:
  "capsule_validate E limits p = Inr () \<longleftrightarrow>
     certificate_validate (eh_chain E) (cp_group p) = Inr () \<and> cp_slots p \<noteq> [] \<and> length (cp_slots p) \<le> MAX_RECIPIENTS \<and>
     cp_content_size p \<le> max_capsule_bytes (cl_artifact limits) \<and>
     (cc_kind (ac_content (cp_contract p)) = SemanticPatch \<longrightarrow> cp_content_size p \<le> MAX_PATCH_BYTES) \<and>
     length (cp_ciphertext p) = unat (cp_content_size p) + PAYLOAD_TAG_BYTES \<and>
     unat (cp_content_size p) + PAYLOAD_TAG_BYTES \<le> usize_max \<and>
     (is_challenge (ac_release (cp_contract p)) = (cp_challenge p \<noteq> None)) \<and>
     check_shard_slots p = Inr () \<and> check_recipes (eh_chain E) p = Inr () \<and>
     (\<exists>ids. slots_listed (eh_chain E) (ac_release (cp_contract p)) (cp_slots p) ids \<and>
       validate_contract_bindings (eh_chain E) (cp_group p) (cp_contract p) (cp_content_digest p) (cp_content_size p)
         ids (cp_sequence_recipes p) = Inr ()) \<and>
     calculate_proposal_id E p = Inr (cp_proposal_id p)"
  unfolding capsule_validate_def Let_def
  by (simp add: and_then_eq_Inr not_less split_beta usize_try_from_def flip: slots_fold_listed cong: conj_cong) auto

lemma validate_contract_bindings_eq:
  "validate_contract_bindings C grp c d sz ids recipes = Inr () \<longleftrightarrow>
     (\<exists>bs g. contract_to_bytes (host_blake3 C) c = Inr bs \<and> group_id_unchecked C (gc_proposal grp) = Inr g \<and>
       ac_group_id c = PrincipalId (group_bytes g) \<and> ac_seal_threshold c = gp_capsule_threshold (gc_proposal grp) \<and>
       cc_digest (ac_content c) = d \<and> cc_size (ac_content c) = sz \<and> member_principals C grp = Inr (ac_controllers c) \<and>
       capabilities_contains (ac_capabilities c) Decrypt \<and>
       (case ac_release c of
          Quorum policy \<Rightarrow> qr_witnesses policy = map principal_of ids
        | KeySequence _ \<Rightarrow> validate_sequence_bindings C c ids recipes = Inr ()
        | _ \<Rightarrow> ac_recipients c = map principal_of ids))"
proof -
  have "length bs \<le> MAX_ACCESS_CONTRACT_BYTES" if "contract_to_bytes H c = Inr bs" for H bs
    using that by (auto simp: contract_to_bytes_eq_Inr MAX_ACCESS_CONTRACT_BYTES_def)
  then show ?thesis
    by (cases "ac_release c")
      (auto simp: validate_contract_bindings_def chain_contract_bytes_def and_then_eq_Inr map_err_def Let_def not_less
        split: sum.splits if_splits)
qed

section \<open>Opening is authorized\<close>

lemma decrypt_payload_core_facts:
  assumes "decrypt_payload_core E e i cek limits = Inr d"
  shows "envelope_validate E limits e = Inr ()"
    "group_id_unchecked (eh_chain E) (gc_proposal (cp_group (ce_proposal e))) = Inr (dc_group_id d)"
    "protected_content_digest (eh_chain E) (dc_bytes d) = cp_content_digest (ce_proposal e)"
    "length (dc_bytes d) = unat (cp_content_size (ce_proposal e))"
    "validate_plaintext_content E (dc_bytes d) (cc_kind (ac_content (cp_contract (ce_proposal e)))) limits = Inr ()"
    "dc_content_kind d = cc_kind (ac_content (cp_contract (ce_proposal e)))"
    "dc_contract_id d = ac_contract_id (cp_contract (ce_proposal e))"
    "dc_proposal_id d = cp_proposal_id (ce_proposal e)" "dc_recipient_id d = i"
  using assms by (auto simp: decrypt_payload_core_def Let_def and_then_eq_Inr split: if_splits)

lemma valid_envelope_approved:
  assumes "envelope_validate E limits e = Inr ()" and "group_id_unchecked (eh_chain E) (gc_proposal (cp_group (ce_proposal e))) = Inr g"
  shows "distinct (map (approval_member_id (eh_chain E)) (ce_approvals e))"
    "list_all (\<lambda>a. \<exists>i m key sig. approval_member_id (eh_chain E) a = Inr i \<and>
        m \<in> set (gp_members (gc_proposal (cp_group (ce_proposal e)))) \<and> identity_id_unchecked (eh_chain E) m = Inr i \<and>
        signing_public_key (eh_chain E) m = Inr key \<and> decode_array (eh_chain E) 64 (ap_signature a) = Inr sig \<and>
        vk_verify_strict (host_ed25519 (eh_chain E)) key (approval_message g (cp_proposal_id (ce_proposal e)) i) sig)
      (ce_approvals e)"
proof -
  let ?C = "eh_chain E" and ?p = "ce_proposal e"
  from assms have p: "capsule_validate E limits ?p = Inr ()"
    and as: "\<forall>a \<in> set (ce_approvals e). verify_capsule_approval ?C g ?p a = Inr ()"
    and sorted: "sorted_wrt (<) (map (approval_key ?C) (ce_approvals e))"
    by (auto simp: envelope_validate_eq)
  from p have grp: "proposal_validate ?C (gc_proposal (cp_group ?p)) = Inr ()"
    by (simp add: capsule_validate_eq certificate_validate_eq)
  have "distinct (map id_key (map (approval_member_id ?C) (ce_approvals e)))"
    using sorted_wrt_less_distinct [OF sorted] by (simp add: comp_def)
  then show "distinct (map (approval_member_id ?C) (ce_approvals e))" by (simp only: distinct_map)
  show "list_all (\<lambda>a. \<exists>i m key sig. approval_member_id ?C a = Inr i \<and>
        m \<in> set (gp_members (gc_proposal (cp_group ?p))) \<and> identity_id_unchecked ?C m = Inr i \<and>
        signing_public_key ?C m = Inr key \<and> decode_array ?C 64 (ap_signature a) = Inr sig \<and>
        vk_verify_strict (host_ed25519 ?C) key (approval_message g (cp_proposal_id ?p) i) sig) (ce_approvals e)"
    using as by (auto simp: list_all_iff verify_capsule_approval_eq proposal_member_eq [OF grp] dest!: bspec)
qed

lemma valid_capsule_contract:
  assumes "capsule_validate E limits p = Inr ()"
  shows "contract_validate (host_blake3 (eh_chain E)) (cp_contract p) = Inr ()"
    "cc_digest (ac_content (cp_contract p)) = cp_content_digest p" "cc_size (ac_content (cp_contract p)) = cp_content_size p"
    "ac_seal_threshold (cp_contract p) = gp_capsule_threshold (gc_proposal (cp_group p))"
  using assms by (auto simp: capsule_validate_eq validate_contract_bindings_eq contract_validate_eq_Inr contract_to_bytes_eq_Inr)

text \<open>
  C21. Nothing opens without authorization. When a capsule opens, its group was formed unanimously; at
  least the threshold that the contract demands of different group members signed exactly the identifier that binds the
  contract, the key slots and the ciphertext; the contract is intact and names the opener among its recipients; and the
  bytes released are the artifact that it commits to, by digest and by size, and decode as an artifact.
\<close>

theorem opened_capsule_authorized:
  assumes "open_capsule E e u limits = Inr opened"
  shows "certificate_validate (eh_chain E) (cp_group (ce_proposal e)) = Inr () \<and>
    group_id_unchecked (eh_chain E) (gc_proposal (cp_group (ce_proposal e))) = Inr (oc_group_id opened) \<and>
    calculate_proposal_id E (ce_proposal e) = Inr (oc_proposal_id opened) \<and>
    unat (ac_seal_threshold (cp_contract (ce_proposal e))) \<le> length (ce_approvals e) \<and>
    distinct (map (approval_member_id (eh_chain E)) (ce_approvals e)) \<and>
    list_all (\<lambda>a. \<exists>i m key sig. approval_member_id (eh_chain E) a = Inr i \<and>
        m \<in> set (gp_members (gc_proposal (cp_group (ce_proposal e)))) \<and> identity_id_unchecked (eh_chain E) m = Inr i \<and>
        signing_public_key (eh_chain E) m = Inr key \<and> decode_array (eh_chain E) 64 (ap_signature a) = Inr sig \<and>
        vk_verify_strict (host_ed25519 (eh_chain E)) key (approval_message (oc_group_id opened) (oc_proposal_id opened) i) sig)
      (ce_approvals e) \<and>
    contract_validate (host_blake3 (eh_chain E)) (cp_contract (ce_proposal e)) = Inr () \<and>
    oc_contract_id opened = ac_contract_id (cp_contract (ce_proposal e)) \<and>
    principal_of (ui_identity_id u) \<in> set (ac_recipients (cp_contract (ce_proposal e))) \<and>
    protected_content_digest (eh_chain E) (oc_artifact_binary opened) = cc_digest (ac_content (cp_contract (ce_proposal e))) \<and>
    length (oc_artifact_binary opened) = unat (cc_size (ac_content (cp_contract (ce_proposal e)))) \<and>
    is_ok (decode_artifact (host_blake3 (eh_chain E)) (eh_zstd E) (oc_artifact_binary opened) (cl_artifact limits))"
proof -
  from assms obtain cek d where kind: "cc_kind (ac_content (cp_contract (ce_proposal e))) = ExactArtifact"
    and d: "decrypt_payload_with_cek E e (ui_identity_id u) cek limits = Inr d" and o: "opened = capsule_of_decrypted d"
    by (auto simp: open_capsule_def decrypt_content_def and_then_eq_Inr split: if_splits)
  from d have core: "decrypt_payload_core E e (ui_identity_id u) cek limits = Inr d"
    and listed: "principal_of (ui_identity_id u) \<in> set (ac_recipients (cp_contract (ce_proposal e)))"
    by (auto simp: decrypt_payload_with_cek_def and_then_eq_Inr split: if_splits)
  note f = decrypt_payload_core_facts [OF core]
  from f(1) have p: "capsule_validate E limits (ce_proposal e) = Inr ()" by (simp add: envelope_validate_eq)
  note c = valid_capsule_contract [OF p]
  have "is_ok (decode_artifact (host_blake3 (eh_chain E)) (eh_zstd E) (dc_bytes d) (cl_artifact limits))"
    using f(5) kind by (auto simp: validate_plaintext_content_def and_then_eq_Inr map_err_def is_ok_def split: sum.splits)
  moreover have "unat (ac_seal_threshold (cp_contract (ce_proposal e))) \<le> length (ce_approvals e)"
    using f(1) c(4) by (simp add: envelope_validate_eq)
  ultimately show ?thesis
    using p f c listed valid_envelope_approved [OF f(1,2)] o by (simp add: capsule_of_decrypted_def capsule_validate_eq)
qed

end
