(* ===== verification/Chain_Capsule_Delivery.thy ===== *)
theory Chain_Capsule_Delivery
  imports Chain_Capsule_Correct Semantic_Patch_Correct
begin

text \<open>
  Delivery: what is sealed for a list of identities and approved by enough members is opened by each of them. The
  libraries meet \<open>host_contract\<close>, and in addition encryption and printing do not fail.
\<close>

section \<open>Holders in canonical order\<close>

abbreviation unlocked_key :: "unlocked_identity \<Rightarrow> bytes" where
  "unlocked_key u \<equiv> identity_bytes (ui_identity_id u)"

definition ordered_identities :: "chain_host \<Rightarrow> unlocked_identity list \<Rightarrow> bool" where
  "ordered_identities C us \<longleftrightarrow> us \<noteq> [] \<and> length us \<le> 64 \<and> list_all (wf_unlocked C) us \<and> sorted_wrt (<) (map unlocked_key us)"

lemma ordered_identities_keys:
  assumes "list_all (wf_unlocked C) us"
  shows "map (member_key C) (map ui_public_identity us) = map unlocked_key us"
    "try_map (identity_id_unchecked C) (map ui_public_identity us) = Inr (map ui_identity_id us)"
    "identity_principals C (map ui_public_identity us) = Inr (map (\<lambda>u. principal_of (ui_identity_id u)) us)"
  using assms unfolding identity_principals_def by (induction us) (simp_all add: wf_unlocked_def)

lemma canonical_identities_valid:
  assumes "list_all (wf_unlocked C) us" "us \<noteq> []" "length us \<le> 64"
  shows "canonical_identities C (map ui_public_identity us) =
    (if distinct (map (member_key C) (map ui_public_identity us))
     then Inr (sort_key (member_key C) (map ui_public_identity us)) else Inl ChainDuplicateIdentity)"
proof -
  let ?ds = "map ui_public_identity us"
  have "\<exists>i. identity_id_unchecked C d = Inr i" if "d \<in> set ?ds" for d
    using that assms(1) by (auto simp: list_all_iff wf_unlocked_def)
  note window = sorted_by_id(1) [of ?ds "identity_id_unchecked C", OF this]
  have "try_for_each (identity_validate C) ?ds = Inr ()" using assms(1) by (simp add: list_all_iff wf_unlocked_def)
  then show ?thesis
    using assms(2,3) window by (auto simp: canonical_identities_def MAX_RECIPIENTS_def Let_def simp del: try_for_each_eq_Inr)
qed

lemma canonical_ordered_identities:
  assumes "ordered_identities C us"
  shows "canonical_identities C (map ui_public_identity us) = Inr (map ui_public_identity us)"
proof -
  from assms have us: "list_all (wf_unlocked C) us" "us \<noteq> []" "length us \<le> 64" "sorted_wrt (<) (map unlocked_key us)"
    by (simp_all add: ordered_identities_def)
  have sorted: "sorted_wrt (<) (map (member_key C) (map ui_public_identity us))"
    using us(1,4) by (simp only: ordered_identities_keys(1))
  then have "sort_key (member_key C) (map ui_public_identity us) = map ui_public_identity us"
    by (intro sort_key_id_if_sorted strict_sorted_imp_sorted)
  with members_distinct [OF sorted] canonical_identities_valid [OF us(1-3)] show ?thesis by (simp only: if_True)
qed

lemma canonical_identities_sorted:
  assumes us: "list_all (wf_unlocked C) us" "distinct (map ui_identity_id us)" "us \<noteq> []" "length us \<le> 64"
  defines "vs \<equiv> sort_key unlocked_key us"
  shows "ordered_identities C vs" "canonical_identities C (map ui_public_identity us) = Inr (map ui_public_identity vs)"
proof -
  note dk = unlocked_keys_distinct [OF us(1,2)]
  have m: "mset us = mset vs" by (simp add: vs_def)
  have "distinct (map unlocked_key vs)"
    using dk distinct_map_mset [OF m, of unlocked_key] unfolding ordered_identities_keys(1) [OF us(1)] by blast
  then have sorted: "sorted_wrt (<) (map unlocked_key vs)" unfolding strict_sorted_iff by (simp add: vs_def)
  have vs: "list_all (wf_unlocked C) vs" "vs \<noteq> []" "length vs \<le> 64"
    using us(1,3,4) mset_eq_length [OF m] mset_eq_setD [OF m] by (simp_all add: list_all_iff) (use us(3) in force)
  with sorted show ord: "ordered_identities C vs" by (simp add: ordered_identities_def)
  have "mset (map ui_public_identity us) = mset (map ui_public_identity vs)" using m by simp
  then have "sort_key (member_key C) (map ui_public_identity us) = sort_key (member_key C) (map ui_public_identity vs)"
    using dk by (rule sort_by_distinct_key)
  also have "\<dots> = map ui_public_identity vs"
    using canonical_ordered_identities [OF ord] canonical_identities_valid [OF vs] by (simp split: if_splits)
  finally show "canonical_identities C (map ui_public_identity us) = Inr (map ui_public_identity vs)"
    unfolding canonical_identities_valid [OF us(1,3,4)] using dk by (simp only: if_True)
qed

section \<open>Contracts\<close>

lemma principal_of_less: "principal_of i < principal_of j \<longleftrightarrow> identity_bytes i < identity_bytes j"
  by (simp add: principal_of_def less_principal_id_def)

lemma sorted_principals: "sorted_wrt (<) (map principal_of ids) \<longleftrightarrow> sorted_wrt (<) (map identity_bytes ids)"
  by (simp add: sorted_wrt_map principal_of_less)

lemma validate_shape_id [simp]: "validate_shape (c\<lparr> ac_contract_id := i \<rparr>) = validate_shape c"
  by (cases c) (simp only: validate_shape_def access_contract.simps)

lemma build_contract_ok:
  assumes c: "c = \<lparr> ac_contract_nonce = nonce, ac_group_id = PrincipalId (group_bytes g), ac_controllers = controllers,
      ac_seal_threshold = gp_capsule_threshold (gc_proposal grp), ac_recipients = recipients, ac_capabilities = caps,
      ac_content = \<lparr> cc_kind = kind, cc_digest = d, cc_size = sz \<rparr>, ac_release = release,
      ac_contract_id = ContractId (replicate 32 0) \<rparr>"
    and shape: "validate_shape c = Inr ()" and rng: "rng 0 32 = Some nonce"
  shows "build_contract C rng grp g controllers recipients kind d sz caps release =
      Inr (c\<lparr> ac_contract_id := ContractId (host_blake3 C CONTRACT_ID_CONTEXT (wire_body c)) \<rparr>)"
    (is "_ = Inr ?c")
proof -
  have sorted: "sorted_wrt (<) controllers" "sorted_wrt (<) recipients" "controllers \<noteq> []" "recipients \<noteq> []"
    "length controllers \<le> 64" "length recipients \<le> 64"
    using shape by (simp_all add: validate_shape_eq_Inr c)
  then have canon: "canonical_principals controllers = Inr controllers" "canonical_principals recipients = Inr recipients"
    by (simp_all add: canonical_principals_eq_Inr sorted_sort_id strict_sorted_iff)
  have id: "calculate_contract_id (host_blake3 C) c = Inr (host_blake3 C CONTRACT_ID_CONTEXT (wire_body c))"
    by (simp add: calculate_contract_id_def put_body_shape [OF shape])
  have "validate_shape ?c = Inr ()" using shape by simp
  moreover have "contract_bound (host_blake3 C) ?c" by (simp add: contract_bound_def wire_body_def)
  ultimately have "contract_validate (host_blake3 C) ?c = Inr ()" by (simp add: contract_validate_eq_Inr)
  then show ?thesis
    using rng canon shape id
    by (simp add: build_contract_def contract_new_def with_nonce_def builder_new_def builder_controllers_def
        builder_recipients_def builder_capabilities_def builder_release_def Let_def flip: c) (simp add: c)
qed

lemma built_contract_bytes:
  assumes "blake3_contract (host_blake3 C)" and "wf_contract c" and "validate_shape c = Inr ()"
  defines "c' \<equiv> c\<lparr> ac_contract_id := ContractId (host_blake3 C CONTRACT_ID_CONTEXT (wire_body c)) \<rparr>"
  shows "\<exists>bs. contract_to_bytes (host_blake3 C) c' = Inr bs"
proof -
  have "wf_contract c'" using assms(1,2) by (simp add: wf_contract_def c'_def blake3_contract_def)
  moreover have "validate_shape c' = Inr ()" using assms(3) by (simp add: c'_def)
  moreover have "contract_bound (host_blake3 C) c'" by (simp add: contract_bound_def wire_body_def c'_def)
  ultimately show ?thesis by (simp add: contract_to_bytes_iff)
qed

lemma proposal_core_ok:
  assumes "certificate_validate (eh_chain E) grp = Inr ()" "json_to_vec_pretty (eh_certificate_json E) grp \<noteq> None"
    and "contract_to_bytes (host_blake3 (eh_chain E)) c = Inr bs"
  shows "\<exists>core. proposal_core E grp c n1 n2 = Inr core"
proof -
  from assms(1) obtain g where "group_id_unchecked (eh_chain E) (gc_proposal grp) = Inr g"
    by (auto simp: certificate_validate_eq)
  moreover have "length bs \<le> 16384" using assms(3) by (auto simp: contract_to_bytes_eq_Inr)
  then have "try_from_usize ChainLengthOverflow (length bs) = Inr (of_nat (length bs) :: u32)" by (simp add: try_from_usize_ok)
  ultimately show ?thesis
    using assms(2,3)
    by (auto simp: proposal_core_def Let_def certificate_to_json_def document_to_json_def chain_contract_bytes_def
        chain_put_bytes_u32_def simp del: try_from_usize_eq_Inr)
qed

section \<open>Sealing\<close>

definition sealing_works :: "('r, 'n, 'e, 'd) envelope_host \<Rightarrow> bool" where
  "sealing_works E \<longleftrightarrow>
     host_contract (eh_chain E) \<and> (\<forall>k n a m. aead_encrypt (eh_chain E) k n a m \<noteq> None) \<and>
     (\<forall>i pk info m a. hpke_seal (eh_chain E) i pk info m a \<noteq> None) \<and>
     (\<forall>grp. json_to_vec_pretty (eh_certificate_json E) grp \<noteq> None)"

definition slot_opens ::
    "('r, 'n, 'e, 'd) envelope_host \<Rightarrow> group_id \<Rightarrow> bytes \<Rightarrow> bytes \<Rightarrow> release_policy \<Rightarrow> key_slot \<Rightarrow> unlocked_identity \<Rightarrow> bytes \<Rightarrow> bool" where
  "slot_opens E g nonce core rel slot u m \<longleftrightarrow>
     sl_holder slot = ui_public_identity u \<and> length (sl_wrapped_key slot) = wrapped_key_bytes rel \<and>
     hpke_encapped_key (eh_chain E) (sl_encapped_key slot) \<and>
     hpke_open (eh_chain E) (hpke_private_key (eh_chain E) u) (sl_encapped_key slot)
       (key_slot_info g nonce (ui_identity_id u) rel) (sl_wrapped_key slot) (core_digest_of E core) = Some m"

lemma seal_slot_ok:
  assumes E: "sealing_works E" and u: "wf_unlocked (eh_chain E) u" and m: "length m + 16 = wrapped_key_bytes rel"
  shows "\<exists>slot. seal_slot E g nonce core rel (call, (ui_public_identity u, ui_identity_id u), m) = Inr slot \<and>
    slot_opens E g nonce core rel slot u m"
proof -
  let ?C = "eh_chain E" and ?pk = "snd (derive_keypair (eh_chain E) (ui_encryption_ikm u))"
  let ?info = "key_slot_info g nonce (ui_identity_id u) rel"
  from E have C: "host_contract ?C" by (simp add: sealing_works_def)
  obtain e c where seal: "hpke_seal ?C call ?pk ?info m (core_digest_of E core) = Some (e, c)"
    using E unfolding sealing_works_def by (metis not_Some_eq surj_pair)
  note h = host_hpke [OF C seal]
  have "encryption_public_key ?C (ui_public_identity u) = Inr ?pk" "hpke_public_key ?C ?pk"
    using u host_keys(7) [OF C] by (simp_all add: wf_unlocked_def)
  then show ?thesis
    using seal h m
    by (simp add: seal_slot_def Let_def array_of_slice_def HPKE_ENCAPPED_KEY_BYTES_def slot_opens_def hpke_private_key_def)
qed

lemma seal_slots_ok:
  assumes E: "sealing_works E" and us: "list_all (wf_unlocked (eh_chain E)) us" "length ms = length us"
    and m: "\<forall>m \<in> set ms. length m + 16 = wrapped_key_bytes rel"
  shows "\<exists>slots. try_map (seal_slot E g nonce core rel)
      (enumerate k (zip (zip (map ui_public_identity us) (map ui_identity_id us)) ms)) = Inr slots \<and>
    list_all2 (\<lambda>slot (u, m). slot_opens E g nonce core rel slot u m) slots (zip us ms)"
  using us m
proof (induction us arbitrary: k ms)
  case (Cons u us)
  then obtain m ns where ms: "ms = m # ns" by (cases ms) simp_all
  with Cons.prems obtain slot where "seal_slot E g nonce core rel (k, (ui_public_identity u, ui_identity_id u), m) = Inr slot"
    "slot_opens E g nonce core rel slot u m" using seal_slot_ok [OF E, of u m rel g nonce core k] by auto
  moreover have "\<exists>slots. try_map (seal_slot E g nonce core rel)
      (enumerate (Suc k) (zip (zip (map ui_public_identity us) (map ui_identity_id us)) ns)) = Inr slots \<and>
    list_all2 (\<lambda>slot (u, m). slot_opens E g nonce core rel slot u m) slots (zip us ns)"
    by (rule Cons.IH) (use Cons.prems ms in simp_all)
  ultimately show ?case using ms by auto
qed simp

lemma calculate_proposal_id_ok:
  assumes "core_bytes E p = Inr core" "\<forall>slot \<in> set (cp_slots p). \<exists>i. identity_id_unchecked (eh_chain E) (sl_holder slot) = Inr i"
    and "cp_sequence_recipes p = None"
  shows "\<exists>i. calculate_proposal_id E p = Inr i"
proof -
  have "\<exists>out'. try_fold (slot_id_bytes (eh_chain E)) out slots = Inr out'"
    if "\<forall>slot \<in> set slots. \<exists>i. identity_id_unchecked (eh_chain E) (sl_holder slot) = Inr i" for slots out
    using that by (induction slots arbitrary: out) (fastforce simp: slot_id_bytes_def)+
  from this [OF assms(2), of "[]"] obtain out where "try_fold (slot_id_bytes (eh_chain E)) [] (cp_slots p) = Inr out" by blast
  then show ?thesis using assms(1,3) by (simp add: calculate_proposal_id_def Let_def)
qed

text \<open>A proposal that holds \<open>content\<close> under the key \<open>cek\<close>, with the secret \<open>m\<close> in the slot of each holder.\<close>

definition sealed_content ::
    "('r, 'n, 'e, 'd) envelope_host \<Rightarrow> chain_limits \<Rightarrow> capsule_proposal \<Rightarrow> bytes \<Rightarrow> bytes \<Rightarrow> unlocked_identity list \<Rightarrow> bytes list \<Rightarrow> bool" where
  "sealed_content E limits p content cek us ms \<longleftrightarrow>
     capsule_validate E limits p = Inr () \<and> length cek = 32 \<and>
     (\<exists>g core. group_id_unchecked (eh_chain E) (gc_proposal (cp_group p)) = Inr g \<and> core_bytes E p = Inr core \<and>
       aead_encrypt (eh_chain E) cek (cp_payload_nonce p) (payload_aad core) content = Some (cp_ciphertext p) \<and>
       list_all2 (\<lambda>slot (u, m). slot_opens E g (cp_proposal_nonce p) core (ac_release (cp_contract p)) slot u m)
         (cp_slots p) (zip us ms)) \<and>
     cp_content_digest p = protected_content_digest (eh_chain E) content \<and> unat (cp_content_size p) = length content \<and>
     validate_plaintext_content E content (cc_kind (ac_content (cp_contract p))) limits = Inr () \<and>
     ordered_identities (eh_chain E) us \<and> length ms = length us"

lemma slots_listed_sealed:
  assumes "list_all2 (\<lambda>slot (u, m). slot_opens E g nonce core rel slot u m) slots (zip us ms)" "length ms = length us"
    and "ordered_identities (eh_chain E) us"
  shows "slots_listed (eh_chain E) rel slots (map ui_identity_id us)" "length slots = length us"
proof -
  show len: "length slots = length us" using list_all2_lengthD [OF assms(1)] assms(2) by simp
  have "list_all2 (\<lambda>slot i. identity_validate (eh_chain E) (sl_holder slot) = Inr () \<and>
      length (sl_wrapped_key slot) = wrapped_key_bytes rel \<and> identity_id_unchecked (eh_chain E) (sl_holder slot) = Inr i)
      slots (map ui_identity_id us)"
    using assms len by (auto simp: list_all2_conv_all_nth slot_opens_def ordered_identities_def list_all_length wf_unlocked_def)
  then show "slots_listed (eh_chain E) rel slots (map ui_identity_id us)"
    using assms(3) by (simp add: slots_listed_def ordered_identities_def comp_def)
qed

lemma plaintext_length:
  assumes "validate_plaintext_content E content kind limits = Inr ()"
  shows "kind = ExactArtifact \<Longrightarrow> (of_nat (length content) :: u64) \<le> max_capsule_bytes (cl_artifact limits)"
    "kind = SemanticPatch \<Longrightarrow> (of_nat (length content) :: u64) \<le> MAX_PATCH_BYTES"
    "try_from_usize ChainLengthOverflow (length content) = Inr (of_nat (length content) :: u64)"
    "unat (of_nat (length content) :: u64) = length content"
  using assms
  by (cases kind; auto simp: validate_plaintext_content_def enforce_length_def try_from_usize_def and_then_eq_Inr not_less unat_of_nat
      split: if_splits)+

lemma identify_proposal_ok:
  assumes "core_bytes E p = Inr core" "list_all2 (\<lambda>slot (u, m). slot_opens E g (cp_proposal_nonce p) core rel slot u m) (cp_slots p) (zip us ms)"
    and "length ms = length us" "ordered_identities (eh_chain E) us" "rel = ac_release (cp_contract p)"
    and "certificate_validate (eh_chain E) (cp_group p) = Inr ()"
    and "cp_content_size p \<le> max_capsule_bytes (cl_artifact limits)"
    and "cc_kind (ac_content (cp_contract p)) = SemanticPatch \<longrightarrow> cp_content_size p \<le> MAX_PATCH_BYTES"
    and "length (cp_ciphertext p) = unat (cp_content_size p) + 16" "unat (cp_content_size p) + 16 \<le> usize_max"
    and "validate_contract_bindings (eh_chain E) (cp_group p) (cp_contract p) (cp_content_digest p) (cp_content_size p)
      (map ui_identity_id us) None = Inr ()"
    and "rel = DirectRecipients \<or> (\<exists>q. rel = Quorum q)"
    and "cp_challenge p = None" "cp_shard_slots p = None" "cp_sequence_recipes p = None"
  shows "\<exists>i. identify_proposal E limits p = Inr (p\<lparr> cp_proposal_id := i \<rparr>) \<and>
    capsule_validate E limits (p\<lparr> cp_proposal_id := i \<rparr>) = Inr ()"
proof -
  note listed = slots_listed_sealed [OF assms(2-4)]
  have "\<forall>slot \<in> set (cp_slots p). \<exists>i. identity_id_unchecked (eh_chain E) (sl_holder slot) = Inr i"
    using listed(1) by (auto simp: slots_listed_def list_all2_conv_all_nth in_set_conv_nth)
  then obtain i where i: "calculate_proposal_id E p = Inr i" using calculate_proposal_id_ok [OF assms(1)] assms(15) by blast
  have same: "calculate_proposal_id E (p\<lparr> cp_proposal_id := i \<rparr>) = calculate_proposal_id E p"
    by (simp add: calculate_proposal_id_def core_bytes_def)
  have "cp_slots p \<noteq> []" "length (cp_slots p) \<le> 64"
    using listed(2) assms(4) by (auto simp: ordered_identities_def)
  then have "capsule_validate E limits (p\<lparr> cp_proposal_id := i \<rparr>) = Inr ()"
    unfolding capsule_validate_eq same
    using assms(5-15) i listed(1)
    by (auto simp: MAX_RECIPIENTS_def PAYLOAD_TAG_BYTES_def is_challenge_def check_shard_slots_def check_recipes_def
        split: release_policy.splits)
  with i show ?thesis by (intro exI [of _ i]) (simp add: identify_proposal_def Let_def)
qed

lemma create_with_holders_ok:
  assumes E: "sealing_works E" and grp: "certificate_validate (eh_chain E) grp = Inr ()"
    and us: "ordered_identities (eh_chain E) us"
    and content: "validate_plaintext_content E content (cc_kind (ac_content c)) limits = Inr ()"
      "(of_nat (length content) :: u64) \<le> max_capsule_bytes (cl_artifact limits)" "length content + 16 \<le> usize_max"
    and bind: "validate_contract_bindings (eh_chain E) grp c (protected_content_digest (eh_chain E) content)
      (of_nat (length content)) (map ui_identity_id us) None = Inr ()"
    and rel: "ac_release c = DirectRecipients \<or> (\<exists>q. ac_release c = Quorum q)"
    and rng: "rng 0 32 = Some cek" "length cek = 32" "rng 1 32 = Some nonce" "rng 2 24 = Some payload_nonce"
    and ms: "key_material_for_holders (rng 3) cek (ac_release c) (length us) = Inr ms" "length ms = length us"
      "\<forall>m \<in> set ms. length m + 16 = wrapped_key_bytes (ac_release c)"
  shows "\<exists>p. create_proposal_with_holders E rng grp content (map ui_public_identity us) c WrapPlain limits = Inr p \<and>
    sealed_content E limits p content cek us ms \<and> cp_group p = grp \<and> cp_contract p = c"
proof -
  let ?C = "eh_chain E"
  from E have C: "host_contract ?C" and json: "json_to_vec_pretty (eh_certificate_json E) grp \<noteq> None"
    by (simp_all add: sealing_works_def)
  from bind obtain bs g where bs: "contract_to_bytes (host_blake3 ?C) c = Inr bs"
    and g: "group_id_unchecked ?C (gc_proposal grp) = Inr g" by (auto simp: validate_contract_bindings_eq)
  from proposal_core_ok [OF grp json bs] obtain core where core: "proposal_core E grp c nonce payload_nonce = Inr core" by blast
  obtain ct where ct: "aead_encrypt ?C cek payload_nonce (payload_aad core) content = Some ct"
    using E unfolding sealing_works_def by (meson not_Some_eq)
  from us have wf: "list_all (wf_unlocked ?C) us" and n: "us \<noteq> []" "length us \<le> 64" by (simp_all add: ordered_identities_def)
  from seal_slots_ok [OF E wf ms(2,3), of g nonce core 0] obtain slots where
    slots: "try_map (seal_slot E g nonce core (ac_release c))
      (enumerate 0 (zip (zip (map ui_public_identity us) (map ui_identity_id us)) ms)) = Inr slots"
      "list_all2 (\<lambda>slot (u, m). slot_opens E g nonce core (ac_release c) slot u m) slots (zip us ms)" by blast
  define p where "p = \<lparr> cp_group = grp, cp_contract = c, cp_proposal_nonce = nonce,
      cp_content_digest = protected_content_digest ?C content, cp_content_size = of_nat (length content),
      cp_payload_nonce = payload_nonce, cp_slots = slots, cp_ciphertext = ct, cp_challenge = None, cp_shard_slots = None,
      cp_sequence_recipes = None, cp_proposal_id = replicate 32 0 \<rparr>"
  note len = plaintext_length [OF content(1)]
  have "\<exists>i. identify_proposal E limits p = Inr (p\<lparr> cp_proposal_id := i \<rparr>) \<and>
      capsule_validate E limits (p\<lparr> cp_proposal_id := i \<rparr>) = Inr ()"
  proof (rule identify_proposal_ok [OF _ _ ms(2) us])
    show "core_bytes E p = Inr core" by (simp add: core_bytes_def p_def core)
    show "list_all2 (\<lambda>slot (u, m). slot_opens E g (cp_proposal_nonce p) core (ac_release c) slot u m) (cp_slots p) (zip us ms)"
      using slots(2) by (simp add: p_def)
    show "length (cp_ciphertext p) = unat (cp_content_size p) + 16" using host_aead(1) [OF C ct] len(4) by (simp add: p_def)
    show "cc_kind (ac_content (cp_contract p)) = SemanticPatch \<longrightarrow> cp_content_size p \<le> MAX_PATCH_BYTES"
      using len(2) by (simp add: p_def)
  qed (use grp content(2,3) len(4) bind rel in \<open>simp_all add: p_def\<close>)
  then obtain i where i: "identify_proposal E limits p = Inr (p\<lparr> cp_proposal_id := i \<rparr>)"
      "capsule_validate E limits (p\<lparr> cp_proposal_id := i \<rparr>) = Inr ()" by blast
  have "challenge_slots ?C rng core cek (ac_release c) WrapPlain = Inr (None, None)"
    using rel by (auto simp: challenge_slots_def)
  moreover have "seal_payload ?C cek payload_nonce (payload_aad core) content = Inr ct"
    using ct rng(2) by (simp add: seal_payload_def cipher_new_def array_of_slice_def)
  ultimately have "create_proposal_with_holders E rng grp content (map ui_public_identity us) c WrapPlain limits
      = Inr (p\<lparr> cp_proposal_id := i \<rparr>)"
    using grp content(1) canonical_ordered_identities [OF us] len(3) ordered_identities_keys(2) [OF wf] bind g n rng core ms(1) slots(1) i(1)
    by (simp add: create_proposal_with_holders_def Let_def getrandom_fill_def CEK_BYTES_def PAYLOAD_NONCE_BYTES_def
        MAX_RECIPIENTS_def p_def del: try_from_usize_eq_Inr)
  moreover have "sealed_content E limits (p\<lparr> cp_proposal_id := i \<rparr>) content cek us ms"
    unfolding sealed_content_def
    using i(2) rng(2) g core ct slots(2) len(4) content(1) us ms(2) by (simp add: p_def core_bytes_def)
  ultimately show ?thesis by (auto simp: p_def)
qed

section \<open>Approving\<close>

lemma approve_capsule_verifies:
  assumes C: "host_contract (eh_chain E)" and p: "capsule_validate E limits p = Inr ()" and u: "wf_unlocked (eh_chain E) u"
    and member: "ui_public_identity u \<in> set (gp_members (gc_proposal (cp_group p)))"
    and g: "group_id_unchecked (eh_chain E) (gc_proposal (cp_group p)) = Inr g"
  shows "\<exists>a. approve_capsule E limits p u = Inr a \<and> verify_capsule_approval (eh_chain E) g p a = Inr () \<and>
    approval_key (eh_chain E) a = unlocked_key u"
proof -
  let ?C = "eh_chain E"
  from p have grp: "proposal_validate ?C (gc_proposal (cp_group p)) = Inr ()" and
    i: "calculate_proposal_id E p = Inr (cp_proposal_id p)" by (simp_all add: capsule_validate_eq certificate_validate_eq)
  from u have id: "identity_id_unchecked ?C (ui_public_identity u) = Inr (ui_identity_id u)" by (simp add: wf_unlocked_def)
  with member proposal_member_eq [OF grp]
  have m: "proposal_member ?C (gc_proposal (cp_group p)) (ui_identity_id u) = Some (ui_public_identity u)" by blast
  from g have glen: "length (group_bytes g) = 32"
    by (auto simp: group_id_unchecked_def and_then_eq_Inr dest: decode_array_inv)
  from i obtain ctx parts where "domain_hash ?C ctx parts = cp_proposal_id p"
    unfolding calculate_proposal_id_def Let_def and_then_eq_Inr sum.inject by blast
  with host_hash [OF C, of ctx parts] have plen: "length (cp_proposal_id p) = 32" by simp
  show ?thesis
    using p m g C u id glen plen identity_id_length [OF id] wf_unlocked_sign [OF C u]
    by (simp add: approve_capsule_def verify_capsule_approval_eq approval_validate_shape_def approval_member_id_def Let_def
        wf_unlocked_def group_to_base64_def identity_to_base64_def verify_strict_eq)
qed

lemma calculate_envelope_id_ok:
  assumes "\<forall>a \<in> set as. verify_capsule_approval C g p a = Inr ()"
  shows "\<exists>i. calculate_envelope_id C p as = Inr i"
proof -
  have "\<exists>out'. try_fold (approval_id_bytes C) out as = Inr out'" for out
    using assms by (induction as arbitrary: out) (fastforce simp: approval_id_bytes_def verify_capsule_approval_eq)+
  then obtain out where "try_fold (approval_id_bytes C) [] as = Inr out" by blast
  then show ?thesis by (simp add: calculate_envelope_id_def)
qed

lemma approvals_within_members:
  assumes grp: "proposal_validate C (gc_proposal (cp_group p)) = Inr ()"
    and as: "\<forall>a \<in> set as. verify_capsule_approval C g p a = Inr ()" "distinct (map (approval_key C) as)"
  shows "length as \<le> length (gp_members (gc_proposal (cp_group p)))"
proof -
  have "set (map (approval_key C) as) \<subseteq> set (map (member_key C) (gp_members (gc_proposal (cp_group p))))"
    using as(1) by (force simp: verify_capsule_approval_eq proposal_member_eq [OF grp])
  from card_mono [OF _ this] distinct_card [OF as(2)] card_length
    [of "map (member_key C) (gp_members (gc_proposal (cp_group p)))"] show ?thesis by simp
qed

lemma finalize_capsule_ok:
  assumes p: "capsule_validate E limits p = Inr ()" and g: "group_id_unchecked (eh_chain E) (gc_proposal (cp_group p)) = Inr g"
    and as: "\<forall>a \<in> set as. verify_capsule_approval (eh_chain E) g p a = Inr ()" "distinct (map (approval_key (eh_chain E)) as)"
    and n: "unat (gp_capsule_threshold (gc_proposal (cp_group p))) \<le> length as"
  shows "\<exists>i. finalize_capsule E limits p as =
      Inr \<lparr> ce_proposal = p, ce_approvals = sort_key (approval_key (eh_chain E)) as, ce_envelope_id = i \<rparr> \<and>
    envelope_validate E limits \<lparr> ce_proposal = p, ce_approvals = sort_key (approval_key (eh_chain E)) as, ce_envelope_id = i \<rparr> = Inr ()"
proof -
  let ?C = "eh_chain E" and ?bs = "sort_key (approval_key (eh_chain E)) as"
  have shape: "approval_validate_shape ?C a = Inr () \<and> (\<exists>i. approval_member_id ?C a = Inr i)" if "a \<in> set as" for a
    using as(1) that by (auto simp: verify_capsule_approval_eq)
  have bs: "\<forall>a \<in> set ?bs. verify_capsule_approval ?C g p a = Inr ()" using as(1) by simp
  from calculate_envelope_id_ok [OF bs] obtain i where i: "calculate_envelope_id ?C p ?bs = Inr i" by blast
  let ?e = "\<lparr> ce_proposal = p, ce_approvals = ?bs, ce_envelope_id = i \<rparr>"
  have "proposal_validate ?C (gc_proposal (cp_group p)) = Inr ()" using p by (simp add: capsule_validate_eq certificate_validate_eq)
  from approvals_within_members [OF this as] have "length as \<le> length (gp_members (gc_proposal (cp_group p)))" .
  then have valid: "envelope_validate E limits ?e = Inr ()"
    unfolding envelope_validate_eq using p n g bs i sorted_by_id(2) [of as "approval_member_id ?C"] shape as(2) by auto
  have "\<not> any_window2 (\<lambda>l r. result_ok (approval_member_id ?C l) = result_ok (approval_member_id ?C r)) ?bs"
    using sorted_by_id(1) [of as "approval_member_id ?C"] shape as(2) by blast
  moreover have "try_for_each (approval_validate_shape ?C) as = Inr ()" using shape by simp
  ultimately have "finalize_capsule E limits p as = Inr ?e"
    using p i valid by (simp add: finalize_capsule_def Let_def del: try_for_each_eq_Inr)
  with valid show ?thesis by blast
qed

section \<open>Opening\<close>

lemma holder_slot_opens:
  assumes p: "sealed_content E limits p content cek us ms" and k: "k < length us"
  shows "\<exists>slot. holder_slot (eh_chain E) p (ui_identity_id (us ! k)) = Some slot \<and> open_slot E p (us ! k) slot = Inr (ms ! k)"
proof -
  let ?C = "eh_chain E"
  from p obtain g core where g: "group_id_unchecked ?C (gc_proposal (cp_group p)) = Inr g" "core_bytes E p = Inr core"
    and slots: "list_all2 (\<lambda>slot (u, m). slot_opens E g (cp_proposal_nonce p) core (ac_release (cp_contract p)) slot u m)
         (cp_slots p) (zip us ms)" and us: "ordered_identities ?C us" "length ms = length us"
    by (auto simp: sealed_content_def)
  note listed = slots_listed_sealed [OF slots us(2,1)]
  have len: "length (cp_slots p) = length us" by (rule listed(2))
  from slots k us(2) len have opens: "slot_opens E g (cp_proposal_nonce p) core (ac_release (cp_contract p)) (cp_slots p ! k) (us ! k) (ms ! k)"
    by (auto simp: list_all2_conv_all_nth)
  have ids: "identity_id_unchecked ?C (sl_holder (cp_slots p ! j)) = Inr (ui_identity_id (us ! j))" if "j < length us" for j
    using listed(1) that len by (auto simp: slots_listed_def list_all2_conv_all_nth)
  have "sorted_wrt (<) (map unlocked_key us)" using us(1) by (simp add: ordered_identities_def)
  then have "distinct (map unlocked_key us)" by (rule sorted_wrt_less_distinct)
  then have other: "ui_identity_id (us ! j) \<noteq> ui_identity_id (us ! k)" if "j < k" for j
    using that k by (metis (no_types, lifting) distinct_conv_nth length_map less_imp_not_eq less_trans nth_map)
  have "holder_slot ?C p (ui_identity_id (us ! k)) = Some (cp_slots p ! k)"
    unfolding holder_slot_def find_Some_iff
  proof (intro exI [of _ k] conjI allI impI)
    fix j
    assume "j < k"
    with k ids [of j] other [of j] show "identity_id_unchecked ?C (sl_holder (cp_slots p ! j)) \<noteq> Inr (ui_identity_id (us ! k))"
      by simp
  qed (use k len ids in simp_all)
  moreover have "open_slot E p (us ! k) (cp_slots p ! k) = Inr (ms ! k)"
    using g opens by (simp add: open_slot_def Let_def slot_opens_def)
  ultimately show ?thesis by blast
qed

lemma sealed_payload_decrypts:
  assumes C: "host_contract (eh_chain E)" and p: "sealed_content E limits p content cek us ms"
    and e: "envelope_validate E limits e = Inr ()" "ce_proposal e = p"
  shows "\<exists>d. decrypt_payload_core E e i cek limits = Inr d \<and> dc_bytes d = content \<and> dc_recipient_id d = i \<and>
    dc_content_kind d = cc_kind (ac_content (cp_contract p)) \<and> dc_contract_id d = ac_contract_id (cp_contract p) \<and>
    dc_proposal_id d = cp_proposal_id p"
proof -
  let ?C = "eh_chain E"
  from p obtain g core where g: "group_id_unchecked ?C (gc_proposal (cp_group p)) = Inr g" "core_bytes E p = Inr core"
    and ct: "aead_encrypt ?C cek (cp_payload_nonce p) (payload_aad core) content = Some (cp_ciphertext p)"
    and rest: "length cek = 32" "cp_content_digest p = protected_content_digest ?C content" "unat (cp_content_size p) = length content"
      "validate_plaintext_content E content (cc_kind (ac_content (cp_contract p))) limits = Inr ()"
    by (auto simp: sealed_content_def)
  have "try_from_usize ChainLengthOverflow (length content) = Inr (cp_content_size p)"
    using rest(3) by (simp flip: rest(3))
  then show ?thesis
    using e g rest host_aead(2) [OF C ct]
    by (simp add: decrypt_payload_core_def Let_def CEK_BYTES_def cipher_new_def array_of_slice_def del: try_from_usize_eq_Inr)
qed

lemma direct_capsule_opens:
  assumes C: "host_contract (eh_chain E)" and p: "sealed_content E limits p content cek us (replicate (length us) cek)"
    and e: "envelope_validate E limits e = Inr ()" "ce_proposal e = p"
    and c: "ac_release (cp_contract p) = DirectRecipients" "ac_recipients (cp_contract p) = map (\<lambda>u. principal_of (ui_identity_id u)) us"
      "cc_kind (ac_content (cp_contract p)) = ExactArtifact"
    and u: "u \<in> set us"
  shows "\<exists>opened. open_capsule E e u limits = Inr opened \<and> oc_artifact_binary opened = content \<and>
    oc_recipient_id opened = ui_identity_id u \<and> oc_contract_id opened = ac_contract_id (cp_contract p)"
proof -
  let ?C = "eh_chain E"
  from u obtain k where k: "k < length us" "us ! k = u" by (auto simp: in_set_conv_nth)
  from holder_slot_opens [OF p k(1)] obtain slot where slot: "holder_slot ?C p (ui_identity_id u) = Some slot"
    "open_slot E p u slot = Inr cek" using k by auto
  from p have len: "length cek = 32" and valid: "capsule_validate E limits p = Inr ()" by (simp_all add: sealed_content_def)
  have "capabilities_contains (ac_capabilities (cp_contract p)) Decrypt"
    using valid by (auto simp: capsule_validate_eq validate_contract_bindings_eq)
  then have "recipient_cek E e u limits = Inr cek"
    using e slot len c(1) by (simp add: recipient_cek_def Let_def direct_release_def CEK_BYTES_def)
  moreover from sealed_payload_decrypts [OF C p e, of "ui_identity_id u"] obtain d where
    "decrypt_payload_core E e (ui_identity_id u) cek limits = Inr d" "dc_bytes d = content" "dc_recipient_id d = ui_identity_id u"
    "dc_contract_id d = ac_contract_id (cp_contract p)" by blast
  moreover have "principal_of (ui_identity_id u) \<in> set (ac_recipients (cp_contract p))" using c(2) u by simp
  ultimately show ?thesis
    using e c(3) by (simp add: open_capsule_def decrypt_content_def decrypt_payload_with_cek_def capsule_of_decrypted_def)
qed

section \<open>From the artifact to its recipients\<close>

lemma member_principals_ok:
  assumes "certificate_validate C grp = Inr ()"
  obtains ks where "member_principals C grp = Inr ks" "sorted_wrt (<) ks" "list_all wf_principal ks"
    "length ks = length (gp_members (gc_proposal grp))"
proof -
  from assms have "proposal_validate C (gc_proposal grp) = Inr ()" by (simp add: certificate_validate_eq)
  note f = proposal_validate_facts [OF this]
  let ?ms = "gp_members (gc_proposal grp)"
  have "\<forall>m \<in> set ?ms. \<exists>i. identity_id_unchecked C m = Inr i" using f(1) identity_validate_unchecked by blast
  then obtain i where i: "\<And>m. m \<in> set ?ms \<Longrightarrow> identity_id_unchecked C m = Inr (i m)" by metis
  have "member_principals C grp = Inr (map (\<lambda>m. principal_of (i m)) ?ms)"
    unfolding member_principals_def by (rule try_map_total) (simp add: i)
  moreover have "map (member_key C) ?ms = map identity_bytes (map i ?ms)" using i by simp
  with f(2) have "sorted_wrt (<) (map principal_of (map i ?ms))" unfolding sorted_principals by (simp only:)
  moreover have "list_all wf_principal (map (\<lambda>m. principal_of (i m)) ?ms)"
    using i identity_id_length by (auto simp: list_all_iff wf_principal_def principal_of_def)
  ultimately show thesis using that by (simp add: comp_def)
qed

lemma default_contract_ok:
  assumes C: "host_contract C" and grp: "certificate_validate C grp = Inr ()" and us: "ordered_identities C us"
    and g: "group_id_unchecked C (gc_proposal grp) = Inr g" and ks: "member_principals C grp = Inr ks"
    and nonce: "rng 0 32 = Some nonce" "length nonce = 32" and d: "length d = 32"
    and caps: "is_ok (capabilities_from_bits (capability_bits caps))" "capabilities_contains caps Decrypt"
      "case kind of ExactArtifact \<Rightarrow> list_ex (capabilities_contains caps) [Reconstruct, Diff, Apply]
        | SemanticPatch \<Rightarrow> capabilities_contains caps ApplySemanticPatch"
    and rel: "release_validate rel = Inr ()" "wf_release rel"
  shows "\<exists>c. build_contract C rng grp g ks (map (\<lambda>u. principal_of (ui_identity_id u)) us) kind d sz caps rel = Inr c \<and>
    is_ok (contract_to_bytes (host_blake3 C) c) \<and> ac_group_id c = PrincipalId (group_bytes g) \<and> ac_controllers c = ks \<and>
    ac_seal_threshold c = gp_capsule_threshold (gc_proposal grp) \<and> ac_capabilities c = caps \<and>
    ac_recipients c = map (\<lambda>u. principal_of (ui_identity_id u)) us \<and> ac_release c = rel \<and>
    ac_content c = \<lparr> cc_kind = kind, cc_digest = d, cc_size = sz \<rparr>"
proof -
  let ?us = "map (\<lambda>u. principal_of (ui_identity_id u)) us"
  define c where "c = \<lparr> ac_contract_nonce = nonce, ac_group_id = PrincipalId (group_bytes g), ac_controllers = ks,
      ac_seal_threshold = gp_capsule_threshold (gc_proposal grp), ac_recipients = ?us, ac_capabilities = caps,
      ac_content = \<lparr> cc_kind = kind, cc_digest = d, cc_size = sz \<rparr>, ac_release = rel,
      ac_contract_id = ContractId (replicate 32 0) \<rparr>"
  from grp have "proposal_validate C (gc_proposal grp) = Inr ()" by (simp add: certificate_validate_eq)
  note f = proposal_validate_facts [OF this]
  have k: "sorted_wrt (<) ks" "list_all wf_principal ks" "length ks = length (gp_members (gc_proposal grp))"
    by (rule member_principals_ok [OF grp], use ks in simp)+
  have "sorted_wrt (<) (map principal_of (map ui_identity_id us))"
    unfolding sorted_principals using us by (simp add: ordered_identities_def comp_def)
  then have sorted: "sorted_wrt (<) ?us" by (simp add: comp_def)
  have shape: "validate_shape c = Inr ()"
    unfolding validate_shape_eq_Inr using f(3-6) k sorted us caps rel(1)
    by (cases kind) (auto simp: c_def ordered_identities_def)
  have "list_all wf_principal ?us"
    using us identity_id_length by (auto simp: ordered_identities_def list_all_iff wf_principal_def principal_of_def wf_unlocked_def)
  moreover have "length (group_bytes g) = 32" using g by (auto simp: group_id_unchecked_def and_then_eq_Inr dest: decode_array_inv)
  ultimately have wf: "wf_contract c" using nonce(2) d k(2) rel(2) by (simp add: wf_contract_def c_def wf_principal_def)
  have "blake3_contract (host_blake3 C)" using C by (simp add: host_contract_def)
  from built_contract_bytes [OF this wf shape] build_contract_ok [of c, OF c_def shape, where rng = rng and C = C] nonce(1)
  show ?thesis by (auto simp: c_def)
qed

lemma default_content_ok:
  assumes E: "sealing_works E" and grp: "certificate_validate (eh_chain E) grp = Inr ()"
    and us: "list_all (wf_unlocked (eh_chain E)) us" "distinct (map ui_identity_id us)" "us \<noteq> []" "length us \<le> 64"
    and content: "validate_plaintext_content E content kind limits = Inr ()"
      "(of_nat (length content) :: u64) \<le> max_capsule_bytes (cl_artifact limits)" "length content + 16 \<le> usize_max"
    and rng: "entropy_contract rng" "\<And>i n. rng i n \<noteq> None"
    and caps: "is_ok (capabilities_from_bits (capability_bits caps))" "capabilities_contains caps Decrypt"
      "case kind of ExactArtifact \<Rightarrow> list_ex (capabilities_contains caps) [Reconstruct, Diff, Apply]
        | SemanticPatch \<Rightarrow> capabilities_contains caps ApplySemanticPatch"
  shows "\<exists>p cek vs. create_default_content_proposal E rng grp content (map ui_public_identity us) kind caps limits = Inr p \<and>
    sealed_content E limits p content cek vs (replicate (length vs) cek) \<and> set vs = set us \<and> cp_group p = grp \<and>
    ac_release (cp_contract p) = DirectRecipients \<and> cc_kind (ac_content (cp_contract p)) = kind \<and>
    ac_recipients (cp_contract p) = map (\<lambda>u. principal_of (ui_identity_id u)) vs"
proof -
  let ?C = "eh_chain E" and ?d = "protected_content_digest (eh_chain E) content" and ?rng = "\<lambda>i. rng (Suc i)"
  let ?vs = "sort_key unlocked_key us"
  from E have C: "host_contract ?C" by (simp add: sealing_works_def)
  note canon = canonical_identities_sorted [OF us]
  have wf: "list_all (wf_unlocked ?C) ?vs" using canon(1) by (simp add: ordered_identities_def)
  from rng obtain n0 cek n1 n2 where r: "rng 0 32 = Some n0" "?rng 0 32 = Some cek" "?rng 1 32 = Some n1" "?rng 2 24 = Some n2"
    by (metis option.exhaust)
  with rng(1) have l: "length n0 = 32" "length cek = 32" by (auto simp: entropy_contract_def)
  from grp obtain g where g: "group_id_unchecked ?C (gc_proposal grp) = Inr g" by (auto simp: certificate_validate_eq)
  obtain ks where ks: "member_principals ?C grp = Inr ks" by (rule member_principals_ok [OF grp])
  have "length ?d = 32" using C by (simp add: protected_content_digest_def)
  from default_contract_ok [where rng = rng and rel = DirectRecipients and sz = "of_nat (length content)",
      OF C grp canon(1) g ks r(1) l(1) this caps]
  obtain c where c: "build_contract ?C rng grp g ks (map (\<lambda>u. principal_of (ui_identity_id u)) ?vs) kind ?d
      (of_nat (length content)) caps DirectRecipients = Inr c" "is_ok (contract_to_bytes (host_blake3 ?C) c)"
    "ac_group_id c = PrincipalId (group_bytes g)" "ac_controllers c = ks" "ac_seal_threshold c = gp_capsule_threshold (gc_proposal grp)"
    "ac_capabilities c = caps" "ac_recipients c = map (\<lambda>u. principal_of (ui_identity_id u)) ?vs" "ac_release c = DirectRecipients"
    "ac_content c = \<lparr> cc_kind = kind, cc_digest = ?d, cc_size = of_nat (length content) \<rparr>"
    by (auto simp: release_validate_def wf_release_def)
  have bind: "validate_contract_bindings ?C grp c ?d (of_nat (length content)) (map ui_identity_id ?vs) None = Inr ()"
    unfolding validate_contract_bindings_eq using c g ks caps(2) by (auto simp: is_ok_iff comp_def)
  have "\<exists>p. create_proposal_with_holders E ?rng grp content (map ui_public_identity ?vs) c WrapPlain limits = Inr p \<and>
      sealed_content E limits p content cek ?vs (replicate (length ?vs) cek) \<and> cp_group p = grp \<and> cp_contract p = c"
    by (rule create_with_holders_ok [OF E grp canon(1) _ content(2,3) bind _ r(2) l(2) r(3,4)])
      (use c content(1) l(2) in \<open>simp_all add: key_material_for_holders_def wrapped_key_bytes_def envelope_constants\<close>)
  then obtain p where p: "create_proposal_with_holders E ?rng grp content (map ui_public_identity ?vs) c WrapPlain limits = Inr p"
      "sealed_content E limits p content cek ?vs (replicate (length ?vs) cek)" "cp_group p = grp" "cp_contract p = c" by blast
  have "create_default_content_proposal E rng grp content (map ui_public_identity us) kind caps limits = Inr p"
    using grp content(1) canon(2) plaintext_length(3) [OF content(1)] g ks ordered_identities_keys(3) [OF wf] c(1,8) p(1)
    by (simp add: create_default_content_proposal_def create_content_proposal_with_contract_def Let_def del: try_from_usize_eq_Inr)
  moreover have "set ?vs = set us" by simp
  ultimately show ?thesis using p c by fastforce
qed

lemma approvals_any_order:
  assumes C: "host_contract (eh_chain E)" and p: "capsule_validate E limits p = Inr ()"
    and us: "list_all (wf_unlocked (eh_chain E)) us" "distinct (map ui_identity_id us)"
      "set (map ui_public_identity us) \<subseteq> set (gp_members (gc_proposal (cp_group p)))"
      "unat (gp_capsule_threshold (gc_proposal (cp_group p))) \<le> length us"
  shows "\<exists>as e. try_map (approve_capsule E limits p) us = Inr as \<and> ce_proposal e = p \<and> envelope_validate E limits e = Inr () \<and>
    (\<forall>bs. mset bs = mset as \<longrightarrow> finalize_capsule E limits p bs = Inr e)"
proof -
  let ?C = "eh_chain E"
  from p obtain g where g: "group_id_unchecked ?C (gc_proposal (cp_group p)) = Inr g"
    by (auto simp: capsule_validate_eq certificate_validate_eq)
  have "\<exists>a. approve_capsule E limits p u = Inr a \<and> verify_capsule_approval ?C g p a = Inr () \<and> approval_key ?C a = unlocked_key u"
    if "u \<in> set us" for u using that us(1,3) by (intro approve_capsule_verifies [OF C p _ _ g]) (auto simp: list_all_iff)
  then obtain app where app: "\<And>u. u \<in> set us \<Longrightarrow> approve_capsule E limits p u = Inr (app u)"
    "\<And>u. u \<in> set us \<Longrightarrow> verify_capsule_approval ?C g p (app u) = Inr ()"
    "\<And>u. u \<in> set us \<Longrightarrow> approval_key ?C (app u) = unlocked_key u" by metis
  let ?as = "map app us"
  have as: "try_map (approve_capsule E limits p) us = Inr ?as" using app(1) by (rule try_map_total)
  have "map (approval_key ?C) ?as = map unlocked_key us" using app(3) by simp
  then have d: "distinct (map (approval_key ?C) ?as)"
    using unlocked_keys_distinct [OF us(1,2)] unfolding ordered_identities_keys(1) [OF us(1)] by (simp only:)
  have ver: "\<forall>a \<in> set ?as. verify_capsule_approval ?C g p a = Inr ()" using app(2) by simp
  have n: "unat (gp_capsule_threshold (gc_proposal (cp_group p))) \<le> length ?as" using us(4) by simp
  from finalize_capsule_ok [OF p g ver d n] obtain i where
    i: "finalize_capsule E limits p ?as = Inr \<lparr> ce_proposal = p, ce_approvals = sort_key (approval_key ?C) ?as, ce_envelope_id = i \<rparr>"
      "envelope_validate E limits \<lparr> ce_proposal = p, ce_approvals = sort_key (approval_key ?C) ?as, ce_envelope_id = i \<rparr> = Inr ()"
    by blast
  have "finalize_capsule E limits p bs = finalize_capsule E limits p ?as" if bs: "mset bs = mset ?as" for bs
  proof -
    have "distinct (map (approval_key ?C) bs)" using d distinct_map_mset [OF bs, of "approval_key ?C"] by blast
    moreover have sets: "set bs = set ?as" by (rule mset_eq_setD [OF bs])
    moreover have "length bs = length ?as" by (rule mset_eq_length [OF bs])
    moreover have "try_for_each (approval_validate_shape ?C) bs = Inr ()" "try_for_each (approval_validate_shape ?C) ?as = Inr ()"
      using ver sets by (auto simp: verify_capsule_approval_eq)
    ultimately show ?thesis
      unfolding finalize_capsule_def using sort_by_distinct_key [OF bs, of "approval_key ?C"]
      by (simp add: Let_def del: try_for_each_eq_Inr)
  qed
  with i as show ?thesis by (metis capsule_envelope.select_convs(1))
qed

lemma valid_artifact_content:
  assumes "is_ok (decode_artifact (host_blake3 (eh_chain E)) (eh_zstd E) content (cl_artifact limits))"
  shows "validate_plaintext_content E content ExactArtifact limits = Inr ()"
    "(of_nat (length content) :: u64) \<le> max_capsule_bytes (cl_artifact limits)"
proof -
  from assms obtain a where a: "decode_artifact (host_blake3 (eh_chain E)) (eh_zstd E) content (cl_artifact limits) = Inr a"
    by (auto simp: is_ok_iff)
  then obtain n :: u64 where n: "length content = unat n" "n \<le> max_capsule_bytes (cl_artifact limits)"
    by (auto simp: decode_artifact_def art_usize_to_u64_def enforce_binary_size_def and_then_eq_Inr not_less split: if_splits)
  then show "(of_nat (length content) :: u64) \<le> max_capsule_bytes (cl_artifact limits)" by simp
  have "enforce_length (length content) (max_capsule_bytes (cl_artifact limits)) = Inr ()"
    using n by (auto simp: enforce_length_def and_then_eq_Inr not_less)
  with a show "validate_plaintext_content E content ExactArtifact limits = Inr ()" by (simp add: validate_plaintext_content_def)
qed

lemma exact_capabilities:
  "is_ok (capabilities_from_bits (capability_bits CAP_APPLY_EXACT))" "capabilities_contains CAP_APPLY_EXACT Decrypt"
  "list_ex (capabilities_contains CAP_APPLY_EXACT) [Reconstruct, Diff, Apply]"
  by code_simp+

lemma capsule_delivery:
  assumes "sealing_works E" and "certificate_validate (eh_chain E) grp = Inr ()"
    and "is_ok (decode_artifact (host_blake3 (eh_chain E)) (eh_zstd E) artifact_binary (cl_artifact limits))"
    and "length artifact_binary + 16 \<le> usize_max"
    and "list_all (wf_unlocked (eh_chain E)) recipients" "distinct (map ui_identity_id recipients)"
      "recipients \<noteq> []" "length recipients \<le> 64"
    and "list_all (wf_unlocked (eh_chain E)) signers" "distinct (map ui_identity_id signers)"
      "set (map ui_public_identity signers) \<subseteq> set (gp_members (gc_proposal grp))"
      "unat (gp_capsule_threshold (gc_proposal grp)) \<le> length signers"
    and "entropy_contract rng" "\<And>i n. rng i n \<noteq> None"
  shows "\<exists>p as e. create_capsule_proposal E rng grp artifact_binary (map ui_public_identity recipients) limits = Inr p \<and>
    try_map (approve_capsule E limits p) signers = Inr as \<and>
    (\<forall>bs. mset bs = mset as \<longrightarrow> finalize_capsule E limits p bs = Inr e) \<and>
    list_all (\<lambda>u. \<exists>opened. open_capsule E e u limits = Inr opened \<and> oc_artifact_binary opened = artifact_binary \<and>
      oc_recipient_id opened = ui_identity_id u \<and> oc_contract_id opened = ac_contract_id (cp_contract p)) recipients"
proof -
  from assms(1) have C: "host_contract (eh_chain E)" by (simp add: sealing_works_def)
  note content = valid_artifact_content [OF assms(3)]
  from default_content_ok [of E grp recipients artifact_binary ExactArtifact limits rng CAP_APPLY_EXACT, OF assms(1,2,5-8) content assms(4,13,14)
      exact_capabilities(1,2)] exact_capabilities(3)
  obtain p cek vs where p: "create_capsule_proposal E rng grp artifact_binary (map ui_public_identity recipients) limits = Inr p"
      "sealed_content E limits p artifact_binary cek vs (replicate (length vs) cek)" "set vs = set recipients" "cp_group p = grp"
      "ac_release (cp_contract p) = DirectRecipients" "cc_kind (ac_content (cp_contract p)) = ExactArtifact"
      "ac_recipients (cp_contract p) = map (\<lambda>u. principal_of (ui_identity_id u)) vs"
    unfolding create_capsule_proposal_def by auto
  have "capsule_validate E limits p = Inr ()" using p(2) by (simp add: sealed_content_def)
  from approvals_any_order [OF C this assms(9,10)] assms(11,12) p(4) obtain as e where
    e: "try_map (approve_capsule E limits p) signers = Inr as" "ce_proposal e = p" "envelope_validate E limits e = Inr ()"
      "\<forall>bs. mset bs = mset as \<longrightarrow> finalize_capsule E limits p bs = Inr e" by auto
  have "list_all (\<lambda>u. \<exists>opened. open_capsule E e u limits = Inr opened \<and> oc_artifact_binary opened = artifact_binary \<and>
      oc_recipient_id opened = ui_identity_id u \<and> oc_contract_id opened = ac_contract_id (cp_contract p)) recipients"
    unfolding list_all_iff p(3) [symmetric] using direct_capsule_opens [OF C p(2) e(3,2) p(5,7,6)] by blast
  with p(1) e(1,4) show ?thesis by blast
qed

text \<open>
  C20. What is approved reaches everyone it was sealed for. When a group seals a valid artifact for any list of up to 64
  different recipients, the proposal is created; every member who is asked approves it; as soon as the approvals reach the
  threshold of the group, finalizing them in any order gives one and the same envelope; and each recipient, and
  not only one of them, opens it and obtains exactly the bytes of the artifact.
\<close>

theorem approved_capsule_opens:
  assumes "sealing_works E" and "certificate_validate (eh_chain E) grp = Inr ()"
    and "is_ok (decode_artifact (host_blake3 (eh_chain E)) (eh_zstd E) artifact_binary (cl_artifact limits))"
    and "length artifact_binary + 16 \<le> usize_max"
    and "list_all (wf_unlocked (eh_chain E)) recipients" "distinct (map ui_identity_id recipients)"
      "recipients \<noteq> []" "length recipients \<le> 64"
    and "list_all (wf_unlocked (eh_chain E)) signers" "distinct (map ui_identity_id signers)"
      "set (map ui_public_identity signers) \<subseteq> set (gp_members (gc_proposal grp))"
      "unat (gp_capsule_threshold (gc_proposal grp)) \<le> length signers"
    and "entropy_contract rng" "\<And>i n. rng i n \<noteq> None"
  shows "\<exists>p as e. create_capsule_proposal E rng grp artifact_binary (map ui_public_identity recipients) limits = Inr p \<and>
    try_map (approve_capsule E limits p) signers = Inr as \<and>
    (\<forall>bs. mset bs = mset as \<longrightarrow> finalize_capsule E limits p bs = Inr e) \<and>
    list_all (\<lambda>u. \<exists>opened. open_capsule E e u limits = Inr opened \<and> oc_artifact_binary opened = artifact_binary \<and>
      oc_recipient_id opened = ui_identity_id u \<and> oc_contract_id opened = ac_contract_id (cp_contract p)) recipients"
  by (rule capsule_delivery [OF assms])

section \<open>Witnesses\<close>

definition sample_envelope_host :: "(nat, nat, unit, bytes) envelope_host" where
  "sample_envelope_host =
     \<lparr> eh_chain = sample_chain_host, eh_zstd = stored_zstd, eh_serde = sample_serde,
       eh_identity_json = \<lparr> json_from_slice = (\<lambda>_. None), json_to_vec_pretty = (\<lambda>d. Some (idp_identity_id d)) \<rparr>,
       eh_certificate_json = \<lparr> json_from_slice = (\<lambda>_. None), json_to_vec_pretty = (\<lambda>c. Some (gp_group_id (gc_proposal c))) \<rparr> \<rparr>"

abbreviation sample_binary :: bytes where
  "sample_binary \<equiv> envelope_of sample_hash sample_artifact Balanced sample_payload"

lemma sample_sealing_works: "sealing_works sample_envelope_host"
  using sample_host_contract by (simp add: sealing_works_def sample_envelope_host_def) (simp add: sample_chain_host_def)

lemma sample_group:
  "\<exists>grp. certificate_validate sample_chain_host grp = Inr () \<and>
     set (map ui_public_identity sample_members) = set (gp_members (gc_proposal grp)) \<and>
     gp_capsule_threshold (gc_proposal grp) = 2"
proof -
  note m = sample_members_ok
  have valid: "\<forall>m \<in> set (map ui_public_identity sample_members). identity_validate sample_chain_host m = Inr ()"
    using m(1) by (auto simp: list_all_iff wf_unlocked_def)
  have len: "length (map ui_public_identity sample_members) \<le> 64" "unat (2 :: u16) \<le> length (map ui_public_identity sample_members)"
    using m(3) by simp_all
  obtain p where p: "proposal_validate sample_chain_host p = Inr ()"
      "mset (gp_members p) = mset (map ui_public_identity sample_members)" "gp_capsule_threshold p = 2"
    by (rule proposal_with_nonce_ok [OF sample_host_contract m(4) length_replicate valid unlocked_keys_distinct [OF m(1,2)]
          len(1) m(5) len(2)])
  from formation_any_order [OF sample_host_contract p(1) m(1) p(2) [symmetric]] p(3) mset_eq_setD [OF p(2)]
  show ?thesis by metis
qed

lemma sample_binary_ok:
  "is_ok (decode_artifact (host_blake3 (eh_chain sample_envelope_host)) (eh_zstd sample_envelope_host) sample_binary
     (cl_artifact chain_limits_STANDARD))"
  using sample_envelope by (auto simp: sample_envelope_host_def sample_chain_host_def chain_limits_STANDARD_def)

lemma sample_binary_length: "length sample_binary + 16 \<le> usize_max"
proof -
  have "(of_nat (length sample_binary) :: u64) \<le> max_capsule_bytes (cl_artifact chain_limits_STANDARD)"
    by (rule valid_artifact_content(2) [OF sample_binary_ok])
  moreover have "unat (of_nat (length sample_binary) :: u64) = length sample_binary"
    using plaintext_length(4) [OF valid_artifact_content(1) [OF sample_binary_ok]] .
  ultimately have "length sample_binary \<le> unat (max_capsule_bytes (cl_artifact chain_limits_STANDARD))"
    by (simp add: word_le_nat_alt)
  then show ?thesis by (simp add: chain_limits_STANDARD_def limits_SIMPLE_ARTIFACT_def limits_V1_def usize_max_def)
qed

theorem approved_capsule_opens_witness:
  "\<exists>grp p as e opened. certificate_validate sample_chain_host grp = Inr () \<and>
     create_capsule_proposal sample_envelope_host (sample_rng 40) grp sample_binary [ui_public_identity (sample_identity 9)]
       chain_limits_STANDARD = Inr p \<and>
     try_map (approve_capsule sample_envelope_host chain_limits_STANDARD p) sample_members = Inr as \<and>
     finalize_capsule sample_envelope_host chain_limits_STANDARD p (rev as) = Inr e \<and>
     open_capsule sample_envelope_host e (sample_identity 9) chain_limits_STANDARD = Inr opened \<and>
     oc_artifact_binary opened = sample_binary"
proof -
  note m = sample_members_ok
  from sample_group obtain grp where grp: "certificate_validate sample_chain_host grp = Inr ()"
    "set (map ui_public_identity sample_members) = set (gp_members (gc_proposal grp))" "gp_capsule_threshold (gc_proposal grp) = 2"
    by blast
  have E: "eh_chain sample_envelope_host = sample_chain_host" by (simp add: sample_envelope_host_def)
  have "\<exists>p as e. create_capsule_proposal sample_envelope_host (sample_rng 40) grp sample_binary
      (map ui_public_identity [sample_identity 9]) chain_limits_STANDARD = Inr p \<and>
    try_map (approve_capsule sample_envelope_host chain_limits_STANDARD p) sample_members = Inr as \<and>
    (\<forall>bs. mset bs = mset as \<longrightarrow> finalize_capsule sample_envelope_host chain_limits_STANDARD p bs = Inr e) \<and>
    list_all (\<lambda>u. \<exists>opened. open_capsule sample_envelope_host e u chain_limits_STANDARD = Inr opened \<and>
      oc_artifact_binary opened = sample_binary \<and> oc_recipient_id opened = ui_identity_id u \<and>
      oc_contract_id opened = ac_contract_id (cp_contract p)) [sample_identity 9]"
    by (rule approved_capsule_opens [OF sample_sealing_works _ sample_binary_ok sample_binary_length])
      (use E grp m sample_identity_wf in \<open>simp_all add: sample_rng_def\<close>)
  then obtain p as e where "create_capsule_proposal sample_envelope_host (sample_rng 40) grp sample_binary
      [ui_public_identity (sample_identity 9)] chain_limits_STANDARD = Inr p"
    "try_map (approve_capsule sample_envelope_host chain_limits_STANDARD p) sample_members = Inr as"
    "\<forall>bs. mset bs = mset as \<longrightarrow> finalize_capsule sample_envelope_host chain_limits_STANDARD p bs = Inr e"
    "\<exists>opened. open_capsule sample_envelope_host e (sample_identity 9) chain_limits_STANDARD = Inr opened \<and>
      oc_artifact_binary opened = sample_binary" by auto
  moreover from this(3) have "finalize_capsule sample_envelope_host chain_limits_STANDARD p (rev as) = Inr e" by simp
  ultimately show ?thesis using grp(1) by blast
qed

lemma sample_opened: "\<exists>e opened. open_capsule sample_envelope_host e (sample_identity 9) chain_limits_STANDARD = Inr opened"
proof -
  from sample_group obtain grp where grp: "certificate_validate sample_chain_host grp = Inr ()"
    "set (map ui_public_identity sample_members) = set (gp_members (gc_proposal grp))" "gp_capsule_threshold (gc_proposal grp) = 2"
    by blast
  have E: "eh_chain sample_envelope_host = sample_chain_host" by (simp add: sample_envelope_host_def)
  have "\<exists>p as e. create_capsule_proposal sample_envelope_host (sample_rng 40) grp sample_binary
      (map ui_public_identity [sample_identity 9]) chain_limits_STANDARD = Inr p \<and>
    try_map (approve_capsule sample_envelope_host chain_limits_STANDARD p) sample_members = Inr as \<and>
    (\<forall>bs. mset bs = mset as \<longrightarrow> finalize_capsule sample_envelope_host chain_limits_STANDARD p bs = Inr e) \<and>
    list_all (\<lambda>u. \<exists>opened. open_capsule sample_envelope_host e u chain_limits_STANDARD = Inr opened \<and>
      oc_artifact_binary opened = sample_binary \<and> oc_recipient_id opened = ui_identity_id u \<and>
      oc_contract_id opened = ac_contract_id (cp_contract p)) [sample_identity 9]"
    by (rule capsule_delivery [OF sample_sealing_works _ sample_binary_ok sample_binary_length])
      (use E grp sample_members_ok sample_identity_wf in \<open>simp_all add: sample_rng_def\<close>)
  then show ?thesis by auto
qed

theorem opened_capsule_authorized_witness:
  "\<exists>e opened. open_capsule sample_envelope_host e (sample_identity 9) chain_limits_STANDARD = Inr opened \<and>
     certificate_validate sample_chain_host (cp_group (ce_proposal e)) = Inr () \<and>
     unat (ac_seal_threshold (cp_contract (ce_proposal e))) \<le> length (ce_approvals e) \<and>
     principal_of (ui_identity_id (sample_identity 9)) \<in> set (ac_recipients (cp_contract (ce_proposal e)))"
proof -
  from sample_opened obtain e opened where
    o: "open_capsule sample_envelope_host e (sample_identity 9) chain_limits_STANDARD = Inr opened" by blast
  moreover have "eh_chain sample_envelope_host = sample_chain_host" by (simp add: sample_envelope_host_def)
  ultimately show ?thesis using opened_capsule_authorized [OF o] by metis
qed

end
