(* ===== verification/Spec2Isabelle.thy ===== *)
theory Spec2Isabelle
  imports Rap_Verify Secret_Sharing Access_Contract_Correct Release_Ledger_Correct
  Artifact_Apply Semantic_Patch_Correct Chain_Backup Chain_Capsule_Delivery
begin

text \<open>
  Rebyte packs files into signed capsules that can be handed over as bytes or as text tokens, checks
  them before anything is written, and releases encrypted content under access contracts with
  threshold witnesses. This development follows the Rust crates under \<open>src/crates\<close>.

  \<^bold>\<open>Conventions.\<close> A Rust function is a definition of the same name, with a prefix where names
  clash between crates. \<open>Result\<close> is a sum with the error on the left, the \<open>?\<close> operator is \<open>and_then\<close>, loops
  with early return are \<open>try_fold\<close>, \<open>try_map\<close> and \<open>try_for_each\<close>, a \<open>&mut\<close> receiver is returned with the
  result. \<open>u8\<close> to \<open>u64\<close> are words; \<open>usize\<close> is a natural number whose 64-bit bound is written out at each
  checked operation. Byte arrays are lists, their fixed lengths are the well-formedness predicates
  named \<open>wf_\<close>. Third-party code is an argument: BLAKE3 in derive-key mode (\<open>blake3\<close>), Ed25519
  verification and signing, the Base64URL engine, the Zstandard engine, the entropy source, the
  outcome of each file operation. What is assumed of them are the predicates \<open>blake3_contract\<close>,
  \<open>signer_contract\<close>, \<open>base64_contract\<close> and \<open>zstd_contract\<close>; each has a computable instance that
  the witnesses use.

  \<^bold>\<open>Foundations.\<close> \<open>Rust_Prelude\<close> holds results, checked arithmetic, slices and neighbour tests. \<open>Wire_Bytes\<close> holds
  big-endian integers, UTF-8 and the interface \<open>byte_reader\<close> of a bounded cursor: \<open>reads\<close> says that a reader and
  an encoder are inverse, and the rules \<open>parses_rules\<close> compute what a reader accepts from its text.
  The RAP cursor, the contract reader, the artifact cursor and the Chain reader are interpretations.

  \<^bold>\<open>Capsules.\<close> \<open>Rap_Format\<close> (crate \<open>rebyte-format\<close>) has limits, enums, bounded strings, the header and
  portable paths; a validated path stays below its root. \<open>Rap_Codec\<close> and \<open>Rap_Codec_Correct\<close>
  (\<open>rebyte-codec\<close>: \<open>encode.rs\<close>, \<open>decode.rs\<close>, \<open>token.rs\<close>) show that encoding and decoding are inverse on
  canonical capsules, that every other length is an error, and which layout a decoded capsule has.
  \<open>Rap_Token\<close> instantiates the Base64URL contract and carries capsules through tokens.
  \<open>Rap_Crypto\<close> (\<open>rebyte-integrity\<close>, \<open>rebyte-signature\<close>) has domain-separated hashing and publisher trust.
  \<open>Rap_Compression\<close> (\<open>rebyte-compression\<close>) has the bounded writers and readers over an abstract engine: round
  trips, and that no input makes the loops collect more than the declared size. The loops are recursive with
  a measure, or run on fuel that is proved to be enough. \<open>Rap_Pack\<close> (\<open>rebyte-pack\<close>) and
  \<open>Rap_Verify\<close> (\<open>rebyte-verify\<close>) compose everything: what is packed and signed is verified to the same
  files, and whatever is verified carries a valid signature over all of its bytes.

  \<^bold>\<open>Contracts and releases.\<close> \<open>Access_Contract\<close> and \<open>Access_Contract_Correct\<close> (\<open>rebyte-contract\<close>) model the
  contract with its five release policies, validation, encoding and token; writing and reading are
  inverse, accepted contracts are valid, built contracts always fit their size limits. \<open>GF256\<close>,
  \<open>Interpolation\<close> and \<open>Secret_Sharing\<close> (\<open>rebyte-chain/src/secret_sharing.rs\<close>) show that the branch-free byte
  arithmetic is a field, that any threshold many shares recover the secret, and that fewer exclude
  no secret. \<open>Chain_Base\<close> has the error type of \<open>rebyte-chain\<close>.
  \<open>Release_Ledger\<close> and \<open>Release_Ledger_Correct\<close> (\<open>rebyte-chain/src/release.rs\<close> and
  \<open>rebyte-cli/src/release_ledger.rs\<close>) model the ledgers that count releases. The interface is the locale
  \<open>durable_ledger\<close>, strengthened to \<open>release_ledger\<close>; the in-memory ledger and the open file ledger are
  interpretations of the stronger one, the file across process runs, failing writes and crashes is an
  interpretation of the weaker one. From it follow the release bound, the identity of ordinals, progress after a
  torn append and the refinement of the in-memory ledger by the file.

  \<^bold>\<open>Transactions.\<close> \<open>Stateful_Io\<close> has statements that read and change a state and may fail, and their weakest
  preconditions. \<open>Apply_Model\<close> is the transaction engine of \<open>rebyte-apply/src/lib.rs\<close>, every function of it, over a
  record of the calls of cap-std, serde_json and uuid. \<open>Apply_Files\<close> states what is expected of these calls as the locale
  \<open>cap_fs\<close> (each may fail at any time, a failed write may leave part of its data, a rename happens or does not) and
  derives what each routine does to the tree of files. \<open>Apply_Correct\<close> carries the invariant of a transaction, a prefix
  of new targets before original ones, through commit, rollback and reconciliation;
  \<open>Apply_Transactions\<close> lifts it to apply, resume and rollback; \<open>Apply_Recovery\<close> shows when recovery cannot succeed and
  when apply refuses to start. \<open>Apply_Disk\<close> interprets \<open>cap_fs\<close> on a computable disk that crashes after a given
  number of calls, on which the witnesses of \<open>Apply_Properties\<close> run. A crash here is that of the process: what a call has
  done stays done. A directory handle is the path at which it was opened, and no other process
  changes the tree during a run.

  \<^bold>\<open>Artifacts.\<close> \<open>Artifact_Token\<close> is the in-memory codec of \<open>rebyte-artifact-token\<close> (\<open>model.rs\<close>, \<open>error.rs\<close>,
  \<open>codec.rs\<close>): canonical order, manifest and header, the two digests, adaptive compression with a trained dictionary,
  envelopes and \<open>ra1_\<close> tokens. \<open>Artifact_Token_Correct\<close> interprets \<open>byte_reader\<close> on its cursor and shows what is accepted:
  building and decoding are inverse, and an accepted envelope is determined by what is decoded but for
  the compressed form of its payload. \<open>Artifact_Apply\<close> models how \<open>chain apply\<close> (\<open>rebyte-cli/src/chain_command.rs\<close>) turns a
  decrypted artifact into a list of files and directories, and composes the decoder with the transaction engine.

  \<^bold>\<open>Semantic patches.\<close> \<open>Semantic_Patch\<close> is \<open>rebyte-semantic/src/lib.rs\<close>: JSON values with ordered objects, the strict
  visitor that refuses repeated keys, pointers with their escapes and bounds, the three operations, patch documents
  and the TOML path over the calls of toml_edit. \<open>Semantic_Patch_Correct\<close> shows what a set does to every pointer and that
  operations keep objects ordered without repeated keys. A mutable reference into a document is a function that
  puts a changed child back.

  \<^bold>\<open>Chain documents.\<close> \<open>Chain_Identity\<close> (\<open>rebyte-chain/src/codec.rs\<close>, \<open>identity.rs\<close>, \<open>status.rs\<close>), \<open>Chain_Group\<close> (\<open>group.rs\<close>,
  \<open>ceremony.rs\<close>), \<open>Chain_Backup\<close> (\<open>backup.rs\<close>), \<open>Chain_Envelope\<close> and \<open>Chain_Capsule\<close> (\<open>envelope.rs\<close>) model the documents by
  which people form groups and release encrypted content. Ed25519, HPKE, Argon2id, XChaCha20-Poly1305, BLAKE3 and
  Base64URL are the record \<open>chain_host\<close> with the contract \<open>host_contract\<close>; entropy is a function of the number of the draw and its
  length; each document type has a codec that stands for serde_json. That a document has at most one accepted text is the locale
  \<open>canonical_document\<close>. \<open>Chain_Identity_Correct\<close> shows that a created identity unlocks and survives rekeying, \<open>Chain_Backup\<close>
  that any threshold many shares restore it, \<open>Chain_Group_Correct\<close> that a certificate is unanimous, that members can
  always form it in any order and that progress reports are exact. \<open>Chain_Capsule_Correct\<close> shows what must have been signed
  and bound whenever a capsule opens, and \<open>Chain_Capsule_Delivery\<close> that an approved capsule does open for every recipient. No
  theorem says what an attacker cannot compute: the statements are about what is checked and what the libraries
  return on honest inputs.

  \<^bold>\<open>Not modelled.\<close> Of \<open>rebyte-chain\<close>: the binary form and token of an envelope, key-sequence capsules, computational challenges,
  and the request and grant documents of a quorum release. The streaming
  codec of \<open>rebyte-artifact-token/src/codec/stream.rs\<close>, diffs, key
  files, and in \<open>rebyte-compression\<close> the streaming decompression. The rest of the
  command line, the browser binding and the facade crate are input, output and
  argument handling around these crates. \<open>Display\<close>, serde glue, zeroization of memory and accessors are left out: a field is its
  accessor.
\<close>

end
